(* ===== verification/Prelude.thy ===== *)
theory Prelude
  imports Complex_Main "HOL-Library.AList"
begin

text \<open>
  Shared ground of the development: the state-and-exception monad in which every service
  operation is written, the insertion-ordered JavaScript \<open>Map\<close>, the string functions the
  source calls, and decimal/radix printing. Collections: \<open>svc\<close> unfolds monadic operations,
  \<open>store\<close> holds the laws of the in-memory repositories.
\<close>

named_theorems svc \<open>unfolding rules for service operations\<close>
named_theorems store \<open>laws of the keyed stores\<close>

section \<open>State and exceptions\<close>

text \<open>
  An operation takes the state and returns either the exception that leaves it (\<open>Inl\<close>) or
  its value (\<open>Inr\<close>), with the state at that point: what was written before a \<open>throw\<close>
  stays written, as in the source.
\<close>

type_synonym ('s, 'e, 'a) svc = "'s \<Rightarrow> ('e + 'a) \<times> 's"

definition sret :: "'a \<Rightarrow> ('s, 'e, 'a) svc" where
  "sret x = (\<lambda>s. (Inr x, s))"

definition sthrow :: "'e \<Rightarrow> ('s, 'e, 'a) svc" where
  "sthrow e = (\<lambda>s. (Inl e, s))"

definition sbind :: "('s, 'e, 'a) svc \<Rightarrow> ('a \<Rightarrow> ('s, 'e, 'b) svc) \<Rightarrow> ('s, 'e, 'b) svc" where
  "sbind m f = (\<lambda>s. case m s of (Inl e, s') \<Rightarrow> (Inl e, s') | (Inr x, s') \<Rightarrow> f x s')"

definition sget :: "('s \<Rightarrow> 'a) \<Rightarrow> ('s, 'e, 'a) svc" where
  "sget f = (\<lambda>s. (Inr (f s), s))"

definition smodify :: "('s \<Rightarrow> 's) \<Rightarrow> ('s, 'e, unit) svc" where
  "smodify f = (\<lambda>s. (Inr (), f s))"

definition slift :: "'e + 'a \<Rightarrow> ('s, 'e, 'a) svc" where
  "slift r = (\<lambda>s. (r, s))"

text \<open>\<open>if (bad) throw e\<close>, and reading a nullable value with a \<open>throw\<close> on null.\<close>

definition sreject :: "bool \<Rightarrow> 'e \<Rightarrow> ('s, 'e, unit) svc" where
  "sreject bad e = (if bad then sthrow e else sret ())"

definition srequire :: "'e \<Rightarrow> 'a option \<Rightarrow> ('s, 'e, 'a) svc" where
  "srequire e v = (case v of None \<Rightarrow> sthrow e | Some x \<Rightarrow> sret x)"

text \<open>A \<open>for ... of\<close> loop whose body may throw.\<close>

fun sfor :: "'x list \<Rightarrow> ('x \<Rightarrow> ('s, 'e, unit) svc) \<Rightarrow> ('s, 'e, unit) svc" where
  "sfor [] body = sret ()"
| "sfor (x # xs) body = sbind (body x) (\<lambda>_. sfor xs body)"

lemma sret_apply [simp, svc]: "sret x s = (Inr x, s)"
  by (simp add: sret_def)

lemma sthrow_apply [simp, svc]: "sthrow e s = (Inl e, s)"
  by (simp add: sthrow_def)

lemma sget_apply [simp, svc]: "sget f s = (Inr (f s), s)"
  by (simp add: sget_def)

lemma smodify_apply [simp, svc]: "smodify f s = (Inr (), f s)"
  by (simp add: smodify_def)

lemma slift_apply [simp, svc]: "slift r s = (r, s)"
  by (simp add: slift_def)

lemma sreject_apply [simp, svc]:
  "sreject bad e s = (if bad then Inl e else Inr (), s)"
  by (simp add: sreject_def)

lemma srequire_apply [simp, svc]:
  "srequire e v s = (case v of None \<Rightarrow> Inl e | Some x \<Rightarrow> Inr x, s)"
  by (simp add: srequire_def split: option.split)

lemma sbind_Inr_step [simp]: "m s = (Inr x, s') \<Longrightarrow> sbind m f s = f x s'"
  by (simp add: sbind_def)

lemma sbind_Inl_step [simp]: "m s = (Inl e, s') \<Longrightarrow> sbind m f s = (Inl e, s')"
  by (simp add: sbind_def)

lemma sbind_sreject [simp, svc]:
  "sbind (sreject bad e) f s = (if bad then (Inl e, s) else f () s)"
  by (simp add: sbind_def)

lemma sbind_srequire [simp, svc]:
  "sbind (srequire e v) f s = (case v of None \<Rightarrow> (Inl e, s) | Some x \<Rightarrow> f x s)"
  by (simp add: sbind_def split: option.split)

lemma sbind_slift [simp, svc]:
  "sbind (slift r) f s = (case r of Inl e \<Rightarrow> (Inl e, s) | Inr x \<Rightarrow> f x s)"
  by (simp add: sbind_def)

lemma sbind_sget [simp, svc]: "sbind (sget g) f s = f (g s) s"
  by (simp add: sbind_def)

lemma sbind_smodify [simp, svc]: "sbind (smodify g) f s = f () (g s)"
  by (simp add: sbind_def)

lemma sbind_sret [simp, svc]: "sbind (sret x) f s = f x s"
  by (simp add: sbind_def)

lemma sbind_sthrow [simp, svc]: "sbind (sthrow e) f s = (Inl e, s)"
  by (simp add: sbind_def)

lemma sbind_assoc [simp, svc]: "sbind (sbind m f) g = sbind m (\<lambda>x. sbind (f x) g)"
  by (rule ext) (simp add: sbind_def split: prod.split sum.split)

lemma sbind_InrE:
  assumes "sbind m f s = (Inr y, t)"
  obtains x s' where "m s = (Inr x, s')" and "f x s' = (Inr y, t)"
  using assms by (auto simp: sbind_def split: prod.splits sum.splits)

lemma sbind_InlE:
  assumes "sbind m f s = (Inl e, t)"
  obtains (first) "m s = (Inl e, t)"
    | (rest) x s' where "m s = (Inr x, s')" and "f x s' = (Inl e, t)"
  using assms by (auto simp: sbind_def split: prod.splits sum.splits)

text \<open>A loop whose body only writes.\<close>

lemma sfor_smodify: "sfor xs (\<lambda>x. smodify (f x)) s = (Inr (), foldl (\<lambda>s x. f x s) s xs)"
  by (induction xs arbitrary: s) simp_all

lemma sbind_sfor_smodify [simp, svc]:
  "sbind (sfor xs (\<lambda>x. smodify (f x))) g s = g () (foldl (\<lambda>s x. f x s) s xs)"
  by (simp add: sfor_smodify)

section \<open>JavaScript Map\<close>

text \<open>
  A \<open>Map\<close> keeps its entries in insertion order; \<open>set\<close> on a present key replaces the
  value in place and on an absent key appends. \<open>AList.update\<close> does exactly that.
\<close>

type_synonym ('k, 'v) jsmap = "('k \<times> 'v) list"

abbreviation map_get :: "('k, 'v) jsmap \<Rightarrow> 'k \<Rightarrow> 'v option" where
  "map_get m k \<equiv> map_of m k"

abbreviation map_set :: "'k \<Rightarrow> 'v \<Rightarrow> ('k, 'v) jsmap \<Rightarrow> ('k, 'v) jsmap" where
  "map_set k v m \<equiv> AList.update k v m"

abbreviation map_del :: "'k \<Rightarrow> ('k, 'v) jsmap \<Rightarrow> ('k, 'v) jsmap" where
  "map_del k m \<equiv> filter (\<lambda>e. fst e \<noteq> k) m"

abbreviation map_has :: "('k, 'v) jsmap \<Rightarrow> 'k \<Rightarrow> bool" where
  "map_has m k \<equiv> k \<in> fst ` set m"

abbreviation map_keys :: "('k, 'v) jsmap \<Rightarrow> 'k list" where
  "map_keys m \<equiv> map fst m"

abbreviation map_values :: "('k, 'v) jsmap \<Rightarrow> 'v list" where
  "map_values m \<equiv> map snd m"

text \<open>\<open>new Map(entries)\<close> sets the entries one after another.\<close>

definition map_new :: "('k \<times> 'v) list \<Rightarrow> ('k, 'v) jsmap" where
  "map_new es = foldl (\<lambda>m e. map_set (fst e) (snd e) m) [] es"

lemma map_get_set [simp]: "map_get (map_set k v m) k' = (if k' = k then Some v else map_get m k')"
  by (simp add: update_conv')

lemma distinct_map_set [simp]: "distinct (map_keys m) \<Longrightarrow> distinct (map_keys (map_set k v m))"
  by (rule distinct_update)

lemma map_get_del [simp]: "map_get (map_del k m) k' = (if k' = k then None else map_get m k')"
  by (induction m) auto

lemma distinct_map_del [simp]: "distinct (map_keys m) \<Longrightarrow> distinct (map_keys (map_del k m))"
  by (induction m) auto

lemma map_get_foldl_set:
  "map_get (foldl (\<lambda>m e. map_set (fst e) (snd e) m) m es) k =
     (case map_of (rev es) k of None \<Rightarrow> map_get m k | Some v \<Rightarrow> Some v)"
  by (induction es arbitrary: m) (auto simp: map_add_def split: option.splits)

lemma map_get_new: "map_get (map_new es) k = map_of (rev es) k"
  by (simp add: map_new_def map_get_foldl_set split: option.splits)

lemma set_map_values:
  "distinct (map_keys m) \<Longrightarrow> v \<in> set (map_values m) \<longleftrightarrow> (\<exists>k. map_get m k = Some v)"
  by (force simp: in_set_conv_decomp dest: map_of_SomeD)

lemma map_has_iff: "map_has m k \<longleftrightarrow> map_get m k \<noteq> None"
  by (simp add: map_of_eq_None_iff)

lemma map_snd_nth: "map (\<lambda>n. snd (m ! n)) [0..<length m] = map snd m"
  by (rule nth_equalityI) simp_all

lemma map_set_fresh: "map_get m k = None \<Longrightarrow> map_set k v m = m @ [(k, v)]"
  by (induction m) (auto split: if_splits)

lemma map_set_nth:
  "distinct (map_keys m) \<Longrightarrow> n < length m \<Longrightarrow> fst (m ! n) = k \<Longrightarrow> map_set k v m = m[n := (k, v)]"
proof (induction m arbitrary: n)
  case (Cons e m)
  then show ?case by (cases n; cases e) (auto simp: nth_Cons split: nat.splits)
qed simp

lemma map_get_keyed: "map_get (map (\<lambda>k. (k, g k)) ks) k = (if k \<in> set ks then Some (g k) else None)"
  by (induction ks) auto

lemma map_set_keyed: "k \<in> set ks \<Longrightarrow> distinct ks \<Longrightarrow>
    map_set k v (map (\<lambda>k. (k, g k)) ks) = map (\<lambda>k'. (k', if k' = k then v else g k')) ks"
proof (induction ks)
  case (Cons a ks)
  then show ?case by (cases "a = k") auto
qed simp

lemma map_values_set_fresh:
  "map_get m k = None \<Longrightarrow> map_values (map_set k v m) = map_values m @ [v]"
  by (induction m) (auto split: if_splits)

section \<open>Lists\<close>

lemma find_Some_iff_filter: "List.find P xs = (case filter P xs of [] \<Rightarrow> None | x # _ \<Rightarrow> Some x)"
  by (induction xs) auto

lemma find_SomeD: "List.find P xs = Some x \<Longrightarrow> x \<in> set xs \<and> P x"
  by (induction xs) (auto split: if_splits)

lemma find_NoneD: "List.find P xs = None \<Longrightarrow> x \<in> set xs \<Longrightarrow> \<not> P x"
  by (induction xs) (auto split: if_splits)

text \<open>A field that is unique in a set stays so when an element is added or replaced.\<close>

lemma inj_on_add_fresh: "inj_on f A \<Longrightarrow> f x \<notin> f ` A \<Longrightarrow> inj_on f (insert x {w \<in> A. P w})"
  by (auto simp: inj_on_def image_iff)

lemma inj_on_replace:
  assumes "inj_on f A" "d \<in> A" "f x = f d" "\<not> P d"
  shows "inj_on f (insert x {w \<in> A. P w})"
proof -
  have "f w \<noteq> f x" if "w \<in> A" "P w" for w
    using assms that by (auto dest: inj_onD)
  moreover have "inj_on f {w \<in> A. P w}"
    using assms(1) by (rule inj_on_subset) auto
  ultimately show ?thesis by (force simp: inj_on_insert)
qed

section \<open>Strings\<close>

text \<open>
  A JavaScript string is a sequence of UTF-16 code units; the model covers the code units
  0 to 255 (one \<open>char\<close> each), on which the functions below are the library's:
  \<open>length\<close> counts code units, \<open>trim\<close> removes tab, line feed, vertical tab, form feed,
  carriage return, space and no-break space, and \<open>toLowerCase\<close> maps A-Z and the Latin-1
  capitals (192 to 222 but the multiplication sign 215) by adding 32.
\<close>

definition char_code :: "char \<Rightarrow> nat" where
  "char_code c = of_char c"

definition js_space :: "char \<Rightarrow> bool" where
  "js_space c \<longleftrightarrow> (let n = char_code c in 9 \<le> n \<and> n \<le> 13 \<or> n = 32 \<or> n = 160)"

definition js_trim :: "string \<Rightarrow> string" where
  "js_trim s = rev (dropWhile js_space (rev (dropWhile js_space s)))"

definition lower_char :: "char \<Rightarrow> char" where
  "lower_char c = (let n = char_code c in
     if 65 \<le> n \<and> n \<le> 90 \<or> 192 \<le> n \<and> n \<le> 222 \<and> n \<noteq> 215 then char_of (n + 32) else c)"

definition js_lower :: "string \<Rightarrow> string" where
  "js_lower s = map lower_char s"

fun starts_with :: "string \<Rightarrow> string \<Rightarrow> bool" where
  "starts_with s [] = True"
| "starts_with [] (p # ps) = False"
| "starts_with (c # cs) (p # ps) = (c = p \<and> starts_with cs ps)"

fun str_includes :: "string \<Rightarrow> string \<Rightarrow> bool" where
  "str_includes [] q = (q = [])"
| "str_includes (c # cs) q = (starts_with (c # cs) q \<or> str_includes cs q)"

text \<open>\<open>s.split(c)\<close> for a one-character separator: never empty.\<close>

fun js_split :: "char \<Rightarrow> string \<Rightarrow> string list" where
  "js_split d [] = [[]]"
| "js_split d (c # cs) =
     (if c = d then [] # js_split d cs
      else case js_split d cs of [] \<Rightarrow> [[c]] | p # ps \<Rightarrow> (c # p) # ps)"

definition js_join :: "string \<Rightarrow> string list \<Rightarrow> string" where
  "js_join sep xs = (case xs of [] \<Rightarrow> [] | y # ys \<Rightarrow> y @ concat (map (\<lambda>z. sep @ z) ys))"

lemma js_split_nonempty [simp]: "js_split d s \<noteq> []"
  by (cases "(d, s)" rule: js_split.cases) (auto split: list.splits)

lemma js_split_no_sep: "d \<notin> set s \<Longrightarrow> js_split d s = [s]"
  by (induction s) auto

lemma js_split_append: "d \<notin> set s \<Longrightarrow> js_split d (s @ d # t) = s # js_split d t"
  by (induction s) auto

lemma starts_with_iff: "starts_with s p \<longleftrightarrow> (\<exists>t. s = p @ t)"
  by (induction s p rule: starts_with.induct) auto

lemma str_includes_iff: "str_includes s q \<longleftrightarrow> (\<exists>a b. s = a @ q @ b)"
proof (induction s q rule: str_includes.induct)
  case (1 q)
  then show ?case by auto
next
  case (2 c cs q)
  have "(\<exists>a b. c # cs = a @ q @ b) \<longleftrightarrow> (\<exists>b. c # cs = q @ b) \<or> (\<exists>a b. cs = a @ q @ b)"
    by (metis append_Cons append_Nil list.inject neq_Nil_conv)
  with 2 show ?case by (simp add: starts_with_iff)
qed

lemma length_js_lower [simp]: "length (js_lower s) = length s"
  by (simp add: js_lower_def)

lemma dropWhile_nil_iff_all: "dropWhile P s = [] \<longleftrightarrow> list_all P s"
  by (induction s) auto

lemma list_all_dropWhile: "list_all P (dropWhile P s) \<longleftrightarrow> list_all P s"
  by (induction s) auto

lemma js_trim_empty_iff: "js_trim s = [] \<longleftrightarrow> list_all js_space s"
  by (simp add: js_trim_def dropWhile_nil_iff_all list_all_dropWhile del: dropWhile_eq_Nil_conv)

end
