(* ===== verification/JS_Values.thy ===== *)
theory JS_Values
  imports Prelude "HOL-Library.Multiset"
begin

text \<open>
  JavaScript values as the source inspects them: numbers with the IEEE special values, the
  dynamic values of type \<open>unknown\<close> that validators receive, and the printing of natural
  numbers in a radix (\<open>toString(36)\<close>, template literals). Finite numbers are reals and their
  arithmetic is exact: comparisons, minima and maxima agree with IEEE arithmetic, sums and
  products agree up to rounding. Signed zeros are identified.
\<close>

section \<open>Numbers\<close>

datatype jsnum = NaN | NInf | Fin real | PInf

text \<open>The comparisons \<open><\<close>, \<open><=\<close>, \<open>===\<close> are false when a side is \<open>NaN\<close>.\<close>

fun js_lt :: "jsnum \<Rightarrow> jsnum \<Rightarrow> bool" where
  "js_lt NaN b = False"
| "js_lt a NaN = False"
| "js_lt (Fin x) (Fin y) = (x < y)"
| "js_lt NInf b = (b \<noteq> NInf)"
| "js_lt (Fin x) b = (b = PInf)"
| "js_lt PInf b = False"

definition js_eq :: "jsnum \<Rightarrow> jsnum \<Rightarrow> bool" where
  "js_eq a b \<longleftrightarrow> a \<noteq> NaN \<and> a = b"

definition js_le :: "jsnum \<Rightarrow> jsnum \<Rightarrow> bool" where
  "js_le a b \<longleftrightarrow> js_lt a b \<or> js_eq a b"

definition is_nan :: "jsnum \<Rightarrow> bool" where
  "is_nan a \<longleftrightarrow> a = NaN"

fun is_finite_num :: "jsnum \<Rightarrow> bool" where
  "is_finite_num (Fin x) = True"
| "is_finite_num a = False"

text \<open>\<open>Number.isInteger\<close>.\<close>

fun is_integer_num :: "jsnum \<Rightarrow> bool" where
  "is_integer_num (Fin x) = (x = of_int \<lfloor>x\<rfloor>)"
| "is_integer_num a = False"

text \<open>Arithmetic with the IEEE rules for infinities.\<close>

instantiation jsnum :: "{plus, minus, uminus, times}"
begin

fun uminus_jsnum :: "jsnum \<Rightarrow> jsnum" where
  "- NaN = NaN"
| "- NInf = PInf"
| "- Fin x = Fin (- x)"
| "- PInf = NInf"

fun plus_jsnum :: "jsnum \<Rightarrow> jsnum \<Rightarrow> jsnum" where
  "Fin x + Fin y = Fin (x + y)"
| "NaN + b = NaN"
| "a + NaN = NaN"
| "PInf + b = (if b = NInf then NaN else PInf)"
| "NInf + b = (if b = PInf then NaN else NInf)"
| "Fin x + b = b"

definition minus_jsnum :: "jsnum \<Rightarrow> jsnum \<Rightarrow> jsnum" where
  "minus_jsnum a b = a + (- b)"

fun times_jsnum :: "jsnum \<Rightarrow> jsnum \<Rightarrow> jsnum" where
  "Fin x * Fin y = Fin (x * y)"
| "NaN * b = NaN"
| "a * NaN = NaN"
| "Fin x * PInf = (if x = 0 then NaN else if 0 < x then PInf else NInf)"
| "Fin x * NInf = (if x = 0 then NaN else if 0 < x then NInf else PInf)"
| "PInf * Fin y = (if y = 0 then NaN else if 0 < y then PInf else NInf)"
| "NInf * Fin y = (if y = 0 then NaN else if 0 < y then NInf else PInf)"
| "PInf * b = b"
| "NInf * b = - b"

instance ..

end

text \<open>Division of numbers.\<close>

fun js_div :: "jsnum \<Rightarrow> jsnum \<Rightarrow> jsnum" where
  "js_div (Fin x) (Fin y) =
     (if y \<noteq> 0 then Fin (x / y) else if x = 0 then NaN else if 0 < x then PInf else NInf)"
| "js_div NaN b = NaN"
| "js_div a NaN = NaN"
| "js_div (Fin x) b = Fin 0"
| "js_div PInf (Fin y) = (if 0 \<le> y then PInf else NInf)"
| "js_div NInf (Fin y) = (if 0 \<le> y then NInf else PInf)"
| "js_div a b = NaN"

text \<open>\<open>Math.min\<close> and \<open>Math.max\<close> of two numbers.\<close>

definition js_min :: "jsnum \<Rightarrow> jsnum \<Rightarrow> jsnum" where
  "js_min a b = (if is_nan a \<or> is_nan b then NaN else if js_lt a b then a else b)"

definition js_max :: "jsnum \<Rightarrow> jsnum \<Rightarrow> jsnum" where
  "js_max a b = (if is_nan a \<or> is_nan b then NaN else if js_lt a b then b else a)"

lemma js_le_Fin [simp]: "js_le (Fin x) (Fin y) \<longleftrightarrow> x \<le> y"
  by (auto simp: js_le_def js_eq_def)

lemma js_eq_Fin [simp]: "js_eq (Fin x) (Fin y) \<longleftrightarrow> x = y"
  by (simp add: js_eq_def)

lemma js_minus_Fin [simp]: "Fin x - Fin y = Fin (x - y)"
  by (simp add: minus_jsnum_def)

lemma js_min_Fin [simp]: "js_min (Fin x) (Fin y) = Fin (min x y)"
  by (simp add: js_min_def is_nan_def min_def)

lemma js_max_Fin [simp]: "js_max (Fin x) (Fin y) = Fin (max x y)"
  by (auto simp: js_max_def is_nan_def max_def)

lemma js_lt_NaN [simp]: "\<not> js_lt a NaN" "\<not> js_lt NaN a"
  by (cases a; simp)+

lemma js_le_NaN [simp]: "\<not> js_le a NaN" "\<not> js_le NaN a"
  by (auto simp: js_le_def js_eq_def)

lemma js_lt_irrefl [simp]: "\<not> js_lt a a"
  by (cases a) auto

lemma js_lt_trans: "js_lt a b \<Longrightarrow> js_lt b c \<Longrightarrow> js_lt a c"
  by (cases a; cases b; cases c) auto

lemma js_le_trans: "js_le a b \<Longrightarrow> js_le b c \<Longrightarrow> js_le a c"
  by (cases a; cases b; cases c) (auto simp: js_le_def js_eq_def)

lemma js_le_refl [simp]: "js_le a a \<longleftrightarrow> a \<noteq> NaN"
  by (auto simp: js_le_def js_eq_def)

lemma js_lt_iff_not_le: "a \<noteq> NaN \<Longrightarrow> b \<noteq> NaN \<Longrightarrow> js_lt a b \<longleftrightarrow> \<not> js_le b a"
  by (cases a; cases b) (auto simp: js_le_def js_eq_def)

lemma js_between_finite:
  "js_le (Fin lo) a \<and> js_le a (Fin hi) \<longleftrightarrow> (\<exists>x. a = Fin x \<and> lo \<le> x \<and> x \<le> hi)"
  by (cases a) (auto simp: js_le_def js_eq_def)

lemma js_min_le: "a \<noteq> NaN \<Longrightarrow> b \<noteq> NaN \<Longrightarrow> js_le (js_min a b) a \<and> js_le (js_min a b) b"
  by (cases a; cases b) (auto simp: js_min_def is_nan_def js_le_def js_eq_def)

lemma js_max_ge: "a \<noteq> NaN \<Longrightarrow> b \<noteq> NaN \<Longrightarrow> js_le a (js_max a b) \<and> js_le b (js_max a b)"
  by (cases a; cases b) (auto simp: js_max_def is_nan_def js_le_def js_eq_def)

lemma js_min_choice: "a \<noteq> NaN \<Longrightarrow> b \<noteq> NaN \<Longrightarrow> js_min a b = a \<or> js_min a b = b"
  by (auto simp: js_min_def is_nan_def)

lemma js_max_choice: "a \<noteq> NaN \<Longrightarrow> b \<noteq> NaN \<Longrightarrow> js_max a b = a \<or> js_max a b = b"
  by (auto simp: js_max_def is_nan_def)

section \<open>Dynamic values\<close>

datatype jsval =
    Undefined
  | Null
  | Bool bool
  | Num jsnum
  | Str string
  | Arr "jsval list"
  | Obj "(string \<times> jsval) list"

text \<open>A property that is absent or \<open>undefined\<close>, read from a field of declared type string.\<close>

definition of_str_opt :: "string option \<Rightarrow> jsval" where
  "of_str_opt v = (case v of None \<Rightarrow> Undefined | Some s \<Rightarrow> Str s)"

definition of_num_opt :: "jsnum option \<Rightarrow> jsval" where
  "of_num_opt v = (case v of None \<Rightarrow> Undefined | Some x \<Rightarrow> Num x)"

text \<open>An optional string is truthy when it is there and not empty.\<close>

definition truthy :: "string option \<Rightarrow> bool" where
  "truthy v = (case v of None \<Rightarrow> False | Some s \<Rightarrow> s \<noteq> [])"

text \<open>\<open>v ?? d\<close>.\<close>

definition or_else :: "'a option \<Rightarrow> 'a \<Rightarrow> 'a" where
  "or_else v d = (case v of None \<Rightarrow> d | Some x \<Rightarrow> x)"

text \<open>\<open>a ?? b\<close> where \<open>b\<close> may itself be missing.\<close>

definition nullish :: "'a option \<Rightarrow> 'a option \<Rightarrow> 'a option" where
  "nullish a b = (case a of None \<Rightarrow> b | Some x \<Rightarrow> Some x)"

lemma truthy_simps [simp]: "\<not> truthy None" "truthy (Some s) \<longleftrightarrow> s \<noteq> []"
  by (simp_all add: truthy_def)

lemma or_else_simps [simp]: "or_else None d = d" "or_else (Some x) d = x"
  by (simp_all add: or_else_def)

lemma of_str_opt_simps [simp]: "of_str_opt None = Undefined" "of_str_opt (Some s) = Str s"
  by (simp_all add: of_str_opt_def)

lemma of_num_opt_simps [simp]: "of_num_opt None = Undefined" "of_num_opt (Some x) = Num x"
  by (simp_all add: of_num_opt_def)

section \<open>Array.prototype.sort\<close>

text \<open>
  \<open>sort\<close> is stable. \<open>gt a b\<close> says that the comparator returns a positive number (a \<open>NaN\<close> result
  counts as zero). For a consistent comparator the stable result is unique and insertion
  computes it; for an inconsistent one the language leaves the order open, and the model is one
  of the permitted orders.
\<close>

fun insort_by :: "('a \<Rightarrow> 'a \<Rightarrow> bool) \<Rightarrow> 'a \<Rightarrow> 'a list \<Rightarrow> 'a list" where
  "insort_by gt x [] = [x]"
| "insort_by gt x (y # ys) = (if gt x y then y # insort_by gt x ys else x # y # ys)"

definition js_sort :: "('a \<Rightarrow> 'a \<Rightarrow> bool) \<Rightarrow> 'a list \<Rightarrow> 'a list" where
  "js_sort gt xs = foldr (insort_by gt) xs []"

lemma mset_insort_by: "mset (insort_by gt x xs) = add_mset x (mset xs)"
  by (induction xs) auto

lemma js_sort_simps [simp]: "js_sort gt [] = []" "js_sort gt (x # xs) = insort_by gt x (js_sort gt xs)"
  by (simp_all add: js_sort_def)

lemma mset_js_sort [simp]: "mset (js_sort gt xs) = mset xs"
  by (induction xs) (simp_all add: mset_insort_by)

lemma set_js_sort [simp]: "set (js_sort gt xs) = set xs"
  by (metis mset_js_sort set_mset_mset)

text \<open>Sorting by an integer key agrees with the library's stable sort.\<close>

lemma js_sort_map:
  assumes "\<And>x y. x \<in> set xs \<Longrightarrow> y \<in> set xs \<Longrightarrow> gt' (f x) (f y) = gt x y"
  shows "js_sort gt' (map f xs) = map f (js_sort gt xs)"
  using assms
proof (induction xs)
  case (Cons x xs)
  have ins: "insort_by gt' (f x) (map f ys) = map f (insort_by gt x ys)" if "set ys \<subseteq> set xs" for ys
    using that Cons.prems by (induction ys) auto
  have "js_sort gt' (map f xs) = map f (js_sort gt xs)" using Cons by simp
  then show ?case using ins [of "js_sort gt xs"] by simp
qed simp

lemma js_sort_key: "js_sort (\<lambda>x y. k x > k y) xs = sort_key (k :: 'a \<Rightarrow> 'k :: linorder) xs"
proof -
  have "insort_by (\<lambda>x y. k x > k y) x ys = insort_key k x ys" for x ys
    by (induction ys) auto
  then show ?thesis by (induction xs) simp_all
qed

section \<open>Printing natural numbers\<close>

definition radix_digit :: "nat \<Rightarrow> char" where
  "radix_digit d = (if d < 10 then char_of (48 + d) else char_of (87 + d))"

text \<open>\<open>n.toString(r)\<close> for a radix of at least 2 (the guard keeps the recursion total).\<close>

function to_radix :: "nat \<Rightarrow> nat \<Rightarrow> string" where
  "to_radix r n = (if n < r \<or> r < 2 then [radix_digit n] else to_radix r (n div r) @ [radix_digit (n mod r)])"
  by pat_completeness auto
termination
  by (relation "measure snd") auto

declare to_radix.simps [simp del]

definition nat_str :: "nat \<Rightarrow> string" where
  "nat_str n = to_radix 10 n"

lemma char_code_radix_digit:
  "d < 36 \<Longrightarrow> char_code (radix_digit d) = (if d < 10 then 48 + d else 87 + d)"
  by (simp add: char_code_def radix_digit_def)

lemma radix_digit_inj: "d < 36 \<Longrightarrow> e < 36 \<Longrightarrow> radix_digit d = radix_digit e \<Longrightarrow> d = e"
  by (drule arg_cong [where f = char_code]) (auto simp: char_code_radix_digit split: if_splits)

lemma to_radix_nonempty [simp]: "to_radix r n \<noteq> []"
  by (subst to_radix.simps) simp

lemma to_radix_chars:
  "2 \<le> r \<Longrightarrow> r \<le> 36 \<Longrightarrow> c \<in> set (to_radix r n) \<Longrightarrow> \<exists>d < r. c = radix_digit d"
proof (induction r n rule: to_radix.induct)
  case (1 r n)
  show ?case
  proof (cases "n < r")
    case True
    with "1.prems" show ?thesis by (auto simp: to_radix.simps [of r n])
  next
    case False
    then consider "c \<in> set (to_radix r (n div r))" | "c = radix_digit (n mod r)"
      using "1.prems" by (auto simp: to_radix.simps [of r n])
    then show ?thesis
    proof cases
      case 1
      with False "1.prems" show ?thesis using "1.IH" by auto
    next
      case 2
      with "1.prems" show ?thesis by (intro exI [of _ "n mod r"]) auto
    qed
  qed
qed

lemma to_radix_inj:
  assumes "2 \<le> r" "r \<le> 36"
  shows "to_radix r m = to_radix r n \<Longrightarrow> m = n"
  using assms
proof (induction r m arbitrary: n rule: to_radix.induct)
  case (1 r m)
  show ?case
  proof (cases "m < r \<or> n < r")
    case True
    with "1.prems" have small: "m < r" "n < r"
      by (auto simp: to_radix.simps [of r m] to_radix.simps [of r n] split: if_splits
          dest: sym)
    with "1.prems" have "radix_digit m = radix_digit n"
      by (simp add: to_radix.simps [of r m] to_radix.simps [of r n])
    with small "1.prems" show ?thesis by (intro radix_digit_inj) auto
  next
    case False
    with "1.prems" have eq: "to_radix r (m div r) = to_radix r (n div r)"
      and last: "radix_digit (m mod r) = radix_digit (n mod r)"
      by (auto simp: to_radix.simps [of r m] to_radix.simps [of r n])
    from False "1.prems" have "m div r = n div r"
      using "1.IH" [OF _ eq] by auto
    moreover have "m mod r = n mod r"
      using last "1.prems" by (intro radix_digit_inj) (auto intro: less_le_trans [of _ r])
    ultimately show ?thesis by (metis div_mult_mod_eq)
  qed
qed

lemma nat_str_inj: "nat_str m = nat_str n \<longleftrightarrow> m = n"
  using to_radix_inj [of 10 m n] by (auto simp: nat_str_def)

text \<open>No digit is a hyphen (code 45), so hyphens separate printed numbers.\<close>

lemma to_radix_no_hyphen:
  assumes "2 \<le> r" "r \<le> 36"
  shows "CHR ''-'' \<notin> set (to_radix r n)"
proof
  assume "CHR ''-'' \<in> set (to_radix r n)"
  then obtain d where "d < r" and "CHR ''-'' = radix_digit d"
    using to_radix_chars [OF assms] by blast
  then have "char_code (CHR ''-'') = char_code (radix_digit d)" by simp
  moreover have "char_code (CHR ''-'') = 45" by (simp add: char_code_def)
  ultimately show False
    using \<open>d < r\<close> assms by (auto simp: char_code_radix_digit split: if_splits)
qed

section \<open>Default identifiers\<close>

text \<open>
  Every service has a generator \<open>`<prefix>-${Date.now().toString(36)}-${counter}`\<close> over a
  counter of its module; the counter is bumped before it is printed.
\<close>

definition stamped_id :: "string \<Rightarrow> nat \<Rightarrow> nat \<Rightarrow> string" where
  "stamped_id prefix now n = prefix @ ''-'' @ to_radix 36 now @ ''-'' @ nat_str n"

lemma stamped_id_inj:
  "stamped_id p t m = stamped_id p u n \<longleftrightarrow> t = u \<and> m = n"
proof
  assume "stamped_id p t m = stamped_id p u n"
  then have "js_split (CHR ''-'') (to_radix 36 t @ CHR ''-'' # nat_str m)
    = js_split (CHR ''-'') (to_radix 36 u @ CHR ''-'' # nat_str n)"
    by (simp add: stamped_id_def)
  then have "to_radix 36 t = to_radix 36 u \<and> nat_str m = nat_str n"
    by (simp add: js_split_append js_split_no_sep to_radix_no_hyphen nat_str_def)
  then show "t = u \<and> m = n"
    using to_radix_inj [of 36 t u] by (simp add: nat_str_inj)
qed simp

text \<open>
  The generator of a service: \<open>config.generateId ?? defaultIdGenerator\<close>. A supplied generator
  is represented by the id it returns, the default one by the reading of \<open>Date.now()\<close>; the
  result is the id and the module's counter afterwards.
\<close>

datatype id_source = Supplied string | Stamped nat

fun next_id :: "string \<Rightarrow> id_source \<Rightarrow> nat \<Rightarrow> string \<times> nat" where
  "next_id prefix (Supplied i) n = (i, n)"
| "next_id prefix (Stamped t) n = (stamped_id prefix t (Suc n), Suc n)"

text \<open>Ids handed out so far by the default generator, when the counter stands at \<open>n\<close>.\<close>

definition issued :: "string \<Rightarrow> nat \<Rightarrow> string \<Rightarrow> bool" where
  "issued prefix n i \<longleftrightarrow> (\<exists>t k. k \<le> n \<and> i = stamped_id prefix t k)"

lemma issued_fresh: "issued prefix n i \<Longrightarrow> i \<noteq> stamped_id prefix t (Suc n)"
  by (auto simp: issued_def stamped_id_inj)

lemma issued_Suc: "issued prefix n i \<Longrightarrow> issued prefix (Suc n) i"
  unfolding issued_def using le_SucI by blast

lemma issued_new: "issued prefix (Suc n) (stamped_id prefix t (Suc n))"
  by (auto simp: issued_def)

lemma stamped_id_nonempty [simp]: "stamped_id prefix t n \<noteq> []"
  by (simp add: stamped_id_def)

end
