(* ===== verification/Iso_Time.thy ===== *)
theory Iso_Time
  imports JS_Values
begin

text \<open>
  The \<open>Date\<close> functions of the services: \<open>toIso\<close> (\<open>common/clock.ts\<close>) is
  \<open>new Date(ms).toISOString()\<close>, given here by the calendar arithmetic of the ECMAScript
  standard, with the \<open>RangeError\<close> outside 100,000,000 days around the epoch as \<open>None\<close>.
  \<open>Date.parse\<close> accepts further, implementation-defined formats, so the services take it as
  a function; the locale \<open>date_codec\<close> states what they rely on (it inverts \<open>toISOString\<close>) and
  \<open>iso_parse\<close>, the parser of the canonical format, is its instance.
\<close>

section \<open>Fixed-width decimal fields\<close>

fun pad :: "nat \<Rightarrow> nat \<Rightarrow> string" where
  "pad 0 n = []"
| "pad (Suc k) n = pad k (n div 10) @ [radix_digit (n mod 10)]"

definition digit_val :: "char \<Rightarrow> nat option" where
  "digit_val c = (let n = char_code c in if 48 \<le> n \<and> n \<le> 57 then Some (n - 48) else None)"

definition push_digit :: "nat option \<Rightarrow> char \<Rightarrow> nat option" where
  "push_digit acc c = (case acc of None \<Rightarrow> None | Some n \<Rightarrow> map_option (\<lambda>d. 10 * n + d) (digit_val c))"

definition digits_val :: "string \<Rightarrow> nat option" where
  "digits_val s = foldl push_digit (Some 0) s"

definition field :: "nat \<Rightarrow> string \<Rightarrow> (nat \<times> string) option" where
  "field k s = (if k \<le> length s then map_option (\<lambda>n. (n, drop k s)) (digits_val (take k s)) else None)"

definition expect :: "char \<Rightarrow> string \<Rightarrow> string option" where
  "expect c s = (case s of [] \<Rightarrow> None | x # xs \<Rightarrow> if x = c then Some xs else None)"

lemma length_pad [simp]: "length (pad k n) = k"
  by (induction k arbitrary: n) auto

lemma digit_val_radix_digit [simp]: "d < 10 \<Longrightarrow> digit_val (radix_digit d) = Some d"
  by (simp add: digit_val_def char_code_radix_digit)

lemma digits_val_pad: "n < 10 ^ k \<Longrightarrow> digits_val (pad k n) = Some n"
proof (induction k arbitrary: n)
  case 0
  then show ?case by (simp add: digits_val_def)
next
  case (Suc k)
  then have "digits_val (pad k (n div 10)) = Some (n div 10)"
    by (intro Suc.IH) (simp add: less_mult_imp_div_less mult.commute)
  then show ?case by (simp add: digits_val_def push_digit_def)
qed

lemma field_pad [simp]: "n < 10 ^ k \<Longrightarrow> field k (pad k n @ t) = Some (n, t)"
  by (simp add: field_def digits_val_pad)

lemma expect_Cons [simp]: "expect c (c # s) = Some s"
  by (simp add: expect_def)

section \<open>Calendar\<close>

abbreviation ms_per_day :: int where
  "ms_per_day \<equiv> 86400000"

definition is_leap :: "int \<Rightarrow> bool" where
  "is_leap y \<longleftrightarrow> 4 dvd y \<and> (\<not> 100 dvd y \<or> 400 dvd y)"

text \<open>The day number of January 1 of a year, counted from 1970-01-01.\<close>

definition day_from_year :: "int \<Rightarrow> int" where
  "day_from_year y = 365 * (y - 1970) + (y - 1969) div 4 - (y - 1901) div 100 + (y - 1601) div 400"

text \<open>The year a day falls in: an estimate from the mean year length, off by at most one.\<close>

definition year_from_day :: "int \<Rightarrow> int" where
  "year_from_day d = (let y = 1970 + (400 * d) div 146097 in
     if d < day_from_year y then y - 1 else if day_from_year (y + 1) \<le> d then y + 1 else y)"

definition month_starts :: "int \<Rightarrow> int list" where
  "month_starts y = (let l = (if is_leap y then 1 else 0) in
     [0, 31, 59 + l, 90 + l, 120 + l, 151 + l, 181 + l, 212 + l, 243 + l, 273 + l, 304 + l, 334 + l])"

definition month_of :: "int \<Rightarrow> int \<Rightarrow> nat" where
  "month_of y doy = length (filter (\<lambda>b. b \<le> doy) (month_starts y))"

definition date_of :: "int \<Rightarrow> int \<Rightarrow> int" where
  "date_of y doy = doy - month_starts y ! (month_of y doy - 1) + 1"

lemma div_bounds: "0 < k \<Longrightarrow> k * (x div k) \<le> (x::int) \<and> x < k * (x div k) + k"
  by (metis add_less_cancel_left div_mult_mod_eq mult.commute pos_mod_bound pos_mod_sign
      le_add_same_cancel1)

lemma day_from_year_bounds:
  "146097 * (y - 1970) - 507 \<le> 400 * day_from_year y"
  "400 * day_from_year y \<le> 146097 * (y - 1970) + 589"
  using div_bounds [of 4 "y - 1969"] div_bounds [of 100 "y - 1901"] div_bounds [of 400 "y - 1601"]
  by (simp_all add: day_from_year_def)

lemma year_from_day_bounds:
  "day_from_year (year_from_day d) \<le> d" "d < day_from_year (year_from_day d + 1)"
proof -
  define y where "y = 1970 + (400 * d) div 146097"
  have k: "146097 * (y - 1970) \<le> 400 * d" "400 * d < 146097 * (y - 1970) + 146097"
    using div_bounds [of 146097 "400 * d"] by (simp_all add: y_def)
  have "day_from_year (y - 1) \<le> d"
    using day_from_year_bounds(2) [of "y - 1"] k(1) by simp
  moreover have "d < day_from_year (y + 1 + 1)"
    using day_from_year_bounds(1) [of "y + 1 + 1"] k(2) by simp
  ultimately show "day_from_year (year_from_day d) \<le> d" "d < day_from_year (year_from_day d + 1)"
    by (auto simp: year_from_day_def Let_def simp flip: y_def)
qed

lemma div_succ:
  assumes "1 < k"
  shows "(x + 1) div k = x div k + (if k dvd x + 1 then 1 else (0::int))"
proof -
  define q r where "q = x div k" and "r = x mod k"
  then have x: "x = k * q + r" and r: "0 \<le> r" "r < k"
    using assms by simp_all
  show ?thesis
  proof (cases "r + 1 = k")
    case True
    then have "x + 1 = k * (q + 1)" by (simp add: x algebra_simps)
    with assms show ?thesis by (simp flip: q_def)
  next
    case False
    then have "(x + 1) div k = q"
      using r by (intro int_div_pos_eq [where r = "r + 1"]) (auto simp: x)
    moreover have "\<not> k dvd x + 1"
    proof
      assume "k dvd x + 1"
      then have "k dvd r + 1" by (simp add: x add.assoc dvd_add_right_iff)
      with False r show False by (auto dest: zdvd_imp_le)
    qed
    ultimately show ?thesis by (simp add: q_def)
  qed
qed

lemma day_from_year_step: "day_from_year (y + 1) = day_from_year y + (if is_leap y then 366 else 365)"
proof -
  have "day_from_year (y + 1) = day_from_year y + 365 + (if 4 dvd y - 1968 then 1 else 0)
      - (if 100 dvd y - 1900 then 1 else 0) + (if 400 dvd y - 1600 then 1 else 0)"
    using div_succ [of 4 "y - 1969"] div_succ [of 100 "y - 1901"] div_succ [of 400 "y - 1601"]
    by (simp add: day_from_year_def algebra_simps)
  moreover have "4 dvd y - 1968 \<longleftrightarrow> 4 dvd y" "100 dvd y - 1900 \<longleftrightarrow> 100 dvd y"
    "400 dvd y - 1600 \<longleftrightarrow> 400 dvd y"
    using dvd_diff_left_iff [of 4 1968 y] dvd_diff_left_iff [of 100 1900 y]
      dvd_diff_left_iff [of 400 1600 y] by simp_all
  moreover have "400 dvd y \<Longrightarrow> 100 dvd y" "100 dvd y \<Longrightarrow> 4 dvd y"
    using dvd_trans [of 100 400 y] dvd_trans [of 4 100 y] by simp_all
  ultimately show ?thesis
    by (cases "400 dvd y"; cases "100 dvd y"; cases "4 dvd y") (simp_all add: is_leap_def)
qed

lemma length_month_starts [simp]: "length (month_starts y) = 12"
  by (simp add: month_starts_def Let_def)

lemma month_of_bounds: "0 \<le> doy \<Longrightarrow> 1 \<le> month_of y doy \<and> month_of y doy \<le> 12"
  by (auto simp: month_of_def month_starts_def Let_def)

lemma date_of_bounds:
  assumes "0 \<le> doy" "doy < (if is_leap y then 366 else 365)"
  shows "1 \<le> date_of y doy \<and> date_of y doy \<le> 31"
  using assms by (auto simp: date_of_def month_of_def month_starts_def Let_def)

section \<open>toISOString\<close>

definition max_time :: int where
  "max_time = 8640000000000000"

definition iso_year :: "int \<Rightarrow> string" where
  "iso_year y = (if 0 \<le> y \<and> y \<le> 9999 then pad 4 (nat y)
     else if y < 0 then CHR ''-'' # pad 6 (nat (- y)) else CHR ''+'' # pad 6 (nat y))"

definition iso_string :: "int \<Rightarrow> string" where
  "iso_string ms =
     (let d = ms div ms_per_day; t = nat (ms mod ms_per_day);
          y = year_from_day d; doy = d - day_from_year y
      in iso_year y @ ''-'' @ pad 2 (month_of y doy) @ ''-'' @ pad 2 (nat (date_of y doy)) @ ''T'' @
         pad 2 (t div 3600000) @ '':'' @ pad 2 (t div 60000 mod 60) @ '':'' @
         pad 2 (t div 1000 mod 60) @ ''.'' @ pad 3 (t mod 1000) @ ''Z'')"

text \<open>\<open>toIso\<close>; \<open>None\<close> is the \<open>RangeError\<close> of an invalid date.\<close>

definition toIso :: "int \<Rightarrow> string option" where
  "toIso ms = (if \<bar>ms\<bar> \<le> max_time then Some (iso_string ms) else None)"

text \<open>The parser of the canonical format.\<close>

definition parse_year :: "string \<Rightarrow> (int \<times> string) option" where
  "parse_year s = (case s of [] \<Rightarrow> None
    | c # cs \<Rightarrow> if c = CHR ''-'' then map_option (\<lambda>(n, t). (- int n, t)) (field 6 cs)
              else if c = CHR ''+'' then map_option (\<lambda>(n, t). (int n, t)) (field 6 cs)
              else map_option (\<lambda>(n, t). (int n, t)) (field 4 s))"

definition field_then :: "nat \<Rightarrow> char \<Rightarrow> string \<Rightarrow> (nat \<times> string) option" where
  "field_then k c s = Option.bind (field k s) (\<lambda>(n, t). map_option (\<lambda>u. (n, u)) (expect c t))"

definition make_time :: "int \<Rightarrow> nat \<Rightarrow> nat \<Rightarrow> nat \<Rightarrow> nat \<Rightarrow> nat \<Rightarrow> nat \<Rightarrow> int option" where
  "make_time y mo d h mi sec ms =
     (if 1 \<le> mo \<and> mo \<le> 12 \<and> 1 \<le> d \<and> d \<le> 31 \<and> h < 24 \<and> mi < 60 \<and> sec < 60 then
        Some ((day_from_year y + month_starts y ! (mo - 1) + int d - 1) * ms_per_day +
              int (h * 3600000 + mi * 60000 + sec * 1000 + ms))
      else None)"

definition iso_parse :: "string \<Rightarrow> int option" where
  "iso_parse s =
     Option.bind (parse_year s) (\<lambda>(y, s1).
     Option.bind (expect (CHR ''-'') s1) (\<lambda>s2.
     Option.bind (field_then 2 (CHR ''-'') s2) (\<lambda>(mo, s3).
     Option.bind (field_then 2 (CHR ''T'') s3) (\<lambda>(d, s4).
     Option.bind (field_then 2 (CHR '':'') s4) (\<lambda>(h, s5).
     Option.bind (field_then 2 (CHR '':'') s5) (\<lambda>(mi, s6).
     Option.bind (field_then 2 (CHR ''.'') s6) (\<lambda>(sec, s7).
     Option.bind (field_then 3 (CHR ''Z'') s7) (\<lambda>(ms, s8).
     if s8 = [] then make_time y mo d h mi sec ms else None))))))))"

lemma field_then_pad [simp]: "n < 10 ^ k \<Longrightarrow> field_then k c (pad k n @ c # t) = Some (n, t)"
  by (simp add: field_then_def)

lemma pad_head_digit: "0 < k \<Longrightarrow> \<exists>c cs. pad k n = c # cs \<and> c \<noteq> CHR ''-'' \<and> c \<noteq> CHR ''+''"
proof (induction k arbitrary: n)
  case (Suc k)
  have ne: "radix_digit (n mod 10) \<noteq> CHR ''-''" "radix_digit (n mod 10) \<noteq> CHR ''+''"
    using char_code_radix_digit [of "n mod 10"]
    by (auto dest!: arg_cong [where f = char_code] simp: char_code_def)
  show ?case
  proof (cases k)
    case 0
    with ne show ?thesis by simp
  next
    case (Suc j)
    then obtain c cs where "pad k (n div 10) = c # cs" "c \<noteq> CHR ''-''" "c \<noteq> CHR ''+''"
      using Suc.IH [of "n div 10"] by auto
    then show ?thesis by simp
  qed
qed simp

lemma parse_year_iso_year:
  assumes "\<bar>y\<bar> < 1000000"
  shows "parse_year (iso_year y @ t) = Some (y, t)"
proof -
  consider "0 \<le> y \<and> y \<le> 9999" | "y < 0" | "9999 < y" by linarith
  then show ?thesis
  proof cases
    case 1
    then have "field 4 (pad 4 (nat y) @ t) = Some (nat y, t)"
      by (intro field_pad) (simp add: nat_less_iff)
    with 1 show ?thesis
      using pad_head_digit [of 4 "nat y"] by (auto simp: parse_year_def iso_year_def)
  next
    case 2
    with assms have "nat (- y) < 10 ^ 6" by simp
    from field_pad [OF this] 2 show ?thesis by (auto simp: parse_year_def iso_year_def)
  next
    case 3
    with assms have "nat y < 10 ^ 6" by simp
    from field_pad [OF this] 3 show ?thesis by (auto simp: parse_year_def iso_year_def)
  qed
qed

lemma year_from_day_range:
  assumes "\<bar>d\<bar> \<le> 100000000"
  shows "\<bar>year_from_day d\<bar> < 1000000"
proof -
  define y where "y = year_from_day d"
  have "day_from_year y \<le> d" "d < day_from_year (y + 1)"
    using year_from_day_bounds [of d] by (simp_all add: y_def)
  moreover have "d \<le> 100000000" "- 100000000 \<le> d" using assms by simp_all
  ultimately have "146097 * y < 146097 * 1000000" "146097 * (- 1000000) < 146097 * y"
    using day_from_year_bounds(1) [of y] day_from_year_bounds(2) [of "y + 1"] by simp_all
  then have "\<bar>y\<bar> < 1000000" by simp
  then show ?thesis by (simp add: y_def)
qed

lemma split_day_time:
  "(t div 3600000) * 3600000 + (t div 60000 mod 60) * 60000 + (t div 1000 mod 60) * 1000 + t mod 1000 = (t::nat)"
proof -
  define sec mi a b c e where "sec = t div 1000" and "mi = sec div 60"
    and "a = mi div 60" and "b = mi mod 60" and "c = sec mod 60" and "e = t mod 1000"
  have parts: "t div 60000 = mi" "t div 3600000 = a"
    by (simp_all add: sec_def mi_def a_def flip: div_mult2_eq)
  have "mi * 60 + c = sec" "a * 60 + b = mi" "sec * 1000 + e = t"
    by (simp_all only: sec_def mi_def a_def b_def c_def e_def div_mult_mod_eq)
  then show ?thesis
    by (simp add: parts flip: sec_def b_def c_def e_def)
qed

lemma iso_parse_fields:
  assumes "\<bar>y\<bar> < 1000000" "mo < 100" "d < 100" "h < 100" "mi < 100" "sec < 100" "ms < 1000"
  shows "iso_parse (iso_year y @ ''-'' @ pad 2 mo @ ''-'' @ pad 2 d @ ''T'' @ pad 2 h @ '':'' @
           pad 2 mi @ '':'' @ pad 2 sec @ ''.'' @ pad 3 ms @ ''Z'') = make_time y mo d h mi sec ms"
  using assms by (simp add: iso_parse_def parse_year_iso_year)

lemma make_time_iso:
  assumes y: "y = year_from_day d" and doy: "doy = d - day_from_year y" and t: "t < 86400000"
  shows "make_time y (month_of y doy) (nat (date_of y doy)) (t div 3600000) (t div 60000 mod 60)
           (t div 1000 mod 60) (t mod 1000) = Some (d * ms_per_day + int t)"
    and "month_of y doy < 100" and "nat (date_of y doy) < 100" and "t div 3600000 < 100"
proof -
  have doy_bounds: "0 \<le> doy" "doy < (if is_leap y then 366 else 365)"
    using year_from_day_bounds [of d] day_from_year_step [of y] by (auto simp: y doy)
  have m: "1 \<le> month_of y doy" "month_of y doy \<le> 12"
    using month_of_bounds [OF doy_bounds(1), of y] by auto
  have dt: "1 \<le> date_of y doy" "date_of y doy \<le> 31"
    using date_of_bounds [OF doy_bounds] by auto
  have h: "t div 3600000 < 24" using t by simp
  have "day_from_year y + month_starts y ! (month_of y doy - 1) + date_of y doy - 1 = d"
    by (simp add: date_of_def doy)
  then show "make_time y (month_of y doy) (nat (date_of y doy)) (t div 3600000) (t div 60000 mod 60)
           (t div 1000 mod 60) (t mod 1000) = Some (d * ms_per_day + int t)"
    using m dt h split_day_time [of t] by (simp add: make_time_def nat_le_iff le_nat_iff)
  show "month_of y doy < 100" and "nat (date_of y doy) < 100" and "t div 3600000 < 100"
    using m dt h by auto
qed

lemma iso_parse_iso_string:
  assumes "\<bar>ms\<bar> \<le> max_time"
  shows "iso_parse (iso_string ms) = Some ms"
proof -
  define d t y where "d = ms div ms_per_day" and "t = nat (ms mod ms_per_day)"
    and "y = year_from_day d"
  define doy where "doy = d - day_from_year y"
  have "\<bar>d\<bar> \<le> 100000000"
    using assms div_bounds [of ms_per_day ms] by (simp add: max_time_def d_def)
  then have "\<bar>y\<bar> < 1000000" by (simp add: y_def year_from_day_range)
  moreover have "t < 86400000" by (simp add: t_def nat_less_iff)
  note mt = make_time_iso [OF y_def doy_def this]
  moreover have "t div 60000 mod 60 < 60" "t div 1000 mod 60 < 60" "t mod 1000 < 1000" by simp_all
  moreover have "d * ms_per_day + int t = ms" by (simp add: d_def t_def)
  moreover have "iso_string ms = iso_year y @ ''-'' @ pad 2 (month_of y doy) @ ''-'' @
      pad 2 (nat (date_of y doy)) @ ''T'' @ pad 2 (t div 3600000) @ '':'' @ pad 2 (t div 60000 mod 60) @
      '':'' @ pad 2 (t div 1000 mod 60) @ ''.'' @ pad 3 (t mod 1000) @ ''Z''"
    by (simp only: iso_string_def Let_def d_def t_def y_def doy_def)
  ultimately show ?thesis
    using iso_parse_fields [of y "month_of y doy" "nat (date_of y doy)" "t div 3600000"
        "t div 60000 mod 60" "t div 1000 mod 60" "t mod 1000"]
    by (simp only: mt)
qed

section \<open>What the services rely on\<close>

locale date_codec =
  fixes parse :: "string \<Rightarrow> int option"
  assumes parse_iso: "\<bar>ms\<bar> \<le> max_time \<Longrightarrow> parse (iso_string ms) = Some ms"
begin

lemma parse_toIso: "toIso ms = Some s \<Longrightarrow> parse s = Some ms"
  by (auto simp: toIso_def parse_iso split: if_splits)

lemma toIso_inj: "toIso a = Some s \<Longrightarrow> toIso b = Some s \<Longrightarrow> a = b"
  by (auto dest!: parse_toIso)

end

interpretation iso: date_codec iso_parse
  by unfold_locales (rule iso_parse_iso_string)

end
