(* ===== verification/Contracts.thy ===== *)
theory Contracts
  imports Iso_Time
begin

text \<open>
  The shared wire contracts (\<open>packages/contracts/src\<close>) and the management services' common
  errors (\<open>common/errors.ts\<close>): status enums with their wire strings, error codes and
  envelopes, event payloads, and the exceptions a service operation can leave with.
\<close>

section \<open>Status enums (enums.ts)\<close>

datatype DriverStatus = Offline | Available | OnDelivery | OnBreak

datatype DeliveryStatus =
  Created | Assigned | InTransit | Arrived | Completed | Failed | Cancelled

datatype AssignmentStatus = Pending | Accepted | Complete

datatype ZoneEventType = Enter | Exit

fun driver_status_wire :: "DriverStatus \<Rightarrow> string" where
  "driver_status_wire Offline = ''Offline''"
| "driver_status_wire Available = ''Available''"
| "driver_status_wire OnDelivery = ''On_Delivery''"
| "driver_status_wire OnBreak = ''On_Break''"

fun delivery_status_wire :: "DeliveryStatus \<Rightarrow> string" where
  "delivery_status_wire Created = ''Created''"
| "delivery_status_wire Assigned = ''Assigned''"
| "delivery_status_wire InTransit = ''In_Transit''"
| "delivery_status_wire Arrived = ''Arrived''"
| "delivery_status_wire Completed = ''Completed''"
| "delivery_status_wire Failed = ''Failed''"
| "delivery_status_wire Cancelled = ''Cancelled''"

fun assignment_status_wire :: "AssignmentStatus \<Rightarrow> string" where
  "assignment_status_wire Pending = ''Pending''"
| "assignment_status_wire Accepted = ''Accepted''"
| "assignment_status_wire Complete = ''Complete''"

fun zone_event_type_wire :: "ZoneEventType \<Rightarrow> string" where
  "zone_event_type_wire Enter = ''Enter''"
| "zone_event_type_wire Exit = ''Exit''"

definition TERMINAL_DELIVERY_STATUSES :: "DeliveryStatus list" where
  "TERMINAL_DELIVERY_STATUSES = [Completed, Failed, Cancelled]"

definition UNAVAILABLE_DRIVER_STATUSES :: "DriverStatus list" where
  "UNAVAILABLE_DRIVER_STATUSES = [Offline, OnBreak]"

text \<open>\<open>Object.values\<close> of the two enums, in declaration order.\<close>

definition all_driver_statuses :: "DriverStatus list" where
  "all_driver_statuses = [Offline, Available, OnDelivery, OnBreak]"

definition all_delivery_statuses :: "DeliveryStatus list" where
  "all_delivery_statuses = [Created, Assigned, InTransit, Arrived, Completed, Failed, Cancelled]"

lemma driver_status_wire_inj: "driver_status_wire a = driver_status_wire b \<longleftrightarrow> a = b"
  by (cases a; cases b) simp_all

lemma delivery_status_wire_inj: "delivery_status_wire a = delivery_status_wire b \<longleftrightarrow> a = b"
  by (cases a; cases b) simp_all

section \<open>Errors (errors.ts)\<close>

datatype ErrorCode =
  ValidationError | Duplicate | Conflict | InvalidTransition | UnavailableDriver | AlreadyAssigned
  | GeocodingFailure | OverLimit | AuthenticationFailed | AuthorizationDenied | StalePing | NotFound

fun error_wire :: "ErrorCode \<Rightarrow> string" where
  "error_wire ValidationError = ''validation-error''"
| "error_wire Duplicate = ''duplicate''"
| "error_wire Conflict = ''conflict''"
| "error_wire InvalidTransition = ''invalid-transition''"
| "error_wire UnavailableDriver = ''unavailable-driver''"
| "error_wire AlreadyAssigned = ''already-assigned''"
| "error_wire GeocodingFailure = ''geocoding-failure''"
| "error_wire OverLimit = ''over-limit''"
| "error_wire AuthenticationFailed = ''authentication-failed''"
| "error_wire AuthorizationDenied = ''authorization-denied''"
| "error_wire StalePing = ''stale-ping''"
| "error_wire NotFound = ''not-found''"

lemma error_wire_inj [simp]: "error_wire a = error_wire b \<longleftrightarrow> a = b"
  by (cases a; cases b) simp_all

record ErrorEnvelope =
  err_code :: string
  err_fields :: "string list"

definition makeError :: "string \<Rightarrow> string list \<Rightarrow> ErrorEnvelope" where
  "makeError error fs = \<lparr>err_code = error, err_fields = fs\<rparr>"

lemma makeError_inject [simp]: "makeError a f = makeError b g \<longleftrightarrow> a = b \<and> f = g"
  by (simp add: makeError_def)

lemma makeError_sel [simp]: "err_code (makeError a f) = a" "err_fields (makeError a f) = f"
  by (simp_all add: makeError_def)

text \<open>
  What an operation can throw: a \<open>DomainError\<close> or an \<open>AuthError\<close> with its HTTP status, and
  the \<open>RangeError\<close> of \<open>toISOString\<close> on an invalid date, or (\<open>External\<close>) whatever an external
  collaborator throws through the operation.
\<close>

datatype exn =
    DomainError ErrorEnvelope nat
  | AuthError ErrorEnvelope nat
  | RangeError
  | External string

text \<open>\<open>DomainError.of(code, fields, status)\<close>.\<close>

definition domain_error :: "ErrorCode \<Rightarrow> string list \<Rightarrow> nat \<Rightarrow> exn" where
  "domain_error c fs status = DomainError (makeError (error_wire c) fs) status"

lemma domain_error_inject [simp]:
  "domain_error c f n = domain_error d g m \<longleftrightarrow> c = d \<and> f = g \<and> n = m"
  by (simp add: domain_error_def)

lemma domain_error_eq_DomainError [simp]:
  "domain_error c f n = DomainError e m \<longleftrightarrow> e = makeError (error_wire c) f \<and> n = m"
  "DomainError e m = domain_error c f n \<longleftrightarrow> e = makeError (error_wire c) f \<and> n = m"
  by (auto simp: domain_error_def)

lemma domain_error_neq [simp]:
  "domain_error c f n \<noteq> RangeError" "RangeError \<noteq> domain_error c f n"
  "domain_error c f n \<noteq> External m" "External m \<noteq> domain_error c f n"
  by (simp_all add: domain_error_def)

text \<open>\<open>toIso(ms)\<close> as an operation: the \<open>RangeError\<close> leaves the caller.\<close>

definition iso_or_throw :: "int \<Rightarrow> exn + string" where
  "iso_or_throw ms = (case toIso ms of None \<Rightarrow> Inl RangeError | Some s \<Rightarrow> Inr s)"

lemma iso_or_throw_Inr: "iso_or_throw ms = Inr s \<longleftrightarrow> \<bar>ms\<bar> \<le> max_time \<and> s = iso_string ms"
  by (auto simp: iso_or_throw_def toIso_def)

lemma iso_or_throw_Inl: "iso_or_throw ms = Inl e \<longleftrightarrow> max_time < \<bar>ms\<bar> \<and> e = RangeError"
  by (auto simp: iso_or_throw_def toIso_def)

text \<open>\<open>if (validationError) throw new DomainError(validationError, status)\<close>.\<close>

definition throw_invalid :: "nat \<Rightarrow> ErrorEnvelope option \<Rightarrow> ('s, exn, unit) svc" where
  "throw_invalid status e = (case e of None \<Rightarrow> sret () | Some env \<Rightarrow> sthrow (DomainError env status))"

lemma sbind_throw_invalid [simp, svc]:
  "sbind (throw_invalid status e) f s =
     (case e of None \<Rightarrow> f () s | Some env \<Rightarrow> (Inl (DomainError env status), s))"
  by (simp add: throw_invalid_def split: option.split)

text \<open>A declared string argument that may be absent at run time; read only after validation.\<close>

definition str_arg :: "string option \<Rightarrow> string" where
  "str_arg v = (case v of None \<Rightarrow> [] | Some s \<Rightarrow> s)"

lemma str_arg_Some [simp]: "str_arg (Some s) = s"
  by (simp add: str_arg_def)

section \<open>Event payloads (events.ts, ping.ts)\<close>

datatype SocketEvent = EvSubscribe | EvUnsubscribe | EvPosition | EvZoneEvent | EvAssignment | EvRouteUpdate

fun socket_event_wire :: "SocketEvent \<Rightarrow> string" where
  "socket_event_wire EvSubscribe = ''subscribe''"
| "socket_event_wire EvUnsubscribe = ''unsubscribe''"
| "socket_event_wire EvPosition = ''position''"
| "socket_event_wire EvZoneEvent = ''zoneEvent''"
| "socket_event_wire EvAssignment = ''assignment''"
| "socket_event_wire EvRouteUpdate = ''routeUpdate''"

datatype SubscriptionKind = KVehicle | KDelivery

fun subscription_kind_wire :: "SubscriptionKind \<Rightarrow> string" where
  "subscription_kind_wire KVehicle = ''vehicle''"
| "subscription_kind_wire KDelivery = ''delivery''"

record SubscribePayload =
  sub_kind :: SubscriptionKind
  sub_id :: string

record Telemetry =
  tel_speed :: "jsnum option"
  tel_heading :: "jsnum option"
  tel_battery :: "jsnum option"

record PositionEvent =
  pos_vehicleId :: string
  pos_lat :: jsnum
  pos_lng :: jsnum
  pos_timestamp :: string
  pos_telemetry :: "Telemetry option"

record ZoneEventMessage =
  ze_vehicleId :: string
  ze_zoneId :: string
  ze_type :: ZoneEventType
  ze_label :: "string option"
  ze_timestamp :: string

record RouteStop =
  stop_index :: nat
  stop_deliveryIds :: "string list"
  stop_lat :: jsnum
  stop_lng :: jsnum

record AssignmentEvent =
  ae_assignmentId :: string
  ae_driverId :: string
  ae_vehicleId :: string
  ae_deliveryIds :: "string list"

record RouteUpdateEvent =
  ru_assignmentId :: string
  ru_stops :: "RouteStop list"
  ru_optimized :: bool

lemma error_codes_distinct_wires: "distinct (map error_wire [ValidationError, Duplicate, Conflict,
  InvalidTransition, UnavailableDriver, AlreadyAssigned, GeocodingFailure, OverLimit,
  AuthenticationFailed, AuthorizationDenied, StalePing, NotFound])"
  by simp

lemma in_terminal_iff [simp]:
  "s \<in> set TERMINAL_DELIVERY_STATUSES \<longleftrightarrow> s = Completed \<or> s = Failed \<or> s = Cancelled"
  by (simp add: TERMINAL_DELIVERY_STATUSES_def)

end
