(* ===== verification/Rbac.thy ===== *)
theory Rbac
  imports Contracts
begin

text \<open>
  Role-based access control of the management path (\<open>auth/roles.ts\<close>, \<open>auth/rbac.ts\<close>): the
  decision function \<open>authorize\<close> with its per-role helpers, and the middleware that turns a
  decision into a response. A principal's role is \<open>None\<close> when the token carries a value outside
  the enum, the \<open>default\<close> branch of the source's switch.
\<close>

section \<open>Model\<close>

datatype Role = Administrator | Dispatcher | DriverRole | CustomerRole

fun role_wire :: "Role \<Rightarrow> string" where
  "role_wire Administrator = ''Administrator''"
| "role_wire Dispatcher = ''Dispatcher''"
| "role_wire DriverRole = ''Driver''"
| "role_wire CustomerRole = ''Customer''"

definition all_roles :: "Role list" where
  "all_roles = [Administrator, Dispatcher, DriverRole, CustomerRole]"

fun isRole :: "jsval \<Rightarrow> bool" where
  "isRole (Str s) = (s \<in> set (map role_wire all_roles))"
| "isRole v = False"

datatype ResourceType = RDriver | RVehicle | RZone | RDelivery | RAssignment

datatype Action = ActCreate | ActUpdate | ActDeactivate | ActRead

record Principal =
  pr_role :: "Role option"
  pr_userId :: "string option"
  pr_trackingScope :: "string option"

record ResourceRef =
  rr_type :: ResourceType
  rr_ownerDriverId :: "string option"
  rr_deliveryId :: "string option"

datatype AuthDecision = Allow | Deny ErrorEnvelope

definition deny :: AuthDecision where
  "deny = Deny (makeError (error_wire AuthorizationDenied) [])"

definition WRITE_ACTIONS :: "Action list" where
  "WRITE_ACTIONS = [ActCreate, ActUpdate, ActDeactivate]"

definition ADMIN_MANAGED :: "ResourceType list" where
  "ADMIN_MANAGED = [RDriver, RVehicle, RZone]"

definition DISPATCHABLE :: "ResourceType list" where
  "DISPATCHABLE = [RDelivery, RAssignment]"

definition authorizeDispatcher :: "Action \<Rightarrow> ResourceRef \<Rightarrow> AuthDecision" where
  "authorizeDispatcher a r =
     (if a = ActRead then Allow
      else if a = ActCreate \<and> rr_type r \<in> set DISPATCHABLE then Allow
      else deny)"

definition authorizeDriver :: "Principal \<Rightarrow> Action \<Rightarrow> ResourceRef \<Rightarrow> AuthDecision" where
  "authorizeDriver p a r =
     (if a \<noteq> ActRead then deny
      else if \<not> (rr_type r = RAssignment \<or> rr_type r = RDelivery) then deny
      else if pr_userId p \<noteq> None \<and> rr_ownerDriverId r = pr_userId p then Allow
      else deny)"

definition delivery_scope :: "string \<Rightarrow> string" where
  "delivery_scope d = ''delivery:'' @ d"

definition authorizeCustomer :: "Principal \<Rightarrow> Action \<Rightarrow> ResourceRef \<Rightarrow> AuthDecision" where
  "authorizeCustomer p a r =
     (if a \<noteq> ActRead then deny
      else if rr_type r \<noteq> RDelivery then deny
      else case (pr_trackingScope p, rr_deliveryId r) of
          (Some sc, Some d) \<Rightarrow> if sc = delivery_scope d then Allow else deny
        | _ \<Rightarrow> deny)"

definition authorize :: "Principal \<Rightarrow> Action \<Rightarrow> ResourceRef \<Rightarrow> AuthDecision" where
  "authorize p a r =
     (case pr_role p of
        Some Administrator \<Rightarrow> Allow
      | Some Dispatcher \<Rightarrow> authorizeDispatcher a r
      | Some DriverRole \<Rightarrow> authorizeDriver p a r
      | Some CustomerRole \<Rightarrow> authorizeCustomer p a r
      | None \<Rightarrow> deny)"

text \<open>The middleware: a response with a status and an envelope, or a call of \<open>next\<close>.\<close>

datatype Middleware = Respond nat ErrorEnvelope | Next

record 'x AuthorizedRequest =
  req_principal :: "Principal option"
  req_rest :: 'x

definition requireAuthorization ::
    "Action \<Rightarrow> ('x AuthorizedRequest \<Rightarrow> ResourceRef) \<Rightarrow> 'x AuthorizedRequest \<Rightarrow> Middleware" where
  "requireAuthorization a resolveResource req =
     (case req_principal req of
        None \<Rightarrow> Respond 401 (makeError (error_wire AuthenticationFailed) [])
      | Some p \<Rightarrow> (case authorize p a (resolveResource req) of
            Deny e \<Rightarrow> Respond 403 e
          | Allow \<Rightarrow> Next))"

section \<open>Facts\<close>

lemma delivery_scope_inj [simp]: "delivery_scope a = delivery_scope b \<longleftrightarrow> a = b"
  by (simp add: delivery_scope_def)

lemma deny_neq_Allow [simp]: "deny \<noteq> Allow" "Allow \<noteq> deny"
  by (simp_all add: deny_def)

lemma authorizeDispatcher_Allow:
  "authorizeDispatcher a r = Allow \<longleftrightarrow>
     a = ActRead \<or> a = ActCreate \<and> (rr_type r = RDelivery \<or> rr_type r = RAssignment)"
  by (simp add: authorizeDispatcher_def DISPATCHABLE_def)

lemma authorizeDriver_Allow:
  "authorizeDriver p a r = Allow \<longleftrightarrow> a = ActRead \<and> (rr_type r = RAssignment \<or> rr_type r = RDelivery) \<and>
     (\<exists>u. pr_userId p = Some u \<and> rr_ownerDriverId r = Some u)"
  by (auto simp: authorizeDriver_def)

lemma authorizeCustomer_Allow:
  "authorizeCustomer p a r = Allow \<longleftrightarrow> a = ActRead \<and> rr_type r = RDelivery \<and>
     (\<exists>d. rr_deliveryId r = Some d \<and> pr_trackingScope p = Some (delivery_scope d))"
  by (auto simp: authorizeCustomer_def split: option.split)

lemma authorize_denies_with_envelope:
  "authorize p a r = Allow \<or> authorize p a r = deny"
  by (auto simp: authorize_def authorizeDispatcher_def authorizeDriver_def authorizeCustomer_def
      split: option.split Role.split)

lemma isRole_iff: "isRole v \<longleftrightarrow> (\<exists>r. v = Str (role_wire r))"
proof (cases v)
  case (Str s)
  have "s \<in> set (map role_wire all_roles)" if "s = role_wire r" for r
    using that by (cases r) (simp_all add: all_roles_def)
  moreover have "\<exists>r. s = role_wire r" if "s \<in> set (map role_wire all_roles)"
    using that by auto
  ultimately have "s \<in> set (map role_wire all_roles) \<longleftrightarrow> (\<exists>r. s = role_wire r)"
    by blast
  with Str show ?thesis by simp
qed auto

section \<open>Properties\<close>

text \<open>
  C14. The whole permission matrix: exactly which (role, action, resource) triples are allowed.
  Administrators may do everything; dispatchers read everything and create deliveries and
  assignments only; a driver reads only assignments and deliveries owned by that driver; a
  customer reads only the delivery named by the tracking scope; an unknown role gets nothing.
\<close>

theorem authorize_matrix:
  "authorize p a r = Allow \<longleftrightarrow>
     (case pr_role p of
        Some Administrator \<Rightarrow> True
      | Some Dispatcher \<Rightarrow> a = ActRead \<or> a = ActCreate \<and> rr_type r \<in> {RDelivery, RAssignment}
      | Some DriverRole \<Rightarrow> a = ActRead \<and> rr_type r \<in> {RDelivery, RAssignment} \<and>
          (\<exists>u. pr_userId p = Some u \<and> rr_ownerDriverId r = Some u)
      | Some CustomerRole \<Rightarrow> a = ActRead \<and> rr_type r = RDelivery \<and>
          (\<exists>d. rr_deliveryId r = Some d \<and> pr_trackingScope p = Some (delivery_scope d))
      | None \<Rightarrow> False)"
  by (auto simp: authorize_def authorizeDispatcher_Allow authorizeDriver_Allow
      authorizeCustomer_Allow split: option.split Role.split)

text \<open>
  Confinement of writes: whoever is allowed to create, update or deactivate a driver, a
  vehicle or a zone is an administrator, and whoever may update or deactivate anything is one.
\<close>

theorem admin_managed_writes:
  assumes "authorize p a r = Allow" and "a \<in> set WRITE_ACTIONS"
    and "rr_type r \<in> set ADMIN_MANAGED \<or> a \<noteq> ActCreate"
  shows "pr_role p = Some Administrator"
  using assms
  by (auto simp: authorize_def authorizeDispatcher_Allow authorizeDriver_Allow
      authorizeCustomer_Allow WRITE_ACTIONS_def ADMIN_MANAGED_def split: option.splits Role.splits)

theorem admin_managed_writes_witness:
  "pr_role \<lparr>pr_role = Some Administrator, pr_userId = None, pr_trackingScope = None\<rparr> = Some Administrator"
proof -
  let ?p = "\<lparr>pr_role = Some Administrator, pr_userId = None, pr_trackingScope = None\<rparr>"
  let ?r = "\<lparr>rr_type = RZone, rr_ownerDriverId = None, rr_deliveryId = None\<rparr>"
  show ?thesis
    by (rule admin_managed_writes [of ?p ActUpdate ?r])
      (simp_all add: authorize_def WRITE_ACTIONS_def ADMIN_MANAGED_def)
qed

text \<open>
  The middleware lets a request through exactly when it carries a principal that is
  authorized; an anonymous request is answered 401, a denied one 403 with the
  authorization-denied envelope.
\<close>

theorem requireAuthorization_spec:
  "requireAuthorization a resolve req =
     (case req_principal req of
        None \<Rightarrow> Respond 401 \<lparr>err_code = ''authentication-failed'', err_fields = []\<rparr>
      | Some p \<Rightarrow> if authorize p a (resolve req) = Allow then Next
          else Respond 403 \<lparr>err_code = ''authorization-denied'', err_fields = []\<rparr>)"
proof (cases "req_principal req")
  case None
  then show ?thesis by (simp add: requireAuthorization_def makeError_def)
next
  case (Some p)
  then show ?thesis
    using authorize_denies_with_envelope [of p a "resolve req"]
    by (auto simp: requireAuthorization_def deny_def makeError_def)
qed

end
