(* ===== verification/Stores.thy ===== *)
theory Stores
  imports Contracts
begin

text \<open>
  The interface between the services and their repositories. The source declares one
  \<open>...Repository\<close> interface per entity (\<open>insert\<close>/\<open>save\<close>, \<open>findById\<close>, \<open>list\<close>); the laws a
  service relies on are the locale \<open>keyed_store\<close>. \<open>indexed_store\<close> adds a lookup by a second
  unique key (a driver's email, a vehicle's identifier). Every in-memory repository of the
  development interprets them.
\<close>

section \<open>Stores with one key\<close>

locale keyed_store =
  fixes put :: "'v \<Rightarrow> 'r \<Rightarrow> 'r"
    and look :: "'r \<Rightarrow> string \<Rightarrow> 'v option"
    and all :: "'r \<Rightarrow> 'v list"
    and key :: "'v \<Rightarrow> string"
    and ok :: "'r \<Rightarrow> bool"
  assumes look_put: "ok r \<Longrightarrow> look (put v r) k = (if k = key v then Some v else look r k)"
    and ok_put: "ok r \<Longrightarrow> ok (put v r)"
    and look_key: "ok r \<Longrightarrow> look r k = Some v \<Longrightarrow> key v = k"
    and all_look: "ok r \<Longrightarrow> v \<in> set (all r) \<longleftrightarrow> look r (key v) = Some v"
    and all_distinct: "ok r \<Longrightarrow> distinct (map key (all r))"
begin

lemma put_look_same: "ok r \<Longrightarrow> look (put v r) (key v) = Some v"
  by (simp add: look_put)

lemma put_look_other: "ok r \<Longrightarrow> k \<noteq> key v \<Longrightarrow> look (put v r) k = look r k"
  by (simp add: look_put)

lemma all_put: "ok r \<Longrightarrow> set (all (put v r)) = insert v {w \<in> set (all r). key w \<noteq> key v}"
  by (auto simp: all_look ok_put look_put split: if_splits)

lemma keys_put: "ok r \<Longrightarrow> key ` set (all (put v r)) = insert (key v) (key ` set (all r))"
  by (auto simp: all_put)

lemma all_keyI: "ok r \<Longrightarrow> look r k = Some v \<Longrightarrow> v \<in> set (all r)"
  using look_key by (simp add: all_look)

lemma all_determined: "ok r \<Longrightarrow> v \<in> set (all r) \<Longrightarrow> w \<in> set (all r) \<Longrightarrow> key v = key w \<Longrightarrow> v = w"
  by (simp add: all_look)

text \<open>Saving the records of a list one after another, as the services' loops do.\<close>

lemma ok_put_list: "ok r \<Longrightarrow> ok (foldl (\<lambda>r v. put v r) r vs)"
  by (induction vs arbitrary: r) (auto intro: ok_put)

lemma look_put_list:
  "ok r \<Longrightarrow> look (foldl (\<lambda>r v. put v r) r vs) k =
     (case List.find (\<lambda>v. key v = k) (rev vs) of None \<Rightarrow> look r k | Some v \<Rightarrow> Some v)"
proof (induction vs rule: rev_induct)
  case Nil
  then show ?case by simp
next
  case (snoc v vs)
  then show ?case by (auto simp: look_put ok_put_list)
qed

lemma look_put_list_other:
  "ok r \<Longrightarrow> k \<notin> key ` set vs \<Longrightarrow> look (foldl (\<lambda>r v. put v r) r vs) k = look r k"
  by (auto simp: look_put_list split: option.split dest!: find_SomeD)

text \<open>Saving a changed copy of some stored records.\<close>

lemma look_put_copies:
  assumes ok: "ok r" and copies: "\<And>v. v \<in> set vs \<Longrightarrow> \<exists>w. look r (key v) = Some w \<and> v = f w"
  shows "look (foldl (\<lambda>r v. put v r) r vs) k = (if k \<in> key ` set vs then map_option f (look r k) else look r k)"
proof (cases "k \<in> key ` set vs")
  case True
  then obtain u where "u \<in> set vs" "key u = k" by auto
  then have "List.find (\<lambda>v. key v = k) (rev vs) \<noteq> None"
    using find_NoneD [of "\<lambda>v. key v = k" "rev vs" u] by auto
  then obtain v where v: "List.find (\<lambda>v. key v = k) (rev vs) = Some v" by blast
  with find_SomeD [OF v] copies [of v] True show ?thesis
    by (auto simp: look_put_list [OF ok])
next
  case False
  with ok show ?thesis by (simp add: look_put_list_other)
qed

lemma all_pred_put:
  "ok r \<Longrightarrow> (\<forall>w \<in> set (all r). P w) \<Longrightarrow> P v \<Longrightarrow> \<forall>w \<in> set (all (put v r)). P w"
  by (auto simp: all_put)

end

section \<open>A second unique key\<close>

text \<open>
  \<open>find_by\<close> looks a record up by a normalised second key. Its laws are kept by a \<open>put\<close> that
  is \<open>compatible\<close>: the record keeps the second key it had, and no other record has it.
\<close>

locale indexed_store = keyed_store +
  fixes find_by :: "'r \<Rightarrow> string \<Rightarrow> 'v option"
    and ix :: "'v \<Rightarrow> string"
    and norm :: "string \<Rightarrow> string"
    and indexed :: "'r \<Rightarrow> bool"
  assumes find_by_iff: "ok r \<Longrightarrow> indexed r \<Longrightarrow>
      find_by r x = Some v \<longleftrightarrow> v \<in> set (all r) \<and> norm (ix v) = norm x"
    and indexed_put: "ok r \<Longrightarrow> indexed r \<Longrightarrow> key v \<noteq> [] \<Longrightarrow>
      (\<forall>w. look r (key v) = Some w \<longrightarrow> norm (ix w) = norm (ix v)) \<Longrightarrow>
      (\<forall>w \<in> set (all r). norm (ix w) = norm (ix v) \<longrightarrow> key w = key v) \<Longrightarrow> indexed (put v r)"
begin

lemma indexed_unique:
  assumes "ok r" "indexed r" "v \<in> set (all r)" "w \<in> set (all r)" "norm (ix v) = norm (ix w)"
  shows "v = w"
proof -
  have "find_by r (ix v) = Some v" "find_by r (ix v) = Some w"
    using assms by (simp_all add: find_by_iff)
  then show ?thesis by simp
qed

lemma find_by_None_iff:
  assumes "ok r" "indexed r"
  shows "find_by r x = None \<longleftrightarrow> (\<forall>v \<in> set (all r). norm (ix v) \<noteq> norm x)"
  using find_by_iff [OF assms, of x] by (metis not_Some_eq)

text \<open>A fresh record whose second key was looked up and not found.\<close>

lemma indexed_put_fresh:
  assumes "ok r" "indexed r" "key v \<noteq> []" "look r (key v) = None" "find_by r (ix v) = None"
  shows "indexed (put v r)"
  using assms by (intro indexed_put) (auto simp: find_by_None_iff)

text \<open>A stored record replaced by one with the same keys.\<close>

lemma indexed_put_update:
  assumes "ok r" "indexed r" "look r (key v) = Some w" "key v \<noteq> []" "ix v = ix w"
  shows "indexed (put v r)"
proof -
  have w: "w \<in> set (all r)" "key w = key v"
    using assms all_keyI look_key by blast+
  have "key u = key v" if "u \<in> set (all r)" "norm (ix u) = norm (ix v)" for u
    using indexed_unique [OF assms(1,2) w(1) that(1)] that(2) assms(5) w(2) by simp
  then show ?thesis
    using assms by (intro indexed_put) auto
qed

end

section \<open>In-memory implementation\<close>

text \<open>
  The repositories hold a \<open>Map\<close> from id to record; \<open>insert\<close> and \<open>save\<close> both set the entry
  (the copies \<open>{...record}\<close> are values here). \<open>store_ok\<close> is the invariant of such a \<open>Map\<close>.
\<close>

definition store_ok :: "('v \<Rightarrow> string) \<Rightarrow> (string, 'v) jsmap \<Rightarrow> bool" where
  "store_ok key m \<longleftrightarrow> distinct (map_keys m) \<and> (\<forall>e \<in> set m. key (snd e) = fst e)"

lemma store_ok_Nil [simp]: "store_ok key []"
  by (simp add: store_ok_def)

lemma store_ok_set: "store_ok key m \<Longrightarrow> store_ok key (map_set (key v) v m)"
proof -
  have "(\<forall>e \<in> set m. key (snd e) = fst e) \<Longrightarrow> \<forall>e \<in> set (map_set (key v) v m). key (snd e) = fst e"
    by (induction m) auto
  then show "store_ok key m \<Longrightarrow> store_ok key (map_set (key v) v m)"
    by (simp add: store_ok_def)
qed

lemma store_ok_look: "store_ok key m \<Longrightarrow> map_get m k = Some v \<Longrightarrow> key v = k"
  by (auto simp: store_ok_def dest: map_of_SomeD)

lemma store_ok_all: "store_ok key m \<Longrightarrow> v \<in> set (map_values m) \<longleftrightarrow> map_get m (key v) = Some v"
  using set_map_values [of m v] store_ok_look [of key m _ v]
  by (auto simp: store_ok_def simp del: set_map)

lemma store_ok_keys: "store_ok key m \<Longrightarrow> map key (map_values m) = map_keys m"
  by (simp add: store_ok_def)

lemma store_ok_distinct: "store_ok key m \<Longrightarrow> distinct (map key (map_values m))"
  by (simp only: store_ok_keys) (simp add: store_ok_def)

lemma store_ok_distinct_comp: "store_ok key m \<Longrightarrow> distinct (map (key \<circ> snd) m)"
  using store_ok_distinct [of key m] by simp

lemmas store_ok_laws = store_ok_set store_ok_look store_ok_all store_ok_distinct store_ok_distinct_comp

text \<open>
  A second \<open>Map\<close> from the normalised second key to the id. \<open>index_ok\<close>: it names exactly the
  stored records, and the empty id (falsy in the lookups) is not in use.
\<close>

definition index_ok :: "('v \<Rightarrow> string) \<Rightarrow> (string, 'v) jsmap \<Rightarrow> (string, string) jsmap \<Rightarrow> bool" where
  "index_ok nx m ixm \<longleftrightarrow>
     (\<forall>e i. map_get ixm e = Some i \<longleftrightarrow> (\<exists>v. map_get m i = Some v \<and> nx v = e)) \<and> map_get m [] = None"

text \<open>\<open>const id = index.get(e); found = id ? byId.get(id) : undefined\<close>.\<close>

definition index_find :: "(string, 'v) jsmap \<Rightarrow> (string, string) jsmap \<Rightarrow> string \<Rightarrow> 'v option" where
  "index_find m ixm e = (case map_get ixm e of
     None \<Rightarrow> None | Some i \<Rightarrow> if i = [] then None else map_get m i)"

lemma index_ok_Nil [simp]: "index_ok nx [] []"
  by (simp add: index_ok_def)

lemma index_ok_set:
  assumes ok: "index_ok nx m ixm" and ne: "k \<noteq> []"
    and same: "\<And>w. map_get m k = Some w \<Longrightarrow> nx w = nx v"
    and uniq: "\<And>i w. map_get m i = Some w \<Longrightarrow> nx w = nx v \<Longrightarrow> i = k"
  shows "index_ok nx (map_set k v m) (map_set (nx v) k ixm)"
proof -
  have ix: "map_get ixm e = Some i \<longleftrightarrow> (\<exists>v. map_get m i = Some v \<and> nx v = e)" for e i
    using ok by (simp add: index_ok_def)
  have "map_get (map_set (nx v) k ixm) e = Some i \<longleftrightarrow>
      (\<exists>w. map_get (map_set k v m) i = Some w \<and> nx w = e)" for e i
  proof (cases "e = nx v")
    case True
    then show ?thesis using uniq by auto
  next
    case False
    then show ?thesis using ix [of e i] same by auto
  qed
  with ok ne show ?thesis by (simp add: index_ok_def)
qed

lemma index_find_iff:
  assumes "index_ok nx m ixm" "store_ok key m"
  shows "index_find m ixm e = Some v \<longleftrightarrow> map_get m (key v) = Some v \<and> nx v = e"
proof
  assume "index_find m ixm e = Some v"
  then obtain i where "map_get ixm e = Some i" "map_get m i = Some v"
    by (auto simp: index_find_def split: option.splits if_splits)
  then show "map_get m (key v) = Some v \<and> nx v = e"
    using assms store_ok_look [OF assms(2)] by (auto simp: index_ok_def)
next
  assume v: "map_get m (key v) = Some v \<and> nx v = e"
  then have "map_get ixm e = Some (key v)" "key v \<noteq> []"
    using assms(1) by (auto simp: index_ok_def)
  with v show "index_find m ixm e = Some v" by (simp add: index_find_def)
qed

end
