(* ===== verification/Validation.thy ===== *)
theory Validation
  imports Contracts
begin

text \<open>
  The request validators of \<open>validation/validators.ts\<close>. A payload is a record of dynamic
  values; the result is \<open>None\<close> (the source's \<open>null\<close>) or the validation-error envelope. The
  lemmas give each validator's envelope in closed form: which fields, in which order.
\<close>

section \<open>Predicates on values\<close>

definition LAT_MIN :: real where "LAT_MIN = -90"
definition LAT_MAX :: real where "LAT_MAX = 90"
definition LNG_MIN :: real where "LNG_MIN = -180"
definition LNG_MAX :: real where "LNG_MAX = 180"
definition WEIGHT_MIN_EXCLUSIVE :: real where "WEIGHT_MIN_EXCLUSIVE = 0"
definition WEIGHT_MAX :: real where "WEIGHT_MAX = 1000"
definition ZONE_MIN_VERTICES :: real where "ZONE_MIN_VERTICES = 3"
definition ZONE_MAX_VERTICES :: real where "ZONE_MAX_VERTICES = 1000"

lemmas bounds_defs = LAT_MIN_def LAT_MAX_def LNG_MIN_def LNG_MAX_def WEIGHT_MIN_EXCLUSIVE_def
  WEIGHT_MAX_def ZONE_MIN_VERTICES_def ZONE_MAX_VERTICES_def

fun isMissing :: "jsval \<Rightarrow> bool" where
  "isMissing Undefined = True"
| "isMissing Null = True"
| "isMissing (Str s) = (length (js_trim s) = 0)"
| "isMissing (Num x) = is_nan x"
| "isMissing v = False"

fun isValidLatitude :: "jsval \<Rightarrow> bool" where
  "isValidLatitude (Num x) = (js_le (Fin LAT_MIN) x \<and> js_le x (Fin LAT_MAX))"
| "isValidLatitude v = False"

fun isValidLongitude :: "jsval \<Rightarrow> bool" where
  "isValidLongitude (Num x) = (js_le (Fin LNG_MIN) x \<and> js_le x (Fin LNG_MAX))"
| "isValidLongitude v = False"

fun isValidWeight :: "jsval \<Rightarrow> bool" where
  "isValidWeight (Num x) = (js_lt (Fin WEIGHT_MIN_EXCLUSIVE) x \<and> js_le x (Fin WEIGHT_MAX))"
| "isValidWeight v = False"

fun isValidVertexCount :: "jsval \<Rightarrow> bool" where
  "isValidVertexCount (Num x) = (is_integer_num x \<and> js_le (Fin ZONE_MIN_VERTICES) x \<and>
     js_le x (Fin ZONE_MAX_VERTICES))"
| "isValidVertexCount v = False"

section \<open>FieldCollector\<close>

record FieldCollector =
  fc_seen :: "string set"
  fc_fields :: "string list"

definition fc_new :: FieldCollector where
  "fc_new = \<lparr>fc_seen = {}, fc_fields = []\<rparr>"

definition fc_add :: "FieldCollector \<Rightarrow> string \<Rightarrow> FieldCollector" where
  "fc_add c f = (if f \<notin> fc_seen c then c\<lparr>fc_seen := insert f (fc_seen c), fc_fields := fc_fields c @ [f]\<rparr>
     else c)"

definition fc_toError :: "FieldCollector \<Rightarrow> ErrorEnvelope option" where
  "fc_toError c = (if length (fc_fields c) = 0 then None
     else Some (makeError (error_wire ValidationError) (fc_fields c)))"

text \<open>\<open>if (bad) c.add(field)\<close>, and the loop over the required fields.\<close>

definition add_if :: "bool \<Rightarrow> string \<Rightarrow> FieldCollector \<Rightarrow> FieldCollector" where
  "add_if bad f c = (if bad then fc_add c f else c)"

fun collect_missing :: "(string \<Rightarrow> jsval) \<Rightarrow> string list \<Rightarrow> FieldCollector \<Rightarrow> FieldCollector" where
  "collect_missing get [] c = c"
| "collect_missing get (f # fs) c = collect_missing get fs (add_if (isMissing (get f)) f c)"

definition fc_ok :: "FieldCollector \<Rightarrow> bool" where
  "fc_ok c \<longleftrightarrow> fc_seen c = set (fc_fields c) \<and> distinct (fc_fields c)"

lemma fc_ok_new [simp]: "fc_ok fc_new"
  by (simp add: fc_ok_def fc_new_def)

lemma fc_ok_add_if [simp]: "fc_ok c \<Longrightarrow> fc_ok (add_if b f c)"
  by (simp add: fc_ok_def add_if_def fc_add_def)

lemma fc_ok_collect [simp]: "fc_ok c \<Longrightarrow> fc_ok (collect_missing get fs c)"
  by (induction fs arbitrary: c) auto

lemma fc_fields_add_if:
  "fc_ok c \<Longrightarrow> fc_fields (add_if b f c) = (if b \<and> f \<notin> set (fc_fields c) then fc_fields c @ [f] else fc_fields c)"
  by (simp add: fc_ok_def add_if_def fc_add_def)

lemma fc_fields_collect:
  assumes "fc_ok c" "distinct fs" "set fs \<inter> set (fc_fields c) = {}"
  shows "fc_fields (collect_missing get fs c) = fc_fields c @ filter (\<lambda>f. isMissing (get f)) fs"
  using assms
proof (induction fs arbitrary: c)
  case Nil
  then show ?case by simp
next
  case (Cons f fs)
  then have "fc_fields (collect_missing get fs (add_if (isMissing (get f)) f c)) =
      fc_fields (add_if (isMissing (get f)) f c) @ filter (\<lambda>f. isMissing (get f)) fs"
    by (intro Cons.IH) (auto simp: fc_fields_add_if)
  with Cons.prems show ?case by (simp add: fc_fields_add_if)
qed

lemma fc_fields_collect_new:
  "distinct fs \<Longrightarrow> fc_fields (collect_missing get fs fc_new) = filter (\<lambda>f. isMissing (get f)) fs"
  using fc_fields_collect [of fc_new fs get] by (simp add: fc_new_def fc_ok_def)

lemma fc_toError_eq:
  "fc_toError c = (if fc_fields c = [] then None else Some (makeError (error_wire ValidationError) (fc_fields c)))"
  by (simp add: fc_toError_def)

section \<open>Validators\<close>

record DriverInput =
  di_name :: jsval
  di_email :: jsval
  di_phone :: jsval
  di_licenseNumber :: jsval

definition driver_field :: "DriverInput \<Rightarrow> string \<Rightarrow> jsval" where
  "driver_field i f = (if f = ''name'' then di_name i else if f = ''email'' then di_email i
     else if f = ''phone'' then di_phone i else if f = ''licenseNumber'' then di_licenseNumber i
     else Undefined)"

definition driver_required :: "string list" where
  "driver_required = [''name'', ''email'', ''phone'', ''licenseNumber'']"

definition validateDriverInput :: "DriverInput \<Rightarrow> ErrorEnvelope option" where
  "validateDriverInput i = fc_toError (collect_missing (driver_field i) driver_required fc_new)"

record PingInput =
  pi_vehicleId :: jsval
  pi_lat :: jsval
  pi_lng :: jsval
  pi_timestamp :: jsval

definition ping_field :: "PingInput \<Rightarrow> string \<Rightarrow> jsval" where
  "ping_field i f = (if f = ''vehicleId'' then pi_vehicleId i else if f = ''lat'' then pi_lat i
     else if f = ''lng'' then pi_lng i else if f = ''timestamp'' then pi_timestamp i
     else Undefined)"

definition ping_required :: "string list" where
  "ping_required = [''vehicleId'', ''lat'', ''lng'', ''timestamp'']"

definition validatePingInput :: "PingInput \<Rightarrow> ErrorEnvelope option" where
  "validatePingInput i =
     (let c = collect_missing (ping_field i) ping_required fc_new;
          c = add_if (\<not> isMissing (pi_lat i) \<and> \<not> isValidLatitude (pi_lat i)) ''lat'' c;
          c = add_if (\<not> isMissing (pi_lng i) \<and> \<not> isValidLongitude (pi_lng i)) ''lng'' c
      in fc_toError c)"

record DeliveryInput =
  dl_address :: jsval
  dl_recipientName :: jsval
  dl_recipientContact :: jsval
  dl_weightKg :: jsval

definition delivery_field :: "DeliveryInput \<Rightarrow> string \<Rightarrow> jsval" where
  "delivery_field i f = (if f = ''address'' then dl_address i
     else if f = ''recipientName'' then dl_recipientName i
     else if f = ''recipientContact'' then dl_recipientContact i
     else if f = ''weightKg'' then dl_weightKg i else Undefined)"

definition delivery_required :: "string list" where
  "delivery_required = [''address'', ''recipientName'', ''recipientContact'', ''weightKg'']"

definition validateDeliveryInput :: "DeliveryInput \<Rightarrow> ErrorEnvelope option" where
  "validateDeliveryInput i =
     (let c = collect_missing (delivery_field i) delivery_required fc_new;
          c = add_if (\<not> isMissing (dl_weightKg i) \<and> \<not> isValidWeight (dl_weightKg i)) ''weightKg'' c
      in fc_toError c)"

record ZoneInput =
  zi_name :: jsval
  zi_vertices :: jsval

definition vertices_invalid :: "jsval \<Rightarrow> bool" where
  "vertices_invalid v = (case v of
       Undefined \<Rightarrow> True | Null \<Rightarrow> True
     | Arr vs \<Rightarrow> \<not> isValidVertexCount (Num (Fin (of_nat (length vs))))
     | _ \<Rightarrow> True)"

definition validateZoneInput :: "ZoneInput \<Rightarrow> ErrorEnvelope option" where
  "validateZoneInput i =
     (let c = add_if (isMissing (zi_name i)) ''name'' fc_new;
          c = add_if (vertices_invalid (zi_vertices i)) ''vertices'' c
      in fc_toError c)"

section \<open>Closed forms\<close>

text \<open>A payload is answered with the envelope of the offending fields, or with \<open>null\<close>.\<close>

definition envelope_of :: "string list \<Rightarrow> ErrorEnvelope option" where
  "envelope_of fs = (if fs = [] then None else Some (makeError (error_wire ValidationError) fs))"

lemma envelope_of_None [simp]: "envelope_of fs = None \<longleftrightarrow> fs = []"
  by (simp add: envelope_of_def)

lemma validateDriverInput_eq:
  "validateDriverInput i = envelope_of (filter (\<lambda>f. isMissing (driver_field i f)) driver_required)"
  by (simp add: validateDriverInput_def fc_toError_eq fc_fields_collect_new envelope_of_def
      driver_required_def del: filter.simps collect_missing.simps)

lemma validateDriverInput_None_iff:
  "validateDriverInput i = None \<longleftrightarrow> \<not> isMissing (di_name i) \<and> \<not> isMissing (di_email i) \<and>
     \<not> isMissing (di_phone i) \<and> \<not> isMissing (di_licenseNumber i)"
  by (simp add: validateDriverInput_eq driver_required_def driver_field_def)

definition bad_delivery_field :: "DeliveryInput \<Rightarrow> string \<Rightarrow> bool" where
  "bad_delivery_field i f \<longleftrightarrow> isMissing (delivery_field i f) \<or> f = ''weightKg'' \<and> \<not> isValidWeight (dl_weightKg i)"

definition bad_ping_field :: "PingInput \<Rightarrow> string \<Rightarrow> bool" where
  "bad_ping_field i f \<longleftrightarrow> isMissing (ping_field i f) \<or> f = ''lat'' \<and> \<not> isValidLatitude (pi_lat i) \<or>
     f = ''lng'' \<and> \<not> isValidLongitude (pi_lng i)"

lemma validateDeliveryInput_eq:
  "validateDeliveryInput i = envelope_of (filter (bad_delivery_field i) delivery_required)"
proof -
  have d: "distinct delivery_required" by (simp add: delivery_required_def)
  show ?thesis
    by (simp add: validateDeliveryInput_def fc_toError_eq fc_fields_add_if fc_fields_collect_new [OF d]
        envelope_of_def)
      (auto simp: delivery_required_def bad_delivery_field_def delivery_field_def)
qed

lemma validateDeliveryInput_None_iff:
  "validateDeliveryInput i = None \<longleftrightarrow> \<not> isMissing (dl_address i) \<and> \<not> isMissing (dl_recipientName i) \<and>
     \<not> isMissing (dl_recipientContact i) \<and> isValidWeight (dl_weightKg i)"
proof -
  have "isValidWeight v \<Longrightarrow> \<not> isMissing v" for v
    by (cases v) (auto simp: is_nan_def)
  then show ?thesis
    by (auto simp: validateDeliveryInput_eq delivery_required_def bad_delivery_field_def delivery_field_def)
qed

lemma isValidWeight_iff: "isValidWeight v \<longleftrightarrow> (\<exists>x. v = Num (Fin x) \<and> 0 < x \<and> x \<le> 1000)"
proof (cases v)
  case (Num n)
  then show ?thesis by (cases n) (auto simp: bounds_defs js_le_def js_eq_def)
qed auto

lemma isValidLatitude_iff: "isValidLatitude v \<longleftrightarrow> (\<exists>x. v = Num (Fin x) \<and> -90 \<le> x \<and> x \<le> 90)"
  by (cases v) (auto simp: bounds_defs js_between_finite)

lemma isValidLongitude_iff: "isValidLongitude v \<longleftrightarrow> (\<exists>x. v = Num (Fin x) \<and> -180 \<le> x \<and> x \<le> 180)"
  by (cases v) (auto simp: bounds_defs js_between_finite)

lemma isValidVertexCount_of_nat [simp]:
  "isValidVertexCount (Num (Fin (of_nat n))) \<longleftrightarrow> 3 \<le> n \<and> n \<le> 1000"
  by (auto simp: bounds_defs)

lemma validatePingInput_eq:
  "validatePingInput i = (let miss = filter (\<lambda>f. isMissing (ping_field i f)) ping_required;
     lat = (if \<not> isMissing (pi_lat i) \<and> \<not> isValidLatitude (pi_lat i) then [''lat''] else []);
     lng = (if \<not> isMissing (pi_lng i) \<and> \<not> isValidLongitude (pi_lng i) then [''lng''] else [])
   in envelope_of (miss @ lat @ lng))"
proof -
  have d: "distinct ping_required" by (simp add: ping_required_def)
  show ?thesis
    by (simp add: validatePingInput_def Let_def fc_toError_eq fc_fields_add_if fc_fields_collect_new [OF d]
        envelope_of_def)
      (auto simp: ping_required_def ping_field_def)
qed

lemma validatePingInput_None_iff:
  "validatePingInput i = None \<longleftrightarrow> \<not> isMissing (pi_vehicleId i) \<and> isValidLatitude (pi_lat i) \<and>
     isValidLongitude (pi_lng i) \<and> \<not> isMissing (pi_timestamp i)"
proof -
  have "isValidLatitude v \<Longrightarrow> \<not> isMissing v" "isValidLongitude v \<Longrightarrow> \<not> isMissing v" for v
    by (cases v; auto simp: is_nan_def)+
  then show ?thesis
    by (auto simp: validatePingInput_eq Let_def ping_required_def ping_field_def split: if_splits)
qed

lemma validateZoneInput_eq:
  "validateZoneInput i = envelope_of ((if isMissing (zi_name i) then [''name''] else []) @
     (if vertices_invalid (zi_vertices i) then [''vertices''] else []))"
  by (simp add: validateZoneInput_def fc_toError_eq fc_fields_add_if envelope_of_def)
    (auto simp: fc_new_def)

lemma vertices_invalid_iff:
  "\<not> vertices_invalid v \<longleftrightarrow> (\<exists>vs. v = Arr vs \<and> 3 \<le> length vs \<and> length vs \<le> 1000)"
  by (cases v) (auto simp: vertices_invalid_def simp del: isValidVertexCount.simps)

end
