(* ===== verification/Drivers.thy ===== *)
theory Drivers
  imports Stores Validation
begin

text \<open>
  The driver component: \<open>drivers/driver-repository.ts\<close> (the record and the in-memory
  repository with its email index), \<open>drivers/driver-status.ts\<close> (the availability state
  machine) and \<open>drivers/driver-service.ts\<close>. A service operation takes the results of the
  injected clock and id generator as arguments and the parser \<open>Date.parse\<close>, and runs on the
  service's state: the repository and the table \<open>lastStamp\<close>.
\<close>

section \<open>Repository\<close>

record Driver =
  drv_id :: string
  drv_name :: string
  drv_email :: string
  drv_phone :: string
  drv_licenseNumber :: string
  drv_status :: DriverStatus
  drv_active :: bool
  drv_createdAt :: string
  drv_updatedAt :: string

record DriverUpdate =
  du_name :: "string option"
  du_phone :: "string option"
  du_licenseNumber :: "string option"
  du_status :: "DriverStatus option"

record DriverRepo =
  dr_byId :: "(string, Driver) jsmap"
  dr_emailIndex :: "(string, string) jsmap"

definition driver_repo_new :: DriverRepo where
  "driver_repo_new = \<lparr>dr_byId = [], dr_emailIndex = []\<rparr>"

definition driver_save :: "Driver \<Rightarrow> DriverRepo \<Rightarrow> DriverRepo" where
  "driver_save d r = r\<lparr>dr_byId := map_set (drv_id d) d (dr_byId r),
     dr_emailIndex := map_set (js_lower (drv_email d)) (drv_id d) (dr_emailIndex r)\<rparr>"

definition driver_insert :: "Driver \<Rightarrow> DriverRepo \<Rightarrow> DriverRepo" where
  "driver_insert d r = r\<lparr>dr_byId := map_set (drv_id d) d (dr_byId r),
     dr_emailIndex := map_set (js_lower (drv_email d)) (drv_id d) (dr_emailIndex r)\<rparr>"

definition driver_findById :: "DriverRepo \<Rightarrow> string \<Rightarrow> Driver option" where
  "driver_findById r i = map_get (dr_byId r) i"

text \<open>An empty id is falsy: \<open>id ? this.byId.get(id) : undefined\<close>.\<close>

definition driver_findByEmail :: "DriverRepo \<Rightarrow> string \<Rightarrow> Driver option" where
  "driver_findByEmail r email =
     (case map_get (dr_emailIndex r) (js_lower email) of
        None \<Rightarrow> None
      | Some i \<Rightarrow> if i = [] then None else map_get (dr_byId r) i)"

definition driver_list :: "DriverRepo \<Rightarrow> DriverStatus option \<Rightarrow> Driver list" where
  "driver_list r status =
     (case status of None \<Rightarrow> map_values (dr_byId r)
      | Some s \<Rightarrow> filter (\<lambda>d. drv_status d = s) (map_values (dr_byId r)))"

abbreviation driver_all :: "DriverRepo \<Rightarrow> Driver list" where
  "driver_all r \<equiv> driver_list r None"

definition driver_repo_ok :: "DriverRepo \<Rightarrow> bool" where
  "driver_repo_ok r \<longleftrightarrow> store_ok drv_id (dr_byId r)"

text \<open>The email index names exactly the stored drivers, and no two of them share an email.\<close>

definition email_key :: "Driver \<Rightarrow> string" where
  "email_key d = js_lower (drv_email d)"

definition email_indexed :: "DriverRepo \<Rightarrow> bool" where
  "email_indexed r \<longleftrightarrow> index_ok email_key (dr_byId r) (dr_emailIndex r)"

lemma driver_insert_eq_save: "driver_insert = driver_save"
  by (simp add: fun_eq_iff driver_insert_def driver_save_def)

lemma driver_repo_new_ok [simp]: "driver_repo_ok driver_repo_new" "email_indexed driver_repo_new"
  by (simp_all add: driver_repo_ok_def driver_repo_new_def email_indexed_def)

lemma driver_all_new [simp]: "driver_all driver_repo_new = []"
  by (simp add: driver_repo_new_def driver_list_def)

lemma driver_findByEmail_eq:
  "driver_findByEmail r e = index_find (dr_byId r) (dr_emailIndex r) (js_lower e)"
  by (simp add: driver_findByEmail_def index_find_def)

interpretation drv: keyed_store driver_save driver_findById driver_all drv_id driver_repo_ok
  by unfold_locales
    (auto simp: driver_save_def driver_findById_def driver_list_def driver_repo_ok_def
      store_ok_laws simp del: set_map)

interpretation drvix: indexed_store driver_save driver_findById driver_all drv_id driver_repo_ok
  driver_findByEmail drv_email js_lower email_indexed
proof unfold_locales
  fix r x and v :: Driver
  assume "driver_repo_ok r" "email_indexed r"
  then show "driver_findByEmail r x = Some v \<longleftrightarrow> v \<in> set (driver_all r) \<and> js_lower (drv_email v) = js_lower x"
    by (simp add: driver_findByEmail_eq email_indexed_def driver_repo_ok_def driver_list_def store_ok_all
        index_find_iff email_key_def del: set_map)
next
  fix r and v :: Driver
  assume r: "driver_repo_ok r" "email_indexed r" "drv_id v \<noteq> []"
    and same: "\<forall>w. driver_findById r (drv_id v) = Some w \<longrightarrow> js_lower (drv_email w) = js_lower (drv_email v)"
    and uniq: "\<forall>w \<in> set (driver_all r). js_lower (drv_email w) = js_lower (drv_email v) \<longrightarrow> drv_id w = drv_id v"
  have "index_ok email_key (map_set (drv_id v) v (dr_byId r))
      (map_set (email_key v) (drv_id v) (dr_emailIndex r))"
  proof (rule index_ok_set)
    show "index_ok email_key (dr_byId r) (dr_emailIndex r)"
      using r(2) by (simp only: email_indexed_def)
    show "drv_id v \<noteq> []" by (rule r(3))
  next
    fix w assume "map_get (dr_byId r) (drv_id v) = Some w"
    with same show "email_key w = email_key v"
      by (simp only: driver_findById_def email_key_def)
  next
    fix i w assume w: "map_get (dr_byId r) i = Some w" and e: "email_key w = email_key v"
    then have "w \<in> set (driver_all r)" "drv_id w = i"
      using drv.all_keyI [OF r(1)] drv.look_key [OF r(1)] by (simp_all only: driver_findById_def)
    with uniq e show "i = drv_id v" by (simp only: email_key_def)
  qed
  then show "email_indexed (driver_save v r)"
    by (simp add: email_indexed_def driver_save_def email_key_def)
qed

section \<open>Availability state machine\<close>

definition DRIVER_SETTABLE_STATUSES :: "DriverStatus list" where
  "DRIVER_SETTABLE_STATUSES = [Available, OnBreak, Offline]"

fun DRIVER_TRANSITIONS :: "DriverStatus \<Rightarrow> DriverStatus list" where
  "DRIVER_TRANSITIONS Offline = [Available]"
| "DRIVER_TRANSITIONS Available = [OnBreak, Offline]"
| "DRIVER_TRANSITIONS OnBreak = [Available, Offline]"
| "DRIVER_TRANSITIONS OnDelivery = []"

definition isDriverSettableTransition :: "DriverStatus \<Rightarrow> DriverStatus \<Rightarrow> bool" where
  "isDriverSettableTransition from to =
     (if to \<notin> set DRIVER_SETTABLE_STATUSES then False else to \<in> set (DRIVER_TRANSITIONS from))"

definition isEligibleStatus :: "DriverStatus \<Rightarrow> bool" where
  "isEligibleStatus s \<longleftrightarrow> s = Available"

section \<open>Service\<close>

record CreateDriverInput =
  cdi_name :: "string option"
  cdi_email :: "string option"
  cdi_phone :: "string option"
  cdi_licenseNumber :: "string option"

record DriverSvc =
  ds_repo :: DriverRepo
  ds_lastStamp :: "(string, int) jsmap"
  ds_counter :: nat

definition driver_svc_new :: DriverSvc where
  "driver_svc_new = \<lparr>ds_repo = driver_repo_new, ds_lastStamp = [], ds_counter = 0\<rparr>"

text \<open>
  \<open>nextStampFor\<close>: an absent stamp and an unparseable date count as \<open>Number.NEGATIVE_INFINITY\<close>
  in \<open>Math.max\<close>, that is, not at all.
\<close>

definition floor_above :: "int option \<Rightarrow> int \<Rightarrow> int" where
  "floor_above prev m = (case prev of None \<Rightarrow> m | Some t \<Rightarrow> max m (t + 1))"

definition driver_nextStampFor ::
    "(string \<Rightarrow> int option) \<Rightarrow> int \<Rightarrow> Driver option \<Rightarrow> (DriverSvc, exn, int) svc" where
  "driver_nextStampFor parse clockNow current =
     (case current of
        None \<Rightarrow> sret clockNow
      | Some d \<Rightarrow>
          sbind (sget (\<lambda>s. map_get (ds_lastStamp s) (drv_id d))) (\<lambda>prevTracked.
          let fl = floor_above (parse (drv_updatedAt d)) (floor_above prevTracked clockNow) in
          sbind (smodify (\<lambda>s. s\<lparr>ds_lastStamp := map_set (drv_id d) fl (ds_lastStamp s)\<rparr>)) (\<lambda>_.
          sret fl)))"

definition driver_require :: "string \<Rightarrow> (DriverSvc, exn, Driver) svc" where
  "driver_require i = sbind (sget (\<lambda>s. driver_findById (ds_repo s) i))
     (srequire (domain_error NotFound [''id''] 404))"

definition driver_put :: "Driver \<Rightarrow> (DriverSvc, exn, Driver) svc" where
  "driver_put d = sbind (smodify (\<lambda>s. s\<lparr>ds_repo := driver_save d (ds_repo s)\<rparr>)) (\<lambda>_. sret d)"

definition driver_create ::
    "(string \<Rightarrow> int option) \<Rightarrow> id_source \<Rightarrow> int \<Rightarrow> CreateDriverInput \<Rightarrow> (DriverSvc, exn, Driver) svc" where
  "driver_create parse src clockNow inp =
     sbind (throw_invalid 400 (validateDriverInput
       \<lparr>di_name = of_str_opt (cdi_name inp), di_email = of_str_opt (cdi_email inp),
        di_phone = of_str_opt (cdi_phone inp), di_licenseNumber = of_str_opt (cdi_licenseNumber inp)\<rparr>)) (\<lambda>_.
     sbind (sget (\<lambda>s. driver_findByEmail (ds_repo s) (str_arg (cdi_email inp)))) (\<lambda>existing.
     sbind (sreject (existing \<noteq> None) (domain_error Duplicate [''email''] 409)) (\<lambda>_.
     sbind (driver_nextStampFor parse clockNow None) (\<lambda>now.
     sbind (slift (iso_or_throw now)) (\<lambda>iso.
     sbind (sget ds_counter) (\<lambda>n.
     let (newId, n') = next_id ''drv'' src n;
         d = \<lparr>drv_id = newId, drv_name = str_arg (cdi_name inp), drv_email = str_arg (cdi_email inp),
              drv_phone = str_arg (cdi_phone inp), drv_licenseNumber = str_arg (cdi_licenseNumber inp),
              drv_status = Offline, drv_active = True, drv_createdAt = iso, drv_updatedAt = iso\<rparr> in
     sbind (smodify (\<lambda>s. s\<lparr>ds_counter := n'\<rparr>)) (\<lambda>_.
     sbind (smodify (\<lambda>s. s\<lparr>ds_lastStamp := map_set (drv_id d) now (ds_lastStamp s)\<rparr>)) (\<lambda>_.
     sbind (smodify (\<lambda>s. s\<lparr>ds_repo := driver_insert d (ds_repo s)\<rparr>)) (\<lambda>_.
     sret d)))))))))"

text \<open>\<open>{...current, <changes>, updatedAt: toIso(this.nextStampFor(current))}\<close>, then \<open>save\<close>.\<close>

definition driver_touch ::
    "(string \<Rightarrow> int option) \<Rightarrow> int \<Rightarrow> Driver \<Rightarrow> (Driver \<Rightarrow> Driver) \<Rightarrow> (DriverSvc, exn, Driver) svc" where
  "driver_touch parse clockNow current change =
     sbind (driver_nextStampFor parse clockNow (Some current)) (\<lambda>stamp.
     sbind (slift (iso_or_throw stamp)) (\<lambda>iso.
     driver_put ((change current)\<lparr>drv_updatedAt := iso\<rparr>)))"

definition driver_update ::
    "(string \<Rightarrow> int option) \<Rightarrow> int \<Rightarrow> string \<Rightarrow> DriverUpdate \<Rightarrow> (DriverSvc, exn, Driver) svc" where
  "driver_update parse clockNow i ch =
     sbind (driver_require i) (\<lambda>current.
     driver_touch parse clockNow current (\<lambda>c. c\<lparr>drv_name := or_else (du_name ch) (drv_name c),
       drv_phone := or_else (du_phone ch) (drv_phone c),
       drv_licenseNumber := or_else (du_licenseNumber ch) (drv_licenseNumber c),
       drv_status := or_else (du_status ch) (drv_status c)\<rparr>))"

definition driver_deactivate ::
    "(string \<Rightarrow> int option) \<Rightarrow> int \<Rightarrow> string \<Rightarrow> (DriverSvc, exn, Driver) svc" where
  "driver_deactivate parse clockNow i =
     sbind (driver_require i) (\<lambda>current.
     driver_touch parse clockNow current (\<lambda>c. c\<lparr>drv_active := False\<rparr>))"

definition driver_service_list :: "DriverStatus option \<Rightarrow> (DriverSvc, exn, Driver list) svc" where
  "driver_service_list status = sget (\<lambda>s. driver_list (ds_repo s) status)"

definition driver_setAvailability ::
    "(string \<Rightarrow> int option) \<Rightarrow> int \<Rightarrow> string \<Rightarrow> DriverStatus \<Rightarrow> (DriverSvc, exn, Driver) svc" where
  "driver_setAvailability parse clockNow i target =
     sbind (driver_require i) (\<lambda>current.
     sbind (sreject (\<not> isDriverSettableTransition (drv_status current) target)
       (domain_error InvalidTransition [''status''] 409)) (\<lambda>_.
     driver_touch parse clockNow current (\<lambda>c. c\<lparr>drv_status := target\<rparr>)))"

definition driver_beginDelivery ::
    "(string \<Rightarrow> int option) \<Rightarrow> int \<Rightarrow> string \<Rightarrow> (DriverSvc, exn, Driver) svc" where
  "driver_beginDelivery parse clockNow i =
     sbind (driver_require i) (\<lambda>current.
     sbind (sreject (drv_status current \<noteq> Available) (domain_error InvalidTransition [''status''] 409)) (\<lambda>_.
     driver_touch parse clockNow current (\<lambda>c. c\<lparr>drv_status := OnDelivery\<rparr>)))"

definition driver_completeDelivery ::
    "(string \<Rightarrow> int option) \<Rightarrow> int \<Rightarrow> string \<Rightarrow> (DriverSvc, exn, Driver) svc" where
  "driver_completeDelivery parse clockNow i =
     sbind (driver_require i) (\<lambda>current.
     sbind (sreject (drv_status current \<noteq> OnDelivery) (domain_error InvalidTransition [''status''] 409)) (\<lambda>_.
     driver_touch parse clockNow current (\<lambda>c. c\<lparr>drv_status := Available\<rparr>)))"

definition isEligibleForAssignment :: "Driver \<Rightarrow> bool" where
  "isEligibleForAssignment d \<longleftrightarrow> drv_active d \<and> isEligibleStatus (drv_status d)"

section \<open>Operations in closed form\<close>

lemmas driver_repo_sel = driver_save_def driver_insert_eq_save

lemma driver_stamp_None [simp]: "driver_nextStampFor parse now None = sret now"
  by (simp add: driver_nextStampFor_def)

definition stamp_after :: "(string \<Rightarrow> int option) \<Rightarrow> int \<Rightarrow> Driver \<Rightarrow> DriverSvc \<Rightarrow> int" where
  "stamp_after parse now d s =
     floor_above (parse (drv_updatedAt d)) (floor_above (map_get (ds_lastStamp s) (drv_id d)) now)"

definition set_stamp :: "string \<Rightarrow> int \<Rightarrow> DriverSvc \<Rightarrow> DriverSvc" where
  "set_stamp i t s = s\<lparr>ds_lastStamp := map_set i t (ds_lastStamp s)\<rparr>"

lemma set_stamp_repo [simp]: "ds_repo (set_stamp i t s) = ds_repo s" "ds_counter (set_stamp i t s) = ds_counter s"
  by (simp_all add: set_stamp_def)

lemma driver_touch_eq:
  "driver_touch parse now c f s =
     (let t = stamp_after parse now c s; s1 = set_stamp (drv_id c) t s in
      case iso_or_throw t of Inl e \<Rightarrow> (Inl e, s1)
      | Inr ts \<Rightarrow> (let d = (f c)\<lparr>drv_updatedAt := ts\<rparr> in (Inr d, s1\<lparr>ds_repo := driver_save d (ds_repo s)\<rparr>)))"
  by (simp add: driver_touch_def driver_nextStampFor_def driver_put_def stamp_after_def set_stamp_def Let_def
      split: sum.split)

lemma driver_require_bind:
  "sbind (driver_require i) f s = (case driver_findById (ds_repo s) i of
     None \<Rightarrow> (Inl (domain_error NotFound [''id''] 404), s) | Some d \<Rightarrow> f d s)"
  by (simp add: driver_require_def split: option.split)

section \<open>Requests\<close>

text \<open>One request to the service, with the readings of the clocks it takes.\<close>

datatype DriverOp =
    OpCreate nat int CreateDriverInput
  | OpUpdate int string DriverUpdate
  | OpDeactivate int string
  | OpSetAvailability int string DriverStatus
  | OpBeginDelivery int string
  | OpCompleteDelivery int string

fun driver_exec :: "(string \<Rightarrow> int option) \<Rightarrow> DriverOp \<Rightarrow> (DriverSvc, exn, Driver) svc" where
  "driver_exec parse (OpCreate t now inp) = driver_create parse (Stamped t) now inp"
| "driver_exec parse (OpUpdate now i ch) = driver_update parse now i ch"
| "driver_exec parse (OpDeactivate now i) = driver_deactivate parse now i"
| "driver_exec parse (OpSetAvailability now i st) = driver_setAvailability parse now i st"
| "driver_exec parse (OpBeginDelivery now i) = driver_beginDelivery parse now i"
| "driver_exec parse (OpCompleteDelivery now i) = driver_completeDelivery parse now i"

fun driver_run :: "(string \<Rightarrow> int option) \<Rightarrow> DriverOp list \<Rightarrow> DriverSvc \<Rightarrow> DriverSvc" where
  "driver_run parse [] s = s"
| "driver_run parse (x # xs) s = driver_run parse xs (snd (driver_exec parse x s))"

text \<open>
  Every request but a creation is: find the driver, reject on a guard, stamp and save. The
  guard and the change of an operation:
\<close>

fun op_target :: "DriverOp \<Rightarrow> (int \<times> string) option" where
  "op_target (OpCreate t now inp) = None"
| "op_target (OpUpdate now i ch) = Some (now, i)"
| "op_target (OpDeactivate now i) = Some (now, i)"
| "op_target (OpSetAvailability now i st) = Some (now, i)"
| "op_target (OpBeginDelivery now i) = Some (now, i)"
| "op_target (OpCompleteDelivery now i) = Some (now, i)"

fun op_guard :: "DriverOp \<Rightarrow> Driver \<Rightarrow> bool" where
  "op_guard (OpSetAvailability now i st) d = isDriverSettableTransition (drv_status d) st"
| "op_guard (OpBeginDelivery now i) d = (drv_status d = Available)"
| "op_guard (OpCompleteDelivery now i) d = (drv_status d = OnDelivery)"
| "op_guard _ d = True"

fun op_change :: "DriverOp \<Rightarrow> Driver \<Rightarrow> Driver" where
  "op_change (OpUpdate now i ch) d = d\<lparr>drv_name := or_else (du_name ch) (drv_name d),
       drv_phone := or_else (du_phone ch) (drv_phone d),
       drv_licenseNumber := or_else (du_licenseNumber ch) (drv_licenseNumber d),
       drv_status := or_else (du_status ch) (drv_status d)\<rparr>"
| "op_change (OpDeactivate now i) d = d\<lparr>drv_active := False\<rparr>"
| "op_change (OpSetAvailability now i st) d = d\<lparr>drv_status := st\<rparr>"
| "op_change (OpBeginDelivery now i) d = d\<lparr>drv_status := OnDelivery\<rparr>"
| "op_change (OpCompleteDelivery now i) d = d\<lparr>drv_status := Available\<rparr>"
| "op_change (OpCreate t now inp) d = d"

lemma op_change_keeps [simp]:
  "drv_id (op_change op d) = drv_id d" "drv_email (op_change op d) = drv_email d"
  "drv_createdAt (op_change op d) = drv_createdAt d"
  by (cases op; simp)+

lemma driver_exec_target:
  assumes "op_target op = Some (now, i)"
  shows "driver_exec parse op s = (case driver_findById (ds_repo s) i of
      None \<Rightarrow> (Inl (domain_error NotFound [''id''] 404), s)
    | Some d \<Rightarrow> if op_guard op d then driver_touch parse now d (op_change op) s
        else (Inl (domain_error InvalidTransition [''status''] 409), s))"
  using assms
  by (cases op) (auto simp: driver_update_def driver_deactivate_def driver_setAvailability_def
      driver_beginDelivery_def driver_completeDelivery_def driver_require_bind driver_touch_def
      driver_nextStampFor_def driver_put_def Let_def split: option.split sum.split)

lemma driver_create_eq:
  "driver_create parse src now inp s =
     (case validateDriverInput \<lparr>di_name = of_str_opt (cdi_name inp), di_email = of_str_opt (cdi_email inp),
        di_phone = of_str_opt (cdi_phone inp), di_licenseNumber = of_str_opt (cdi_licenseNumber inp)\<rparr> of
       Some env \<Rightarrow> (Inl (DomainError env 400), s)
     | None \<Rightarrow> if driver_findByEmail (ds_repo s) (str_arg (cdi_email inp)) \<noteq> None
         then (Inl (domain_error Duplicate [''email''] 409), s)
         else case iso_or_throw now of Inl e \<Rightarrow> (Inl e, s)
           | Inr ts \<Rightarrow> (let (newId, n') = next_id ''drv'' src (ds_counter s);
               d = \<lparr>drv_id = newId, drv_name = str_arg (cdi_name inp), drv_email = str_arg (cdi_email inp),
                 drv_phone = str_arg (cdi_phone inp), drv_licenseNumber = str_arg (cdi_licenseNumber inp),
                 drv_status = Offline, drv_active = True, drv_createdAt = ts, drv_updatedAt = ts\<rparr>
             in (Inr d, s\<lparr>ds_repo := driver_save d (ds_repo s),
                  ds_lastStamp := map_set newId now (ds_lastStamp s), ds_counter := n'\<rparr>)))"
  by (simp add: driver_create_def driver_insert_eq_save Let_def split: option.split sum.split prod.split)

section \<open>Invariant\<close>

definition driver_svc_ok :: "DriverSvc \<Rightarrow> bool" where
  "driver_svc_ok s \<longleftrightarrow> driver_repo_ok (ds_repo s) \<and> email_indexed (ds_repo s) \<and>
     (\<forall>d \<in> set (driver_all (ds_repo s)). issued ''drv'' (ds_counter s) (drv_id d))"

lemma driver_svc_new_ok [simp]: "driver_svc_ok driver_svc_new"
  by (simp add: driver_svc_ok_def driver_svc_new_def)

lemma driver_svc_okD:
  assumes "driver_svc_ok s"
  shows "driver_repo_ok (ds_repo s)" "email_indexed (ds_repo s)"
    "d \<in> set (driver_all (ds_repo s)) \<Longrightarrow> issued ''drv'' (ds_counter s) (drv_id d)"
  using assms by (simp_all add: driver_svc_ok_def)

lemma driver_svc_ok_fresh:
  assumes "driver_svc_ok s"
  shows "driver_findById (ds_repo s) (stamped_id ''drv'' t (Suc (ds_counter s))) = None"
proof (rule ccontr)
  assume "driver_findById (ds_repo s) (stamped_id ''drv'' t (Suc (ds_counter s))) \<noteq> None"
  then obtain d where d: "driver_findById (ds_repo s) (stamped_id ''drv'' t (Suc (ds_counter s))) = Some d"
    by blast
  note r = driver_svc_okD(1) [OF assms]
  have "issued ''drv'' (ds_counter s) (stamped_id ''drv'' t (Suc (ds_counter s)))"
    using driver_svc_okD(3) [OF assms drv.all_keyI [OF r d]] drv.look_key [OF r d] by simp
  then show False using issued_fresh by blast
qed

lemma driver_svc_ok_create:
  assumes ok: "driver_svc_ok s"
  shows "driver_svc_ok (snd (driver_create parse (Stamped t) now inp s))"
proof -
  let ?k = "stamped_id ''drv'' t (Suc (ds_counter s))"
  have "driver_svc_ok (s\<lparr>ds_repo := driver_save d (ds_repo s), ds_lastStamp := l, ds_counter := Suc (ds_counter s)\<rparr>)"
    if "drv_id d = ?k" "driver_findByEmail (ds_repo s) (drv_email d) = None" for d l
  proof -
    note r = driver_svc_okD(1,2) [OF ok]
    have "email_indexed (driver_save d (ds_repo s))"
      using that r driver_svc_ok_fresh [OF ok] by (intro drvix.indexed_put_fresh) simp_all
    moreover have "\<forall>e \<in> set (driver_all (driver_save d (ds_repo s))). issued ''drv'' (Suc (ds_counter s)) (drv_id e)"
      using that driver_svc_okD(3) [OF ok] by (intro drv.all_pred_put r) (auto intro: issued_Suc issued_new)
    ultimately show ?thesis
      using r by (simp add: driver_svc_ok_def drv.ok_put)
  qed
  with ok show ?thesis
    by (simp add: driver_create_eq Let_def split: option.split sum.split)
qed

lemma driver_svc_ok_touch:
  assumes ok: "driver_svc_ok s" and d: "driver_findById (ds_repo s) i = Some d"
    and f: "drv_id (f d) = drv_id d" "drv_email (f d) = drv_email d"
  shows "driver_svc_ok (snd (driver_touch parse now d f s))"
proof -
  note r = driver_svc_okD(1,2) [OF ok]
  have i: "drv_id d = i" by (rule drv.look_key [OF r(1) d])
  have iss: "issued ''drv'' (ds_counter s) i"
    using driver_svc_okD(3) [OF ok drv.all_keyI [OF r(1) d]] i by simp
  then have ne: "i \<noteq> []" by (auto simp: issued_def)
  have "driver_svc_ok (s'\<lparr>ds_repo := driver_save e (ds_repo s)\<rparr>)"
    if "drv_id e = i" "drv_email e = drv_email d" "ds_counter s' = ds_counter s" for e s'
  proof -
    have "email_indexed (driver_save e (ds_repo s))"
      using that d ne by (intro drvix.indexed_put_update [OF r, where w = d]) simp_all
    moreover have "\<forall>e \<in> set (driver_all (driver_save e (ds_repo s))). issued ''drv'' (ds_counter s) (drv_id e)"
      using that iss driver_svc_okD(3) [OF ok] by (intro drv.all_pred_put r) auto
    ultimately show ?thesis
      using r that by (simp add: driver_svc_ok_def drv.ok_put)
  qed
  moreover have "driver_svc_ok (set_stamp i t s)" for t
    using ok by (simp add: driver_svc_ok_def)
  ultimately show ?thesis
    using f i by (simp add: driver_touch_eq Let_def split: sum.split)
qed

lemma driver_svc_ok_exec: "driver_svc_ok s \<Longrightarrow> driver_svc_ok (snd (driver_exec parse op s))"
proof (cases "op_target op")
  case None
  then show "driver_svc_ok s \<Longrightarrow> ?thesis"
    by (cases op) (simp_all add: driver_svc_ok_create)
next
  case (Some p)
  then obtain now i where "op_target op = Some (now, i)" by (cases p) auto
  then show "driver_svc_ok s \<Longrightarrow> ?thesis"
    by (simp add: driver_exec_target driver_svc_ok_touch split: option.split)
qed

lemma driver_svc_ok_run: "driver_svc_ok s \<Longrightarrow> driver_svc_ok (driver_run parse ops s)"
  by (induction ops arbitrary: s) (auto intro: driver_svc_ok_exec)

section \<open>Properties\<close>

text \<open>
  C9. Emails stay unique: after any sequence of requests to a fresh service (ids from the
  default generator), no two stored drivers have emails equal up to case.
\<close>

theorem driver_emails_unique:
  "distinct (map (\<lambda>d. js_lower (drv_email d)) (driver_all (ds_repo (driver_run parse ops driver_svc_new))))"
proof -
  let ?r = "ds_repo (driver_run parse ops driver_svc_new)"
  have r: "driver_repo_ok ?r" "email_indexed ?r"
    using driver_svc_okD(1,2) [OF driver_svc_ok_run [OF driver_svc_new_ok]] by auto
  have "distinct (driver_all ?r)"
    using drv.all_distinct [OF r(1)] by (simp add: distinct_map)
  moreover have "inj_on (\<lambda>d. js_lower (drv_email d)) (set (driver_all ?r))"
    using drvix.indexed_unique [OF r] by (auto intro: inj_onI)
  ultimately show ?thesis by (simp add: distinct_map)
qed

text \<open>
  Every request is atomic on the repository: when it throws, the repository is what it was;
  when it returns a driver, that driver is stored under its id and no other entry changed.
\<close>

theorem driver_exec_atomic:
  "case driver_exec parse op s of
     (Inl e, s') \<Rightarrow> ds_repo s' = ds_repo s
   | (Inr d, s') \<Rightarrow> driver_findById (ds_repo s') = (driver_findById (ds_repo s))(drv_id d \<mapsto> d)"
proof (cases "op_target op")
  case None
  then show ?thesis
    by (cases op) (auto simp: driver_create_eq Let_def driver_findById_def driver_save_def fun_eq_iff
        split: option.splits sum.splits)
next
  case (Some p)
  then obtain now i where "op_target op = Some (now, i)" by (cases p) auto
  then show ?thesis
    by (auto simp: driver_exec_target driver_touch_eq Let_def driver_findById_def driver_save_def fun_eq_iff
        split: option.splits sum.splits)
qed

text \<open>
  What a creation does. On success the driver is new, Offline and active, carries the
  submitted fields and the clock's time, and is found by id and by its email in any case; a
  failure is exactly one of: missing fields (400, listed in order), an email in use (409), or
  an unrepresentable clock value.
\<close>

theorem driver_create_outcome:
  assumes "driver_svc_ok s"
  shows "case driver_create parse (Stamped t) now inp s of
      (Inr d, s') \<Rightarrow>
        driver_findById (ds_repo s) (drv_id d) = None \<and> driver_findById (ds_repo s') (drv_id d) = Some d \<and>
        (js_lower e = js_lower (drv_email d) \<longleftrightarrow> driver_findByEmail (ds_repo s') e = Some d) \<and>
        drv_status d = Offline \<and> drv_active d \<and>
        [Some (drv_name d), Some (drv_email d), Some (drv_phone d), Some (drv_licenseNumber d)] =
          [cdi_name inp, cdi_email inp, cdi_phone inp, cdi_licenseNumber inp] \<and>
        drv_createdAt d = iso_string now \<and> drv_updatedAt d = iso_string now
    | (Inl x, s') \<Rightarrow> s' = s \<and>
        (let missing = map fst (filter (\<lambda>f. isMissing (of_str_opt (snd f)))
           [(''name'', cdi_name inp), (''email'', cdi_email inp), (''phone'', cdi_phone inp),
            (''licenseNumber'', cdi_licenseNumber inp)])
         in if missing \<noteq> [] then x = domain_error ValidationError missing 400
            else if driver_findByEmail (ds_repo s) (str_arg (cdi_email inp)) \<noteq> None
              then x = domain_error Duplicate [''email''] 409
            else x = RangeError \<and> max_time < \<bar>now\<bar>)"
proof -
  let ?i = "\<lparr>di_name = of_str_opt (cdi_name inp), di_email = of_str_opt (cdi_email inp),
        di_phone = of_str_opt (cdi_phone inp), di_licenseNumber = of_str_opt (cdi_licenseNumber inp)\<rparr>"
  let ?res = "driver_create parse (Stamped t) now inp s"
  have arg: "Some (str_arg v) = v" if "\<not> isMissing (of_str_opt v)" for v
    using that by (cases v) auto
  have missing: "filter (\<lambda>f. isMissing (driver_field ?i f)) driver_required =
      map fst (filter (\<lambda>f. isMissing (of_str_opt (snd f)))
           [(''name'', cdi_name inp), (''email'', cdi_email inp), (''phone'', cdi_phone inp),
            (''licenseNumber'', cdi_licenseNumber inp)])"
    by (simp add: driver_required_def driver_field_def)
  show ?thesis
  proof (cases "validateDriverInput ?i")
    case (Some env)
    then show ?thesis
      unfolding driver_create_eq validateDriverInput_eq missing
      by (auto simp: envelope_of_def Let_def domain_error_def split: if_splits)
  next
    case None
    note valid = None [unfolded validateDriverInput_None_iff, simplified]
    consider (dup) "driver_findByEmail (ds_repo s) (str_arg (cdi_email inp)) \<noteq> None"
      | (range) "driver_findByEmail (ds_repo s) (str_arg (cdi_email inp)) = None" "max_time < \<bar>now\<bar>"
      | (ok) "driver_findByEmail (ds_repo s) (str_arg (cdi_email inp)) = None" "\<bar>now\<bar> \<le> max_time"
      by linarith
    then show ?thesis
    proof cases
      case ok
      have fresh: "driver_findById (ds_repo s) (stamped_id ''drv'' t (Suc (ds_counter s))) = None"
        by (rule driver_svc_ok_fresh [OF assms])
      obtain d s' where res: "?res = (Inr d, s')" and d: "drv_id d = stamped_id ''drv'' t (Suc (ds_counter s))"
          "ds_repo s' = driver_save d (ds_repo s)"
        using None ok by (auto simp: driver_create_eq Let_def iso_or_throw_def toIso_def)
      have "driver_svc_ok s'"
        using driver_svc_ok_create [OF assms, of parse t now inp] res by simp
      note r' = driver_svc_okD(1,2) [OF this]
      have stored: "driver_findById (ds_repo s') (drv_id d) = Some d"
        using drv.put_look_same [OF driver_svc_okD(1) [OF assms]] d(2) by simp
      have byEmail: "js_lower e = js_lower (drv_email d) \<longleftrightarrow> driver_findByEmail (ds_repo s') e = Some d"
        using drvix.find_by_iff [OF r', of e d] drv.all_keyI [OF r'(1) stored] by auto
      show ?thesis
        using None ok res d fresh stored byEmail valid
        by (auto simp: driver_create_eq Let_def iso_or_throw_def toIso_def arg)
    qed (use None valid in \<open>auto simp: driver_create_eq Let_def iso_or_throw_def toIso_def\<close>)
  qed
qed

lemma driver_exec_InrD:
  assumes "op_target op = Some (now, i)" and "driver_exec parse op s = (Inr d', s')"
  obtains d ts where "driver_findById (ds_repo s) i = Some d" and "op_guard op d"
    and "iso_or_throw (stamp_after parse now d s) = Inr ts"
    and "d' = (op_change op d)\<lparr>drv_updatedAt := ts\<rparr>"
    and "s' = (set_stamp (drv_id d) (stamp_after parse now d s) s)\<lparr>ds_repo := driver_save d' (ds_repo s)\<rparr>"
  using assms
  by (auto simp: driver_exec_target driver_touch_eq Let_def split: option.splits if_splits sum.splits)

lemma stamp_after_bounds:
  "now \<le> stamp_after parse now d s"
  "parse (drv_updatedAt d) = Some p \<Longrightarrow> p < stamp_after parse now d s"
  "map_get (ds_lastStamp s) (drv_id d) = Some t \<Longrightarrow> t < stamp_after parse now d s"
  by (auto simp: stamp_after_def floor_above_def split: option.split)

text \<open>
  C33. The update timestamp of a driver strictly increases with every successful request on it,
  even when the clock stands still or runs backwards: the new \<open>updatedAt\<close> parses to a time after
  the old one, after the last stamp issued for the driver, and not before the clock's reading.
\<close>

theorem driver_updatedAt_increases:
  assumes codec: "\<And>ms. \<bar>ms\<bar> \<le> max_time \<Longrightarrow> parse (iso_string ms) = Some ms"
    and op: "op_target op = Some (now, i)"
    and found: "driver_findById (ds_repo s) i = Some d"
    and ok: "driver_repo_ok (ds_repo s)"
    and run: "driver_exec parse op s = (Inr d', s')"
  shows "\<exists>q. parse (drv_updatedAt d') = Some q \<and> now \<le> q \<and> map_get (ds_lastStamp s') i = Some q \<and>
     (parse (drv_updatedAt d) = Some p \<longrightarrow> p < q) \<and> (map_get (ds_lastStamp s) i = Some t \<longrightarrow> t < q)"
proof -
  obtain ts where ts: "iso_or_throw (stamp_after parse now d s) = Inr ts"
    and d': "drv_updatedAt d' = ts" and s': "ds_lastStamp s' = ds_lastStamp (set_stamp (drv_id d) (stamp_after parse now d s) s)"
    using op run by (rule driver_exec_InrD) (auto simp: found)
  have "drv_id d = i" by (rule drv.look_key [OF ok found])
  moreover have "parse ts = Some (stamp_after parse now d s)"
    using ts codec by (auto simp: iso_or_throw_Inr)
  ultimately show ?thesis
    using stamp_after_bounds [where parse = parse and d = d and s = s and now = now]
    by (auto simp: d' s' set_stamp_def)
qed

text \<open>A sample driver and a service that holds only that driver.\<close>

definition sample_driver :: Driver where
  "sample_driver = \<lparr>drv_id = ''a'', drv_name = ''Ann'', drv_email = ''Ann@x'', drv_phone = ''1'',
     drv_licenseNumber = ''L'', drv_status = Available, drv_active = True,
     drv_createdAt = iso_string 0, drv_updatedAt = iso_string 0\<rparr>"

definition sample_svc :: DriverSvc where
  "sample_svc = \<lparr>ds_repo = driver_save sample_driver driver_repo_new, ds_lastStamp = [(''a'', 5)], ds_counter = 0\<rparr>"

lemma sample_svc_facts [simp]:
  "driver_findById (ds_repo sample_svc) ''a'' = Some sample_driver"
  "driver_repo_ok (ds_repo sample_svc)"
  "drv_status sample_driver = Available" "drv_id sample_driver = ''a''"
  by (simp_all add: sample_svc_def driver_findById_def driver_save_def driver_repo_new_def
      sample_driver_def driver_repo_ok_def store_ok_def)

lemma sample_svc_exec:
  assumes "op_target op = Some (3, ''a'')" "op_guard op sample_driver"
  shows "\<exists>d' s'. driver_exec iso_parse op sample_svc = (Inr d', s')"
proof -
  have "iso_parse (iso_string 0) = Some 0" by (rule iso_parse_iso_string) (simp add: max_time_def)
  then have "stamp_after iso_parse 3 sample_driver sample_svc = 6"
    by (simp add: stamp_after_def floor_above_def sample_svc_def sample_driver_def)
  with assms show ?thesis
    by (simp add: driver_exec_target driver_touch_eq iso_or_throw_def toIso_def max_time_def Let_def)
qed

theorem driver_updatedAt_increases_witness:
  "\<exists>d' s' q. driver_exec iso_parse (OpDeactivate 3 ''a'') sample_svc = (Inr d', s') \<and>
     iso_parse (drv_updatedAt d') = Some q \<and> 5 < q"
proof -
  obtain d' s' where run: "driver_exec iso_parse (OpDeactivate 3 ''a'') sample_svc = (Inr d', s')"
    using sample_svc_exec [of "OpDeactivate 3 ''a''"] by auto
  moreover have "map_get (ds_lastStamp sample_svc) ''a'' = Some 5" by (simp add: sample_svc_def)
  moreover from driver_updatedAt_increases [OF iso_parse_iso_string _ _ _ run,
      where now = 3 and i = "''a''" and d = sample_driver and p = 0 and t = 5]
  have "map_get (ds_lastStamp sample_svc) ''a'' = Some 5 \<longrightarrow> (\<exists>q. iso_parse (drv_updatedAt d') = Some q \<and> 5 < q)" by auto
  ultimately show ?thesis by blast
qed

text \<open>The edges of the availability machine, each with the kind of request that takes it.\<close>

inductive status_edge :: "DriverOp \<Rightarrow> DriverStatus \<Rightarrow> DriverStatus \<Rightarrow> bool" where
  go_online: "status_edge (OpSetAvailability now i Available) Offline Available"
| take_break: "status_edge (OpSetAvailability now i OnBreak) Available OnBreak"
| go_offline: "status_edge (OpSetAvailability now i Offline) Available Offline"
| resume: "status_edge (OpSetAvailability now i Available) OnBreak Available"
| break_offline: "status_edge (OpSetAvailability now i Offline) OnBreak Offline"
| dispatch: "status_edge (OpBeginDelivery now i) Available OnDelivery"
| finish: "status_edge (OpCompleteDelivery now i) OnDelivery Available"
| keep: "status_edge (OpDeactivate now i) st st"

code_pred status_edge .

inductive_cases status_edge_from_delivery: "status_edge op OnDelivery st"

lemma settable_edges:
  "isDriverSettableTransition a b \<longleftrightarrow> status_edge (OpSetAvailability now i b) a b"
  by (cases a; cases b)
    (auto simp: isDriverSettableTransition_def DRIVER_SETTABLE_STATUSES_def
      intro: status_edge.intros elim: status_edge.cases)

text \<open>
  C11. The availability machine. A request other than an explicit update moves a driver's status
  only along these edges, and each edge belongs to one kind of request: the driver's own changes
  between Offline, Available and On_Break, dispatch from Available to On_Delivery, and completion
  back to Available. In particular On_Delivery is never left by the driver's own request.
\<close>

theorem driver_status_edges:
  assumes "op_target op = Some (now, i)" and "\<And>ch. op \<noteq> OpUpdate now i ch"
    and "driver_exec parse op s = (Inr d', s')"
  shows "\<exists>d. driver_findById (ds_repo s) i = Some d \<and> status_edge op (drv_status d) (drv_status d')"
  using assms(1,3)
proof (rule driver_exec_InrD)
  fix d ts
  assume "driver_findById (ds_repo s) i = Some d" "op_guard op d"
    "d' = (op_change op d)\<lparr>drv_updatedAt := ts\<rparr>"
  then show ?thesis
    using assms(1,2)
    by (cases op) (auto simp: settable_edges [where now = now and i = i] intro: status_edge.intros)
qed

theorem driver_status_edges_witness:
  "\<exists>d' s'. driver_exec iso_parse (OpBeginDelivery 3 ''a'') sample_svc = (Inr d', s') \<and>
     status_edge (OpBeginDelivery 3 ''a'') Available (drv_status d')"
proof -
  obtain d' s' where "driver_exec iso_parse (OpBeginDelivery 3 ''a'') sample_svc = (Inr d', s')"
    using sample_svc_exec [of "OpBeginDelivery 3 ''a''"] by auto
  moreover from driver_status_edges [OF _ _ this, of 3 "''a''"]
  have "status_edge (OpBeginDelivery 3 ''a'') Available (drv_status d')" by auto
  ultimately show ?thesis by blast
qed

lemma driver_exec_keeps_inactive:
  assumes "driver_svc_ok s" "driver_findById (ds_repo s) i = Some d" "\<not> drv_active d"
  shows "\<exists>d'. driver_findById (ds_repo (snd (driver_exec parse op s))) i = Some d' \<and> \<not> drv_active d'"
proof (cases "op_target op")
  case None
  then show ?thesis
    using assms driver_svc_ok_fresh [OF assms(1)]
    by (cases op) (auto simp: driver_create_eq Let_def driver_findById_def driver_save_def
        split: option.splits sum.splits)
next
  case (Some p)
  moreover obtain now j where "p = (now, j)" by (cases p)
  moreover have "\<not> drv_active (op_change op d)" using assms(3) by (cases op) auto
  ultimately show ?thesis
    using assms drv.look_key [OF driver_svc_okD(1) [OF assms(1)]]
    by (auto simp: driver_exec_target driver_touch_eq Let_def driver_findById_def driver_save_def
        split: option.splits sum.splits)
qed

lemma driver_run_keeps_inactive:
  assumes "driver_svc_ok s" "driver_findById (ds_repo s) i = Some d" "\<not> drv_active d"
  shows "\<exists>d'. driver_findById (ds_repo (driver_run parse ops s)) i = Some d' \<and> \<not> drv_active d'"
  using assms
proof (induction ops arbitrary: s d)
  case (Cons op ops)
  then obtain d' where "driver_findById (ds_repo (snd (driver_exec parse op s))) i = Some d'" "\<not> drv_active d'"
    using driver_exec_keeps_inactive by blast
  with Cons.IH [OF driver_svc_ok_exec [OF Cons.prems(1)]] show ?case by simp
qed simp

lemma driver_run_append: "driver_run parse (xs @ ys) s = driver_run parse ys (driver_run parse xs s)"
  by (induction xs arbitrary: s) auto

text \<open>
  Deactivation is final: once a driver is inactive, no later sequence of requests makes that
  driver eligible for assignments again.
\<close>

theorem driver_deactivation_final:
  assumes "driver_findById (ds_repo (driver_run parse ops driver_svc_new)) i = Some d"
    and "\<not> drv_active d"
  shows "\<exists>d'. driver_findById (ds_repo (driver_run parse (ops @ later) driver_svc_new)) i = Some d' \<and>
     \<not> isEligibleForAssignment d'"
  using driver_run_keeps_inactive [OF driver_svc_ok_run [OF driver_svc_new_ok] assms]
  by (auto simp: driver_run_append isEligibleForAssignment_def)

definition sample_input :: CreateDriverInput where
  "sample_input = \<lparr>cdi_name = Some ''Ann'', cdi_email = Some ''Ann@x'', cdi_phone = Some ''1'',
     cdi_licenseNumber = Some ''L''\<rparr>"

lemma sample_input_valid:
  "validateDriverInput \<lparr>di_name = of_str_opt (cdi_name sample_input), di_email = of_str_opt (cdi_email sample_input),
     di_phone = of_str_opt (cdi_phone sample_input), di_licenseNumber = of_str_opt (cdi_licenseNumber sample_input)\<rparr> = None"
  by (simp add: validateDriverInput_None_iff sample_input_def js_trim_def js_space_def char_code_def)

lemma sample_create:
  "\<exists>d. driver_create iso_parse (Stamped 0) 0 sample_input driver_svc_new =
     (Inr d, \<lparr>ds_repo = driver_save d driver_repo_new, ds_lastStamp = [(drv_id d, 0)], ds_counter = 1\<rparr>) \<and>
     drv_id d = stamped_id ''drv'' 0 1 \<and> drv_email d = ''Ann@x'' \<and> drv_updatedAt d = iso_string 0"
proof -
  have "driver_findByEmail driver_repo_new e = None" for e
    by (simp add: driver_repo_new_def driver_findByEmail_def)
  with sample_input_valid show ?thesis
    by (simp add: driver_create_eq driver_svc_new_def iso_or_throw_def toIso_def max_time_def Let_def)
      (simp add: sample_input_def)
qed

theorem driver_create_outcome_witness:
  "\<exists>d s'. driver_create iso_parse (Stamped 0) 0 sample_input driver_svc_new = (Inr d, s') \<and>
     driver_findByEmail (ds_repo s') ''ANN@X'' = Some d"
proof -
  obtain d s' where res: "driver_create iso_parse (Stamped 0) 0 sample_input driver_svc_new = (Inr d, s')"
    and mail: "drv_email d = ''Ann@x''"
    using sample_create by blast
  with driver_create_outcome [OF driver_svc_new_ok, where parse = iso_parse and t = 0 and now = 0
      and inp = sample_input and e = "''ANN@X''"]
  have "js_lower ''ANN@X'' = js_lower (drv_email d) \<longrightarrow> driver_findByEmail (ds_repo s') ''ANN@X'' = Some d"
    by auto
  moreover have "js_lower ''ANN@X'' = js_lower ''Ann@x''" by code_simp
  ultimately show ?thesis using res mail by simp
qed

theorem driver_deactivation_final_witness:
  "\<exists>i d'. driver_findById (ds_repo (driver_run iso_parse
       ([OpCreate 0 0 sample_input, OpDeactivate 0 i] @ [OpSetAvailability 0 i Available]) driver_svc_new)) i = Some d' \<and>
     \<not> isEligibleForAssignment d'"
proof -
  let ?i = "stamped_id ''drv'' 0 1"
  obtain d where create: "driver_exec iso_parse (OpCreate 0 0 sample_input) driver_svc_new =
     (Inr d, \<lparr>ds_repo = driver_save d driver_repo_new, ds_lastStamp = [(drv_id d, 0)], ds_counter = 1\<rparr>)"
    and d: "drv_id d = ?i" "drv_updatedAt d = iso_string 0"
    using sample_create by auto
  let ?s = "\<lparr>ds_repo = driver_save d driver_repo_new, ds_lastStamp = [(drv_id d, 0)], ds_counter = 1\<rparr>"
  have z: "iso_parse (iso_string 0) = Some 0" by (rule iso_parse_iso_string) (simp add: max_time_def)
  have "driver_findById (ds_repo ?s) ?i = Some d"
    using d by (simp add: driver_findById_def driver_save_def driver_repo_new_def)
  then have "\<exists>e. driver_findById (ds_repo (snd (driver_exec iso_parse (OpDeactivate 0 ?i) ?s))) ?i = Some e
      \<and> \<not> drv_active e"
    using d z
    by (simp add: driver_exec_target [where now = 0 and i = ?i] driver_touch_eq stamp_after_def floor_above_def
        Let_def iso_or_throw_def toIso_def max_time_def driver_findById_def driver_save_def
        del: driver_exec.simps)
  then have "\<exists>e. driver_findById (ds_repo (driver_run iso_parse [OpCreate 0 0 sample_input, OpDeactivate 0 ?i]
      driver_svc_new)) ?i = Some e \<and> \<not> drv_active e"
    by (simp add: create del: driver_exec.simps)
  then show ?thesis
    using driver_deactivation_final [where later = "[OpSetAvailability 0 ?i Available]"] by blast
qed

end
