(* ===== verification/Vehicles.thy ===== *)
theory Vehicles
  imports Stores Validation
begin

text \<open>
  The vehicle component: \<open>vehicles/vehicle-repository.ts\<close> (record, in-memory repository with the
  index on the trimmed lower-case identifier) and \<open>vehicles/vehicle-service.ts\<close> (registration
  and the association of a driver).
\<close>

section \<open>Repository\<close>

record Vehicle =
  veh_id :: string
  veh_identifier :: string
  veh_type :: string
  veh_capacityKg :: jsnum
  veh_driverId :: "string option"
  veh_associatedAt :: "string option"
  veh_createdAt :: string

record VehicleRepo =
  vr_byId :: "(string, Vehicle) jsmap"
  vr_identifierIndex :: "(string, string) jsmap"

definition vehicle_repo_new :: VehicleRepo where
  "vehicle_repo_new = \<lparr>vr_byId = [], vr_identifierIndex = []\<rparr>"

definition identifier_key :: "string \<Rightarrow> string" where
  "identifier_key identifier = js_lower (js_trim identifier)"

definition vehicle_insert :: "Vehicle \<Rightarrow> VehicleRepo \<Rightarrow> VehicleRepo" where
  "vehicle_insert v r = r\<lparr>vr_byId := map_set (veh_id v) v (vr_byId r),
     vr_identifierIndex := map_set (identifier_key (veh_identifier v)) (veh_id v) (vr_identifierIndex r)\<rparr>"

definition vehicle_save :: "Vehicle \<Rightarrow> VehicleRepo \<Rightarrow> VehicleRepo" where
  "vehicle_save v r = r\<lparr>vr_byId := map_set (veh_id v) v (vr_byId r),
     vr_identifierIndex := map_set (identifier_key (veh_identifier v)) (veh_id v) (vr_identifierIndex r)\<rparr>"

definition vehicle_findById :: "VehicleRepo \<Rightarrow> string \<Rightarrow> Vehicle option" where
  "vehicle_findById r i = map_get (vr_byId r) i"

definition vehicle_findByIdentifier :: "VehicleRepo \<Rightarrow> string \<Rightarrow> Vehicle option" where
  "vehicle_findByIdentifier r identifier =
     (case map_get (vr_identifierIndex r) (identifier_key identifier) of
        None \<Rightarrow> None
      | Some i \<Rightarrow> if i = [] then None else map_get (vr_byId r) i)"

definition vehicle_findByDriverId :: "VehicleRepo \<Rightarrow> string \<Rightarrow> Vehicle option" where
  "vehicle_findByDriverId r driverId =
     List.find (\<lambda>v. veh_driverId v = Some driverId) (map_values (vr_byId r))"

definition vehicle_list :: "VehicleRepo \<Rightarrow> Vehicle list" where
  "vehicle_list r = map_values (vr_byId r)"

definition vehicle_repo_ok :: "VehicleRepo \<Rightarrow> bool" where
  "vehicle_repo_ok r \<longleftrightarrow> store_ok veh_id (vr_byId r)"

definition identifier_of :: "Vehicle \<Rightarrow> string" where
  "identifier_of v = identifier_key (veh_identifier v)"

definition identifier_indexed :: "VehicleRepo \<Rightarrow> bool" where
  "identifier_indexed r \<longleftrightarrow> index_ok identifier_of (vr_byId r) (vr_identifierIndex r)"

lemma vehicle_insert_eq_save: "vehicle_insert = vehicle_save"
  by (simp add: fun_eq_iff vehicle_insert_def vehicle_save_def)

lemma vehicle_repo_new_ok [simp]: "vehicle_repo_ok vehicle_repo_new" "identifier_indexed vehicle_repo_new"
  "vehicle_list vehicle_repo_new = []"
  by (simp_all add: vehicle_repo_ok_def vehicle_repo_new_def identifier_indexed_def vehicle_list_def)

lemma vehicle_findByIdentifier_eq:
  "vehicle_findByIdentifier r e = index_find (vr_byId r) (vr_identifierIndex r) (identifier_key e)"
  by (simp add: vehicle_findByIdentifier_def index_find_def)

interpretation veh: keyed_store vehicle_save vehicle_findById vehicle_list veh_id vehicle_repo_ok
  by unfold_locales
    (auto simp: vehicle_save_def vehicle_findById_def vehicle_list_def vehicle_repo_ok_def
      store_ok_laws simp del: set_map)

interpretation vehix: indexed_store vehicle_save vehicle_findById vehicle_list veh_id vehicle_repo_ok
  vehicle_findByIdentifier veh_identifier identifier_key identifier_indexed
proof unfold_locales
  fix r x and v :: Vehicle
  assume "vehicle_repo_ok r" "identifier_indexed r"
  then show "vehicle_findByIdentifier r x = Some v \<longleftrightarrow>
      v \<in> set (vehicle_list r) \<and> identifier_key (veh_identifier v) = identifier_key x"
    by (simp add: vehicle_findByIdentifier_eq identifier_indexed_def vehicle_repo_ok_def vehicle_list_def
        store_ok_all index_find_iff identifier_of_def del: set_map)
next
  fix r and v :: Vehicle
  assume r: "vehicle_repo_ok r" "identifier_indexed r" "veh_id v \<noteq> []"
    and same: "\<forall>w. vehicle_findById r (veh_id v) = Some w \<longrightarrow>
      identifier_key (veh_identifier w) = identifier_key (veh_identifier v)"
    and uniq: "\<forall>w \<in> set (vehicle_list r).
      identifier_key (veh_identifier w) = identifier_key (veh_identifier v) \<longrightarrow> veh_id w = veh_id v"
  have "index_ok identifier_of (map_set (veh_id v) v (vr_byId r))
      (map_set (identifier_of v) (veh_id v) (vr_identifierIndex r))"
  proof (rule index_ok_set)
    show "index_ok identifier_of (vr_byId r) (vr_identifierIndex r)"
      using r(2) by (simp only: identifier_indexed_def)
    show "veh_id v \<noteq> []" by (rule r(3))
  next
    fix w assume "map_get (vr_byId r) (veh_id v) = Some w"
    with same show "identifier_of w = identifier_of v"
      by (simp only: vehicle_findById_def identifier_of_def)
  next
    fix i w assume w: "map_get (vr_byId r) i = Some w" and e: "identifier_of w = identifier_of v"
    then have "w \<in> set (vehicle_list r)" "veh_id w = i"
      using veh.all_keyI [OF r(1)] veh.look_key [OF r(1)] by (simp_all only: vehicle_findById_def)
    with uniq e show "i = veh_id v" by (simp only: identifier_of_def)
  qed
  then show "identifier_indexed (vehicle_save v r)"
    by (simp add: identifier_indexed_def vehicle_save_def identifier_of_def)
qed

section \<open>Service\<close>

record RegisterVehicleInput =
  rvi_identifier :: "string option"
  rvi_type :: "string option"
  rvi_capacityKg :: "jsnum option"

record VehicleSvc =
  vs_repo :: VehicleRepo
  vs_counter :: nat

definition vehicle_svc_new :: VehicleSvc where
  "vehicle_svc_new = \<lparr>vs_repo = vehicle_repo_new, vs_counter = 0\<rparr>"

definition vehicle_require :: "string \<Rightarrow> (VehicleSvc, exn, Vehicle) svc" where
  "vehicle_require i = sbind (sget (\<lambda>s. vehicle_findById (vs_repo s) i))
     (srequire (domain_error NotFound [''id''] 404))"

text \<open>The three pushes of \<open>register\<close>, in order.\<close>

definition vehicle_missing_fields :: "RegisterVehicleInput \<Rightarrow> string list" where
  "vehicle_missing_fields inp =
     (if isMissing (of_str_opt (rvi_identifier inp)) then [''identifier''] else []) @
     (if isMissing (of_str_opt (rvi_type inp)) then [''type''] else []) @
     (if isMissing (of_num_opt (rvi_capacityKg inp)) then [''capacityKg''] else [])"

definition num_arg :: "jsnum option \<Rightarrow> jsnum" where
  "num_arg v = (case v of None \<Rightarrow> NaN | Some x \<Rightarrow> x)"

text \<open>The object literal calls the id generator before it reads the clock.\<close>

definition vehicle_register ::
    "id_source \<Rightarrow> int \<Rightarrow> RegisterVehicleInput \<Rightarrow> (VehicleSvc, exn, Vehicle) svc" where
  "vehicle_register src clockNow inp =
     (let missing = vehicle_missing_fields inp in
     sbind (sreject (length missing > 0) (domain_error ValidationError missing 400)) (\<lambda>_.
     sbind (sget (\<lambda>s. vehicle_findByIdentifier (vs_repo s) (str_arg (rvi_identifier inp)))) (\<lambda>existing.
     sbind (sreject (existing \<noteq> None) (domain_error Duplicate [''identifier''] 409)) (\<lambda>_.
     sbind (sget vs_counter) (\<lambda>n.
     let (newId, n') = next_id ''veh'' src n in
     sbind (smodify (\<lambda>s. s\<lparr>vs_counter := n'\<rparr>)) (\<lambda>_.
     sbind (slift (iso_or_throw clockNow)) (\<lambda>ts.
     let v = \<lparr>veh_id = newId, veh_identifier = str_arg (rvi_identifier inp), veh_type = str_arg (rvi_type inp),
              veh_capacityKg = num_arg (rvi_capacityKg inp), veh_driverId = None, veh_associatedAt = None,
              veh_createdAt = ts\<rparr> in
     sbind (smodify (\<lambda>s. s\<lparr>vs_repo := vehicle_insert v (vs_repo s)\<rparr>)) (\<lambda>_.
     sret v))))))))"

text \<open>\<open>vehicle.driverId && vehicle.driverId !== driverId\<close>: an absent or empty id is falsy.\<close>

definition bound_elsewhere :: "Vehicle \<Rightarrow> string \<Rightarrow> bool" where
  "bound_elsewhere v driverId =
     (case veh_driverId v of None \<Rightarrow> False | Some d \<Rightarrow> d \<noteq> [] \<and> d \<noteq> driverId)"

definition vehicle_associateDriver ::
    "int \<Rightarrow> string \<Rightarrow> string option \<Rightarrow> (VehicleSvc, exn, Vehicle) svc" where
  "vehicle_associateDriver clockNow vehicleId driverId =
     sbind (sreject (isMissing (of_str_opt driverId)) (domain_error ValidationError [''driverId''] 400)) (\<lambda>_.
     sbind (vehicle_require vehicleId) (\<lambda>v.
     sbind (sreject (bound_elsewhere v (str_arg driverId)) (domain_error Conflict [''driverId''] 409)) (\<lambda>_.
     sbind (slift (iso_or_throw clockNow)) (\<lambda>ts.
     let v' = v\<lparr>veh_driverId := Some (str_arg driverId), veh_associatedAt := Some ts\<rparr> in
     sbind (smodify (\<lambda>s. s\<lparr>vs_repo := vehicle_save v' (vs_repo s)\<rparr>)) (\<lambda>_.
     sret v')))))"

definition vehicle_service_list :: "(VehicleSvc, exn, Vehicle list) svc" where
  "vehicle_service_list = sget (\<lambda>s. vehicle_list (vs_repo s))"

section \<open>Operations in closed form\<close>

lemma vehicle_register_eq:
  "vehicle_register src now inp s =
     (if vehicle_missing_fields inp \<noteq> [] then (Inl (domain_error ValidationError (vehicle_missing_fields inp) 400), s)
      else if vehicle_findByIdentifier (vs_repo s) (str_arg (rvi_identifier inp)) \<noteq> None
        then (Inl (domain_error Duplicate [''identifier''] 409), s)
      else (let (newId, n') = next_id ''veh'' src (vs_counter s) in
        case iso_or_throw now of Inl e \<Rightarrow> (Inl e, s\<lparr>vs_counter := n'\<rparr>)
        | Inr ts \<Rightarrow> (let v = \<lparr>veh_id = newId, veh_identifier = str_arg (rvi_identifier inp),
              veh_type = str_arg (rvi_type inp), veh_capacityKg = num_arg (rvi_capacityKg inp),
              veh_driverId = None, veh_associatedAt = None, veh_createdAt = ts\<rparr>
            in (Inr v, s\<lparr>vs_repo := vehicle_save v (vs_repo s), vs_counter := n'\<rparr>))))"
  by (simp add: vehicle_register_def vehicle_insert_eq_save Let_def split: sum.split prod.split)

lemma vehicle_associate_eq:
  "vehicle_associateDriver now i drv s =
     (if isMissing (of_str_opt drv) then (Inl (domain_error ValidationError [''driverId''] 400), s)
      else case vehicle_findById (vs_repo s) i of
        None \<Rightarrow> (Inl (domain_error NotFound [''id''] 404), s)
      | Some v \<Rightarrow> if bound_elsewhere v (str_arg drv) then (Inl (domain_error Conflict [''driverId''] 409), s)
          else case iso_or_throw now of Inl e \<Rightarrow> (Inl e, s)
          | Inr ts \<Rightarrow> (let v' = v\<lparr>veh_driverId := Some (str_arg drv), veh_associatedAt := Some ts\<rparr>
              in (Inr v', s\<lparr>vs_repo := vehicle_save v' (vs_repo s)\<rparr>)))"
  by (simp add: vehicle_associateDriver_def vehicle_require_def Let_def split: option.split sum.split)

section \<open>Requests and invariant\<close>

datatype VehicleOp =
    VopRegister nat int RegisterVehicleInput
  | VopAssociate int string "string option"

fun vehicle_exec :: "VehicleOp \<Rightarrow> (VehicleSvc, exn, Vehicle) svc" where
  "vehicle_exec (VopRegister t now inp) = vehicle_register (Stamped t) now inp"
| "vehicle_exec (VopAssociate now i d) = vehicle_associateDriver now i d"

fun vehicle_run :: "VehicleOp list \<Rightarrow> VehicleSvc \<Rightarrow> VehicleSvc" where
  "vehicle_run [] s = s"
| "vehicle_run (x # xs) s = vehicle_run xs (snd (vehicle_exec x s))"

lemma vehicle_run_append: "vehicle_run (xs @ ys) s = vehicle_run ys (vehicle_run xs s)"
  by (induction xs arbitrary: s) auto

definition vehicle_svc_ok :: "VehicleSvc \<Rightarrow> bool" where
  "vehicle_svc_ok s \<longleftrightarrow> vehicle_repo_ok (vs_repo s) \<and> identifier_indexed (vs_repo s) \<and>
     (\<forall>v \<in> set (vehicle_list (vs_repo s)). issued ''veh'' (vs_counter s) (veh_id v))"

lemma vehicle_svc_new_ok [simp]: "vehicle_svc_ok vehicle_svc_new"
  by (simp add: vehicle_svc_ok_def vehicle_svc_new_def)

lemma vehicle_svc_okD:
  assumes "vehicle_svc_ok s"
  shows "vehicle_repo_ok (vs_repo s)" "identifier_indexed (vs_repo s)"
    "v \<in> set (vehicle_list (vs_repo s)) \<Longrightarrow> issued ''veh'' (vs_counter s) (veh_id v)"
  using assms by (simp_all add: vehicle_svc_ok_def)

lemma vehicle_svc_ok_issued:
  assumes "vehicle_svc_ok s" "vehicle_findById (vs_repo s) i = Some v"
  shows "issued ''veh'' (vs_counter s) i" "veh_id v = i"
  using vehicle_svc_okD [OF assms(1)] veh.all_keyI [OF _ assms(2)] veh.look_key [OF _ assms(2)] by auto

lemma vehicle_svc_ok_fresh:
  assumes "vehicle_svc_ok s"
  shows "vehicle_findById (vs_repo s) (stamped_id ''veh'' t (Suc (vs_counter s))) = None"
  using vehicle_svc_ok_issued [OF assms] issued_fresh by (metis not_Some_eq)

lemma vehicle_svc_ok_counter:
  "vehicle_svc_ok s \<Longrightarrow> vehicle_svc_ok (s\<lparr>vs_counter := Suc (vs_counter s)\<rparr>)"
  by (auto simp: vehicle_svc_ok_def intro: issued_Suc)

lemma vehicle_svc_ok_add:
  assumes ok: "vehicle_svc_ok s" and new: "veh_id v = stamped_id ''veh'' t (Suc (vs_counter s))"
    and free: "vehicle_findByIdentifier (vs_repo s) (veh_identifier v) = None"
  shows "vehicle_svc_ok (s\<lparr>vs_repo := vehicle_save v (vs_repo s), vs_counter := Suc (vs_counter s)\<rparr>)"
proof -
  note r = vehicle_svc_okD(1,2) [OF ok]
  have "identifier_indexed (vehicle_save v (vs_repo s))"
    using new free r vehicle_svc_ok_fresh [OF ok] by (intro vehix.indexed_put_fresh) simp_all
  moreover have "\<forall>w \<in> set (vehicle_list (vehicle_save v (vs_repo s))). issued ''veh'' (Suc (vs_counter s)) (veh_id w)"
    using new vehicle_svc_okD(3) [OF ok] by (intro veh.all_pred_put r) (auto intro: issued_Suc issued_new)
  ultimately show ?thesis
    using r by (simp add: vehicle_svc_ok_def veh.ok_put)
qed

lemma vehicle_svc_ok_replace:
  assumes ok: "vehicle_svc_ok s" and v: "vehicle_findById (vs_repo s) i = Some v"
    and keeps: "veh_id w = veh_id v" "veh_identifier w = veh_identifier v"
  shows "vehicle_svc_ok (s\<lparr>vs_repo := vehicle_save w (vs_repo s)\<rparr>)"
proof -
  note r = vehicle_svc_okD(1,2) [OF ok]
  note i = vehicle_svc_ok_issued [OF ok v]
  then have "i \<noteq> []" by (metis issued_def stamped_id_nonempty)
  then have "identifier_indexed (vehicle_save w (vs_repo s))"
    using v i keeps by (intro vehix.indexed_put_update [OF r, where w = v]) simp_all
  moreover have "\<forall>u \<in> set (vehicle_list (vehicle_save w (vs_repo s))). issued ''veh'' (vs_counter s) (veh_id u)"
    using i keeps vehicle_svc_okD(3) [OF ok] by (intro veh.all_pred_put r) auto
  ultimately show ?thesis
    using r by (simp add: vehicle_svc_ok_def veh.ok_put)
qed

lemma vehicle_svc_ok_exec: "vehicle_svc_ok s \<Longrightarrow> vehicle_svc_ok (snd (vehicle_exec op s))"
proof (cases op)
  case (VopRegister t now inp)
  assume ok: "vehicle_svc_ok s"
  with VopRegister show ?thesis
    by (simp add: vehicle_register_eq Let_def vehicle_svc_ok_add [where t = t] vehicle_svc_ok_counter split: sum.split)
next
  case (VopAssociate now i d)
  assume ok: "vehicle_svc_ok s"
  with VopAssociate show ?thesis
    by (simp add: vehicle_associate_eq Let_def vehicle_svc_ok_replace split: option.split sum.split)
qed

lemma vehicle_svc_ok_run: "vehicle_svc_ok s \<Longrightarrow> vehicle_svc_ok (vehicle_run ops s)"
  by (induction ops arbitrary: s) (auto intro: vehicle_svc_ok_exec)

section \<open>Properties\<close>

text \<open>
  Identifiers stay unique: after any sequence of requests to a fresh service, no two
  registered vehicles have identifiers that agree up to case and surrounding white space.
\<close>

theorem vehicle_identifiers_unique:
  "distinct (map (\<lambda>v. js_lower (js_trim (veh_identifier v)))
     (vehicle_list (vs_repo (vehicle_run ops vehicle_svc_new))))"
proof -
  let ?r = "vs_repo (vehicle_run ops vehicle_svc_new)"
  have r: "vehicle_repo_ok ?r" "identifier_indexed ?r"
    using vehicle_svc_okD(1,2) [OF vehicle_svc_ok_run [OF vehicle_svc_new_ok]] by auto
  have "distinct (vehicle_list ?r)"
    using veh.all_distinct [OF r(1)] by (simp add: distinct_map)
  moreover have "inj_on (\<lambda>v. js_lower (js_trim (veh_identifier v))) (set (vehicle_list ?r))"
    using vehix.indexed_unique [OF r] by (auto intro: inj_onI simp: identifier_key_def)
  ultimately show ?thesis by (simp add: distinct_map)
qed

lemma vehicle_exec_keeps_driver:
  assumes ok: "vehicle_svc_ok s" and v: "vehicle_findById (vs_repo s) i = Some v"
    and d: "veh_driverId v = Some d" "d \<noteq> []"
  shows "\<exists>w. vehicle_findById (vs_repo (snd (vehicle_exec op s))) i = Some w \<and> veh_driverId w = Some d \<and>
     veh_identifier w = veh_identifier v"
proof (cases op)
  case (VopRegister t now inp)
  have "stamped_id ''veh'' t (Suc (vs_counter s)) \<noteq> i"
    using vehicle_svc_ok_fresh [OF ok, of t] v by auto
  with v d VopRegister show ?thesis
    by (auto simp: vehicle_register_eq Let_def veh.look_put [OF vehicle_svc_okD(1) [OF ok]] split: sum.split)
next
  case (VopAssociate now j e)
  note id = vehicle_svc_ok_issued(2) [OF ok]
  show ?thesis
  proof (cases "j = i")
    case True
    with v d VopAssociate id [OF v] show ?thesis
      by (auto simp: vehicle_associate_eq Let_def bound_elsewhere_def veh.look_put [OF vehicle_svc_okD(1) [OF ok]]
          split: sum.split option.split)
  next
    case False
    with v d VopAssociate id show ?thesis
      by (auto simp: vehicle_associate_eq Let_def veh.look_put [OF vehicle_svc_okD(1) [OF ok]]
          split: sum.split option.split)
  qed
qed

lemma vehicle_run_keeps_driver:
  assumes "vehicle_svc_ok s" "vehicle_findById (vs_repo s) i = Some v" "veh_driverId v = Some d" "d \<noteq> []"
  shows "\<exists>w. vehicle_findById (vs_repo (vehicle_run ops s)) i = Some w \<and> veh_driverId w = Some d"
  using assms
proof (induction ops arbitrary: s v)
  case (Cons op ops)
  then obtain w where "vehicle_findById (vs_repo (snd (vehicle_exec op s))) i = Some w" "veh_driverId w = Some d"
    using vehicle_exec_keeps_driver by blast
  with Cons.IH [OF vehicle_svc_ok_exec [OF Cons.prems(1)]] Cons.prems(4) show ?case by simp
qed simp

text \<open>
  A vehicle's association is stable: once a request bound a vehicle to a driver, no later
  sequence of requests binds it to another driver or unbinds it.
\<close>

theorem vehicle_association_stable:
  assumes "vehicle_exec (VopAssociate now i (Some d)) (vehicle_run ops vehicle_svc_new) = (Inr v, s)"
  shows "\<exists>w. vehicle_findById (vs_repo (vehicle_run later s)) i = Some w \<and> veh_driverId w = Some d"
proof -
  let ?s = "vehicle_run ops vehicle_svc_new"
  have ok: "vehicle_svc_ok ?s" by (rule vehicle_svc_ok_run [OF vehicle_svc_new_ok])
  obtain u ts where u: "vehicle_findById (vs_repo ?s) i = Some u" and "\<not> isMissing (Str d)"
    and s: "s = ?s\<lparr>vs_repo := vehicle_save (u\<lparr>veh_driverId := Some d, veh_associatedAt := Some ts\<rparr>) (vs_repo ?s)\<rparr>"
    using assms by (auto simp: vehicle_associate_eq Let_def split: if_splits option.splits sum.splits)
  then have "d \<noteq> []" by (auto simp: js_trim_def)
  moreover have "vehicle_svc_ok s"
    using vehicle_svc_ok_exec [OF ok, of "VopAssociate now i (Some d)"] assms by simp
  moreover have "vehicle_findById (vs_repo s) i = Some (u\<lparr>veh_driverId := Some d, veh_associatedAt := Some ts\<rparr>)"
    using vehicle_svc_ok_issued(2) [OF ok u] by (simp add: s veh.look_put [OF vehicle_svc_okD(1) [OF ok]])
  ultimately show ?thesis
    by (intro vehicle_run_keeps_driver [of s i "u\<lparr>veh_driverId := Some d, veh_associatedAt := Some ts\<rparr>"]) simp_all
qed

definition sample_vehicle_input :: RegisterVehicleInput where
  "sample_vehicle_input = \<lparr>rvi_identifier = Some ''V1'', rvi_type = Some ''van'', rvi_capacityKg = Some (Fin 10)\<rparr>"

theorem vehicle_association_stable_witness:
  "\<exists>w. vehicle_findById (vs_repo (vehicle_run [VopAssociate 7 (stamped_id ''veh'' 0 1) (Some ''e'')]
      (snd (vehicle_exec (VopAssociate 5 (stamped_id ''veh'' 0 1) (Some ''d''))
        (vehicle_run [VopRegister 0 0 sample_vehicle_input] vehicle_svc_new))))) (stamped_id ''veh'' 0 1) = Some w \<and>
     veh_driverId w = Some ''d''"
proof -
  let ?i = "stamped_id ''veh'' 0 1" and ?s = "vehicle_run [VopRegister 0 0 sample_vehicle_input] vehicle_svc_new"
  have none: "vehicle_missing_fields sample_vehicle_input = []" "\<not> isMissing (Str ''d'')"
    by code_simp+
  have fresh: "vehicle_findByIdentifier vehicle_repo_new e = None" for e
    by (simp add: vehicle_repo_new_def vehicle_findByIdentifier_def)
  have "\<exists>u. vehicle_findById (vs_repo ?s) ?i = Some u \<and> veh_driverId u = None"
    using none(1) fresh
    by (simp add: vehicle_svc_new_def vehicle_register_eq iso_or_throw_def toIso_def max_time_def
        vehicle_findById_def vehicle_save_def Let_def)
  then have "\<exists>v s. vehicle_exec (VopAssociate 5 ?i (Some ''d'')) ?s = (Inr v, s)"
    using none(2)
    by (auto simp: vehicle_associate_eq bound_elsewhere_def iso_or_throw_def toIso_def max_time_def Let_def
        simp del: isMissing.simps vehicle_run.simps)
  then obtain v s where ex: "vehicle_exec (VopAssociate 5 ?i (Some ''d'')) ?s = (Inr v, s)" by blast
  show ?thesis
    using vehicle_association_stable [OF ex, where later = "[VopAssociate 7 ?i (Some ''e'')]"]
    by (simp only: ex snd_conv)
qed

text \<open>
  Every registration and association is atomic: a throw leaves the repository as it was, a
  success stores the returned vehicle under its id and touches no other entry.
\<close>

theorem vehicle_exec_atomic:
  "case vehicle_exec op s of
     (Inl e, s') \<Rightarrow> vs_repo s' = vs_repo s
   | (Inr v, s') \<Rightarrow> vehicle_findById (vs_repo s') = (vehicle_findById (vs_repo s))(veh_id v \<mapsto> v)"
  by (cases op) (auto simp: vehicle_register_eq vehicle_associate_eq Let_def vehicle_findById_def
      vehicle_save_def fun_eq_iff split: option.splits sum.splits prod.splits)

end
