(* ===== verification/Deliveries.thy ===== *)
theory Deliveries
  imports Stores Validation
begin

text \<open>
  The delivery component: \<open>deliveries/geocoder.ts\<close> (the coordinate and the timeout race),
  \<open>deliveries/delivery-lifecycle.ts\<close> (the transition table), \<open>deliveries/delivery-repository.ts\<close>
  and \<open>deliveries/delivery-service.ts\<close>. The geocoder is external: a creation takes the settled
  value of the promise that \<open>withTimeout\<close> returned.
\<close>

section \<open>Racing a promise against a timer (geocoder.ts)\<close>

record GeoPoint =
  geo_lat :: jsnum
  geo_lng :: jsnum

datatype 'e RaceError = TimeoutError nat | Cause 'e

datatype ('a, 'e) Settled = Fulfilled 'a | Rejected 'e

text \<open>What can happen after \<open>withTimeout\<close> was called, in the order it happens.\<close>

datatype ('a, 'e) RaceEvent = TimerDue | PromiseResolves 'a | PromiseRejects 'e

record ('a, 'e) Race =
  race_timer :: bool
  race_outcome :: "('a, 'e RaceError) Settled option"

text \<open>A promise keeps its first outcome.\<close>

definition settle :: "('a, 'e RaceError) Settled \<Rightarrow> ('a, 'e) Race \<Rightarrow> ('a, 'e) Race" where
  "settle out r = (case race_outcome r of None \<Rightarrow> r\<lparr>race_outcome := Some out\<rparr> | Some _ \<Rightarrow> r)"

fun race_step :: "nat \<Rightarrow> ('a, 'e) Race \<Rightarrow> ('a, 'e) RaceEvent \<Rightarrow> ('a, 'e) Race" where
  "race_step ms r TimerDue =
     (if race_timer r then settle (Rejected (TimeoutError ms)) (r\<lparr>race_timer := False\<rparr>) else r)"
| "race_step ms r (PromiseResolves v) = settle (Fulfilled v) (r\<lparr>race_timer := False\<rparr>)"
| "race_step ms r (PromiseRejects e) = settle (Rejected (Cause e)) (r\<lparr>race_timer := False\<rparr>)"

definition withTimeout :: "nat \<Rightarrow> ('a, 'e) RaceEvent list \<Rightarrow> ('a, 'e) Race" where
  "withTimeout ms evs = foldl (race_step ms) \<lparr>race_timer = True, race_outcome = None\<rparr> evs"

lemma race_settled_stays:
  "race_outcome r = Some out \<Longrightarrow> \<not> race_timer r \<Longrightarrow>
     race_outcome (foldl (race_step ms) r evs) = Some out \<and> \<not> race_timer (foldl (race_step ms) r evs)"
proof (induction evs arbitrary: r)
  case (Cons ev evs)
  have "race_outcome (race_step ms r ev) = Some out" "\<not> race_timer (race_step ms r ev)"
    using Cons.prems by (cases ev; simp add: settle_def)+
  with Cons.IH show ?case by simp
qed simp

text \<open>
  C13. The race: nothing is settled and the timer is armed while nothing has happened; the first
  event decides the outcome, whatever follows, and from then on no timer is left running.
\<close>

theorem withTimeout_first_event:
  "case evs of
     [] \<Rightarrow> race_outcome (withTimeout ms evs) = None \<and> race_timer (withTimeout ms evs)
   | ev # _ \<Rightarrow> race_outcome (withTimeout ms evs) = Some (case ev of
         TimerDue \<Rightarrow> Rejected (TimeoutError ms)
       | PromiseResolves v \<Rightarrow> Fulfilled v
       | PromiseRejects e \<Rightarrow> Rejected (Cause e)) \<and> \<not> race_timer (withTimeout ms evs)"
proof (cases evs)
  case (Cons ev rest)
  then show ?thesis
    using race_settled_stays [of "race_step ms \<lparr>race_timer = True, race_outcome = None\<rparr> ev" _ ms rest]
    by (cases ev) (simp_all add: withTimeout_def settle_def)
qed (simp add: withTimeout_def)

section \<open>Lifecycle (delivery-lifecycle.ts)\<close>

datatype DeliveryEvent = EvAssign | EvStartTransit | EvArrive | EvComplete | EvFail | EvCancel

definition FAILURE_REASON_MIN :: nat where "FAILURE_REASON_MIN = 1"
definition FAILURE_REASON_MAX :: nat where "FAILURE_REASON_MAX = 500"

fun delivery_TRANSITIONS :: "DeliveryStatus \<Rightarrow> (DeliveryEvent \<times> DeliveryStatus) list" where
  "delivery_TRANSITIONS Created = [(EvAssign, Assigned), (EvCancel, Cancelled)]"
| "delivery_TRANSITIONS Assigned = [(EvStartTransit, InTransit), (EvCancel, Cancelled)]"
| "delivery_TRANSITIONS InTransit = [(EvArrive, Arrived), (EvFail, Failed), (EvCancel, Cancelled)]"
| "delivery_TRANSITIONS Arrived = [(EvComplete, Completed), (EvFail, Failed), (EvCancel, Cancelled)]"
| "delivery_TRANSITIONS Completed = []"
| "delivery_TRANSITIONS Failed = []"
| "delivery_TRANSITIONS Cancelled = []"

definition nextStatus :: "DeliveryStatus \<Rightarrow> DeliveryEvent \<Rightarrow> DeliveryStatus option" where
  "nextStatus from event = map_of (delivery_TRANSITIONS from) event"

definition isTerminal :: "DeliveryStatus \<Rightarrow> bool" where
  "isTerminal s \<longleftrightarrow> s \<in> set TERMINAL_DELIVERY_STATUSES"

definition canTransition :: "DeliveryStatus \<Rightarrow> DeliveryEvent \<Rightarrow> bool" where
  "canTransition from event \<longleftrightarrow> nextStatus from event \<noteq> None"

fun isValidFailureReason :: "jsval \<Rightarrow> bool" where
  "isValidFailureReason (Str s) = (length s \<ge> FAILURE_REASON_MIN \<and> length s \<le> FAILURE_REASON_MAX)"
| "isValidFailureReason v = False"

text \<open>The lifecycle as a step relation: its edges, and how far along a status is.\<close>

inductive lifecycle_step :: "DeliveryStatus \<Rightarrow> DeliveryEvent \<Rightarrow> DeliveryStatus \<Rightarrow> bool" where
  assign: "lifecycle_step Created EvAssign Assigned"
| depart: "lifecycle_step Assigned EvStartTransit InTransit"
| arrive: "lifecycle_step InTransit EvArrive Arrived"
| complete: "lifecycle_step Arrived EvComplete Completed"
| fail: "s = InTransit \<or> s = Arrived \<Longrightarrow> lifecycle_step s EvFail Failed"
| cancel: "\<not> isTerminal s \<Longrightarrow> lifecycle_step s EvCancel Cancelled"

code_pred lifecycle_step .

inductive_simps lifecycle_step_simps:
  "lifecycle_step Created e t" "lifecycle_step Assigned e t" "lifecycle_step InTransit e t"
  "lifecycle_step Arrived e t" "lifecycle_step Completed e t" "lifecycle_step Failed e t"
  "lifecycle_step Cancelled e t"

fun progress :: "DeliveryStatus \<Rightarrow> nat" where
  "progress Created = 0"
| "progress Assigned = 1"
| "progress InTransit = 2"
| "progress Arrived = 3"
| "progress _ = 4"

lemma isTerminal_simps [simp]:
  "isTerminal Completed" "isTerminal Failed" "isTerminal Cancelled"
  "\<not> isTerminal Created" "\<not> isTerminal Assigned" "\<not> isTerminal InTransit" "\<not> isTerminal Arrived"
  by (simp_all add: isTerminal_def)

lemma nextStatus_step: "nextStatus s e = Some t \<longleftrightarrow> lifecycle_step s e t"
  by (cases s; cases e) (auto simp: nextStatus_def lifecycle_step_simps)

lemma nextStatus_progress: "nextStatus s e = Some t \<Longrightarrow> progress s < progress t"
  by (cases s; cases e) (auto simp: nextStatus_def)

lemma nextStatus_terminal: "isTerminal s \<Longrightarrow> nextStatus s e = None"
  by (cases s) (auto simp: nextStatus_def)

lemma progress_le: "progress s \<le> 4"
  by (cases s) simp_all

section \<open>Repository (delivery-repository.ts)\<close>

record Delivery =
  del_id :: string
  del_address :: string
  del_recipientName :: string
  del_recipientContact :: string
  del_weightKg :: jsnum
  del_destination :: GeoPoint
  del_status :: DeliveryStatus
  del_trackingToken :: string
  del_assignmentId :: "string option"
  del_destinationZoneId :: "string option"
  del_failureReason :: "string option"
  del_completedAt :: "string option"
  del_createdAt :: string
  del_updatedAt :: string

type_synonym DeliveryRepo = "(string, Delivery) jsmap"

definition delivery_repo_new :: DeliveryRepo where
  "delivery_repo_new = []"

definition delivery_insert :: "Delivery \<Rightarrow> DeliveryRepo \<Rightarrow> DeliveryRepo" where
  "delivery_insert d r = map_set (del_id d) d r"

definition delivery_save :: "Delivery \<Rightarrow> DeliveryRepo \<Rightarrow> DeliveryRepo" where
  "delivery_save d r = map_set (del_id d) d r"

definition delivery_findById :: "DeliveryRepo \<Rightarrow> string \<Rightarrow> Delivery option" where
  "delivery_findById r i = map_get r i"

definition delivery_listByAssignmentId :: "DeliveryRepo \<Rightarrow> string \<Rightarrow> Delivery list" where
  "delivery_listByAssignmentId r a = filter (\<lambda>d. del_assignmentId d = Some a) (map_values r)"

definition delivery_listByDestinationZoneId :: "DeliveryRepo \<Rightarrow> string \<Rightarrow> Delivery list" where
  "delivery_listByDestinationZoneId r z = filter (\<lambda>d. del_destinationZoneId d = Some z) (map_values r)"

definition delivery_list :: "DeliveryRepo \<Rightarrow> Delivery list" where
  "delivery_list r = map_values r"

definition delivery_repo_ok :: "DeliveryRepo \<Rightarrow> bool" where
  "delivery_repo_ok r \<longleftrightarrow> store_ok del_id r"

lemma delivery_insert_eq_save: "delivery_insert = delivery_save"
  by (simp add: fun_eq_iff delivery_insert_def delivery_save_def)

lemma delivery_repo_new_ok [simp]: "delivery_repo_ok delivery_repo_new" "delivery_list delivery_repo_new = []"
  by (simp_all add: delivery_repo_ok_def delivery_repo_new_def delivery_list_def)

interpretation del: keyed_store delivery_save delivery_findById delivery_list del_id delivery_repo_ok
  by unfold_locales
    (auto simp: delivery_save_def delivery_findById_def delivery_list_def delivery_repo_ok_def
      store_ok_laws simp del: set_map)

text \<open>Delivery \<open>k\<close> is listed under assignment \<open>a\<close>.\<close>

definition listed_on :: "DeliveryRepo \<Rightarrow> string \<Rightarrow> string \<Rightarrow> bool" where
  "listed_on r a k \<longleftrightarrow> k \<in> set (map del_id (delivery_listByAssignmentId r a))"

lemma listed_iff:
  assumes "delivery_repo_ok r"
  shows "listed_on r a k \<longleftrightarrow> (\<exists>e. delivery_findById r k = Some e \<and> del_assignmentId e = Some a)"
proof
  assume "listed_on r a k"
  then obtain e where "e \<in> set (delivery_list r)" "del_assignmentId e = Some a" "k = del_id e"
    by (auto simp: listed_on_def delivery_listByAssignmentId_def delivery_list_def)
  then show "\<exists>e. delivery_findById r k = Some e \<and> del_assignmentId e = Some a"
    using del.all_look [OF assms] by blast
next
  assume "\<exists>e. delivery_findById r k = Some e \<and> del_assignmentId e = Some a"
  then obtain e where e: "delivery_findById r k = Some e" "del_assignmentId e = Some a" by blast
  then have "e \<in> set (delivery_listByAssignmentId r a)"
    using del.all_keyI [OF assms e(1)] by (simp add: delivery_listByAssignmentId_def delivery_list_def)
  with del.look_key [OF assms e(1)] show "listed_on r a k"
    by (auto simp: listed_on_def)
qed

section \<open>Service (delivery-service.ts)\<close>

definition GEOCODE_TIMEOUT_MS :: nat where
  "GEOCODE_TIMEOUT_MS = 10000"

record CreateDeliveryInput =
  cdl_address :: "string option"
  cdl_recipientName :: "string option"
  cdl_recipientContact :: "string option"
  cdl_weightKg :: "jsnum option"

record DeliverySvc =
  dv_repo :: DeliveryRepo
  dv_idCounter :: nat
  dv_tokenCounter :: nat

definition delivery_svc_new :: DeliverySvc where
  "delivery_svc_new = \<lparr>dv_repo = delivery_repo_new, dv_idCounter = 0, dv_tokenCounter = 0\<rparr>"

abbreviation delivery_payload :: "CreateDeliveryInput \<Rightarrow> DeliveryInput" where
  "delivery_payload inp \<equiv> \<lparr>dl_address = of_str_opt (cdl_address inp),
     dl_recipientName = of_str_opt (cdl_recipientName inp),
     dl_recipientContact = of_str_opt (cdl_recipientContact inp), dl_weightKg = of_num_opt (cdl_weightKg inp)\<rparr>"

text \<open>A required number, read after validation.\<close>

definition weight_arg :: "jsnum option \<Rightarrow> jsnum" where
  "weight_arg v = (case v of None \<Rightarrow> NaN | Some x \<Rightarrow> x)"

text \<open>
  \<open>geo\<close> is the settled value of \<open>withTimeout(geocoder.geocode(address), ms)\<close>; both kinds of
  rejection are caught and answered alike.
\<close>

definition delivery_create ::
    "id_source \<Rightarrow> id_source \<Rightarrow> int \<Rightarrow> (GeoPoint, 'e RaceError) Settled \<Rightarrow> CreateDeliveryInput \<Rightarrow>
     (DeliverySvc, exn, Delivery) svc" where
  "delivery_create idSrc tokSrc clockNow geo inp =
     sbind (throw_invalid 400 (validateDeliveryInput (delivery_payload inp))) (\<lambda>_.
     sbind (case geo of Fulfilled p \<Rightarrow> sret p
        | Rejected _ \<Rightarrow> sthrow (domain_error GeocodingFailure [''address''] 422)) (\<lambda>destination.
     sbind (slift (iso_or_throw clockNow)) (\<lambda>ts.
     sbind (sget dv_idCounter) (\<lambda>n.
     sbind (sget dv_tokenCounter) (\<lambda>k.
     let (newId, n') = next_id ''del'' idSrc n;
         (token, k') = next_id ''trk'' tokSrc k;
         d = \<lparr>del_id = newId, del_address = str_arg (cdl_address inp),
              del_recipientName = str_arg (cdl_recipientName inp),
              del_recipientContact = str_arg (cdl_recipientContact inp),
              del_weightKg = weight_arg (cdl_weightKg inp), del_destination = destination,
              del_status = Created, del_trackingToken = token, del_assignmentId = None,
              del_destinationZoneId = None, del_failureReason = None, del_completedAt = None,
              del_createdAt = ts, del_updatedAt = ts\<rparr> in
     sbind (smodify (\<lambda>s. s\<lparr>dv_idCounter := n', dv_tokenCounter := k'\<rparr>)) (\<lambda>_.
     sbind (smodify (\<lambda>s. s\<lparr>dv_repo := delivery_insert d (dv_repo s)\<rparr>)) (\<lambda>_.
     sret d)))))))"

definition delivery_transition ::
    "int \<Rightarrow> string \<Rightarrow> DeliveryEvent \<Rightarrow> string option \<Rightarrow> (DeliverySvc, exn, Delivery) svc" where
  "delivery_transition clockNow i event reason =
     sbind (sget (\<lambda>s. delivery_findById (dv_repo s) i)) (\<lambda>found.
     sbind (srequire (domain_error NotFound [''id''] 404) found) (\<lambda>current.
     sbind (srequire (domain_error InvalidTransition [''status''] 409)
       (nextStatus (del_status current) event)) (\<lambda>target.
     sbind (sreject (event = EvFail \<and> \<not> isValidFailureReason (of_str_opt reason))
       (domain_error ValidationError [''reason''] 400)) (\<lambda>_.
     sbind (slift (iso_or_throw clockNow)) (\<lambda>ts.
     let next = current\<lparr>del_status := target, del_updatedAt := ts\<rparr>;
         next = (if target = Completed then next\<lparr>del_completedAt := Some ts\<rparr> else next);
         next = (if target = Failed then next\<lparr>del_failureReason := reason\<rparr> else next) in
     sbind (smodify (\<lambda>s. s\<lparr>dv_repo := delivery_save next (dv_repo s)\<rparr>)) (\<lambda>_.
     sret next))))))"

section \<open>Operations in closed form\<close>

text \<open>The record a transition saves.\<close>

definition transitioned :: "DeliveryStatus \<Rightarrow> string option \<Rightarrow> string \<Rightarrow> Delivery \<Rightarrow> Delivery" where
  "transitioned target reason ts d = d\<lparr>del_status := target, del_updatedAt := ts,
     del_completedAt := (if target = Completed then Some ts else del_completedAt d),
     del_failureReason := (if target = Failed then reason else del_failureReason d)\<rparr>"

lemma transitioned_sel [simp]:
  "del_id (transitioned t r ts d) = del_id d" "del_status (transitioned t r ts d) = t"
  "del_completedAt (transitioned t r ts d) = (if t = Completed then Some ts else del_completedAt d)"
  "del_failureReason (transitioned t r ts d) = (if t = Failed then r else del_failureReason d)"
  "del_updatedAt (transitioned t r ts d) = ts" "del_trackingToken (transitioned t r ts d) = del_trackingToken d"
  by (simp_all add: transitioned_def)

lemma delivery_transition_eq:
  "delivery_transition now i ev reason s =
     (case delivery_findById (dv_repo s) i of
        None \<Rightarrow> (Inl (domain_error NotFound [''id''] 404), s)
      | Some d \<Rightarrow> (case nextStatus (del_status d) ev of
          None \<Rightarrow> (Inl (domain_error InvalidTransition [''status''] 409), s)
        | Some t \<Rightarrow> if ev = EvFail \<and> \<not> isValidFailureReason (of_str_opt reason)
            then (Inl (domain_error ValidationError [''reason''] 400), s)
            else (case iso_or_throw now of Inl e \<Rightarrow> (Inl e, s)
            | Inr ts \<Rightarrow> (Inr (transitioned t reason ts d),
                s\<lparr>dv_repo := delivery_save (transitioned t reason ts d) (dv_repo s)\<rparr>))))"
  by (auto simp: delivery_transition_def transitioned_def Let_def split: option.split sum.split)

lemma delivery_create_eq:
  "delivery_create idSrc tokSrc now geo inp s =
     (case validateDeliveryInput (delivery_payload inp) of
        Some env \<Rightarrow> (Inl (DomainError env 400), s)
      | None \<Rightarrow> (case geo of
          Rejected _ \<Rightarrow> (Inl (domain_error GeocodingFailure [''address''] 422), s)
        | Fulfilled p \<Rightarrow> (case iso_or_throw now of Inl e \<Rightarrow> (Inl e, s)
          | Inr ts \<Rightarrow>
            (let (newId, n') = next_id ''del'' idSrc (dv_idCounter s);
                 (token, k') = next_id ''trk'' tokSrc (dv_tokenCounter s);
                 d = \<lparr>del_id = newId, del_address = str_arg (cdl_address inp),
                   del_recipientName = str_arg (cdl_recipientName inp),
                   del_recipientContact = str_arg (cdl_recipientContact inp),
                   del_weightKg = weight_arg (cdl_weightKg inp), del_destination = p,
                   del_status = Created, del_trackingToken = token, del_assignmentId = None,
                   del_destinationZoneId = None, del_failureReason = None, del_completedAt = None,
                   del_createdAt = ts, del_updatedAt = ts\<rparr>
             in (Inr d, s\<lparr>dv_repo := delivery_save d (dv_repo s), dv_idCounter := n', dv_tokenCounter := k'\<rparr>)))))"
  by (simp add: delivery_create_def delivery_insert_eq_save Let_def
      split: option.split sum.split prod.split Settled.split)

section \<open>Requests and invariant\<close>

datatype 'e DeliveryOp =
    DopCreate nat nat int "(GeoPoint, 'e RaceError) Settled" CreateDeliveryInput
  | DopTransition int string DeliveryEvent "string option"

fun delivery_exec :: "'e DeliveryOp \<Rightarrow> (DeliverySvc, exn, Delivery) svc" where
  "delivery_exec (DopCreate t u now geo inp) = delivery_create (Stamped t) (Stamped u) now geo inp"
| "delivery_exec (DopTransition now i ev reason) = delivery_transition now i ev reason"

fun delivery_run :: "'e DeliveryOp list \<Rightarrow> DeliverySvc \<Rightarrow> DeliverySvc" where
  "delivery_run [] s = s"
| "delivery_run (x # xs) s = delivery_run xs (snd (delivery_exec x s))"

text \<open>
  A delivery record is well formed: a completion time exactly when completed, a failure
  reason of 1 to 500 characters exactly when failed.
\<close>

definition delivery_ok :: "Delivery \<Rightarrow> bool" where
  "delivery_ok d \<longleftrightarrow> (del_completedAt d \<noteq> None \<longleftrightarrow> del_status d = Completed) \<and>
     (del_failureReason d \<noteq> None \<longleftrightarrow> del_status d = Failed) \<and>
     (\<forall>r. del_failureReason d = Some r \<longrightarrow> 1 \<le> length r \<and> length r \<le> 500)"

definition delivery_repo_wf :: "DeliveryRepo \<Rightarrow> bool" where
  "delivery_repo_wf r \<longleftrightarrow> delivery_repo_ok r \<and> (\<forall>d \<in> set (delivery_list r). delivery_ok d)"

definition delivery_svc_ok :: "DeliverySvc \<Rightarrow> bool" where
  "delivery_svc_ok s \<longleftrightarrow> delivery_repo_wf (dv_repo s) \<and>
     (\<forall>d \<in> set (delivery_list (dv_repo s)). issued ''del'' (dv_idCounter s) (del_id d) \<and>
        issued ''trk'' (dv_tokenCounter s) (del_trackingToken d)) \<and>
     inj_on del_trackingToken (set (delivery_list (dv_repo s)))"

lemma delivery_svc_new_ok [simp]: "delivery_svc_ok delivery_svc_new"
  by (simp add: delivery_svc_ok_def delivery_svc_new_def delivery_repo_wf_def)

lemma delivery_wfD:
  assumes "delivery_repo_wf r"
  shows "delivery_repo_ok r" "delivery_findById r i = Some d \<Longrightarrow> delivery_ok d \<and> del_id d = i"
  using assms del.all_keyI del.look_key by (auto simp: delivery_repo_wf_def)

lemma delivery_wf_save: "delivery_repo_wf r \<Longrightarrow> delivery_ok d \<Longrightarrow> delivery_repo_wf (delivery_save d r)"
  unfolding delivery_repo_wf_def by (intro conjI del.ok_put del.all_pred_put) auto

lemma delivery_ok_transitioned:
  assumes "delivery_ok d" "nextStatus (del_status d) ev = Some t"
    and "ev = EvFail \<longrightarrow> isValidFailureReason (of_str_opt reason)"
  shows "delivery_ok (transitioned t reason ts d)"
  using assms
  by (cases reason) (auto simp: delivery_ok_def nextStatus_step FAILURE_REASON_MIN_def FAILURE_REASON_MAX_def
      elim: lifecycle_step.cases)

lemma delivery_svc_okD:
  assumes "delivery_svc_ok s"
  shows "delivery_repo_wf (dv_repo s)" "delivery_repo_ok (dv_repo s)"
    "d \<in> set (delivery_list (dv_repo s)) \<Longrightarrow> issued ''del'' (dv_idCounter s) (del_id d)"
    "d \<in> set (delivery_list (dv_repo s)) \<Longrightarrow> issued ''trk'' (dv_tokenCounter s) (del_trackingToken d)"
    "inj_on del_trackingToken (set (delivery_list (dv_repo s)))"
  using assms by (simp_all add: delivery_svc_ok_def delivery_repo_wf_def)

lemma delivery_svc_ok_fresh:
  assumes "delivery_svc_ok s"
  shows "delivery_findById (dv_repo s) (stamped_id ''del'' t (Suc (dv_idCounter s))) = None"
proof (rule ccontr)
  assume "\<not> ?thesis"
  then obtain d where d: "delivery_findById (dv_repo s) (stamped_id ''del'' t (Suc (dv_idCounter s))) = Some d"
    by blast
  note r = delivery_svc_okD(2) [OF assms]
  have "issued ''del'' (dv_idCounter s) (stamped_id ''del'' t (Suc (dv_idCounter s)))"
    using delivery_svc_okD(3) [OF assms del.all_keyI [OF r d]] del.look_key [OF r d] by simp
  then show False using issued_fresh by blast
qed

lemma delivery_svc_ok_add:
  assumes ok: "delivery_svc_ok s" and d: "del_id d = stamped_id ''del'' t (Suc (dv_idCounter s))"
    "del_trackingToken d = stamped_id ''trk'' u (Suc (dv_tokenCounter s))" "delivery_ok d"
  shows "delivery_svc_ok (s\<lparr>dv_repo := delivery_save d (dv_repo s), dv_idCounter := Suc (dv_idCounter s),
      dv_tokenCounter := Suc (dv_tokenCounter s)\<rparr>)"
proof -
  note r = delivery_svc_okD(2) [OF ok]
  have "\<forall>e \<in> set (delivery_list (delivery_save d (dv_repo s))). issued ''del'' (Suc (dv_idCounter s)) (del_id e) \<and>
      issued ''trk'' (Suc (dv_tokenCounter s)) (del_trackingToken e)"
    using d delivery_svc_okD(3,4) [OF ok] by (intro del.all_pred_put r) (auto intro: issued_Suc issued_new)
  moreover have "del_trackingToken d \<notin> del_trackingToken ` set (delivery_list (dv_repo s))"
    using d(2) delivery_svc_okD(4) [OF ok] issued_fresh by (metis imageE)
  then have "inj_on del_trackingToken (set (delivery_list (delivery_save d (dv_repo s))))"
    unfolding del.all_put [OF r] by (rule inj_on_add_fresh [OF delivery_svc_okD(5) [OF ok]])
  ultimately show ?thesis
    using d(3) delivery_wf_save delivery_svc_okD(1) [OF ok] by (simp add: delivery_svc_ok_def)
qed

lemma delivery_svc_ok_replace:
  assumes ok: "delivery_svc_ok s" and d: "delivery_findById (dv_repo s) i = Some d"
    and e: "del_id e = del_id d" "del_trackingToken e = del_trackingToken d" "delivery_ok e"
  shows "delivery_svc_ok (s\<lparr>dv_repo := delivery_save e (dv_repo s)\<rparr>)"
proof -
  note r = delivery_svc_okD(2) [OF ok]
  have mem: "d \<in> set (delivery_list (dv_repo s))" by (rule del.all_keyI [OF r d])
  have "\<forall>x \<in> set (delivery_list (delivery_save e (dv_repo s))). issued ''del'' (dv_idCounter s) (del_id x) \<and>
      issued ''trk'' (dv_tokenCounter s) (del_trackingToken x)"
    using e delivery_svc_okD(3,4) [OF ok] mem by (intro del.all_pred_put r) auto
  moreover have "inj_on del_trackingToken (set (delivery_list (delivery_save e (dv_repo s))))"
    unfolding del.all_put [OF r] using e
    by (intro inj_on_replace [OF delivery_svc_okD(5) [OF ok] mem]) simp_all
  ultimately show ?thesis
    using e(3) delivery_wf_save delivery_svc_okD(1) [OF ok] by (simp add: delivery_svc_ok_def)
qed

lemma delivery_svc_ok_exec:
  assumes ok: "delivery_svc_ok s"
  shows "delivery_svc_ok (snd (delivery_exec op s))"
proof (cases op)
  case (DopCreate t u now geo inp)
  with ok show ?thesis
    by (simp add: delivery_create_eq Let_def delivery_svc_ok_add [where t = t and u = u] delivery_ok_def
        split: option.split sum.split Settled.split)
next
  case (DopTransition now i ev reason)
  have "delivery_svc_ok (s\<lparr>dv_repo := delivery_save (transitioned t reason ts d) (dv_repo s)\<rparr>)"
    if "delivery_findById (dv_repo s) i = Some d" "nextStatus (del_status d) ev = Some t"
      "ev = EvFail \<longrightarrow> isValidFailureReason (of_str_opt reason)" for t ts d
    using that delivery_wfD(2) [OF delivery_svc_okD(1) [OF ok] that(1)]
    by (intro delivery_svc_ok_replace [OF ok that(1)]) (simp_all add: delivery_ok_transitioned)
  with DopTransition ok show ?thesis
    by (simp add: delivery_transition_eq split: option.split sum.split)
qed

lemma delivery_svc_ok_run: "delivery_svc_ok s \<Longrightarrow> delivery_svc_ok (delivery_run ops s)"
  by (induction ops arbitrary: s) (auto intro: delivery_svc_ok_exec)

section \<open>Properties\<close>

text \<open>
  What a creation does: on success the delivery is new, \<open>Created\<close>, carries the submitted
  fields, a weight in (0, 1000], and the geocoded destination; a failure is, in this order, a
  validation error naming the bad fields (400), a geocoding failure for a rejected or timed-out
  geocoder (422), or an unrepresentable clock value, and then nothing is stored.
\<close>

theorem delivery_create_outcome:
  assumes "delivery_svc_ok s"
  shows "case delivery_create (Stamped t) (Stamped u) now geo inp s of
      (Inr d, s') \<Rightarrow>
        delivery_findById (dv_repo s) (del_id d) = None \<and>
        delivery_findById (dv_repo s') = (delivery_findById (dv_repo s))(del_id d \<mapsto> d) \<and>
        del_status d = Created \<and> geo = Fulfilled (del_destination d) \<and>
        [Some (del_address d), Some (del_recipientName d), Some (del_recipientContact d)] =
          [cdl_address inp, cdl_recipientName inp, cdl_recipientContact inp] \<and>
        (\<exists>w. cdl_weightKg inp = Some (Fin w) \<and> del_weightKg d = Fin w \<and> 0 < w \<and> w \<le> 1000)
    | (Inl x, s') \<Rightarrow> s' = s \<and>
        (let bad = filter (bad_delivery_field (delivery_payload inp)) delivery_required
         in if bad \<noteq> [] then x = domain_error ValidationError bad 400
            else if \<exists>e. geo = Rejected e then x = domain_error GeocodingFailure [''address''] 422
            else x = RangeError \<and> max_time < \<bar>now\<bar>)"
proof (cases "validateDeliveryInput (delivery_payload inp)")
  case (Some env)
  then show ?thesis
    by (auto simp: delivery_create_eq validateDeliveryInput_eq envelope_of_def domain_error_def Let_def split: if_splits)
next
  case None
  have "filter (bad_delivery_field (delivery_payload inp)) delivery_required = []"
    using None by (simp add: validateDeliveryInput_eq)
  moreover obtain a n c w where "cdl_address inp = Some a" "cdl_recipientName inp = Some n"
    "cdl_recipientContact inp = Some c" "cdl_weightKg inp = Some (Fin w)" "0 < w" "w \<le> 1000"
    using None by (auto simp: validateDeliveryInput_None_iff isValidWeight_iff of_str_opt_def of_num_opt_def
        split: option.splits)
  ultimately show ?thesis
    using None delivery_svc_ok_fresh [OF assms, of t]
    by (auto simp: delivery_create_eq Let_def delivery_save_def delivery_findById_def fun_eq_iff weight_arg_def
        iso_or_throw_Inl split: Settled.split sum.split)
qed

definition sample_delivery_input :: CreateDeliveryInput where
  "sample_delivery_input = \<lparr>cdl_address = Some ''1 Main St'', cdl_recipientName = Some ''Pat'',
     cdl_recipientContact = Some ''555'', cdl_weightKg = Some (Fin 5)\<rparr>"

definition sample_point :: GeoPoint where
  "sample_point = \<lparr>geo_lat = Fin 1, geo_lng = Fin 2\<rparr>"

lemma sample_delivery_valid: "validateDeliveryInput (delivery_payload sample_delivery_input) = None"
  by (simp add: validateDeliveryInput_None_iff sample_delivery_input_def isValidWeight_iff
      js_trim_def js_space_def char_code_def)

theorem delivery_create_outcome_witness:
  "\<exists>d s'. delivery_create (Stamped 0) (Stamped 0) 0 (Fulfilled sample_point :: (GeoPoint, unit RaceError) Settled)
      sample_delivery_input delivery_svc_new = (Inr d, s') \<and>
     del_status d = Created \<and> delivery_findById (dv_repo s') (del_id d) = Some d"
proof -
  let ?r = "delivery_create (Stamped 0) (Stamped 0) 0 (Fulfilled sample_point :: (GeoPoint, unit RaceError) Settled)
      sample_delivery_input delivery_svc_new"
  obtain d s' where r: "?r = (Inr d, s')"
    by (simp add: delivery_create_eq sample_delivery_valid iso_or_throw_def toIso_def max_time_def Let_def)
  have "case ?r of (Inr d, s') \<Rightarrow> del_status d = Created \<and>
        delivery_findById (dv_repo s') = (delivery_findById (dv_repo delivery_svc_new))(del_id d \<mapsto> d)
      | (Inl x, s') \<Rightarrow> True"
    using delivery_create_outcome [OF delivery_svc_new_ok, where t = 0 and u = 0 and now = 0
        and geo = "Fulfilled sample_point :: (GeoPoint, unit RaceError) Settled" and inp = sample_delivery_input]
    by (auto split: sum.splits)
  with r show ?thesis by auto
qed

text \<open>
  C6. What a transition does, on every branch: an unknown id, an undefined transition, a failure
  without a valid reason and an unrepresentable clock value are rejected in that order and
  change nothing; otherwise exactly that delivery moves along its lifecycle edge, is stamped,
  and gains the completion time or the failure reason its new status calls for.
\<close>

theorem delivery_transition_outcome:
  "delivery_transition now i ev reason s =
     (case delivery_findById (dv_repo s) i of
        None \<Rightarrow> (Inl (domain_error NotFound [''id''] 404), s)
      | Some d \<Rightarrow>
        if \<nexists>t. lifecycle_step (del_status d) ev t then (Inl (domain_error InvalidTransition [''status''] 409), s)
        else if ev = EvFail \<and> (case reason of None \<Rightarrow> True | Some r \<Rightarrow> length r < 1 \<or> 500 < length r)
          then (Inl (domain_error ValidationError [''reason''] 400), s)
        else if max_time < \<bar>now\<bar> then (Inl RangeError, s)
        else (let t = the (nextStatus (del_status d) ev);
                  d' = d\<lparr>del_status := t, del_updatedAt := iso_string now,
                    del_completedAt := (if t = Completed then Some (iso_string now) else del_completedAt d),
                    del_failureReason := (if t = Failed then reason else del_failureReason d)\<rparr>
              in (Inr d', s\<lparr>dv_repo := delivery_save d' (dv_repo s)\<rparr>)))"
proof -
  have "isValidFailureReason (of_str_opt reason) \<longleftrightarrow>
      \<not> (case reason of None \<Rightarrow> True | Some r \<Rightarrow> length r < 1 \<or> 500 < length r)"
    by (cases reason) (auto simp: FAILURE_REASON_MIN_def FAILURE_REASON_MAX_def Suc_le_eq)
  moreover have "(\<nexists>t. lifecycle_step a ev t) \<longleftrightarrow> nextStatus a ev = None" for a
    by (auto simp: nextStatus_step [symmetric])
  ultimately show ?thesis
    by (auto simp: delivery_transition_eq transitioned_def Let_def iso_or_throw_def toIso_def
        split: option.split)
qed

text \<open>
  C8. Every delivery a fresh service ever holds is well formed, whatever requests were made: it
  has a completion time exactly when it is Completed, a failure reason (of 1 to 500 characters)
  exactly when it is Failed, and tracking tokens are never shared.
\<close>

theorem delivery_records_wf:
  "(case delivery_findById (dv_repo (delivery_run ops delivery_svc_new)) i of
      None \<Rightarrow> True
    | Some d \<Rightarrow> del_id d = i \<and> (del_completedAt d \<noteq> None \<longleftrightarrow> del_status d = Completed) \<and>
        (case del_failureReason d of None \<Rightarrow> del_status d \<noteq> Failed
         | Some r \<Rightarrow> del_status d = Failed \<and> length r \<in> {1..500})) \<and>
   distinct (map del_trackingToken (delivery_list (dv_repo (delivery_run ops delivery_svc_new))))"
proof -
  let ?s = "delivery_run ops delivery_svc_new"
  have ok: "delivery_svc_ok ?s" by (rule delivery_svc_ok_run [OF delivery_svc_new_ok])
  have "distinct (delivery_list (dv_repo ?s))"
    using del.all_distinct [OF delivery_svc_okD(2) [OF ok]] by (simp add: distinct_map)
  then show ?thesis
    using delivery_wfD(2) [OF delivery_svc_okD(1) [OF ok], of i] delivery_svc_okD(5) [OF ok]
    by (auto simp: delivery_ok_def distinct_map split: option.split)
qed

text \<open>
  The abstract service: which status each delivery id has. A request either leaves it alone,
  adds a \<open>Created\<close> delivery under a new id, or moves one delivery along a lifecycle edge.
\<close>

definition delivery_abs :: "DeliverySvc \<Rightarrow> string \<Rightarrow> DeliveryStatus option" where
  "delivery_abs s i = map_option del_status (delivery_findById (dv_repo s) i)"

inductive abstract_step ::
    "(string \<Rightarrow> DeliveryStatus option) \<Rightarrow> (string \<Rightarrow> DeliveryStatus option) \<Rightarrow> bool" where
  stutter: "abstract_step m m"
| new: "m i = None \<Longrightarrow> abstract_step m (m(i \<mapsto> Created))"
| move: "m i = Some a \<Longrightarrow> lifecycle_step a ev b \<Longrightarrow> abstract_step m (m(i \<mapsto> b))"

lemma delivery_abs_save:
  "delivery_abs (s\<lparr>dv_repo := delivery_save d (dv_repo s)\<rparr>) = (delivery_abs s)(del_id d \<mapsto> del_status d)"
  "delivery_abs (s\<lparr>dv_repo := r, dv_idCounter := n, dv_tokenCounter := k\<rparr>) = delivery_abs (s\<lparr>dv_repo := r\<rparr>)"
  by (simp_all add: delivery_abs_def delivery_save_def delivery_findById_def fun_eq_iff)

text \<open>
  C4. Refinement: every request of a reachable service state is a step of the abstract service.
\<close>

theorem delivery_exec_refines:
  "abstract_step (delivery_abs (delivery_run ops delivery_svc_new))
     (delivery_abs (snd (delivery_exec op (delivery_run ops delivery_svc_new))))"
proof -
  let ?s = "delivery_run ops delivery_svc_new"
  have ok: "delivery_svc_ok ?s" by (rule delivery_svc_ok_run [OF delivery_svc_new_ok])
  show ?thesis
  proof (cases op)
    case (DopCreate t u now geo inp)
    have "delivery_abs ?s (stamped_id ''del'' t (Suc (dv_idCounter ?s))) = None"
      using delivery_svc_ok_fresh [OF ok] by (simp add: delivery_abs_def)
    with DopCreate show ?thesis
      by (auto simp: delivery_create_eq Let_def delivery_abs_save intro: abstract_step.intros
          split: option.split sum.split Settled.split)
  next
    case (DopTransition now i ev reason)
    have "abstract_step (delivery_abs ?s) ((delivery_abs ?s)(del_id d \<mapsto> t))"
      if "delivery_findById (dv_repo ?s) i = Some d" "nextStatus (del_status d) ev = Some t" for d t
      using that delivery_wfD(2) [OF delivery_svc_okD(1) [OF ok] that(1)]
      by (intro abstract_step.move) (auto simp: delivery_abs_def nextStatus_step)
    with DopTransition show ?thesis
      by (auto simp: delivery_transition_eq delivery_abs_save intro: abstract_step.stutter
          split: option.split sum.split)
  qed
qed

text \<open>How many transitions of one delivery succeed in a run.\<close>

fun moves_of :: "string \<Rightarrow> 'e DeliveryOp list \<Rightarrow> DeliverySvc \<Rightarrow> nat" where
  "moves_of i [] s = 0"
| "moves_of i (op # ops) s =
     (case (op, fst (delivery_exec op s)) of
        (DopTransition now j ev reason, Inr d) \<Rightarrow> if j = i then 1 else 0 | _ \<Rightarrow> 0)
     + moves_of i ops (snd (delivery_exec op s))"

abbreviation progress_of :: "string \<Rightarrow> DeliverySvc \<Rightarrow> nat" where
  "progress_of i s \<equiv> (case delivery_findById (dv_repo s) i of None \<Rightarrow> 0 | Some d \<Rightarrow> progress (del_status d))"

lemma progress_of_exec:
  assumes ok: "delivery_svc_ok s"
  shows "(case (op, fst (delivery_exec op s)) of
        (DopTransition now j ev reason, Inr d) \<Rightarrow> if j = i then 1 else 0 | _ \<Rightarrow> 0)
     + progress_of i s \<le> progress_of i (snd (delivery_exec op s))"
proof (cases op)
  case (DopCreate t u now geo inp)
  then show ?thesis
    using delivery_svc_ok_fresh [OF ok, of t]
    by (auto simp: delivery_create_eq Let_def del.look_put [OF delivery_svc_okD(2) [OF ok]]
        split: option.split sum.split Settled.split)
next
  case (DopTransition now j ev reason)
  have "del_id d = j" if "delivery_findById (dv_repo s) j = Some d" for d
    by (rule del.look_key [OF delivery_svc_okD(2) [OF ok] that])
  moreover have "Suc (progress a) \<le> progress b" if "nextStatus a ev = Some b" for a b
    using nextStatus_progress [OF that] by simp
  ultimately show ?thesis
    using DopTransition
    by (auto simp: delivery_transition_eq del.look_put [OF delivery_svc_okD(2) [OF ok]]
        split: option.split sum.split)
qed

lemma moves_progress:
  "delivery_svc_ok s \<Longrightarrow> moves_of i ops s + progress_of i s \<le> progress_of i (delivery_run ops s)"
proof (induction ops arbitrary: s)
  case (Cons op ops)
  show ?case
    using Cons.IH [OF delivery_svc_ok_exec [OF Cons.prems, of op]] progress_of_exec [OF Cons.prems, where op = op and i = i]
    by simp
qed simp

lemma delivery_exec_keeps_terminal:
  assumes ok: "delivery_svc_ok s" and d: "delivery_findById (dv_repo s) i = Some d" "isTerminal (del_status d)"
  shows "delivery_findById (dv_repo (snd (delivery_exec op s))) i = Some d"
proof (cases op)
  case (DopCreate t u now geo inp)
  have "stamped_id ''del'' t (Suc (dv_idCounter s)) \<noteq> i"
    using delivery_svc_ok_fresh [OF ok, of t] d by auto
  with DopCreate d show ?thesis
    by (auto simp: delivery_create_eq Let_def del.look_put [OF delivery_svc_okD(2) [OF ok]]
        split: option.split sum.split Settled.split)
next
  case (DopTransition now j ev reason)
  have "del_id e = j" if "delivery_findById (dv_repo s) j = Some e" for e
    by (rule del.look_key [OF delivery_svc_okD(2) [OF ok] that])
  with DopTransition d show ?thesis
    by (auto simp: delivery_transition_eq del.look_put [OF delivery_svc_okD(2) [OF ok]] nextStatus_terminal
        split: option.split sum.split)
qed

lemma delivery_run_keeps_terminal:
  "delivery_svc_ok s \<Longrightarrow> delivery_findById (dv_repo s) i = Some d \<Longrightarrow> isTerminal (del_status d) \<Longrightarrow>
     delivery_findById (dv_repo (delivery_run ops s)) i = Some d"
  by (induction ops arbitrary: s) (simp_all add: delivery_svc_ok_exec delivery_exec_keeps_terminal)

text \<open>
  C7. A delivery ends: in any sequence of requests at most four transitions of one delivery
  succeed, and one that has reached a terminal status admits no further one.
\<close>

theorem delivery_moves_bounded:
  "moves_of i ops delivery_svc_new \<le> 4 \<and>
   (case delivery_findById (dv_repo (delivery_run ops delivery_svc_new)) i of
      None \<Rightarrow> True
    | Some d \<Rightarrow> if isTerminal (del_status d)
        then moves_of i later (delivery_run ops delivery_svc_new) = 0 \<and>
          delivery_findById (dv_repo (delivery_run later (delivery_run ops delivery_svc_new))) i = Some d
        else True)"
proof -
  let ?s = "delivery_run ops delivery_svc_new"
  have ok: "delivery_svc_ok ?s" by (rule delivery_svc_ok_run [OF delivery_svc_new_ok])
  have bound: "progress_of i s \<le> 4" for s
    by (auto simp: progress_le split: option.split)
  have "moves_of i later ?s = 0"
    if "delivery_findById (dv_repo ?s) i = Some d" "isTerminal (del_status d)" for d
  proof -
    have "progress (del_status d) = 4" using that(2) by (cases "del_status d") auto
    with that(1) have "progress_of i ?s = 4" by simp
    with moves_progress [OF ok, of i later] bound [of "delivery_run later ?s"] show ?thesis by simp
  qed
  moreover have "moves_of i ops delivery_svc_new \<le> 4"
    using moves_progress [OF delivery_svc_new_ok, of i ops] bound [of ?s] by simp
  ultimately show ?thesis
    by (auto simp: delivery_run_keeps_terminal [OF ok] split: option.split)
qed

end
