(* ===== verification/Assignments.thy ===== *)
theory Assignments
  imports Drivers Vehicles Deliveries
begin

text \<open>
  The assignment component: \<open>assignments/assignment-repository.ts\<close> and
  \<open>assignments/assignment-service.ts\<close>. The service works on the four repositories it was
  constructed with; they and its id counter are the state \<open>Dispatch\<close>.
\<close>

section \<open>Repository\<close>

record Assignment =
  asg_id :: string
  asg_driverId :: string
  asg_vehicleId :: string
  asg_status :: AssignmentStatus
  asg_acceptedAt :: "string option"
  asg_createdAt :: string

type_synonym AssignmentRepo = "(string, Assignment) jsmap"

definition assignment_repo_new :: AssignmentRepo where
  "assignment_repo_new = []"

definition assignment_insert :: "Assignment \<Rightarrow> AssignmentRepo \<Rightarrow> AssignmentRepo" where
  "assignment_insert a r = map_set (asg_id a) a r"

definition assignment_save :: "Assignment \<Rightarrow> AssignmentRepo \<Rightarrow> AssignmentRepo" where
  "assignment_save a r = map_set (asg_id a) a r"

definition assignment_findById :: "AssignmentRepo \<Rightarrow> string \<Rightarrow> Assignment option" where
  "assignment_findById r i = map_get r i"

definition assignment_list :: "AssignmentRepo \<Rightarrow> Assignment list" where
  "assignment_list r = map_values r"

definition isActiveAssignment :: "Assignment \<Rightarrow> bool" where
  "isActiveAssignment a \<longleftrightarrow> asg_status a \<noteq> Complete"

definition assignment_repo_ok :: "AssignmentRepo \<Rightarrow> bool" where
  "assignment_repo_ok r \<longleftrightarrow> store_ok asg_id r"

lemma assignment_insert_eq_save: "assignment_insert = assignment_save"
  by (simp add: fun_eq_iff assignment_insert_def assignment_save_def)

lemma assignment_repo_new_ok [simp]: "assignment_repo_ok assignment_repo_new"
  by (simp add: assignment_repo_ok_def assignment_repo_new_def)

interpretation asg: keyed_store assignment_save assignment_findById assignment_list asg_id assignment_repo_ok
  by unfold_locales
    (auto simp: assignment_save_def assignment_findById_def assignment_list_def assignment_repo_ok_def
      store_ok_laws simp del: set_map)

section \<open>Service\<close>

record Dispatch =
  as_assignments :: AssignmentRepo
  as_drivers :: DriverRepo
  as_vehicles :: VehicleRepo
  as_deliveries :: DeliveryRepo
  as_counter :: nat

definition requireEligibleDriver :: "string \<Rightarrow> (Dispatch, exn, Driver) svc" where
  "requireEligibleDriver driverId =
     sbind (sget (\<lambda>s. driver_findById (as_drivers s) driverId)) (\<lambda>found.
     sbind (srequire (domain_error NotFound [''driverId''] 404) found) (\<lambda>driver.
     sbind (sreject (\<not> drv_active driver \<or> \<not> isEligibleStatus (drv_status driver))
       (domain_error UnavailableDriver [''driverId''] 409)) (\<lambda>_.
     sret driver)))"

definition requireAssignment :: "string \<Rightarrow> (Dispatch, exn, Assignment) svc" where
  "requireAssignment i = sbind (sget (\<lambda>s. assignment_findById (as_assignments s) i))
     (srequire (domain_error NotFound [''assignmentId''] 404))"

text \<open>The loop of \<open>resolveAssignableDeliveries\<close>: \<open>acc\<close> is the array it pushes to.\<close>

fun resolveAssignableDeliveries :: "DeliveryRepo \<Rightarrow> string list \<Rightarrow> Delivery list \<Rightarrow> exn + Delivery list" where
  "resolveAssignableDeliveries r [] acc = Inr acc"
| "resolveAssignableDeliveries r (i # ids) acc =
     (case delivery_findById r i of
        None \<Rightarrow> Inl (domain_error NotFound [''deliveryId''] 404)
      | Some d \<Rightarrow>
          if truthy (del_assignmentId d) then Inl (domain_error AlreadyAssigned [''deliveryId''] 409)
          else if nextStatus (del_status d) EvAssign = None
            then Inl (domain_error AlreadyAssigned [''deliveryId''] 409)
          else resolveAssignableDeliveries r ids (acc @ [d]))"

text \<open>The copy of a delivery that \<open>create\<close> saves.\<close>

definition linked :: "string \<Rightarrow> string \<Rightarrow> Delivery \<Rightarrow> Delivery" where
  "linked assignmentId ts d = d\<lparr>del_assignmentId := Some assignmentId,
     del_status := or_else (nextStatus (del_status d) EvAssign) (del_status d), del_updatedAt := ts\<rparr>"

text \<open>\<open>deliveryIds\<close> is \<open>None\<close> when the argument is not an array.\<close>

definition assignment_create ::
    "id_source \<Rightarrow> int \<Rightarrow> string \<Rightarrow> string list option \<Rightarrow> (Dispatch, exn, Assignment) svc" where
  "assignment_create src clockNow driverId deliveryIds =
     sbind (case deliveryIds of
         None \<Rightarrow> sthrow (domain_error ValidationError [''deliveryIds''] 400)
       | Some ids \<Rightarrow> if length ids = 0 then sthrow (domain_error ValidationError [''deliveryIds''] 400)
           else sret ids) (\<lambda>ids.
     sbind (requireEligibleDriver driverId) (\<lambda>driver.
     sbind (sget (\<lambda>s. vehicle_findByDriverId (as_vehicles s) driverId)) (\<lambda>found.
     sbind (srequire (domain_error Conflict [''vehicleId''] 409) found) (\<lambda>vehicle.
     sbind (sget (\<lambda>s. resolveAssignableDeliveries (as_deliveries s) ids [])) (\<lambda>resolved.
     sbind (slift resolved) (\<lambda>toLink.
     sbind (slift (iso_or_throw clockNow)) (\<lambda>ts.
     sbind (sget as_counter) (\<lambda>n.
     let (newId, n') = next_id ''asg'' src n;
         a = \<lparr>asg_id = newId, asg_driverId = driverId, asg_vehicleId = veh_id vehicle,
              asg_status = Pending, asg_acceptedAt = None, asg_createdAt = ts\<rparr> in
     sbind (smodify (\<lambda>s. s\<lparr>as_counter := n'\<rparr>)) (\<lambda>_.
     sbind (smodify (\<lambda>s. s\<lparr>as_assignments := assignment_insert a (as_assignments s)\<rparr>)) (\<lambda>_.
     sbind (sfor toLink (\<lambda>d. smodify (\<lambda>s. s\<lparr>as_deliveries := delivery_save (linked (asg_id a) ts d) (as_deliveries s)\<rparr>))) (\<lambda>_.
     sbind (smodify (\<lambda>s. s\<lparr>as_drivers :=
       driver_save (driver\<lparr>drv_status := OnDelivery, drv_updatedAt := ts\<rparr>) (as_drivers s)\<rparr>)) (\<lambda>_.
     sret a))))))))))))"

text \<open>\<open>assignment.acceptedAt ?? toIso(...)\<close>: the clock is formatted only when it is needed.\<close>

definition assignment_accept :: "int \<Rightarrow> string \<Rightarrow> (Dispatch, exn, Assignment) svc" where
  "assignment_accept clockNow i =
     sbind (requireAssignment i) (\<lambda>a.
     sbind (case asg_acceptedAt a of Some t \<Rightarrow> sret t | None \<Rightarrow> slift (iso_or_throw clockNow)) (\<lambda>t.
     let next = a\<lparr>asg_status := Accepted, asg_acceptedAt := Some t\<rparr> in
     sbind (smodify (\<lambda>s. s\<lparr>as_assignments := assignment_save next (as_assignments s)\<rparr>)) (\<lambda>_.
     sret next)))"

definition assignment_reassign :: "int \<Rightarrow> string \<Rightarrow> string \<Rightarrow> (Dispatch, exn, Delivery) svc" where
  "assignment_reassign clockNow deliveryId targetId =
     sbind (sget (\<lambda>s. delivery_findById (as_deliveries s) deliveryId)) (\<lambda>found.
     sbind (srequire (domain_error NotFound [''deliveryId''] 404) found) (\<lambda>d.
     sbind (sreject (\<not> truthy (del_assignmentId d)) (domain_error InvalidTransition [''deliveryId''] 409)) (\<lambda>_.
     if del_assignmentId d = Some targetId then sret d
     else
       sbind (requireAssignment targetId) (\<lambda>target.
       sbind (sreject (\<not> isActiveAssignment target) (domain_error Conflict [''assignmentId''] 409)) (\<lambda>_.
       sbind (slift (iso_or_throw clockNow)) (\<lambda>ts.
       let moved = d\<lparr>del_assignmentId := Some (asg_id target), del_updatedAt := ts\<rparr> in
       sbind (smodify (\<lambda>s. s\<lparr>as_deliveries := delivery_save moved (as_deliveries s)\<rparr>)) (\<lambda>_.
       sret moved)))))))"

section \<open>Operations in closed form\<close>

text \<open>A delivery that may be put on an assignment.\<close>

definition assignable :: "Delivery \<Rightarrow> bool" where
  "assignable d \<longleftrightarrow> \<not> truthy (del_assignmentId d) \<and> del_status d = Created"

lemma assign_next_iff: "nextStatus s EvAssign = None \<longleftrightarrow> s \<noteq> Created"
  by (cases s) (auto simp: nextStatus_def)

lemma linked_sel [simp]:
  "del_id (linked a ts d) = del_id d" "del_assignmentId (linked a ts d) = Some a"
  "del_trackingToken (linked a ts d) = del_trackingToken d"
  "del_failureReason (linked a ts d) = del_failureReason d" "del_completedAt (linked a ts d) = del_completedAt d"
  by (simp_all add: linked_def)

lemma linked_status [simp]: "del_status d = Created \<Longrightarrow> del_status (linked a ts d) = Assigned"
  by (simp add: linked_def nextStatus_def)

text \<open>An id that \<open>resolveAssignableDeliveries\<close> stops at.\<close>

definition blocked :: "DeliveryRepo \<Rightarrow> string \<Rightarrow> bool" where
  "blocked r i \<longleftrightarrow> (case delivery_findById r i of None \<Rightarrow> True | Some d \<Rightarrow> \<not> assignable d)"

lemma not_blockedE: "\<not> blocked r i \<Longrightarrow> (\<And>d. delivery_findById r i = Some d \<Longrightarrow> assignable d \<Longrightarrow> P) \<Longrightarrow> P"
  by (auto simp: blocked_def split: option.splits)

lemma resolve_eq:
  "resolveAssignableDeliveries r ids acc =
     (case List.find (blocked r) ids of
        None \<Rightarrow> Inr (acc @ map (\<lambda>i. the (delivery_findById r i)) ids)
      | Some i \<Rightarrow> Inl (if delivery_findById r i = None then domain_error NotFound [''deliveryId''] 404
          else domain_error AlreadyAssigned [''deliveryId''] 409))"
  by (induction r ids acc rule: resolveAssignableDeliveries.induct)
    (auto simp: blocked_def assignable_def assign_next_iff split: option.split)

lemma resolve_Inr_iff:
  "resolveAssignableDeliveries r ids [] = Inr ds \<longleftrightarrow>
     (\<forall>i \<in> set ids. \<not> blocked r i) \<and> ds = map (\<lambda>i. the (delivery_findById r i)) ids"
proof (cases "List.find (blocked r) ids")
  case None
  with find_NoneD [OF None] show ?thesis by (auto simp: resolve_eq)
next
  case (Some i)
  with find_SomeD [OF Some] show ?thesis by (auto simp: resolve_eq)
qed

text \<open>The world a successful \<open>create\<close> leaves.\<close>

definition with_assignment :: "nat \<Rightarrow> Assignment \<Rightarrow> Driver \<Rightarrow> Delivery list \<Rightarrow> string \<Rightarrow> Dispatch \<Rightarrow> Dispatch" where
  "with_assignment n a driver ds ts s = s\<lparr>as_counter := n,
     as_assignments := assignment_save a (as_assignments s),
     as_deliveries := foldl (\<lambda>r d. delivery_save d r) (as_deliveries s) (map (linked (asg_id a) ts) ds),
     as_drivers := driver_save (driver\<lparr>drv_status := OnDelivery, drv_updatedAt := ts\<rparr>) (as_drivers s)\<rparr>"

lemma foldl_link:
  "foldl (\<lambda>s d. s\<lparr>as_deliveries := delivery_save (f d) (as_deliveries s)\<rparr>) s ds =
     s\<lparr>as_deliveries := foldl (\<lambda>r d. delivery_save d r) (as_deliveries s) (map f ds)\<rparr>"
  by (induction ds arbitrary: s) simp_all

lemma assignment_create_eq:
  "assignment_create src now driverId deliveryIds s =
     (case deliveryIds of None \<Rightarrow> (Inl (domain_error ValidationError [''deliveryIds''] 400), s)
      | Some ids \<Rightarrow> if ids = [] then (Inl (domain_error ValidationError [''deliveryIds''] 400), s)
        else (case driver_findById (as_drivers s) driverId of
          None \<Rightarrow> (Inl (domain_error NotFound [''driverId''] 404), s)
        | Some driver \<Rightarrow> if \<not> isEligibleForAssignment driver
            then (Inl (domain_error UnavailableDriver [''driverId''] 409), s)
          else (case vehicle_findByDriverId (as_vehicles s) driverId of
            None \<Rightarrow> (Inl (domain_error Conflict [''vehicleId''] 409), s)
          | Some vehicle \<Rightarrow> (case resolveAssignableDeliveries (as_deliveries s) ids [] of
              Inl e \<Rightarrow> (Inl e, s)
            | Inr ds \<Rightarrow> (case iso_or_throw now of Inl e \<Rightarrow> (Inl e, s)
              | Inr ts \<Rightarrow> (let (newId, n') = next_id ''asg'' src (as_counter s);
                    a = \<lparr>asg_id = newId, asg_driverId = driverId, asg_vehicleId = veh_id vehicle,
                      asg_status = Pending, asg_acceptedAt = None, asg_createdAt = ts\<rparr>
                  in (Inr a, with_assignment n' a driver ds ts s)))))))"
  by (cases deliveryIds)
    (auto simp: assignment_create_def requireEligibleDriver_def isEligibleForAssignment_def Let_def
      assignment_insert_eq_save with_assignment_def foldl_link split: option.split sum.split prod.split)

lemma assignment_accept_eq:
  "assignment_accept now i s =
     (case assignment_findById (as_assignments s) i of
        None \<Rightarrow> (Inl (domain_error NotFound [''assignmentId''] 404), s)
      | Some a \<Rightarrow> (case (case asg_acceptedAt a of Some t \<Rightarrow> Inr t | None \<Rightarrow> iso_or_throw now) of
          Inl e \<Rightarrow> (Inl e, s)
        | Inr t \<Rightarrow> (let next = a\<lparr>asg_status := Accepted, asg_acceptedAt := Some t\<rparr>
            in (Inr next, s\<lparr>as_assignments := assignment_save next (as_assignments s)\<rparr>))))"
  by (simp add: assignment_accept_def requireAssignment_def Let_def split: option.split sum.split)

lemma assignment_reassign_eq:
  "assignment_reassign now i target s =
     (case delivery_findById (as_deliveries s) i of
        None \<Rightarrow> (Inl (domain_error NotFound [''deliveryId''] 404), s)
      | Some d \<Rightarrow> if \<not> truthy (del_assignmentId d) then (Inl (domain_error InvalidTransition [''deliveryId''] 409), s)
        else if del_assignmentId d = Some target then (Inr d, s)
        else (case assignment_findById (as_assignments s) target of
          None \<Rightarrow> (Inl (domain_error NotFound [''assignmentId''] 404), s)
        | Some a \<Rightarrow> if \<not> isActiveAssignment a then (Inl (domain_error Conflict [''assignmentId''] 409), s)
          else (case iso_or_throw now of Inl e \<Rightarrow> (Inl e, s)
            | Inr ts \<Rightarrow> (let moved = d\<lparr>del_assignmentId := Some (asg_id a), del_updatedAt := ts\<rparr>
                in (Inr moved, s\<lparr>as_deliveries := delivery_save moved (as_deliveries s)\<rparr>)))))"
  by (simp add: assignment_reassign_def requireAssignment_def Let_def split: option.split sum.split)

lemma with_assignment_sel [simp]:
  "as_assignments (with_assignment n a driver ds ts s) = assignment_save a (as_assignments s)"
  "as_drivers (with_assignment n a driver ds ts s) =
     driver_save (driver\<lparr>drv_status := OnDelivery, drv_updatedAt := ts\<rparr>) (as_drivers s)"
  "as_vehicles (with_assignment n a driver ds ts s) = as_vehicles s"
  "as_counter (with_assignment n a driver ds ts s) = n"
  "as_deliveries (with_assignment n a driver ds ts s) =
     foldl (\<lambda>r d. delivery_save d r) (as_deliveries s) (map (linked (asg_id a) ts) ds)"
  by (simp_all add: with_assignment_def)

lemma look_linked:
  assumes ok: "delivery_repo_ok r" and free: "\<forall>i \<in> set ids. \<not> blocked r i"
  shows "delivery_findById (foldl (\<lambda>r d. delivery_save d r) r
      (map (linked a ts) (map (\<lambda>i. the (delivery_findById r i)) ids))) k =
    (if k \<in> set ids then map_option (linked a ts) (delivery_findById r k) else delivery_findById r k)"
proof -
  have found: "\<exists>d. delivery_findById r i = Some d \<and> del_id d = i" if "i \<in> set ids" for i
  proof -
    from free that have "\<not> blocked r i" by blast
    then obtain d where "delivery_findById r i = Some d" by (rule not_blockedE)
    with del.look_key [OF ok this] show ?thesis by blast
  qed
  let ?vs = "map (linked a ts) (map (\<lambda>i. the (delivery_findById r i)) ids)"
  have copies: "\<exists>w. delivery_findById r (del_id v) = Some w \<and> v = linked a ts w" if "v \<in> set ?vs" for v
    using that found by fastforce
  have "del_id ` set ?vs = set ids"
    using found by (force simp: image_iff)
  then show ?thesis
    by (simp only: del.look_put_copies [OF ok copies])
qed

section \<open>Properties\<close>

text \<open>What \<open>create\<close> answers when it rejects, in the order it checks.\<close>

definition create_rejection :: "int \<Rightarrow> string \<Rightarrow> string list option \<Rightarrow> Dispatch \<Rightarrow> exn option" where
  "create_rejection now driverId deliveryIds s =
     (if deliveryIds = None \<or> deliveryIds = Some [] then Some (domain_error ValidationError [''deliveryIds''] 400)
      else case driver_findById (as_drivers s) driverId of
        None \<Rightarrow> Some (domain_error NotFound [''driverId''] 404)
      | Some d \<Rightarrow>
        if \<not> (drv_active d \<and> drv_status d = Available) then Some (domain_error UnavailableDriver [''driverId''] 409)
        else if \<nexists>v. vehicle_findByDriverId (as_vehicles s) driverId = Some v
          then Some (domain_error Conflict [''vehicleId''] 409)
        else case List.find (blocked (as_deliveries s)) (the deliveryIds) of
          Some i \<Rightarrow> Some (if delivery_findById (as_deliveries s) i = None then domain_error NotFound [''deliveryId''] 404
            else domain_error AlreadyAssigned [''deliveryId''] 409)
        | None \<Rightarrow> if max_time < \<bar>now\<bar> then Some RangeError else None)"

text \<open>
  C1. Creating an assignment is all or nothing. A rejection (with the error of the first failing
  check) leaves the whole state as it was. Otherwise the driver was active and Available with a
  vehicle and every named delivery was Created and unassigned; afterwards there is one new
  Pending assignment, the driver is On_Delivery, exactly the named deliveries are Assigned to
  it, and nothing else changed.
\<close>

theorem assignment_create_outcome:
  assumes "delivery_repo_ok (as_deliveries s)"
  shows "case assignment_create src now driverId deliveryIds s of
      (Inl e, s') \<Rightarrow> s' = s \<and> create_rejection now driverId deliveryIds s = Some e
    | (Inr a, s') \<Rightarrow> create_rejection now driverId deliveryIds s = None \<and>
        (\<exists>ids d v. deliveryIds = Some ids \<and> driver_findById (as_drivers s) driverId = Some d \<and>
          vehicle_findByDriverId (as_vehicles s) driverId = Some v \<and>
          asg_id a = fst (next_id ''asg'' src (as_counter s)) \<and> asg_driverId a = driverId \<and>
          asg_vehicleId a = veh_id v \<and> asg_status a = Pending \<and> asg_createdAt a = iso_string now \<and>
          assignment_findById (as_assignments s') = (assignment_findById (as_assignments s))(asg_id a \<mapsto> a) \<and>
          driver_findById (as_drivers s') = (driver_findById (as_drivers s))
            (drv_id d \<mapsto> d\<lparr>drv_status := OnDelivery, drv_updatedAt := iso_string now\<rparr>) \<and>
          as_vehicles s' = as_vehicles s \<and>
          (\<forall>k. delivery_findById (as_deliveries s') k =
            (if k \<in> set ids then map_option (\<lambda>e. e\<lparr>del_assignmentId := Some (asg_id a),
                del_status := Assigned, del_updatedAt := iso_string now\<rparr>) (delivery_findById (as_deliveries s) k)
             else delivery_findById (as_deliveries s) k)))"
proof (cases "create_rejection now driverId deliveryIds s")
  case (Some e)
  then show ?thesis
    by (auto simp: assignment_create_eq create_rejection_def isEligibleForAssignment_def isEligibleStatus_def
        resolve_eq iso_or_throw_def toIso_def split: option.splits if_splits)
next
  case None
  then obtain ids d v where ids: "deliveryIds = Some ids" "ids \<noteq> []"
    and d: "driver_findById (as_drivers s) driverId = Some d" "isEligibleForAssignment d"
    and v: "vehicle_findByDriverId (as_vehicles s) driverId = Some v"
    and free: "List.find (blocked (as_deliveries s)) ids = None" and time: "\<bar>now\<bar> \<le> max_time"
    by (auto simp: create_rejection_def isEligibleForAssignment_def isEligibleStatus_def
        split: option.splits if_splits)
  let ?ds = "map (\<lambda>i. the (delivery_findById (as_deliveries s) i)) ids"
  have free': "\<forall>i \<in> set ids. \<not> blocked (as_deliveries s) i"
    using find_NoneD [OF free] by blast
  obtain n' newId where id: "next_id ''asg'' src (as_counter s) = (newId, n')" by fastforce
  let ?a = "\<lparr>asg_id = newId, asg_driverId = driverId, asg_vehicleId = veh_id v,
      asg_status = Pending, asg_acceptedAt = None, asg_createdAt = iso_string now\<rparr>"
  have res: "assignment_create src now driverId deliveryIds s =
      (Inr ?a, with_assignment n' ?a d ?ds (iso_string now) s)"
    using ids d v free time
    by (simp add: assignment_create_eq resolve_eq iso_or_throw_def toIso_def id Let_def)
  have "linked newId (iso_string now) e =
      e\<lparr>del_assignmentId := Some newId, del_status := Assigned, del_updatedAt := iso_string now\<rparr>"
    if "\<not> blocked (as_deliveries s) i" "delivery_findById (as_deliveries s) i = Some e" for i e
    using that by (simp add: blocked_def assignable_def linked_def nextStatus_def)
  then have look: "delivery_findById (foldl (\<lambda>r d. delivery_save d r) (as_deliveries s)
      (map (linked newId (iso_string now)) ?ds)) k =
      (if k \<in> set ids then map_option (\<lambda>e. e\<lparr>del_assignmentId := Some newId,
                del_status := Assigned, del_updatedAt := iso_string now\<rparr>) (delivery_findById (as_deliveries s) k)
             else delivery_findById (as_deliveries s) k)" for k
    unfolding look_linked [OF assms free'] using free'
    by (cases "delivery_findById (as_deliveries s) k") auto
  show ?thesis
    unfolding res using None ids(1) d(1) v look
    by (simp add: id assignment_findById_def assignment_save_def driver_findById_def driver_save_def fun_eq_iff)
qed

text \<open>What \<open>reassign\<close> answers when it rejects, in the order it checks.\<close>

definition reassign_rejection :: "int \<Rightarrow> string \<Rightarrow> string \<Rightarrow> Dispatch \<Rightarrow> exn option" where
  "reassign_rejection now i target s =
     (case delivery_findById (as_deliveries s) i of
        None \<Rightarrow> Some (domain_error NotFound [''deliveryId''] 404)
      | Some d \<Rightarrow>
        if del_assignmentId d \<in> {None, Some []} then Some (domain_error InvalidTransition [''deliveryId''] 409)
        else if del_assignmentId d = Some target then None
        else case assignment_findById (as_assignments s) target of
          None \<Rightarrow> Some (domain_error NotFound [''assignmentId''] 404)
        | Some a \<Rightarrow> if asg_status a = Complete then Some (domain_error Conflict [''assignmentId''] 409)
          else if max_time < \<bar>now\<bar> then Some RangeError else None)"

text \<open>
  C12. Reassignment moves exactly one delivery. A rejection (the first failing check, in order:
  unknown delivery, delivery not in an assignment, unknown target, completed target, clock out of
  range) changes nothing, and so does the reassignment of a delivery to the assignment it is in,
  which returns the stored record. Otherwise the target exists and is not complete, and of the
  whole state only the delivery's assignment and time of update change. Afterwards the delivery is
  listed under the target only, and every other delivery where it was.
\<close>

theorem assignment_reassign_moves:
  assumes "delivery_repo_ok (as_deliveries s)" and "assignment_repo_ok (as_assignments s)"
  shows "case assignment_reassign now i target s of
      (Inl e, s') \<Rightarrow> s' = s \<and> reassign_rejection now i target s = Some e
    | (Inr d, s') \<Rightarrow> reassign_rejection now i target s = None \<and> s'\<lparr>as_deliveries := as_deliveries s\<rparr> = s \<and>
        (\<exists>old. delivery_findById (as_deliveries s) i = Some old \<and>
          (if del_assignmentId old = Some target then d = old \<and> s' = s
           else (\<exists>a. assignment_findById (as_assignments s) target = Some a \<and> asg_status a \<noteq> Complete) \<and>
             d = old\<lparr>del_assignmentId := Some target, del_updatedAt := iso_string now\<rparr> \<and>
             delivery_findById (as_deliveries s') = (delivery_findById (as_deliveries s))(i \<mapsto> d))) \<and>
        (\<forall>a k. listed_on (as_deliveries s') a k \<longleftrightarrow>
          (if k = i then a = target else listed_on (as_deliveries s) a k))"
proof -
  let ?r = "as_deliveries s"
  have moved: "listed_on (delivery_save e ?r) a k \<longleftrightarrow>
      (if k = i then a = target else listed_on ?r a k)"
    if "del_id e = i" "del_assignmentId e = Some target" for e a k
    using that by (simp only: listed_iff [OF assms(1)] listed_iff [OF del.ok_put [OF assms(1)]]
        del.look_put [OF assms(1)]) auto
  have stayed: "listed_on ?r a i \<longleftrightarrow> a = target"
    if "delivery_findById ?r i = Some e" "del_assignmentId e = Some target" for e a
    using that by (auto simp: listed_iff [OF assms(1)])
  have falsy: "\<not> truthy x \<longleftrightarrow> x \<in> {None, Some []}" for x by (cases x) auto
  show ?thesis
  proof (cases "assignment_reassign now i target s")
    case (Pair res s')
    then show ?thesis
      using del.look_key [OF assms(1), of i] asg.look_key [OF assms(2), of target] moved stayed
      by (cases res) (auto simp: assignment_reassign_eq Let_def isActiveAssignment_def reassign_rejection_def
          falsy del.look_put [OF assms(1)] iso_or_throw_def toIso_def fun_eq_iff
          split: option.splits sum.splits if_splits)
  qed
qed

text \<open>
  Acceptance is recorded once: accepting again, at any later time, returns the same record
  with the first acceptance time and changes nothing.
\<close>

theorem assignment_accept_idempotent:
  assumes "assignment_repo_ok (as_assignments s)"
  shows "case assignment_accept now i s of
      (Inl e, s') \<Rightarrow> s' = s
    | (Inr a, s') \<Rightarrow> asg_status a = Accepted \<and> asg_acceptedAt a \<noteq> None \<and>
        fst (assignment_accept later i s') = Inr a \<and>
        assignment_findById (as_assignments (snd (assignment_accept later i s'))) =
          assignment_findById (as_assignments s')"
  using asg.look_key [OF assms, of i]
  by (auto simp: assignment_accept_eq Let_def asg.look_put [OF assms] asg.look_put [OF asg.ok_put [OF assms]]
      fun_eq_iff split: option.split sum.split)

text \<open>
  Acceptance has no guard on the status: a completed assignment that is accepted again
  becomes Accepted, so \<open>Complete\<close> is not a final status of the code.
\<close>

theorem assignment_accept_revives:
  "\<exists>s a. assignment_findById (as_assignments s) i = Some a \<and> asg_status a = Complete \<and>
     (\<exists>a' s'. assignment_accept now i s = (Inr a', s') \<and> isActiveAssignment a' \<and>
        assignment_findById (as_assignments s') i = Some a')"
proof -
  let ?a = "\<lparr>asg_id = i, asg_driverId = [], asg_vehicleId = [], asg_status = Complete,
     asg_acceptedAt = Some [], asg_createdAt = []\<rparr>"
  let ?s = "\<lparr>as_assignments = [(i, ?a)], as_drivers = driver_repo_new, as_vehicles = vehicle_repo_new,
     as_deliveries = [], as_counter = 0\<rparr>"
  have "assignment_findById (as_assignments ?s) i = Some ?a"
    by (simp add: assignment_findById_def)
  moreover have "\<exists>a' s'. assignment_accept now i ?s = (Inr a', s') \<and> isActiveAssignment a' \<and>
        assignment_findById (as_assignments s') i = Some a'"
    by (simp add: assignment_accept_eq assignment_findById_def assignment_save_def isActiveAssignment_def Let_def)
  ultimately show ?thesis by (metis (no_types, lifting) Assignment.select_convs(4))
qed

text \<open>A small world: one available driver with a vehicle, one unassigned and one assigned delivery.\<close>

definition sample_vehicle :: Vehicle where
  "sample_vehicle = \<lparr>veh_id = ''v'', veh_identifier = ''V1'', veh_type = ''van'', veh_capacityKg = Fin 10,
     veh_driverId = Some ''a'', veh_associatedAt = None, veh_createdAt = iso_string 0\<rparr>"

definition sample_delivery :: "string \<Rightarrow> DeliveryStatus \<Rightarrow> string option \<Rightarrow> Delivery" where
  "sample_delivery i st asgn = \<lparr>del_id = i, del_address = ''x'', del_recipientName = ''x'',
     del_recipientContact = ''x'', del_weightKg = Fin 1, del_destination = \<lparr>geo_lat = Fin 1, geo_lng = Fin 2\<rparr>,
     del_status = st, del_trackingToken = i, del_assignmentId = asgn, del_destinationZoneId = None,
     del_failureReason = None, del_completedAt = None, del_createdAt = iso_string 0, del_updatedAt = iso_string 0\<rparr>"

definition sample_assignment :: "string \<Rightarrow> AssignmentStatus \<Rightarrow> Assignment" where
  "sample_assignment i st = \<lparr>asg_id = i, asg_driverId = ''a'', asg_vehicleId = ''v'', asg_status = st,
     asg_acceptedAt = None, asg_createdAt = iso_string 0\<rparr>"

definition sample_dispatch :: Dispatch where
  "sample_dispatch = \<lparr>as_assignments = [(''q'', sample_assignment ''q'' Pending), (''r'', sample_assignment ''r'' Pending)],
     as_drivers = driver_save sample_driver driver_repo_new, as_vehicles = vehicle_save sample_vehicle vehicle_repo_new,
     as_deliveries = [(''c'', sample_delivery ''c'' Created None), (''e'', sample_delivery ''e'' Assigned (Some ''q''))],
     as_counter = 0\<rparr>"

lemma sample_dispatch_ok:
  "delivery_repo_ok (as_deliveries sample_dispatch)" "assignment_repo_ok (as_assignments sample_dispatch)"
  by (simp_all add: sample_dispatch_def delivery_repo_ok_def assignment_repo_ok_def store_ok_def
      sample_delivery_def sample_assignment_def)

lemma sample_dispatch_create:
  "\<exists>a s'. assignment_create (Supplied ''n'') 0 ''a'' (Some [''c'']) sample_dispatch = (Inr a, s')"
  by (simp add: assignment_create_eq sample_dispatch_def driver_findById_def driver_save_def driver_repo_new_def
      vehicle_findByDriverId_def vehicle_save_def vehicle_repo_new_def sample_driver_def sample_vehicle_def
      isEligibleForAssignment_def isEligibleStatus_def delivery_findById_def sample_delivery_def
      assign_next_iff iso_or_throw_def toIso_def max_time_def Let_def)

theorem assignment_create_outcome_witness:
  "\<exists>a s' d. assignment_create (Supplied ''n'') 0 ''a'' (Some [''c'']) sample_dispatch = (Inr a, s') \<and>
     delivery_findById (as_deliveries s') ''c'' = Some d \<and> del_status d = Assigned"
proof -
  obtain a s' where r: "assignment_create (Supplied ''n'') 0 ''a'' (Some [''c'']) sample_dispatch = (Inr a, s')"
    using sample_dispatch_create by blast
  have "\<exists>e. delivery_findById (as_deliveries sample_dispatch) ''c'' = Some e"
    by (simp add: sample_dispatch_def delivery_findById_def)
  then show ?thesis
    using assignment_create_outcome [OF sample_dispatch_ok(1), where src = "Supplied ''n''" and now = 0
        and driverId = "''a''" and deliveryIds = "Some [''c'']"]
    by (auto simp: r)
qed

theorem assignment_reassign_moves_witness:
  "\<exists>d s'. assignment_reassign 7 ''e'' ''r'' sample_dispatch = (Inr d, s') \<and>
     listed_on (as_deliveries s') ''r'' ''e'' \<and> del_updatedAt d = iso_string 7"
proof -
  obtain d s' where r: "assignment_reassign 7 ''e'' ''r'' sample_dispatch = (Inr d, s')"
    by (simp add: assignment_reassign_eq sample_dispatch_def delivery_findById_def sample_delivery_def
        assignment_findById_def sample_assignment_def isActiveAssignment_def iso_or_throw_def toIso_def max_time_def Let_def)
  have e: "delivery_findById (as_deliveries sample_dispatch) ''e'' = Some (sample_delivery ''e'' Assigned (Some ''q''))"
    by (simp add: sample_dispatch_def delivery_findById_def)
  have q: "del_assignmentId (sample_delivery ''e'' Assigned (Some ''q'')) \<noteq> Some ''r''" by (simp add: sample_delivery_def)
  note ans = assignment_reassign_moves [OF sample_dispatch_ok, where now = 7 and i = "''e''" and target = "''r''",
      unfolded r e prod.case sum.case, THEN conjunct2, THEN conjunct2]
  have "listed_on (as_deliveries s') ''r'' ''e''"
    using ans [THEN conjunct2, THEN spec, of "''r''", THEN spec, of "''e''"] by simp
  moreover from ans [THEN conjunct1] q
  have "d = (sample_delivery ''e'' Assigned (Some ''q''))\<lparr>del_assignmentId := Some ''r'', del_updatedAt := iso_string 7\<rparr>"
    by (elim exE conjE) (simp only: option.inject if_False)
  then have "del_updatedAt d = iso_string 7" by simp
  ultimately show ?thesis using r by blast
qed

theorem assignment_accept_idempotent_witness:
  "\<exists>a s'. assignment_accept 0 ''q'' sample_dispatch = (Inr a, s') \<and> fst (assignment_accept 5 ''q'' s') = Inr a"
proof -
  obtain a s' where r: "assignment_accept 0 ''q'' sample_dispatch = (Inr a, s')"
    by (simp add: assignment_accept_eq sample_dispatch_def assignment_findById_def sample_assignment_def
        iso_or_throw_def toIso_def max_time_def Let_def)
  show ?thesis
    using assignment_accept_idempotent [OF sample_dispatch_ok(2), where now = 0 and i = "''q''" and later = 5] by (simp add: r)
qed

end
