(* ===== verification/Routes.thy ===== *)
theory Routes
  imports Assignments "HOL-Library.Multiset"
begin

text \<open>
  The route component: \<open>routes/route-builder.ts\<close> (checking the optimizer's answer and building
  stops), \<open>routes/route-repository.ts\<close>, \<open>routes/route-publisher.ts\<close> and
  \<open>routes/route-service.ts\<close>. The optimizer and the vehicle location provider are external: an
  operation takes what their promises settle with.
\<close>

section \<open>Building stops (route-builder.ts)\<close>

record RoutableDelivery =
  rd_id :: string
  rd_destination :: GeoPoint

definition OPTIMIZE_MIN_STOPS :: nat where "OPTIMIZE_MIN_STOPS = 2"
definition OPTIMIZE_MAX_STOPS :: nat where "OPTIMIZE_MAX_STOPS = 50"

text \<open>The loop over the sequence: \<open>None\<close> for \<open>return false\<close>, else the set \<open>seen\<close>.\<close>

fun cover_loop :: "string set \<Rightarrow> string list \<Rightarrow> string set \<Rightarrow> string set option" where
  "cover_loop expected [] seen = Some seen"
| "cover_loop expected (i # ids) seen =
     (if i \<notin> expected then None
      else if i \<in> seen then None
      else cover_loop expected ids (insert i seen))"

definition isExactCover :: "string list \<Rightarrow> string list \<Rightarrow> bool" where
  "isExactCover sequence expectedIds =
     (if length sequence \<noteq> length expectedIds then False
      else (case cover_loop (set expectedIds) sequence {} of
          None \<Rightarrow> False
        | Some seen \<Rightarrow> card seen = card (set expectedIds)))"

definition assignedOrderStops :: "RoutableDelivery list \<Rightarrow> RouteStop list" where
  "assignedOrderStops ds = map (\<lambda>(i, d). \<lparr>stop_index = i, stop_deliveryIds = [rd_id d],
     stop_lat = geo_lat (rd_destination d), stop_lng = geo_lng (rd_destination d)\<rparr>) (enumerate 0 ds)"

text \<open>\<open>groupKeyOf\<close>: every member of a group is mapped to the group's first known member.\<close>

definition group_keys_step :: "(string \<Rightarrow> bool) \<Rightarrow> (string, string) jsmap \<Rightarrow> string list \<Rightarrow> (string, string) jsmap" where
  "group_keys_step known m grp =
     (case filter known grp of
        [] \<Rightarrow> m
      | key # rest \<Rightarrow> foldl (\<lambda>m i. map_set i key m) m (key # rest))"

definition group_keys :: "(string \<Rightarrow> bool) \<Rightarrow> string list list \<Rightarrow> (string, string) jsmap" where
  "group_keys known groups = foldl (group_keys_step known) [] groups"

text \<open>
  The second loop. The stops in \<open>stopByKey\<close> are the very objects of the array \<open>stops\<close>, so a
  key is mapped to the index of its stop and a push to \<open>existing.deliveryIds\<close> updates the array.
\<close>

record StopsState =
  ss_stopByKey :: "(string, nat) jsmap"
  ss_stops :: "RouteStop list"

definition push_id :: "string \<Rightarrow> RouteStop \<Rightarrow> RouteStop" where
  "push_id i st = (if i \<in> set (stop_deliveryIds st) then st else st\<lparr>stop_deliveryIds := stop_deliveryIds st @ [i]\<rparr>)"

definition stops_step ::
    "(string, RoutableDelivery) jsmap \<Rightarrow> (string, string) jsmap \<Rightarrow> StopsState \<Rightarrow> string \<Rightarrow> StopsState" where
  "stops_step byId keyOf s i =
     (case map_get byId i of
        None \<Rightarrow> s
      | Some d \<Rightarrow>
          (let key = or_else (map_get keyOf i) i in
           case map_get (ss_stopByKey s) key of
             Some n \<Rightarrow> s\<lparr>ss_stops := (ss_stops s)[n := push_id i (ss_stops s ! n)]\<rparr>
           | None \<Rightarrow>
               (let stop = \<lparr>stop_index = length (ss_stops s), stop_deliveryIds = [i],
                      stop_lat = geo_lat (rd_destination d), stop_lng = geo_lng (rd_destination d)\<rparr>
                in s\<lparr>ss_stopByKey := map_set key (length (ss_stops s)) (ss_stopByKey s),
                     ss_stops := ss_stops s @ [stop]\<rparr>)))"

definition optimizedStops :: "string list \<Rightarrow> string list list \<Rightarrow> RoutableDelivery list \<Rightarrow> RouteStop list" where
  "optimizedStops sequence groups ds =
     (let byId = map_new (map (\<lambda>d. (rd_id d, d)) ds);
          keyOf = group_keys (\<lambda>i. map_has byId i) groups
      in ss_stops (foldl (stops_step byId keyOf) \<lparr>ss_stopByKey = [], ss_stops = []\<rparr> sequence))"

section \<open>Repository, publisher, service\<close>

record Route =
  rt_id :: string
  rt_assignmentId :: string
  rt_stops :: "RouteStop list"
  rt_optimized :: bool
  rt_currentStop :: nat
  rt_createdAt :: string
  rt_updatedAt :: string

type_synonym RouteRepo = "(string, Route) jsmap"

definition route_upsert :: "Route \<Rightarrow> RouteRepo \<Rightarrow> RouteRepo" where
  "route_upsert rt r = map_set (rt_assignmentId rt) rt r"

definition route_findByAssignmentId :: "RouteRepo \<Rightarrow> string \<Rightarrow> Route option" where
  "route_findByAssignmentId r a = map_get r a"

definition route_all :: "RouteRepo \<Rightarrow> Route list" where
  "route_all r = map_values r"

definition route_repo_ok :: "RouteRepo \<Rightarrow> bool" where
  "route_repo_ok r \<longleftrightarrow> store_ok rt_assignmentId r"

interpretation rte: keyed_store route_upsert route_findByAssignmentId route_all rt_assignmentId route_repo_ok
  by unfold_locales
    (auto simp: route_upsert_def route_findByAssignmentId_def route_all_def route_repo_ok_def
      store_ok_laws simp del: set_map)

record OptimizeStop =
  os_deliveryId :: string
  os_lat :: jsnum
  os_lng :: jsnum

record OptimizeRequest =
  oq_origin :: GeoPoint
  oq_stops :: "OptimizeStop list"

record OptimizeResponse =
  or_sequence :: "string list"
  or_groups :: "string list list option"

definition OPTIMIZE_TIMEOUT_MS :: nat where
  "OPTIMIZE_TIMEOUT_MS = 30000"

record BuiltStops =
  bs_stops :: "RouteStop list"
  bs_optimized :: bool
  bs_overLimit :: bool

record RouteResult =
  rr_route :: Route
  rr_overLimit :: bool
  rr_message :: "ErrorEnvelope option"

record RouteWorld =
  rw_dispatch :: Dispatch
  rw_routes :: RouteRepo
  rw_published :: "RouteUpdateEvent list"
  rw_counter :: nat

text \<open>
  The collaborators of an operation: what the location provider settles with, and what
  \<open>withTimeout(optimizer.optimize(request), ms)\<close> settles with for a request.
\<close>

record 'e RouteEnv =
  env_location :: "string \<Rightarrow> (GeoPoint option, 'e) Settled"
  env_optimize :: "OptimizeRequest \<Rightarrow> (OptimizeResponse, 'e RaceError) Settled"

definition optimize_request :: "GeoPoint \<Rightarrow> RoutableDelivery list \<Rightarrow> OptimizeRequest" where
  "optimize_request origin routable = \<lparr>oq_origin = origin, oq_stops = map (\<lambda>d. \<lparr>os_deliveryId = rd_id d,
     os_lat = geo_lat (rd_destination d), os_lng = geo_lng (rd_destination d)\<rparr>) routable\<rparr>"

text \<open>The body of the \<open>try\<close>: \<open>None\<close> when it throws or the answer is not an exact cover.\<close>

definition try_optimize :: "'e RouteEnv \<Rightarrow> Assignment \<Rightarrow> RoutableDelivery list \<Rightarrow> RouteStop list option" where
  "try_optimize env a routable =
     (case env_location env (asg_vehicleId a) of
        Rejected _ \<Rightarrow> None
      | Fulfilled None \<Rightarrow> None
      | Fulfilled (Some origin) \<Rightarrow>
          (case env_optimize env (optimize_request origin routable) of
             Rejected _ \<Rightarrow> None
           | Fulfilled response \<Rightarrow>
               if isExactCover (or_sequence response) (map rd_id routable)
               then Some (optimizedStops (or_sequence response) (or_else (or_groups response) []) routable)
               else None))"

definition buildStops :: "'e RouteEnv \<Rightarrow> Assignment \<Rightarrow> RoutableDelivery list \<Rightarrow> BuiltStops" where
  "buildStops env a routable =
     (let count = length routable in
      if count > OPTIMIZE_MAX_STOPS
        then \<lparr>bs_stops = assignedOrderStops routable, bs_optimized = False, bs_overLimit = True\<rparr>
      else if count < OPTIMIZE_MIN_STOPS
        then \<lparr>bs_stops = assignedOrderStops routable, bs_optimized = True, bs_overLimit = False\<rparr>
      else case try_optimize env a routable of
          Some stops \<Rightarrow> \<lparr>bs_stops = stops, bs_optimized = True, bs_overLimit = False\<rparr>
        | None \<Rightarrow> \<lparr>bs_stops = assignedOrderStops routable, bs_optimized = False, bs_overLimit = False\<rparr>)"

definition route_requireAssignment :: "string \<Rightarrow> (RouteWorld, exn, Assignment) svc" where
  "route_requireAssignment i = sbind (sget (\<lambda>s. assignment_findById (as_assignments (rw_dispatch s)) i))
     (srequire (domain_error NotFound [''assignmentId''] 404))"

definition publishRoute :: "RouteUpdateEvent \<Rightarrow> (RouteWorld, exn, unit) svc" where
  "publishRoute ev = smodify (\<lambda>s. s\<lparr>rw_published := rw_published s @ [ev]\<rparr>)"

definition createOrUpdateRoute ::
    "'e RouteEnv \<Rightarrow> id_source \<Rightarrow> int \<Rightarrow> string \<Rightarrow> (RouteWorld, exn, RouteResult) svc" where
  "createOrUpdateRoute env src clockNow assignmentId =
     sbind (route_requireAssignment assignmentId) (\<lambda>a.
     sbind (sget (\<lambda>s. delivery_listByAssignmentId (as_deliveries (rw_dispatch s)) assignmentId)) (\<lambda>ds.
     let routable = map (\<lambda>d. \<lparr>rd_id = del_id d, rd_destination = del_destination d\<rparr>) ds;
         built = buildStops env a routable in
     sbind (slift (iso_or_throw clockNow)) (\<lambda>now.
     sbind (sget (\<lambda>s. route_findByAssignmentId (rw_routes s) assignmentId)) (\<lambda>existing.
     sbind (sget rw_counter) (\<lambda>n.
     let (routeId, n') = (case existing of Some r \<Rightarrow> (rt_id r, n) | None \<Rightarrow> next_id ''rte'' src n);
         route = \<lparr>rt_id = routeId, rt_assignmentId = assignmentId, rt_stops = bs_stops built,
           rt_optimized = bs_optimized built, rt_currentStop = 0,
           rt_createdAt = (case existing of Some r \<Rightarrow> rt_createdAt r | None \<Rightarrow> now), rt_updatedAt = now\<rparr> in
     sbind (smodify (\<lambda>s. s\<lparr>rw_counter := n', rw_routes := route_upsert route (rw_routes s)\<rparr>)) (\<lambda>_.
     sbind (publishRoute \<lparr>ru_assignmentId = assignmentId, ru_stops = rt_stops route,
       ru_optimized = rt_optimized route\<rparr>) (\<lambda>_.
     sret \<lparr>rr_route = route, rr_overLimit = bs_overLimit built,
       rr_message = (if bs_overLimit built then Some (makeError (error_wire OverLimit) []) else None)\<rparr>)))))))"

definition route_reoptimize ::
    "'e RouteEnv \<Rightarrow> id_source \<Rightarrow> int \<Rightarrow> string \<Rightarrow> (RouteWorld, exn, RouteResult) svc" where
  "route_reoptimize env src clockNow assignmentId = createOrUpdateRoute env src clockNow assignmentId"

definition on_dispatch :: "(Dispatch \<Rightarrow> Dispatch) \<Rightarrow> (RouteWorld, exn, unit) svc" where
  "on_dispatch f = smodify (\<lambda>s. s\<lparr>rw_dispatch := f (rw_dispatch s)\<rparr>)"

definition completeIfAllStopsTerminal :: "int \<Rightarrow> string \<Rightarrow> (RouteWorld, exn, bool) svc" where
  "completeIfAllStopsTerminal clockNow assignmentId =
     sbind (route_requireAssignment assignmentId) (\<lambda>a.
     sbind (sget (\<lambda>s. delivery_listByAssignmentId (as_deliveries (rw_dispatch s)) assignmentId)) (\<lambda>ds.
     if length ds = 0 then sret False
     else if \<not> list_all (\<lambda>d. isTerminal (del_status d)) ds then sret False
     else
       sbind (slift (iso_or_throw clockNow)) (\<lambda>now.
       sbind (on_dispatch (\<lambda>w. w\<lparr>as_assignments := assignment_save (a\<lparr>asg_status := Complete\<rparr>) (as_assignments w)\<rparr>)) (\<lambda>_.
       sbind (sget (\<lambda>s. driver_findById (as_drivers (rw_dispatch s)) (asg_driverId a))) (\<lambda>found.
       sbind (case found of
           Some d \<Rightarrow> if drv_status d = OnDelivery
             then on_dispatch (\<lambda>w. w\<lparr>as_drivers :=
               driver_save (d\<lparr>drv_status := Available, drv_updatedAt := now\<rparr>) (as_drivers w)\<rparr>)
             else sret ()
         | None \<Rightarrow> sret ()) (\<lambda>_.
       sret True))))))"

section \<open>Exact covers\<close>

lemma cover_loop_eq:
  "cover_loop expected ids seen =
     (if distinct ids \<and> set ids \<subseteq> expected \<and> set ids \<inter> seen = {} then Some (seen \<union> set ids) else None)"
  by (induction expected ids seen rule: cover_loop.induct) auto

lemma isExactCover_lemma:
  "isExactCover sequence expectedIds \<longleftrightarrow> distinct expectedIds \<and> mset sequence = mset expectedIds"
proof
  assume cover: "isExactCover sequence expectedIds"
  then have len: "length sequence = length expectedIds"
    by (simp add: isExactCover_def split: if_splits)
  have rest: "distinct sequence \<and> set sequence \<subseteq> set expectedIds \<and> card (set sequence) = card (set expectedIds)"
    using cover by (simp add: isExactCover_def cover_loop_eq split: if_splits)
  then have d: "distinct sequence" and sub: "set sequence \<subseteq> set expectedIds"
    and card: "card (set sequence) = card (set expectedIds)" by simp_all
  have eq: "set sequence = set expectedIds"
    by (rule card_subset_eq [OF _ sub card]) simp
  moreover have "card (set expectedIds) = length expectedIds"
    using len card distinct_card [OF d] by simp
  then have "distinct expectedIds" by (rule card_distinct)
  ultimately show "distinct expectedIds \<and> mset sequence = mset expectedIds"
    using d by (simp add: set_eq_iff_mset_eq_distinct)
next
  assume r: "distinct expectedIds \<and> mset sequence = mset expectedIds"
  then have "distinct sequence" "set sequence = set expectedIds" "length sequence = length expectedIds"
    using mset_eq_imp_distinct_iff mset_eq_setD mset_eq_length by blast+
  then show "isExactCover sequence expectedIds"
    by (simp add: isExactCover_def cover_loop_eq)
qed

text \<open>
  \<open>isExactCover\<close> accepts exactly the permutations of a duplicate-free list of ids: nothing
  foreign, nothing twice, nothing left out.
\<close>

theorem isExactCover_iff:
  "isExactCover sequence expectedIds \<longleftrightarrow> distinct expectedIds \<and> mset sequence = mset expectedIds"
  by (rule isExactCover_lemma)

section \<open>Stops\<close>

text \<open>The ids a list of stops serves, in visiting order.\<close>

abbreviation served :: "RouteStop list \<Rightarrow> string list" where
  "served stops \<equiv> concat (map stop_deliveryIds stops)"

lemma assigned_order_served: "served (assignedOrderStops ds) = map rd_id ds"
proof -
  have "concat (map (stop_deliveryIds \<circ> (\<lambda>(i, d). \<lparr>stop_index = i, stop_deliveryIds = [rd_id d],
     stop_lat = geo_lat (rd_destination d), stop_lng = geo_lng (rd_destination d)\<rparr>)) (enumerate n ds)) = map rd_id ds" for n
    by (induction ds arbitrary: n) auto
  then show ?thesis by (simp add: assignedOrderStops_def)
qed

lemma assigned_order_nth:
  "n < length ds \<Longrightarrow> assignedOrderStops ds ! n = \<lparr>stop_index = n, stop_deliveryIds = [rd_id (ds ! n)],
     stop_lat = geo_lat (rd_destination (ds ! n)), stop_lng = geo_lng (rd_destination (ds ! n))\<rparr>"
  by (simp add: assignedOrderStops_def nth_enumerate_eq)

lemma assigned_order_length [simp]: "length (assignedOrderStops ds) = length ds"
  by (simp add: assignedOrderStops_def)

subsection \<open>Grouping, as a reference\<close>

text \<open>First occurrences, and the ids grouped by a key: keys in order of first appearance.\<close>

definition uniq :: "'a list \<Rightarrow> 'a list" where
  "uniq xs = rev (remdups (rev xs))"

definition grouped :: "('a \<Rightarrow> 'k) \<Rightarrow> 'a list \<Rightarrow> ('k \<times> 'a list) list" where
  "grouped f xs = map (\<lambda>k. (k, filter (\<lambda>i. f i = k) (uniq xs))) (uniq (map f xs))"

lemma uniq_simps [simp]: "uniq [] = []" "set (uniq xs) = set xs" "distinct (uniq xs)"
  by (simp_all add: uniq_def)

lemma uniq_snoc [simp]: "uniq (xs @ [x]) = (if x \<in> set xs then uniq xs else uniq xs @ [x])"
  by (simp add: uniq_def)

lemma uniq_distinct [simp]: "distinct xs \<Longrightarrow> uniq xs = xs"
  by (simp add: uniq_def distinct_remdups_id)

lemma keys_grouped [simp]: "map fst (grouped f xs) = uniq (map f xs)"
  by (simp add: grouped_def comp_def)

lemma get_grouped: "map_get (grouped f xs) k = (if k \<in> f ` set xs then Some (filter (\<lambda>i. f i = k) (uniq xs)) else None)"
  by (simp add: grouped_def map_get_keyed)

lemma grouped_snoc:
  "grouped f (xs @ [x]) = (if x \<in> set xs then grouped f xs
     else map_set (f x) (or_else (map_get (grouped f xs) (f x)) [] @ [x]) (grouped f xs))"
proof (cases "x \<in> set xs")
  case True
  then show ?thesis by (simp add: grouped_def)
next
  case False
  show ?thesis
  proof (cases "f x \<in> f ` set xs")
    case True
    with False show ?thesis
      by (simp add: get_grouped) (auto simp: grouped_def map_set_keyed)
  next
    case new: False
    have "map_get (grouped f xs) (f x) = None" using new by (simp add: get_grouped)
    then have "map_set (f x) [x] (grouped f xs) = grouped f xs @ [(f x, [x])]"
      by (rule map_set_fresh)
    moreover have "filter (\<lambda>i. f i = f x) (uniq xs) = []"
      using new by (auto simp: filter_empty_conv image_iff)
    moreover have "map (\<lambda>k. (k, filter (\<lambda>i. f i = k) (uniq xs @ [x]))) (uniq (map f xs)) = grouped f xs"
      using new by (auto simp: grouped_def image_iff)
    ultimately show ?thesis
      using new False by (simp add: get_grouped) (simp add: grouped_def)
  qed
qed

lemma grouped_nonempty: "(k, ids) \<in> set (grouped f xs) \<Longrightarrow> ids \<noteq> []"
proof -
  assume "(k, ids) \<in> set (grouped f xs)"
  then obtain x where "x \<in> set xs" "k = f x" "ids = filter (\<lambda>i. f i = k) (uniq xs)"
    by (auto simp: grouped_def)
  then have "x \<in> set ids" by simp
  then show ?thesis by auto
qed

lemma same_group_iff:
  "(\<exists>ids \<in> set (map snd (grouped f xs)). i \<in> set ids \<and> j \<in> set ids) \<longleftrightarrow> i \<in> set xs \<and> j \<in> set xs \<and> f i = f j"
  by (force simp: grouped_def)

lemma mset_grouped: "mset (concat (map snd (grouped f xs))) = mset (uniq xs)"
proof -
  have "mset (concat (map (\<lambda>k. filter (\<lambda>i. f i = k) ys) ks)) = mset (filter (\<lambda>i. f i \<in> set ks) ys)"
    if "distinct ks" for ks ys
    using that
  proof (induction ks)
    case (Cons k ks)
    have "mset (filter (\<lambda>i. f i = k \<or> f i \<in> set ks) ys) =
        mset (filter (\<lambda>i. f i = k) ys) + mset (filter (\<lambda>i. f i \<in> set ks) ys)"
      using Cons.prems by (induction ys) auto
    with Cons show ?case by simp
  qed simp
  from this [of "uniq (map f xs)" "uniq xs"] show ?thesis
    by (simp add: grouped_def comp_def filter_id_conv)
qed

subsection \<open>The loop computes the grouping\<close>

definition stop_at :: "(string, RoutableDelivery) jsmap \<Rightarrow> nat \<Rightarrow> string list \<Rightarrow> RouteStop" where
  "stop_at byId n ids = (let d = the (map_get byId (hd ids)) in
     \<lparr>stop_index = n, stop_deliveryIds = ids, stop_lat = geo_lat (rd_destination d), stop_lng = geo_lng (rd_destination d)\<rparr>)"

definition key_of :: "(string, string) jsmap \<Rightarrow> string \<Rightarrow> string" where
  "key_of keyOf i = or_else (map_get keyOf i) i"

definition state_of :: "(string, RoutableDelivery) jsmap \<Rightarrow> (string \<times> string list) list \<Rightarrow> StopsState" where
  "state_of byId m = \<lparr>ss_stopByKey = zip (map fst m) [0..<length m],
     ss_stops = map (\<lambda>n. stop_at byId n (snd (m ! n))) [0..<length m]\<rparr>"

lemma position_nth:
  assumes "distinct (map fst m)" "n < length m"
  shows "map_get (zip (map fst m) [0..<length m]) (fst (m ! n)) = Some n"
proof -
  have "(fst (m ! n), n) \<in> set (zip (map fst m) [0..<length m])"
    using assms(2) by (auto simp: set_zip intro!: exI [of _ n])
  with assms(1) show ?thesis by (simp add: map_of_eq_Some_iff)
qed

lemma position_None: "k \<notin> fst ` set m \<Longrightarrow> map_get (zip (map fst m) [0..<length m]) k = None"
  by (auto simp: map_of_eq_None_iff dest: set_zip_leftD)

lemma stops_step_state:
  assumes d: "distinct (map fst m)" and i: "map_get byId i = Some dl"
    and ne: "\<And>k ids. (k, ids) \<in> set m \<Longrightarrow> ids \<noteq> []"
  shows "stops_step byId keyOf (state_of byId m) i = state_of byId
    (let k = key_of keyOf i; old = or_else (map_get m k) []
     in if i \<in> set old then m else map_set k (old @ [i]) m)"
proof (cases "map_get m (key_of keyOf i)")
  case None
  then have "map_get (ss_stopByKey (state_of byId m)) (key_of keyOf i) = None"
    by (simp add: state_of_def position_None map_of_eq_None_iff)
  with None i show ?thesis
    by (simp add: stops_step_def key_of_def [symmetric] Let_def map_set_fresh)
      (simp add: state_of_def stop_at_def update_conv' nth_append map_set_fresh)
next
  case (Some old)
  then obtain n where n: "n < length m" "m ! n = (key_of keyOf i, old)"
    by (metis in_set_conv_nth map_of_SomeD)
  have "old \<noteq> []" using ne [of "key_of keyOf i" old] n nth_mem by fastforce
  then have hd: "hd (old @ [i]) = hd old" by simp
  have pos: "map_get (ss_stopByKey (state_of byId m)) (key_of keyOf i) = Some n"
    using position_nth [OF d n(1)] n(2) by (simp add: state_of_def)
  have upd: "map_set (key_of keyOf i) v m = m[n := (key_of keyOf i, v)]" for v
    using map_set_nth [OF d n(1)] n(2) by simp
  have keys: "map fst (m[n := (key_of keyOf i, v)]) = map fst m" for v
    using n by (simp add: map_update list_update_same_conv)
  show ?thesis
    using i n pos
    by (simp add: stops_step_def key_of_def [symmetric] Let_def Some upd)
      (auto simp: state_of_def keys push_id_def stop_at_def Let_def nth_list_update hd
        simp del: hd_append2 intro!: nth_equalityI)
qed

lemma optimizedStops_loop:
  "foldl (stops_step byId keyOf) \<lparr>ss_stopByKey = [], ss_stops = []\<rparr> sequence =
     state_of byId (grouped (key_of keyOf) (filter (map_has byId) sequence))"
proof (induction sequence rule: rev_induct)
  case Nil
  then show ?case by (simp add: state_of_def grouped_def)
next
  case (snoc i sequence)
  let ?ks = "filter (map_has byId) sequence" and ?key = "key_of keyOf"
  show ?case
  proof (cases "map_get byId i")
    case None
    then have "\<not> map_has byId i" by (simp add: map_of_eq_None_iff)
    with None snoc show ?thesis by (simp add: stops_step_def)
  next
    case (Some dl)
    then have known: "map_has byId i" by (metis map_of_eq_None_iff option.distinct(1))
    have ne: "ids \<noteq> []" if "(k, ids) \<in> set (grouped ?key ?ks)" for k ids
      using that by (rule grouped_nonempty)
    have "i \<in> set (or_else (map_get (grouped ?key ?ks) (?key i)) []) \<longleftrightarrow> i \<in> set ?ks"
      by (auto simp: get_grouped)
    with snoc known show ?thesis
      by (simp add: stops_step_state [OF _ Some ne] grouped_snoc Let_def)
  qed
qed

text \<open>The groups of a route: the sequence's known ids by group key.\<close>

definition route_groups :: "string list \<Rightarrow> string list list \<Rightarrow> RoutableDelivery list \<Rightarrow> string list list" where
  "route_groups sequence groups ds =
     map snd (grouped (key_of (group_keys (\<lambda>i. i \<in> rd_id ` set ds) groups))
       (filter (\<lambda>i. i \<in> rd_id ` set ds) sequence))"

lemma known_iff: "map_has (map_new (map (\<lambda>d. (rd_id d, d)) ds)) i \<longleftrightarrow> i \<in> rd_id ` set ds"
  unfolding map_has_iff map_get_new by (simp add: map_of_eq_None_iff image_iff)

text \<open>
  \<open>optimizedStops\<close> equals its reference definition: the known ids of the sequence, each once,
  grouped by group key in order of first appearance; stop \<open>n\<close> is the \<open>n\<close>-th group, at the
  destination of its first delivery.
\<close>

theorem optimizedStops_reference:
  "optimizedStops sequence groups ds =
     map (\<lambda>n. stop_at (map_new (map (\<lambda>d. (rd_id d, d)) ds)) n (route_groups sequence groups ds ! n))
       [0..<length (route_groups sequence groups ds)]"
  by (simp add: optimizedStops_def optimizedStops_loop state_of_def route_groups_def known_iff Let_def)

lemma optimizedStops_ids:
  "map stop_deliveryIds (optimizedStops sequence groups ds) = route_groups sequence groups ds"
  by (simp add: optimizedStops_def optimizedStops_loop state_of_def route_groups_def known_iff Let_def
      stop_at_def comp_def map_snd_nth)

lemma optimizedStops_served: "served (optimizedStops sequence groups ds) = concat (route_groups sequence groups ds)"
  by (simp only: optimizedStops_ids)

text \<open>
  Partition: whatever sequence and groups the optimizer answers, the stops serve every known
  id of the sequence exactly once and nothing else, and are numbered 0, 1, 2, ...
\<close>

theorem optimizedStops_partition:
  "distinct (served (optimizedStops sequence groups ds)) \<and>
   set (served (optimizedStops sequence groups ds)) = set sequence \<inter> rd_id ` set ds \<and>
   map stop_index (optimizedStops sequence groups ds) = [0..<length (optimizedStops sequence groups ds)]"
proof -
  let ?ks = "filter (\<lambda>i. i \<in> rd_id ` set ds) sequence"
  have ms: "mset (served (optimizedStops sequence groups ds)) = mset (uniq ?ks)"
    by (simp only: optimizedStops_served route_groups_def mset_grouped)
  then have "distinct (served (optimizedStops sequence groups ds))"
    using mset_eq_imp_distinct_iff uniq_simps(3) by blast
  moreover have "set (served (optimizedStops sequence groups ds)) = set sequence \<inter> rd_id ` set ds"
    using mset_eq_setD [OF ms] by auto
  moreover have "map stop_index (optimizedStops sequence groups ds) = [0..<length (optimizedStops sequence groups ds)]"
    by (simp add: optimizedStops_def optimizedStops_loop state_of_def Let_def stop_at_def comp_def)
  ultimately show ?thesis by blast
qed

section \<open>Groups\<close>

lemma group_keys_get:
  "map_get (foldl (group_keys_step known) m groups) i =
     (case List.find (\<lambda>g. i \<in> set g \<and> known i) (rev groups) of
        None \<Rightarrow> map_get m i | Some g \<Rightarrow> Some (hd (filter known g)))"
proof (induction groups rule: rev_induct)
  case (snoc g groups)
  have set_all: "map_get (foldl (\<lambda>m i. map_set i key m) m ids) i = (if i \<in> set ids then Some key else map_get m i)"
    for key ids and m :: "(string, string) jsmap"
    by (induction ids arbitrary: m) auto
  show ?case
  proof (cases "filter known g")
    case Nil
    then have "i \<in> set g \<Longrightarrow> \<not> known i" by (auto simp: filter_empty_conv)
    with snoc Nil show ?thesis by (auto simp: group_keys_step_def)
  next
    case (Cons key rest)
    then have "set (key # rest) = {x \<in> set g. known x}"
      by (metis set_filter)
    then have "i \<in> set (key # rest) \<longleftrightarrow> i \<in> set g \<and> known i" by blast
    then have "map_get (group_keys_step known m' g) i =
        (if i \<in> set g \<and> known i then Some key else map_get m' i)" for m'
      using set_all [where ids = "key # rest"] by (simp only: group_keys_step_def Cons list.case)
    with snoc Cons show ?thesis by simp
  qed
qed simp

lemma group_of_unique:
  "distinct (concat groups) \<Longrightarrow> g \<in> set groups \<Longrightarrow> h \<in> set groups \<Longrightarrow> i \<in> set g \<Longrightarrow> i \<in> set h \<Longrightarrow> g = h"
  by (induction groups) auto

text \<open>
  When the optimizer's groups are disjoint, two known deliveries of the sequence share a stop
  exactly when they are in one group.
\<close>

theorem optimizedStops_groups:
  assumes disjoint: "distinct (concat groups)"
    and i: "i \<in> set sequence" "i \<in> rd_id ` set ds" and j: "j \<in> set sequence" "j \<in> rd_id ` set ds" and ne: "i \<noteq> j"
  shows "(\<exists>st \<in> set (optimizedStops sequence groups ds). i \<in> set (stop_deliveryIds st) \<and> j \<in> set (stop_deliveryIds st))
     \<longleftrightarrow> (\<exists>g \<in> set groups. i \<in> set g \<and> j \<in> set g)"
proof -
  let ?known = "\<lambda>i. i \<in> rd_id ` set ds"
  let ?key = "key_of (group_keys ?known groups)"
  have key: "?key k = (case List.find (\<lambda>g. k \<in> set g) (rev groups) of None \<Rightarrow> k | Some g \<Rightarrow> hd (filter ?known g))"
    if "?known k" for k
    using that by (simp add: key_of_def group_keys_def group_keys_get split: option.split)
  have hd_in: "hd (filter ?known g) \<in> set g" if "k \<in> set g" "?known k" for g k
  proof -
    have "filter ?known g \<noteq> []" using that by (auto simp: filter_empty_conv)
    then show ?thesis using hd_in_set by fastforce
  qed
  have found: "List.find (\<lambda>g. k \<in> set g) (rev groups) = Some g" if g: "g \<in> set groups" "k \<in> set g" for g k
  proof (cases "List.find (\<lambda>g. k \<in> set g) (rev groups)")
    case None
    then show ?thesis using find_NoneD [OF None, of g] g by simp
  next
    case (Some h)
    with find_SomeD [OF Some] g group_of_unique [OF disjoint, of g h k] show ?thesis by auto
  qed
  have same: "?key i = ?key j \<longleftrightarrow> (\<exists>g \<in> set groups. i \<in> set g \<and> j \<in> set g)"
  proof
    assume "\<exists>g \<in> set groups. i \<in> set g \<and> j \<in> set g"
    then show "?key i = ?key j" using i j found by (auto simp: key)
  next
    assume eq: "?key i = ?key j"
    show "\<exists>g \<in> set groups. i \<in> set g \<and> j \<in> set g"
    proof (cases "List.find (\<lambda>g. i \<in> set g) (rev groups)")
      case none: None
      with eq i have i': "i = ?key j" by (simp add: key)
      show ?thesis
      proof (cases "List.find (\<lambda>g. j \<in> set g) (rev groups)")
        case None
        with i' j ne show ?thesis by (simp add: key)
      next
        case (Some h)
        with find_SomeD [OF Some] hd_in [of j h] j i' have "h \<in> set groups" "i \<in> set h"
          by (auto simp: key)
        with find_NoneD [OF none, of h] show ?thesis by simp
      qed
    next
      case (Some g)
      then have g: "g \<in> set groups" "i \<in> set g" "?key i \<in> set g"
        using find_SomeD [OF Some] hd_in [of i g] i by (auto simp: key)
      show ?thesis
      proof (cases "List.find (\<lambda>g. j \<in> set g) (rev groups)")
        case None
        with eq g j have "j \<in> set g" by (simp add: key)
        with g show ?thesis by blast
      next
        case (Some h)
        with find_SomeD [OF Some] hd_in [of j h] j have "h \<in> set groups" "j \<in> set h" "?key j \<in> set h"
          by (auto simp: key)
        with g eq group_of_unique [OF disjoint, of g h "?key i"] show ?thesis by auto
      qed
    qed
  qed
  have "(\<exists>st \<in> set (optimizedStops sequence groups ds). i \<in> set (stop_deliveryIds st) \<and> j \<in> set (stop_deliveryIds st))
      \<longleftrightarrow> (\<exists>ids \<in> set (route_groups sequence groups ds). i \<in> set ids \<and> j \<in> set ids)"
    by (simp flip: optimizedStops_ids)
  also have "\<dots> \<longleftrightarrow> ?key i = ?key j"
    using i j by (simp add: route_groups_def same_group_iff del: set_map)
  finally show ?thesis using same by simp
qed

theorem optimizedStops_groups_witness:
  "\<exists>st \<in> set (optimizedStops [''a'', ''b'', ''c''] [[''c'', ''a'']]
      (map (\<lambda>i. \<lparr>rd_id = i, rd_destination = sample_point\<rparr>) [''a'', ''b'', ''c''])).
     ''a'' \<in> set (stop_deliveryIds st) \<and> ''c'' \<in> set (stop_deliveryIds st)"
  by (subst optimizedStops_groups) simp_all

section \<open>Service\<close>

lemma buildStops_served: "mset (served (bs_stops (buildStops env a routable))) = mset (map rd_id routable)"
proof -
  have "mset (served stops) = mset (map rd_id routable)" if opt: "try_optimize env a routable = Some stops" for stops
  proof -
    have "\<exists>resp :: OptimizeResponse. isExactCover (or_sequence resp) (map rd_id routable) \<and>
        stops = optimizedStops (or_sequence resp) (or_else (or_groups resp) []) routable"
      using opt by (fastforce simp: try_optimize_def split: Settled.splits option.splits if_splits)
    then obtain resp :: OptimizeResponse where cover: "isExactCover (or_sequence resp) (map rd_id routable)"
      and stops: "stops = optimizedStops (or_sequence resp) (or_else (or_groups resp) []) routable" by blast
    then have r: "distinct (map rd_id routable)" "mset (or_sequence resp) = mset (map rd_id routable)"
      using isExactCover_lemma by auto
    then have seq: "distinct (or_sequence resp)" "set (or_sequence resp) = rd_id ` set routable"
      using mset_eq_imp_distinct_iff mset_eq_setD by (blast, fastforce)
    have "mset (served stops) = mset (uniq (filter (\<lambda>i. i \<in> rd_id ` set routable) (or_sequence resp)))"
      by (simp only: stops optimizedStops_served route_groups_def mset_grouped)
    also have "filter (\<lambda>i. i \<in> rd_id ` set routable) (or_sequence resp) = or_sequence resp"
      using seq(2) by (simp add: filter_id_conv)
    finally show ?thesis using seq(1) r(2) by simp
  qed
  then show ?thesis
    by (auto simp: buildStops_def assigned_order_served Let_def split: option.split)
qed

lemma assigned_order_index: "map stop_index (assignedOrderStops ds) = [0..<length ds]"
  by (rule nth_equalityI) (simp_all add: assigned_order_nth)

lemma optimized_index:
  "map stop_index (optimizedStops sequence groups ds) = [0..<length (optimizedStops sequence groups ds)]"
  by (simp add: optimizedStops_def optimizedStops_loop state_of_def Let_def stop_at_def comp_def)

lemma buildStops_index:
  "map stop_index (bs_stops (buildStops env a routable)) = [0..<length (bs_stops (buildStops env a routable))]"
  by (auto simp: buildStops_def try_optimize_def assigned_order_index optimized_index Let_def
      split: option.split Settled.split)

abbreviation listed :: "string \<Rightarrow> RouteWorld \<Rightarrow> Delivery list" where
  "listed a s \<equiv> delivery_listByAssignmentId (as_deliveries (rw_dispatch s)) a"

abbreviation routables :: "Delivery list \<Rightarrow> RoutableDelivery list" where
  "routables ds \<equiv> map (\<lambda>d. \<lparr>rd_id = del_id d, rd_destination = del_destination d\<rparr>) ds"

text \<open>
  C15. Building or rebuilding a route. The saved route serves every delivery of the assignment
  exactly once, whatever the optimizer answers, with stops numbered in order; a rebuild keeps
  the route's id and creation time and restarts at stop 0; exactly one update with the saved
  stops is published; the over-limit message appears exactly above 50 deliveries; an unknown
  assignment or an unrepresentable clock value changes nothing.
\<close>

theorem createOrUpdateRoute_outcome:
  "case createOrUpdateRoute env src now i s of
     (Inl e, s') \<Rightarrow> s' = s \<and> e = (if assignment_findById (as_assignments (rw_dispatch s)) i = None
         then domain_error NotFound [''assignmentId''] 404 else RangeError)
   | (Inr res, s') \<Rightarrow>
       (let rt = rr_route res in
        rw_dispatch s' = rw_dispatch s \<and> rt_assignmentId rt = i \<and>
        route_findByAssignmentId (rw_routes s') = (route_findByAssignmentId (rw_routes s))(i \<mapsto> rt) \<and>
        rw_published s' = rw_published s @ [\<lparr>ru_assignmentId = i, ru_stops = rt_stops rt, ru_optimized = rt_optimized rt\<rparr>] \<and>
        mset (concat (map stop_deliveryIds (rt_stops rt))) = mset (map del_id (listed i s)) \<and>
        map stop_index (rt_stops rt) = [0..<length (rt_stops rt)] \<and> rt_currentStop rt = 0 \<and>
        rr_overLimit res = (50 < length (listed i s)) \<and> (rr_message res \<noteq> None) = rr_overLimit res \<and>
        rt_updatedAt rt = iso_string now \<and>
        (case route_findByAssignmentId (rw_routes s) i of
           Some old \<Rightarrow> rt_id rt = rt_id old \<and> rt_createdAt rt = rt_createdAt old
         | None \<Rightarrow> rt_id rt = fst (next_id ''rte'' src (rw_counter s)) \<and> rt_createdAt rt = iso_string now))"
proof (cases "assignment_findById (as_assignments (rw_dispatch s)) i")
  case None
  then show ?thesis by (simp add: createOrUpdateRoute_def route_requireAssignment_def)
next
  case (Some a)
  let ?b = "buildStops env a (routables (listed i s))"
  have over: "bs_overLimit ?b = (50 < length (listed i s))"
    by (simp add: buildStops_def Let_def OPTIMIZE_MAX_STOPS_def split: option.split)
  have served: "mset (concat (map stop_deliveryIds (bs_stops ?b))) = mset (map del_id (listed i s))"
    using buildStops_served [of env a "routables (listed i s)"] by (simp add: comp_def)
  show ?thesis
  proof (cases "\<bar>now\<bar> \<le> max_time")
    case False
    then show ?thesis
      by (simp add: createOrUpdateRoute_def route_requireAssignment_def Some Let_def iso_or_throw_def toIso_def)
  next
    case True
    then show ?thesis
      using over served buildStops_index [of env a "routables (listed i s)"]
      by (simp add: createOrUpdateRoute_def route_requireAssignment_def Some Let_def iso_or_throw_def toIso_def
          publishRoute_def route_findByAssignmentId_def route_upsert_def fun_eq_iff
          split: option.split prod.split del: mset_map set_map)
  qed
qed

text \<open>
  Completion. The call answers true exactly when the assignment has deliveries and all of
  them are terminal; then the assignment is Complete and its driver, if On_Delivery, Available
  again, and nothing else changed. Otherwise nothing changed at all: an assignment whose
  deliveries were all moved away never completes, and its driver stays On_Delivery.
\<close>

theorem completeIfAllStopsTerminal_outcome:
  "case completeIfAllStopsTerminal now i s of
     (Inl e, s') \<Rightarrow> s' = s
   | (Inr done, s') \<Rightarrow>
       done = (listed i s \<noteq> [] \<and> list_all (\<lambda>d. del_status d \<in> {Completed, Failed, Cancelled}) (listed i s)) \<and>
       (if done then (\<exists>a. assignment_findById (as_assignments (rw_dispatch s)) i = Some a \<and>
           (let w = rw_dispatch s; w' = rw_dispatch s' in
            s' = s\<lparr>rw_dispatch := w'\<rparr> \<and> as_deliveries w' = as_deliveries w \<and> as_vehicles w' = as_vehicles w \<and>
            assignment_findById (as_assignments w') =
              (assignment_findById (as_assignments w))(asg_id a \<mapsto> a\<lparr>asg_status := Complete\<rparr>) \<and>
            driver_findById (as_drivers w') =
              (case driver_findById (as_drivers w) (asg_driverId a) of
                 Some d \<Rightarrow> if drv_status d = OnDelivery
                   then (driver_findById (as_drivers w))(drv_id d \<mapsto> d\<lparr>drv_status := Available, drv_updatedAt := iso_string now\<rparr>)
                   else driver_findById (as_drivers w)
               | None \<Rightarrow> driver_findById (as_drivers w))))
        else s' = s)"
proof -
  have terminal: "isTerminal st \<longleftrightarrow> st \<in> {Completed, Failed, Cancelled}" for st
    by (cases st) auto
  show ?thesis
  proof (cases "assignment_findById (as_assignments (rw_dispatch s)) i")
    case None
    then show ?thesis by (simp add: completeIfAllStopsTerminal_def route_requireAssignment_def)
  next
    case (Some a)
    show ?thesis
    proof (cases "listed i s \<noteq> [] \<and> list_all (\<lambda>d. del_status d \<in> {Completed, Failed, Cancelled}) (listed i s)")
      case False
      then show ?thesis
        by (auto simp: completeIfAllStopsTerminal_def route_requireAssignment_def Some terminal)
    next
      case True
      have save: "assignment_findById (assignment_save x r) = (assignment_findById r)(asg_id x \<mapsto> x)"
        "driver_findById (driver_save y q) = (driver_findById q)(drv_id y \<mapsto> y)" for x r y q
        by (simp_all add: assignment_findById_def assignment_save_def driver_findById_def driver_save_def fun_eq_iff)
      show ?thesis
        using True
        by (cases "\<bar>now\<bar> \<le> max_time")
          (auto simp: completeIfAllStopsTerminal_def route_requireAssignment_def Some terminal on_dispatch_def
            iso_or_throw_def toIso_def save Let_def split: option.split)
    qed
  qed
qed

end
