(* ===== verification/Backend.thy ===== *)
theory Backend
  imports Routes
begin

text \<open>
  The management services at work together. Each service class takes the repositories of the
  others in its constructor; the backend is one set of repositories with all services on them,
  and a run is any sequence of their requests. What holds of every run: references between
  records resolve, and, as long as requests are made in order, no driver is booked twice.
\<close>

section \<open>Model\<close>

record Backend =
  bk_world :: RouteWorld
  bk_stamps :: "(string, int) jsmap"
  bk_driverCounter :: nat
  bk_vehicleCounter :: nat
  bk_deliveryCounter :: nat
  bk_tokenCounter :: nat

abbreviation bk_dispatch :: "Backend \<Rightarrow> Dispatch" where "bk_dispatch b \<equiv> rw_dispatch (bk_world b)"
abbreviation bk_drivers :: "Backend \<Rightarrow> DriverRepo" where "bk_drivers b \<equiv> as_drivers (bk_dispatch b)"
abbreviation bk_vehicles :: "Backend \<Rightarrow> VehicleRepo" where "bk_vehicles b \<equiv> as_vehicles (bk_dispatch b)"
abbreviation bk_deliveries :: "Backend \<Rightarrow> DeliveryRepo" where "bk_deliveries b \<equiv> as_deliveries (bk_dispatch b)"
abbreviation bk_assignments :: "Backend \<Rightarrow> AssignmentRepo" where "bk_assignments b \<equiv> as_assignments (bk_dispatch b)"
abbreviation bk_routes :: "Backend \<Rightarrow> RouteRepo" where "bk_routes b \<equiv> rw_routes (bk_world b)"

definition backend_new :: Backend where
  "backend_new = \<lparr>bk_world = \<lparr>rw_dispatch = \<lparr>as_assignments = assignment_repo_new, as_drivers = driver_repo_new,
       as_vehicles = vehicle_repo_new, as_deliveries = delivery_repo_new, as_counter = 0\<rparr>,
     rw_routes = [], rw_published = [], rw_counter = 0\<rparr>,
     bk_stamps = [], bk_driverCounter = 0, bk_vehicleCounter = 0, bk_deliveryCounter = 0, bk_tokenCounter = 0\<rparr>"

text \<open>The state each service sees, and the backend after it changed its state.\<close>

definition change_dispatch :: "(Dispatch \<Rightarrow> Dispatch) \<Rightarrow> Backend \<Rightarrow> Backend" where
  "change_dispatch f b = b\<lparr>bk_world := (bk_world b)\<lparr>rw_dispatch := f (bk_dispatch b)\<rparr>\<rparr>"

definition drivers_of :: "Backend \<Rightarrow> DriverSvc" where
  "drivers_of b = \<lparr>ds_repo = bk_drivers b, ds_lastStamp = bk_stamps b, ds_counter = bk_driverCounter b\<rparr>"

definition with_drivers :: "DriverSvc \<Rightarrow> Backend \<Rightarrow> Backend" where
  "with_drivers s b = (change_dispatch (\<lambda>w. w\<lparr>as_drivers := ds_repo s\<rparr>) b)
     \<lparr>bk_stamps := ds_lastStamp s, bk_driverCounter := ds_counter s\<rparr>"

definition vehicles_of :: "Backend \<Rightarrow> VehicleSvc" where
  "vehicles_of b = \<lparr>vs_repo = bk_vehicles b, vs_counter = bk_vehicleCounter b\<rparr>"

definition with_vehicles :: "VehicleSvc \<Rightarrow> Backend \<Rightarrow> Backend" where
  "with_vehicles s b = (change_dispatch (\<lambda>w. w\<lparr>as_vehicles := vs_repo s\<rparr>) b)\<lparr>bk_vehicleCounter := vs_counter s\<rparr>"

definition deliveries_of :: "Backend \<Rightarrow> DeliverySvc" where
  "deliveries_of b = \<lparr>dv_repo = bk_deliveries b, dv_idCounter = bk_deliveryCounter b, dv_tokenCounter = bk_tokenCounter b\<rparr>"

definition with_deliveries :: "DeliverySvc \<Rightarrow> Backend \<Rightarrow> Backend" where
  "with_deliveries s b = (change_dispatch (\<lambda>w. w\<lparr>as_deliveries := dv_repo s\<rparr>) b)
     \<lparr>bk_deliveryCounter := dv_idCounter s, bk_tokenCounter := dv_tokenCounter s\<rparr>"

definition with_dispatch :: "Dispatch \<Rightarrow> Backend \<Rightarrow> Backend" where
  "with_dispatch w b = change_dispatch (\<lambda>_. w) b"

definition with_world :: "RouteWorld \<Rightarrow> Backend \<Rightarrow> Backend" where
  "with_world w b = b\<lparr>bk_world := w\<rparr>"

definition serve :: "(Backend \<Rightarrow> 's) \<Rightarrow> ('s \<Rightarrow> Backend \<Rightarrow> Backend) \<Rightarrow> ('s, exn, 'a) svc \<Rightarrow> (Backend, exn, unit) svc" where
  "serve look put m b = (case m (look b) of (r, s) \<Rightarrow> (map_sum id (\<lambda>_. ()) r, put s b))"

text \<open>A request to any service, with the clock readings and the settled promises it meets.\<close>

datatype 'e Request =
    ReqDriver DriverOp
  | ReqVehicle VehicleOp
  | ReqDelivery "'e DeliveryOp"
  | ReqAssign nat int string "string list option"
  | ReqAccept int string
  | ReqReassign int string string
  | ReqRoute "'e RouteEnv" nat int string
  | ReqComplete int string

fun backend_exec :: "(string \<Rightarrow> int option) \<Rightarrow> 'e Request \<Rightarrow> (Backend, exn, unit) svc" where
  "backend_exec parse (ReqDriver op) = serve drivers_of with_drivers (driver_exec parse op)"
| "backend_exec parse (ReqVehicle op) = serve vehicles_of with_vehicles (vehicle_exec op)"
| "backend_exec parse (ReqDelivery op) = serve deliveries_of with_deliveries (delivery_exec op)"
| "backend_exec parse (ReqAssign t now driverId ids) =
     serve bk_dispatch with_dispatch (assignment_create (Stamped t) now driverId ids)"
| "backend_exec parse (ReqAccept now i) = serve bk_dispatch with_dispatch (assignment_accept now i)"
| "backend_exec parse (ReqReassign now i target) = serve bk_dispatch with_dispatch (assignment_reassign now i target)"
| "backend_exec parse (ReqRoute env t now i) = serve bk_world with_world (createOrUpdateRoute env (Stamped t) now i)"
| "backend_exec parse (ReqComplete now i) = serve bk_world with_world (completeIfAllStopsTerminal now i)"

fun backend_run :: "(string \<Rightarrow> int option) \<Rightarrow> 'e Request list \<Rightarrow> Backend \<Rightarrow> Backend" where
  "backend_run parse [] b = b"
| "backend_run parse (x # xs) b = backend_run parse xs (snd (backend_exec parse x b))"

lemma snd_serve [simp]: "snd (serve look put m b) = put (snd (m (look b))) b"
  by (simp add: serve_def split: prod.split)

lemma with_sel [simp]:
  "bk_drivers (with_drivers s b) = ds_repo s" "bk_driverCounter (with_drivers s b) = ds_counter s"
  "bk_vehicles (with_drivers s b) = bk_vehicles b" "bk_deliveries (with_drivers s b) = bk_deliveries b"
  "bk_assignments (with_drivers s b) = bk_assignments b" "bk_routes (with_drivers s b) = bk_routes b"
  "bk_vehicleCounter (with_drivers s b) = bk_vehicleCounter b"
  "bk_vehicles (with_vehicles v b) = vs_repo v" "bk_vehicleCounter (with_vehicles v b) = vs_counter v"
  "bk_drivers (with_vehicles v b) = bk_drivers b" "bk_deliveries (with_vehicles v b) = bk_deliveries b"
  "bk_assignments (with_vehicles v b) = bk_assignments b" "bk_routes (with_vehicles v b) = bk_routes b"
  "bk_driverCounter (with_vehicles v b) = bk_driverCounter b"
  "bk_deliveries (with_deliveries e b) = dv_repo e" "bk_drivers (with_deliveries e b) = bk_drivers b"
  "bk_vehicles (with_deliveries e b) = bk_vehicles b" "bk_assignments (with_deliveries e b) = bk_assignments b"
  "bk_routes (with_deliveries e b) = bk_routes b" "bk_driverCounter (with_deliveries e b) = bk_driverCounter b"
  "bk_vehicleCounter (with_deliveries e b) = bk_vehicleCounter b"
  "bk_dispatch (with_dispatch w b) = w" "bk_routes (with_dispatch w b) = bk_routes b"
  "bk_driverCounter (with_dispatch w b) = bk_driverCounter b" "bk_vehicleCounter (with_dispatch w b) = bk_vehicleCounter b"
  "bk_world (with_world x b) = x" "bk_driverCounter (with_world x b) = bk_driverCounter b"
  "bk_vehicleCounter (with_world x b) = bk_vehicleCounter b"
  by (simp_all add: with_drivers_def with_vehicles_def with_deliveries_def with_dispatch_def with_world_def change_dispatch_def)

section \<open>What each service changes\<close>

definition driver_keys_ok :: "nat \<Rightarrow> DriverRepo \<Rightarrow> bool" where
  "driver_keys_ok n r \<longleftrightarrow> driver_repo_ok r \<and> (\<forall>k d. driver_findById r k = Some d \<longrightarrow> issued ''drv'' n k)"

text \<open>A driver request changes nothing, saves an edited record, or adds one under a fresh id.\<close>

lemma driver_exec_effect:
  assumes "driver_keys_ok (ds_counter s) (ds_repo s)"
  obtains (same) "ds_repo (snd (driver_exec parse op s)) = ds_repo s" "ds_counter (snd (driver_exec parse op s)) = ds_counter s"
  | (saved) d old where "ds_repo (snd (driver_exec parse op s)) = driver_save d (ds_repo s)"
      "ds_counter (snd (driver_exec parse op s)) = ds_counter s"
      "driver_findById (ds_repo s) (drv_id d) = Some old" "op_guard op old"
      "\<exists>now. op_target op = Some (now, drv_id d)" "drv_status d = drv_status (op_change op old)"
  | (added) d t where "ds_repo (snd (driver_exec parse op s)) = driver_save d (ds_repo s)"
      "ds_counter (snd (driver_exec parse op s)) = Suc (ds_counter s)"
      "drv_id d = stamped_id ''drv'' t (Suc (ds_counter s))" "driver_findById (ds_repo s) (drv_id d) = None"
proof (cases "op_target op")
  case None
  then obtain t now inp where op: "op = OpCreate t now inp" by (cases op) auto
  let ?i = "stamped_id ''drv'' t (Suc (ds_counter s))"
  have fresh: "driver_findById (ds_repo s) ?i = None"
    using assms issued_fresh unfolding driver_keys_ok_def by (metis not_None_eq)
  have "snd (driver_exec parse op s) = s \<or> (\<exists>d. ds_repo (snd (driver_exec parse op s)) = driver_save d (ds_repo s) \<and>
      ds_counter (snd (driver_exec parse op s)) = Suc (ds_counter s) \<and> drv_id d = ?i)"
    by (auto simp: op driver_create_eq Let_def split: option.split sum.split)
  then consider "snd (driver_exec parse op s) = s"
    | d where "ds_repo (snd (driver_exec parse op s)) = driver_save d (ds_repo s)"
      "ds_counter (snd (driver_exec parse op s)) = Suc (ds_counter s)" "drv_id d = ?i" by blast
  then show thesis
    by cases (auto intro: same added simp: fresh)
next
  case (Some p)
  then obtain now i where t: "op_target op = Some (now, i)" by (cases p) auto
  show thesis
  proof (cases "driver_findById (ds_repo s) i")
    case None
    then show thesis by (intro same) (simp_all add: driver_exec_target [OF t])
  next
    case (Some old)
    then have i: "drv_id old = i" using drv.look_key assms by (auto simp: driver_keys_ok_def)
    show thesis
    proof (cases "op_guard op old")
      case False
      then show thesis by (intro same) (simp_all add: driver_exec_target [OF t] Some)
    next
      case True
      let ?stamp = "stamp_after parse now old s"
      show thesis
      proof (cases "iso_or_throw ?stamp")
        case (Inl e)
        then show thesis
          using True by (intro same) (simp_all add: driver_exec_target [OF t] Some driver_touch_eq Let_def)
      next
        case (Inr ts)
        then show thesis
          using True i t Some
          by (intro saved [of "(op_change op old)\<lparr>drv_updatedAt := ts\<rparr>" old])
            (simp_all add: driver_exec_target [OF t] driver_touch_eq Let_def)
      qed
    qed
  qed
qed


lemma driver_keys_ok_exec:
  assumes ok: "driver_keys_ok (ds_counter s) (ds_repo s)"
  shows "driver_keys_ok (ds_counter (snd (driver_exec parse op s))) (ds_repo (snd (driver_exec parse op s)))"
    and "driver_findById (ds_repo s) k \<noteq> None \<Longrightarrow> driver_findById (ds_repo (snd (driver_exec parse op s))) k \<noteq> None"
proof -
  have r: "driver_repo_ok (ds_repo s)" using ok by (simp add: driver_keys_ok_def)
  show "driver_keys_ok (ds_counter (snd (driver_exec parse op s))) (ds_repo (snd (driver_exec parse op s)))"
    using ok
    by (cases rule: driver_exec_effect [OF ok, of parse op])
      (auto simp: driver_keys_ok_def drv.ok_put drv.look_put split: if_splits intro: issued_Suc issued_new)
  show "driver_findById (ds_repo s) k \<noteq> None \<Longrightarrow> driver_findById (ds_repo (snd (driver_exec parse op s))) k \<noteq> None"
    by (cases rule: driver_exec_effect [OF ok, of parse op]) (auto simp: drv.look_put [OF r])
qed

text \<open>A delivery request changes nothing, moves a delivery along the lifecycle, or adds a free one.\<close>

lemma delivery_exec_effect:
  assumes ok: "delivery_repo_ok (dv_repo s)"
  obtains (same) "dv_repo (snd (delivery_exec op s)) = dv_repo s"
  | (saved) d old ev where "dv_repo (snd (delivery_exec op s)) = delivery_save d (dv_repo s)"
      "delivery_findById (dv_repo s) (del_id d) = Some old" "del_assignmentId d = del_assignmentId old"
      "nextStatus (del_status old) ev = Some (del_status d)"
  | (added) d where "dv_repo (snd (delivery_exec op s)) = delivery_save d (dv_repo s)" "del_assignmentId d = None"
proof (cases op)
  case (DopCreate t u now geo inp)
  have "dv_repo (snd (delivery_exec op s)) = dv_repo s \<or> (\<exists>d. dv_repo (snd (delivery_exec op s)) = delivery_save d (dv_repo s)
      \<and> del_assignmentId d = None)"
    by (auto simp: DopCreate delivery_create_eq Let_def split: option.split sum.split Settled.split)
  then show thesis using same added by blast
next
  case (DopTransition now i ev reason)
  have id: "del_id d = i" if "delivery_findById (dv_repo s) i = Some d" for d
    using del.look_key [OF ok that] .
  have "dv_repo (snd (delivery_exec op s)) = dv_repo s \<or> (\<exists>d old t ts. d = transitioned t reason ts old
      \<and> dv_repo (snd (delivery_exec op s)) = delivery_save d (dv_repo s)
      \<and> delivery_findById (dv_repo s) i = Some old \<and> nextStatus (del_status old) ev = Some t)"
    by (auto simp: DopTransition delivery_transition_eq split: option.split sum.split)
  then show thesis
  proof
    assume "dv_repo (snd (delivery_exec op s)) = dv_repo s"
    then show thesis by (rule same)
  next
    assume "\<exists>d old t ts. d = transitioned t reason ts old
      \<and> dv_repo (snd (delivery_exec op s)) = delivery_save d (dv_repo s)
      \<and> delivery_findById (dv_repo s) i = Some old \<and> nextStatus (del_status old) ev = Some t"
    then obtain old t ts where "dv_repo (snd (delivery_exec op s)) = delivery_save (transitioned t reason ts old) (dv_repo s)"
      "delivery_findById (dv_repo s) i = Some old" "nextStatus (del_status old) ev = Some t" by blast
    then show thesis
      using id by (intro saved [of "transitioned t reason ts old" old ev]) (simp_all add: transitioned_def)
  qed
qed

section \<open>References\<close>

definition asg_refs :: "DriverRepo \<Rightarrow> VehicleRepo \<Rightarrow> Assignment \<Rightarrow> bool" where
  "asg_refs drvs vehs a \<longleftrightarrow> driver_findById drvs (asg_driverId a) \<noteq> None \<and>
     (case vehicle_findById vehs (asg_vehicleId a) of None \<Rightarrow> False | Some v \<Rightarrow> veh_driverId v = Some (asg_driverId a))"

definition del_refs :: "AssignmentRepo \<Rightarrow> Delivery \<Rightarrow> bool" where
  "del_refs asgs d \<longleftrightarrow> (case del_assignmentId d of None \<Rightarrow> True
     | Some k \<Rightarrow> del_status d \<noteq> Created \<and> assignment_findById asgs k \<noteq> None)"

definition rte_refs :: "AssignmentRepo \<Rightarrow> Route \<Rightarrow> bool" where
  "rte_refs asgs r \<longleftrightarrow> assignment_findById asgs (rt_assignmentId r) \<noteq> None"

definition refs_ok :: "Backend \<Rightarrow> bool" where
  "refs_ok b \<longleftrightarrow> driver_keys_ok (bk_driverCounter b) (bk_drivers b) \<and> vehicle_svc_ok (vehicles_of b) \<and>
     delivery_repo_ok (bk_deliveries b) \<and> assignment_repo_ok (bk_assignments b) \<and> route_repo_ok (bk_routes b) \<and>
     (\<forall>k a. assignment_findById (bk_assignments b) k = Some a \<longrightarrow> asg_refs (bk_drivers b) (bk_vehicles b) a) \<and>
     (\<forall>k d. delivery_findById (bk_deliveries b) k = Some d \<longrightarrow> del_refs (bk_assignments b) d) \<and>
     (\<forall>k r. route_findByAssignmentId (bk_routes b) k = Some r \<longrightarrow> rte_refs (bk_assignments b) r)"

lemma refs_ok_new: "refs_ok backend_new"
  by (simp add: refs_ok_def backend_new_def driver_keys_ok_def vehicles_of_def vehicle_svc_ok_def
      route_repo_ok_def driver_findById_def driver_repo_new_def assignment_findById_def assignment_repo_new_def
      delivery_findById_def delivery_repo_new_def route_findByAssignmentId_def vehicle_repo_new_def
      driver_repo_ok_def delivery_repo_ok_def assignment_repo_ok_def vehicle_repo_ok_def vehicle_list_def
      identifier_indexed_def)


text \<open>References survive when the records they name do.\<close>

lemma asg_refs_drivers:
  "asg_refs drvs vehs a \<Longrightarrow> (\<And>k. driver_findById drvs k \<noteq> None \<Longrightarrow> driver_findById drvs' k \<noteq> None) \<Longrightarrow> asg_refs drvs' vehs a"
  by (auto simp: asg_refs_def)

lemma asg_refs_keep:
  "asg_refs drvs vehs a \<Longrightarrow> asg_driverId a' = asg_driverId a \<Longrightarrow> asg_vehicleId a' = asg_vehicleId a \<Longrightarrow> asg_refs drvs vehs a'"
  by (simp add: asg_refs_def cong: option.case_cong)

lemma del_refs_mono:
  "del_refs asgs d \<Longrightarrow> (\<And>k. assignment_findById asgs k \<noteq> None \<Longrightarrow> assignment_findById asgs' k \<noteq> None) \<Longrightarrow> del_refs asgs' d"
  by (auto simp: del_refs_def split: option.splits)

lemma rte_refs_mono:
  "rte_refs asgs r \<Longrightarrow> (\<And>k. assignment_findById asgs k \<noteq> None \<Longrightarrow> assignment_findById asgs' k \<noteq> None) \<Longrightarrow> rte_refs asgs' r"
  by (auto simp: rte_refs_def)

lemma refs_okD:
  assumes "refs_ok b"
  shows "driver_keys_ok (bk_driverCounter b) (bk_drivers b)" "vehicle_svc_ok (vehicles_of b)"
    "delivery_repo_ok (bk_deliveries b)" "assignment_repo_ok (bk_assignments b)" "route_repo_ok (bk_routes b)"
    "assignment_findById (bk_assignments b) k = Some a \<Longrightarrow> asg_refs (bk_drivers b) (bk_vehicles b) a"
    "delivery_findById (bk_deliveries b) k = Some d \<Longrightarrow> del_refs (bk_assignments b) d"
    "route_findByAssignmentId (bk_routes b) k = Some r \<Longrightarrow> rte_refs (bk_assignments b) r"
    "driver_repo_ok (bk_drivers b)"
  using assms by (auto simp: refs_ok_def driver_keys_ok_def)

lemma driver_id_nonempty: "refs_ok b \<Longrightarrow> driver_findById (bk_drivers b) k \<noteq> None \<Longrightarrow> k \<noteq> []"
  unfolding refs_ok_def driver_keys_ok_def by (metis issued_def not_None_eq stamped_id_nonempty)

lemma refs_ok_driver:
  assumes "refs_ok b"
  shows "refs_ok (with_drivers (snd (driver_exec parse op (drivers_of b))) b)"
proof -
  have ok: "driver_keys_ok (ds_counter (drivers_of b)) (ds_repo (drivers_of b))"
    using refs_okD(1) [OF assms] by (simp add: drivers_of_def)
  have grows: "driver_findById (bk_drivers b) k \<noteq> None \<Longrightarrow>
      driver_findById (ds_repo (snd (driver_exec parse op (drivers_of b)))) k \<noteq> None" for k
    using driver_keys_ok_exec(2) [OF ok] by (simp add: drivers_of_def)
  have "asg_refs (ds_repo (snd (driver_exec parse op (drivers_of b)))) (bk_vehicles b) a"
    if "assignment_findById (bk_assignments b) k = Some a" for k a
    using refs_okD(6) [OF assms that] grows by (rule asg_refs_drivers)
  then show ?thesis
    using assms driver_keys_ok_exec(1) [OF ok, of parse op]
    unfolding refs_ok_def by (simp add: vehicles_of_def)
qed

lemma refs_ok_vehicle:
  assumes ok: "refs_ok b"
  shows "refs_ok (with_vehicles (snd (vehicle_exec op (vehicles_of b))) b)"
proof -
  let ?s = "snd (vehicle_exec op (vehicles_of b))"
  have "asg_refs (bk_drivers b) (vs_repo ?s) a" if "assignment_findById (bk_assignments b) k = Some a" for k a
  proof -
    from refs_okD(6) [OF ok that] obtain v where v: "vehicle_findById (bk_vehicles b) (asg_vehicleId a) = Some v"
      "veh_driverId v = Some (asg_driverId a)" and d: "driver_findById (bk_drivers b) (asg_driverId a) \<noteq> None"
      by (auto simp: asg_refs_def split: option.splits)
    have "vehicle_findById (vs_repo (vehicles_of b)) (asg_vehicleId a) = Some v" using v(1) by (simp add: vehicles_of_def)
    from vehicle_exec_keeps_driver [OF refs_okD(2) [OF ok] this v(2) driver_id_nonempty [OF ok d], of op] d
    show ?thesis by (auto simp: asg_refs_def)
  qed
  moreover have "vehicles_of (with_vehicles ?s b) = ?s" by (simp add: vehicles_of_def)
  ultimately show ?thesis
    using ok vehicle_svc_ok_exec [OF refs_okD(2) [OF ok], of op] unfolding refs_ok_def by simp
qed

lemma refs_ok_delivery_save:
  assumes "refs_ok b" "del_refs (bk_assignments b) d"
  shows "refs_ok (change_dispatch (\<lambda>w. w\<lparr>as_deliveries := delivery_save d (as_deliveries w)\<rparr>) b)"
  using assms refs_okD(3) [OF assms(1)] unfolding refs_ok_def
  by (simp add: change_dispatch_def vehicles_of_def del.ok_put del.look_put)

lemma refs_ok_counters [simp]:
  "refs_ok (b\<lparr>bk_deliveryCounter := m, bk_tokenCounter := n\<rparr>) = refs_ok b"
  "refs_ok (change_dispatch (\<lambda>w. w\<lparr>as_counter := n\<rparr>) b) = refs_ok b"
  by (simp_all add: refs_ok_def vehicles_of_def change_dispatch_def)

lemma refs_ok_delivery:
  assumes ok: "refs_ok b"
  shows "refs_ok (with_deliveries (snd (delivery_exec op (deliveries_of b))) b)"
proof -
  have r: "delivery_repo_ok (dv_repo (deliveries_of b))" using refs_okD(3) [OF ok] by (simp add: deliveries_of_def)
  have saves: "refs_ok (with_deliveries s b)" if "dv_repo s = delivery_save d (dv_repo (deliveries_of b))"
    "del_refs (bk_assignments b) d" for s d
    using refs_ok_delivery_save [OF ok that(2)] that(1)
    by (simp add: with_deliveries_def deliveries_of_def change_dispatch_def)
  show ?thesis
  proof (rule delivery_exec_effect [OF r, of op], goal_cases same saved added)
    case same
    then show ?thesis using ok
      by (simp add: with_deliveries_def deliveries_of_def change_dispatch_def refs_ok_def vehicles_of_def)
  next
    case (saved d old ev)
    have "del_refs (bk_assignments b) old" using refs_okD(7) [OF ok] saved(2) by (simp add: deliveries_of_def)
    then have "del_refs (bk_assignments b) d"
      using saved(3,4) by (auto simp: del_refs_def nextStatus_step split: option.splits elim: lifecycle_step.cases)
    then show ?thesis using saves [OF saved(1)] by simp
  next
    case (added d)
    then show ?thesis using saves [OF added(1)] by (simp add: del_refs_def)
  qed
qed


lemma refs_ok_assignment_save:
  assumes ok: "refs_ok b" and a: "asg_refs (bk_drivers b) (bk_vehicles b) a"
  shows "refs_ok (change_dispatch (\<lambda>w. w\<lparr>as_assignments := assignment_save a (as_assignments w)\<rparr>) b)"
proof -
  note r = refs_okD(4) [OF ok]
  have grows: "assignment_findById (bk_assignments b) k \<noteq> None \<Longrightarrow>
      assignment_findById (assignment_save a (bk_assignments b)) k \<noteq> None" for k
    by (simp add: asg.look_put [OF r])
  have "del_refs (assignment_save a (bk_assignments b)) d" if "delivery_findById (bk_deliveries b) k = Some d" for k d
    using refs_okD(7) [OF ok that] grows by (rule del_refs_mono)
  moreover have "rte_refs (assignment_save a (bk_assignments b)) x" if "route_findByAssignmentId (bk_routes b) k = Some x" for k x
    using refs_okD(8) [OF ok that] grows by (rule rte_refs_mono)
  ultimately show ?thesis
    using ok a unfolding refs_ok_def
    by (simp add: change_dispatch_def vehicles_of_def asg.ok_put asg.look_put [OF r])
qed

lemma refs_ok_driver_save:
  assumes ok: "refs_ok b" and d: "driver_findById (bk_drivers b) (drv_id d) = Some old"
  shows "refs_ok (change_dispatch (\<lambda>w. w\<lparr>as_drivers := driver_save d (as_drivers w)\<rparr>) b)"
proof -
  note r = refs_okD(9) [OF ok]
  have "asg_refs (driver_save d (bk_drivers b)) (bk_vehicles b) a" if "assignment_findById (bk_assignments b) k = Some a" for k a
    using refs_okD(6) [OF ok that] by (rule asg_refs_drivers) (simp add: drv.look_put [OF r])
  moreover have "driver_keys_ok (bk_driverCounter b) (driver_save d (bk_drivers b))"
    using refs_okD(1) [OF ok] d by (auto simp: driver_keys_ok_def drv.ok_put drv.look_put)
  ultimately show ?thesis
    using ok unfolding refs_ok_def by (simp add: change_dispatch_def vehicles_of_def)
qed

lemma refs_ok_deliveries_save:
  "refs_ok b \<Longrightarrow> list_all (del_refs (bk_assignments b)) ds \<Longrightarrow>
     refs_ok (change_dispatch (\<lambda>w. w\<lparr>as_deliveries := foldl (\<lambda>r d. delivery_save d r) (as_deliveries w) ds\<rparr>) b)"
proof (induction ds arbitrary: b)
  case (Cons d ds)
  let ?b = "change_dispatch (\<lambda>w. w\<lparr>as_deliveries := delivery_save d (as_deliveries w)\<rparr>) b"
  have "refs_ok (change_dispatch (\<lambda>w. w\<lparr>as_deliveries := foldl (\<lambda>r d. delivery_save d r) (as_deliveries w) ds\<rparr>) ?b)"
    using Cons.prems refs_ok_delivery_save by (intro Cons.IH) (auto simp: change_dispatch_def)
  then show ?case by (simp add: change_dispatch_def)
qed (simp add: change_dispatch_def)

lemma resolved_free:
  assumes "resolveAssignableDeliveries r ids [] = Inr ds"
  shows "list_all (\<lambda>d. del_status d = Created) ds"
  using assms by (auto simp: resolve_Inr_iff list_all_iff blocked_def assignable_def split: option.splits)

text \<open>What a successful \<open>create\<close> did, step by step.\<close>

lemma assignment_create_effect:
  obtains (same) "snd (assignment_create src now driverId ids w) = w"
  | (created) n a d v ds ts where "snd (assignment_create src now driverId ids w) = with_assignment n a d ds ts w"
      "driver_findById (as_drivers w) driverId = Some d" "isEligibleForAssignment d"
      "vehicle_findByDriverId (as_vehicles w) driverId = Some v"
      "asg_driverId a = driverId" "asg_vehicleId a = veh_id v" "asg_status a = Pending"
      "list_all (\<lambda>d. del_status d = Created) ds"
proof (cases "snd (assignment_create src now driverId ids w) = w")
  case False
  then obtain named d v ds ts where p: "ids = Some named" "named \<noteq> []" "driver_findById (as_drivers w) driverId = Some d"
    "isEligibleForAssignment d" "vehicle_findByDriverId (as_vehicles w) driverId = Some v"
    "resolveAssignableDeliveries (as_deliveries w) named [] = Inr ds" "iso_or_throw now = Inr ts"
    unfolding assignment_create_eq by (auto split: option.splits sum.splits if_splits)
  obtain i n where i: "next_id ''asg'' src (as_counter w) = (i, n)" by fastforce
  let ?a = "\<lparr>asg_id = i, asg_driverId = driverId, asg_vehicleId = veh_id v, asg_status = Pending,
      asg_acceptedAt = None, asg_createdAt = ts\<rparr>"
  have "snd (assignment_create src now driverId ids w) = with_assignment n ?a d ds ts w"
    using p by (simp add: assignment_create_eq i Let_def)
  then show thesis
    using p resolved_free [OF p(6)] by (intro created [of n ?a d ds ts v]) simp_all
qed (rule same)

lemma with_assignment_change:
  "with_dispatch (with_assignment n a d ds ts (bk_dispatch b)) b =
     change_dispatch (\<lambda>w. w\<lparr>as_drivers := driver_save (d\<lparr>drv_status := OnDelivery, drv_updatedAt := ts\<rparr>) (as_drivers w)\<rparr>)
      (change_dispatch (\<lambda>w. w\<lparr>as_deliveries := foldl (\<lambda>r d. delivery_save d r) (as_deliveries w) (map (linked (asg_id a) ts) ds)\<rparr>)
      (change_dispatch (\<lambda>w. w\<lparr>as_assignments := assignment_save a (as_assignments w)\<rparr>)
      (change_dispatch (\<lambda>w. w\<lparr>as_counter := n\<rparr>) b)))"
  by (simp add: with_dispatch_def with_assignment_def change_dispatch_def)

lemma change_sel [simp]:
  "bk_drivers (change_dispatch (\<lambda>w. w\<lparr>as_assignments := f w\<rparr>) b) = bk_drivers b"
  "bk_vehicles (change_dispatch (\<lambda>w. w\<lparr>as_assignments := f w\<rparr>) b) = bk_vehicles b"
  "bk_assignments (change_dispatch (\<lambda>w. w\<lparr>as_assignments := f w\<rparr>) b) = f (bk_dispatch b)"
  "bk_drivers (change_dispatch (\<lambda>w. w\<lparr>as_deliveries := g w\<rparr>) b) = bk_drivers b"
  "bk_assignments (change_dispatch (\<lambda>w. w\<lparr>as_deliveries := g w\<rparr>) b) = bk_assignments b"
  "bk_drivers (change_dispatch (\<lambda>w. w\<lparr>as_counter := n\<rparr>) b) = bk_drivers b"
  "bk_vehicles (change_dispatch (\<lambda>w. w\<lparr>as_counter := n\<rparr>) b) = bk_vehicles b"
  "bk_assignments (change_dispatch (\<lambda>w. w\<lparr>as_counter := n\<rparr>) b) = bk_assignments b"
  "bk_drivers (change_dispatch (\<lambda>w. w\<lparr>as_drivers := h w\<rparr>) b) = h (bk_dispatch b)"
  "bk_assignments (change_dispatch (\<lambda>w. w\<lparr>as_drivers := h w\<rparr>) b) = bk_assignments b"
  by (simp_all add: change_dispatch_def)

lemma refs_ok_assign:
  assumes ok: "refs_ok b"
  shows "refs_ok (with_dispatch (snd (assignment_create src now driverId ids (bk_dispatch b))) b)"
proof (rule assignment_create_effect [of src now driverId ids "bk_dispatch b"], goal_cases same created)
  case same
  then show ?case using ok by (simp add: with_dispatch_def change_dispatch_def)
next
  case (created n a d v ds ts)
  let ?b1 = "change_dispatch (\<lambda>w. w\<lparr>as_counter := n\<rparr>) b"
  let ?b2 = "change_dispatch (\<lambda>w. w\<lparr>as_assignments := assignment_save a (as_assignments w)\<rparr>) ?b1"
  let ?b3 = "change_dispatch (\<lambda>w. w\<lparr>as_deliveries := foldl (\<lambda>r d. delivery_save d r) (as_deliveries w) (map (linked (asg_id a) ts) ds)\<rparr>) ?b2"
  have v: "v \<in> set (vehicle_list (bk_vehicles b))" "veh_driverId v = Some driverId"
    using find_SomeD [OF created(4) [unfolded vehicle_findByDriverId_def]] by (auto simp: vehicle_list_def)
  then have "vehicle_findById (bk_vehicles b) (veh_id v) = Some v"
    using vehicle_svc_okD(1) [OF refs_okD(2) [OF ok]] veh.all_look by (simp add: vehicles_of_def)
  then have a: "asg_refs (bk_drivers b) (bk_vehicles b) a"
    using created v(2) by (simp add: asg_refs_def)
  have 2: "refs_ok ?b2" using ok a by (intro refs_ok_assignment_save) simp_all
  have "assignment_findById (assignment_save a (bk_assignments b)) (asg_id a) = Some a"
    using asg.put_look_same [OF refs_okD(4) [OF ok]] .
  then have "list_all (del_refs (bk_assignments ?b2)) (map (linked (asg_id a) ts) ds)"
    using created(8) by (auto simp: list_all_iff del_refs_def)
  then have 3: "refs_ok ?b3" by (intro refs_ok_deliveries_save [OF 2])
  have "drv_id d = driverId" using drv.look_key [OF refs_okD(9) [OF ok] created(2)] .
  then have "driver_findById (bk_drivers ?b3) (drv_id (d\<lparr>drv_status := OnDelivery, drv_updatedAt := ts\<rparr>)) = Some d"
    using created(2) by simp
  from refs_ok_driver_save [OF 3 this] show ?case
    unfolding created(1) with_assignment_change .
qed


lemma refs_ok_accept:
  assumes ok: "refs_ok b"
  shows "refs_ok (with_dispatch (snd (assignment_accept now i (bk_dispatch b))) b)"
proof -
  have "refs_ok (change_dispatch (\<lambda>w. w\<lparr>as_assignments := assignment_save (a\<lparr>asg_status := st, asg_acceptedAt := t\<rparr>) (as_assignments w)\<rparr>) b)"
    if "assignment_findById (bk_assignments b) i = Some a" for a st t
    by (rule refs_ok_assignment_save [OF ok asg_refs_keep [OF refs_okD(6) [OF ok that]]]) simp_all
  then show ?thesis
    using ok by (auto simp: assignment_accept_eq with_dispatch_def change_dispatch_def Let_def split: option.split sum.split)
qed

lemma refs_ok_reassign:
  assumes ok: "refs_ok b"
  shows "refs_ok (with_dispatch (snd (assignment_reassign now i target (bk_dispatch b))) b)"
proof -
  have "refs_ok (change_dispatch (\<lambda>w. w\<lparr>as_deliveries :=
      delivery_save (d\<lparr>del_assignmentId := Some (asg_id a), del_updatedAt := ts\<rparr>) (as_deliveries w)\<rparr>) b)"
    if "delivery_findById (bk_deliveries b) i = Some d" "truthy (del_assignmentId d)"
      "assignment_findById (bk_assignments b) target = Some a" for d a ts
    using refs_okD(7) [OF ok that(1)] that(2,3) asg.look_key [OF refs_okD(4) [OF ok] that(3)]
    by (intro refs_ok_delivery_save [OF ok]) (auto simp: del_refs_def split: option.splits)
  then show ?thesis
    using ok by (auto simp: assignment_reassign_eq with_dispatch_def change_dispatch_def Let_def split: option.split sum.split)
qed

text \<open>Building a route only touches the routes, under the id of an assignment that exists.\<close>

lemma createOrUpdateRoute_effect:
  "rw_dispatch (snd (createOrUpdateRoute env src now i s)) = rw_dispatch s \<and>
   (rw_routes (snd (createOrUpdateRoute env src now i s)) = rw_routes s \<or>
    (\<exists>r. rw_routes (snd (createOrUpdateRoute env src now i s)) = route_upsert r (rw_routes s) \<and>
       rt_assignmentId r = i \<and> assignment_findById (as_assignments (rw_dispatch s)) i \<noteq> None))"
proof (cases "assignment_findById (as_assignments (rw_dispatch s)) i")
  case None
  then show ?thesis by (simp add: createOrUpdateRoute_def route_requireAssignment_def)
next
  case (Some a)
  note res = createOrUpdateRoute_def route_requireAssignment_def Let_def publishRoute_def Some
  obtain k n where "(case route_findByAssignmentId (rw_routes s) i of
      None \<Rightarrow> next_id ''rte'' src (rw_counter s) | Some r \<Rightarrow> (rt_id r, rw_counter s)) = (k, n)" by fastforce
  with Some show ?thesis
    by (cases "iso_or_throw now") (simp add: res, simp add: res, intro disjI2 exI conjI, rule refl, simp)
qed

lemma refs_ok_route:
  assumes ok: "refs_ok b"
  shows "refs_ok (with_world (snd (createOrUpdateRoute env src now i (bk_world b))) b)"
proof -
  let ?w = "snd (createOrUpdateRoute env src now i (bk_world b))"
  have d: "rw_dispatch ?w = bk_dispatch b" using createOrUpdateRoute_effect by blast
  note r = rte.ok_put [OF refs_okD(5) [OF ok]] rte.look_put [OF refs_okD(5) [OF ok]]
  consider "rw_routes ?w = bk_routes b"
    | r where "rw_routes ?w = route_upsert r (bk_routes b)" "rt_assignmentId r = i" "assignment_findById (bk_assignments b) i \<noteq> None"
    using createOrUpdateRoute_effect [of env src now i "bk_world b"] by blast
  then show ?thesis
    using ok d by cases (simp_all add: refs_ok_def vehicles_of_def rte_refs_def r)
qed

text \<open>Completing saves the assignment as complete and frees a driver who is on delivery.\<close>

lemma complete_effect:
  obtains (same) "snd (completeIfAllStopsTerminal now i s) = s"
  | (completed) a where "assignment_findById (as_assignments (rw_dispatch s)) i = Some a"
      "snd (completeIfAllStopsTerminal now i s) = s\<lparr>rw_dispatch :=
        (rw_dispatch s)\<lparr>as_assignments := assignment_save (a\<lparr>asg_status := Complete\<rparr>) (as_assignments (rw_dispatch s))\<rparr>\<rparr>"
  | (freed) a d ts where "assignment_findById (as_assignments (rw_dispatch s)) i = Some a"
      "driver_findById (as_drivers (rw_dispatch s)) (asg_driverId a) = Some d"
      "snd (completeIfAllStopsTerminal now i s) = s\<lparr>rw_dispatch := (rw_dispatch s)
        \<lparr>as_assignments := assignment_save (a\<lparr>asg_status := Complete\<rparr>) (as_assignments (rw_dispatch s)),
         as_drivers := driver_save (d\<lparr>drv_status := Available, drv_updatedAt := ts\<rparr>) (as_drivers (rw_dispatch s))\<rparr>\<rparr>"
proof (cases "assignment_findById (as_assignments (rw_dispatch s)) i")
  case None
  then show thesis by (intro same) (simp add: completeIfAllStopsTerminal_def route_requireAssignment_def)
next
  case (Some a)
  note res = completeIfAllStopsTerminal_def route_requireAssignment_def Some Let_def
  let ?ds = "delivery_listByAssignmentId (as_deliveries (rw_dispatch s)) i"
  show thesis
  proof (cases "?ds = [] \<or> \<not> list_all (\<lambda>d. isTerminal (del_status d)) ?ds")
    case True
    then show thesis by (intro same) (auto simp: res)
  next
    case terminal: False
    show thesis
    proof (cases "iso_or_throw now")
      case (Inl e)
      with terminal show thesis by (intro same) (simp add: res)
    next
      case (Inr ts)
      show thesis
      proof (cases "driver_findById (as_drivers (rw_dispatch s)) (asg_driverId a)")
        case None
        with terminal Inr show thesis by (intro completed [OF Some]) (simp add: res on_dispatch_def)
      next
        case d: (Some d)
        show thesis
        proof (cases "drv_status d = OnDelivery")
          case True
          with terminal Inr d show thesis by (intro freed [OF Some d, of ts]) (simp add: res on_dispatch_def)
        next
          case False
          with terminal Inr d show thesis by (intro completed [OF Some]) (simp add: res on_dispatch_def)
        qed
      qed
    qed
  qed
qed

lemma refs_ok_complete:
  assumes ok: "refs_ok b"
  shows "refs_ok (with_world (snd (completeIfAllStopsTerminal now i (bk_world b))) b)"
proof -
  have save: "refs_ok (change_dispatch (\<lambda>w. w\<lparr>as_assignments := assignment_save (a\<lparr>asg_status := Complete\<rparr>) (as_assignments w)\<rparr>) b)"
    if "assignment_findById (bk_assignments b) i = Some a" for a
    by (rule refs_ok_assignment_save [OF ok asg_refs_keep [OF refs_okD(6) [OF ok that]]]) simp_all
  show ?thesis
  proof (rule complete_effect [of now i "bk_world b"], goal_cases same completed freed)
    case same
    then show ?case using ok by (simp add: with_world_def)
  next
    case (completed a)
    with save show ?case by (simp add: with_world_def change_dispatch_def)
  next
    case (freed a d ts)
    have "drv_id d = asg_driverId a" using drv.look_key [OF refs_okD(9) [OF ok] freed(2)] .
    then have "driver_findById (bk_drivers b) (drv_id (d\<lparr>drv_status := Available, drv_updatedAt := ts\<rparr>)) = Some d"
      using freed(2) by simp
    with refs_ok_driver_save [OF save [OF freed(1)], of "d\<lparr>drv_status := Available, drv_updatedAt := ts\<rparr>" d] show ?case
      unfolding freed(3) by (simp add: with_world_def change_dispatch_def)
  qed
qed

lemma refs_ok_exec: "refs_ok b \<Longrightarrow> refs_ok (snd (backend_exec parse req b))"
  by (cases req) (simp_all add: refs_ok_driver refs_ok_vehicle refs_ok_delivery refs_ok_assign refs_ok_accept
      refs_ok_reassign refs_ok_route refs_ok_complete)

lemma refs_ok_run: "refs_ok b \<Longrightarrow> refs_ok (backend_run parse reqs b)"
  by (induction reqs arbitrary: b) (auto intro: refs_ok_exec)


section \<open>Double booking\<close>

text \<open>
  The order the services rely on without enforcing it: the status of a driver is set by hand (an
  update with a status, or completing the delivery directly) only while no active assignment names
  the driver; and a completed assignment is neither accepted nor completed again.
\<close>

definition busy :: "Backend \<Rightarrow> string \<Rightarrow> bool" where
  "busy b i \<longleftrightarrow> list_ex (\<lambda>a. isActiveAssignment a \<and> asg_driverId a = i) (assignment_list (bk_assignments b))"

definition open_assignment :: "Backend \<Rightarrow> string \<Rightarrow> bool" where
  "open_assignment b i \<longleftrightarrow> (case assignment_findById (bk_assignments b) i of None \<Rightarrow> True | Some a \<Rightarrow> isActiveAssignment a)"

fun orderly :: "'e Request \<Rightarrow> Backend \<Rightarrow> bool" where
  "orderly (ReqDriver (OpUpdate now i ch)) b = (du_status ch = None \<or> \<not> busy b i)"
| "orderly (ReqDriver (OpCompleteDelivery now i)) b = (\<not> busy b i)"
| "orderly (ReqAccept now i) b = open_assignment b i"
| "orderly (ReqComplete now i) b = open_assignment b i"
| "orderly req b = True"

text \<open>The reasons promises are rejected with do not matter; here they are strings.\<close>

inductive reachable_in_order :: "(string \<Rightarrow> int option) \<Rightarrow> Backend \<Rightarrow> bool" for parse where
  fresh: "reachable_in_order parse backend_new"
| served: "reachable_in_order parse b \<Longrightarrow> orderly (req :: string Request) b \<Longrightarrow>
     reachable_in_order parse (snd (backend_exec parse req b))"

text \<open>The invariant, by lookups: active assignments of one driver are one, and the driver is on delivery.\<close>

definition booked_once :: "AssignmentRepo \<Rightarrow> DriverRepo \<Rightarrow> bool" where
  "booked_once asgs drvs \<longleftrightarrow>
     (\<forall>k a l c. assignment_findById asgs k = Some a \<longrightarrow> isActiveAssignment a \<longrightarrow>
        assignment_findById asgs l = Some c \<longrightarrow> isActiveAssignment c \<longrightarrow> asg_driverId a = asg_driverId c \<longrightarrow> k = l) \<and>
     (\<forall>k a. assignment_findById asgs k = Some a \<longrightarrow> isActiveAssignment a \<longrightarrow>
        (\<exists>d. driver_findById drvs (asg_driverId a) = Some d \<and> drv_status d = OnDelivery))"

lemma busy_iff:
  assumes "refs_ok b"
  shows "busy b i \<longleftrightarrow> (\<exists>k a. assignment_findById (bk_assignments b) k = Some a \<and> isActiveAssignment a \<and> asg_driverId a = i)"
  using asg.all_look [OF refs_okD(4) [OF assms]] asg.look_key [OF refs_okD(4) [OF assms]]
  unfolding busy_def list_ex_iff by metis

lemma booked_onceD:
  assumes "booked_once asgs drvs" "assignment_findById asgs k = Some a" "isActiveAssignment a"
  shows "\<exists>d. driver_findById drvs (asg_driverId a) = Some d \<and> drv_status d = OnDelivery"
    and "assignment_findById asgs l = Some c \<Longrightarrow> isActiveAssignment c \<Longrightarrow> asg_driverId a = asg_driverId c \<Longrightarrow> k = l"
  using assms unfolding booked_once_def by blast+

lemma booked_once_drivers:
  assumes b: "booked_once asgs drvs"
    and keeps: "\<And>i d. driver_findById drvs i = Some d \<Longrightarrow> drv_status d = OnDelivery \<Longrightarrow>
      (\<exists>k a. assignment_findById asgs k = Some a \<and> isActiveAssignment a \<and> asg_driverId a = i) \<Longrightarrow>
      \<exists>d'. driver_findById drvs' i = Some d' \<and> drv_status d' = OnDelivery"
  shows "booked_once asgs drvs'"
  using b keeps unfolding booked_once_def by metis

text \<open>Saving an assignment: a completed one, an edited one, or the first one of an idle driver.\<close>

lemma booked_once_complete:
  assumes "booked_once asgs drvs" "assignment_repo_ok asgs"
  shows "booked_once (assignment_save (a\<lparr>asg_status := Complete\<rparr>) asgs) drvs"
  using assms(1) unfolding booked_once_def asg.look_put [OF assms(2)]
  by (auto simp: isActiveAssignment_def split: if_splits)

lemma booked_once_edit:
  assumes b: "booked_once asgs drvs" and r: "assignment_repo_ok asgs" and a: "assignment_findById asgs (asg_id a') = Some a"
    and keeps: "isActiveAssignment a" "asg_driverId a' = asg_driverId a"
  shows "booked_once (assignment_save a' asgs) drvs"
proof -
  have "\<exists>c. assignment_findById asgs k = Some c \<and> (isActiveAssignment e \<longrightarrow> isActiveAssignment c) \<and> asg_driverId e = asg_driverId c"
    if "assignment_findById (assignment_save a' asgs) k = Some e" for k e
    using that a keeps by (auto simp: asg.look_put [OF r] split: if_splits)
  with b show ?thesis unfolding booked_once_def by metis
qed

lemma booked_once_new:
  assumes b: "booked_once asgs drvs" and r: "assignment_repo_ok asgs"
    and idle: "\<And>k c. assignment_findById asgs k = Some c \<Longrightarrow> isActiveAssignment c \<Longrightarrow> asg_driverId c \<noteq> asg_driverId a"
    and d: "driver_findById drvs (asg_driverId a) = Some d" "drv_status d = OnDelivery"
  shows "booked_once (assignment_save a asgs) drvs"
  unfolding booked_once_def asg.look_put [OF r]
  using booked_onceD [OF b] idle d by (auto split: if_splits) metis+


lemma booked_once_driver:
  assumes ok: "refs_ok b" and b: "booked_once (bk_assignments b) (bk_drivers b)" and o: "orderly (ReqDriver op :: 'e Request) b"
  shows "booked_once (bk_assignments b) (ds_repo (snd (driver_exec parse op (drivers_of b))))"
proof (rule booked_once_drivers [OF b])
  fix i d assume d: "driver_findById (bk_drivers b) i = Some d" "drv_status d = OnDelivery"
    and "\<exists>k a. assignment_findById (bk_assignments b) k = Some a \<and> isActiveAssignment a \<and> asg_driverId a = i"
  then have busy: "busy b i" using busy_iff [OF ok] by blast
  have keys: "driver_keys_ok (ds_counter (drivers_of b)) (ds_repo (drivers_of b))"
    using refs_okD(1) [OF ok] by (simp add: drivers_of_def)
  note r = refs_okD(9) [OF ok]
  show "\<exists>d'. driver_findById (ds_repo (snd (driver_exec parse op (drivers_of b)))) i = Some d' \<and> drv_status d' = OnDelivery"
  proof (rule driver_exec_effect [OF keys, of parse op], goal_cases same saved added)
    case same
    then show ?case using d by (simp add: drivers_of_def)
  next
    case (saved e old)
    show ?case
    proof (cases "drv_id e = i")
      case True
      with saved d have old: "old = d" by (simp add: drivers_of_def)
      with saved True d busy o have "drv_status e = OnDelivery"
        by (cases op) (auto simp: isDriverSettableTransition_def split: if_splits)
      then show ?thesis unfolding saved(1) using True by (simp add: drivers_of_def drv.look_put [OF r])
    next
      case False
      then show ?thesis unfolding saved(1) using d by (simp add: drivers_of_def drv.look_put [OF r])
    qed
  next
    case (added e t)
    then have "drv_id e \<noteq> i" using d by (auto simp: drivers_of_def)
    then show ?case unfolding added(1) using d by (simp add: drivers_of_def drv.look_put [OF r])
  qed
qed

lemma booked_once_assign:
  assumes ok: "refs_ok b" and b: "booked_once (bk_assignments b) (bk_drivers b)"
  shows "let w = snd (assignment_create src now driverId ids (bk_dispatch b)) in booked_once (as_assignments w) (as_drivers w)"
proof (rule assignment_create_effect [of src now driverId ids "bk_dispatch b"], goal_cases same created)
  case same
  then show ?case using b by simp
next
  case (created n a d v ds ts)
  let ?d = "d\<lparr>drv_status := OnDelivery, drv_updatedAt := ts\<rparr>"
  note r = refs_okD(9) [OF ok]
  have id: "drv_id d = driverId" using drv.look_key [OF r created(2)] .
  have "booked_once (bk_assignments b) (driver_save ?d (bk_drivers b))"
    using b by (rule booked_once_drivers) (auto simp: drv.look_put [OF r])
  moreover have "asg_driverId c \<noteq> driverId" if "assignment_findById (bk_assignments b) k = Some c" "isActiveAssignment c" for k c
    using booked_onceD(1) [OF b that] created(2,3)
    by (auto simp: isEligibleForAssignment_def isEligibleStatus_def)
  ultimately show ?case
    unfolding created(1) Let_def with_assignment_sel
    using created(5) id by (intro booked_once_new [where d = ?d] refs_okD(4) [OF ok]) (auto simp: drv.look_put [OF r])
qed

lemma booked_once_accept:
  assumes ok: "refs_ok b" and b: "booked_once (bk_assignments b) (bk_drivers b)" and o: "open_assignment b i"
  shows "let w = snd (assignment_accept now i (bk_dispatch b)) in booked_once (as_assignments w) (as_drivers w)"
proof -
  have "booked_once (assignment_save (a\<lparr>asg_status := Accepted, asg_acceptedAt := t\<rparr>) (bk_assignments b)) (bk_drivers b)"
    if "assignment_findById (bk_assignments b) i = Some a" for a t
    using that o asg.look_key [OF refs_okD(4) [OF ok] that]
    by (intro booked_once_edit [OF b refs_okD(4) [OF ok], where a = a]) (simp_all add: open_assignment_def)
  then show ?thesis
    using b by (auto simp: assignment_accept_eq Let_def split: option.split sum.split)
qed

lemma booked_once_completing:
  assumes ok: "refs_ok b" and b: "booked_once (bk_assignments b) (bk_drivers b)" and o: "open_assignment b i"
  shows "let w = rw_dispatch (snd (completeIfAllStopsTerminal now i (bk_world b))) in booked_once (as_assignments w) (as_drivers w)"
proof (rule complete_effect [of now i "bk_world b"], goal_cases same completed freed)
  case same
  then show ?case using b by simp
next
  case (completed a)
  then show ?case using booked_once_complete [OF b refs_okD(4) [OF ok]] by simp
next
  case (freed a d ts)
  let ?asgs = "assignment_save (a\<lparr>asg_status := Complete\<rparr>) (bk_assignments b)"
  note ra = refs_okD(4) [OF ok] and rd = refs_okD(9) [OF ok]
  have id: "asg_id a = i" "drv_id d = asg_driverId a"
    using asg.look_key [OF ra freed(1)] drv.look_key [OF rd freed(2)] .
  have active: "isActiveAssignment a" using o freed(1) by (simp add: open_assignment_def)
  have "booked_once ?asgs (bk_drivers b)" using b ra by (rule booked_once_complete)
  then have "booked_once ?asgs (driver_save (d\<lparr>drv_status := Available, drv_updatedAt := ts\<rparr>) (bk_drivers b))"
  proof (rule booked_once_drivers)
    fix j e assume e: "driver_findById (bk_drivers b) j = Some e" "drv_status e = OnDelivery"
      and "\<exists>k c. assignment_findById ?asgs k = Some c \<and> isActiveAssignment c \<and> asg_driverId c = j"
    then obtain k c where c: "k \<noteq> i" "assignment_findById (bk_assignments b) k = Some c" "isActiveAssignment c" "asg_driverId c = j"
      by (auto simp: asg.look_put [OF ra] id isActiveAssignment_def split: if_splits)
    then have "asg_driverId a \<noteq> j" using booked_onceD(2) [OF b freed(1) active, of k c] by auto
    with e show "\<exists>d'. driver_findById (driver_save (d\<lparr>drv_status := Available, drv_updatedAt := ts\<rparr>) (bk_drivers b)) j = Some d' \<and>
        drv_status d' = OnDelivery"
      by (simp add: drv.look_put [OF rd] id)
  qed
  then show ?case unfolding freed(3) by simp
qed

lemma assignment_reassign_others:
  "as_assignments (snd (assignment_reassign now i target w)) = as_assignments w"
  "as_drivers (snd (assignment_reassign now i target w)) = as_drivers w"
  by (auto simp: assignment_reassign_eq Let_def split: option.split sum.split)

lemma booked_once_exec:
  assumes "refs_ok b" "booked_once (bk_assignments b) (bk_drivers b)" "orderly (req :: 'e Request) b"
  shows "booked_once (bk_assignments (snd (backend_exec parse req b))) (bk_drivers (snd (backend_exec parse req b)))"
proof (cases req)
  case (ReqDriver op)
  with assms booked_once_driver show ?thesis by simp
next
  case (ReqRoute env t now i)
  with assms(2) createOrUpdateRoute_effect [of env "Stamped t" now i "bk_world b"] show ?thesis by simp
qed (use assms booked_once_assign [OF assms(1,2)] booked_once_accept [OF assms(1,2)] booked_once_completing [OF assms(1,2)]
    in \<open>simp_all add: Let_def assignment_reassign_others\<close>)

lemma reachable_in_order_ok:
  "reachable_in_order parse b \<Longrightarrow> refs_ok b \<and> booked_once (bk_assignments b) (bk_drivers b)"
proof (induction rule: reachable_in_order.induct)
  case fresh
  then show ?case
    by (simp add: refs_ok_new) (simp add: booked_once_def backend_new_def assignment_findById_def assignment_repo_new_def)
next
  case (served b req)
  then show ?case using refs_ok_exec booked_once_exec by blast
qed


section \<open>Properties\<close>

text \<open>
  C3. References resolve. Whatever requests are made of the services, in whatever order, and
  however each of them ends: every assignment names a stored driver and a stored vehicle that is
  bound to this driver; every delivery that is on an assignment is on a stored one and has left
  \<open>Created\<close>; every route belongs to a stored assignment.
\<close>

theorem backend_references_resolve:
  "let b = backend_run parse reqs backend_new in
     list_all (\<lambda>a. driver_findById (bk_drivers b) (asg_driverId a) \<noteq> None \<and>
        (case vehicle_findById (bk_vehicles b) (asg_vehicleId a) of
           None \<Rightarrow> False | Some v \<Rightarrow> veh_driverId v = Some (asg_driverId a)))
       (assignment_list (bk_assignments b)) \<and>
     list_all (\<lambda>d. case del_assignmentId d of None \<Rightarrow> True
        | Some k \<Rightarrow> del_status d \<noteq> Created \<and> assignment_findById (bk_assignments b) k \<noteq> None)
       (delivery_list (bk_deliveries b)) \<and>
     list_all (\<lambda>r. assignment_findById (bk_assignments b) (rt_assignmentId r) \<noteq> None) (route_all (bk_routes b))"
proof -
  let ?b = "backend_run parse reqs backend_new"
  have ok: "refs_ok ?b" by (rule refs_ok_run [OF refs_ok_new])
  have "asg_refs (bk_drivers ?b) (bk_vehicles ?b) a" if "a \<in> set (assignment_list (bk_assignments ?b))" for a
    using refs_okD(6) [OF ok] that by (simp add: asg.all_look [OF refs_okD(4) [OF ok]])
  moreover have "del_refs (bk_assignments ?b) d" if "d \<in> set (delivery_list (bk_deliveries ?b))" for d
    using refs_okD(7) [OF ok] that by (simp add: del.all_look [OF refs_okD(3) [OF ok]])
  moreover have "rte_refs (bk_assignments ?b) r" if "r \<in> set (route_all (bk_routes ?b))" for r
    using refs_okD(8) [OF ok] that by (simp add: rte.all_look [OF refs_okD(5) [OF ok]])
  ultimately show ?thesis
    unfolding Let_def list_all_iff asg_refs_def del_refs_def rte_refs_def by blast
qed

text \<open>
  C2. No driver is booked twice. As long as requests come in order (a driver's status is not set by
  hand while an active assignment names the driver, and a completed assignment is neither accepted
  nor completed again), no two active assignments name the same driver, and the driver of an
  active assignment is \<open>On_Delivery\<close>.
\<close>

theorem no_double_booking:
  assumes "reachable_in_order parse b"
  shows "distinct (map asg_driverId (filter isActiveAssignment (assignment_list (bk_assignments b)))) \<and>
     list_all (\<lambda>a. case driver_findById (bk_drivers b) (asg_driverId a) of
         None \<Rightarrow> False | Some d \<Rightarrow> drv_status d = OnDelivery)
       (filter isActiveAssignment (assignment_list (bk_assignments b)))"
proof -
  have ok: "refs_ok b" and b: "booked_once (bk_assignments b) (bk_drivers b)"
    using reachable_in_order_ok [OF assms] by auto
  note r = refs_okD(4) [OF ok]
  let ?as = "filter isActiveAssignment (assignment_list (bk_assignments b))"
  have look: "assignment_findById (bk_assignments b) (asg_id a) = Some a" "isActiveAssignment a" if "a \<in> set ?as" for a
    using that asg.all_look [OF r] by auto
  have "distinct ?as" using asg.all_distinct [OF r] by (simp add: distinct_map)
  moreover have "inj_on asg_driverId (set ?as)"
    using booked_onceD(2) [OF b look(1,2) look(1,2)] look(1) by (intro inj_onI) (metis option.inject)
  ultimately have "distinct (map asg_driverId ?as)" by (simp add: distinct_map)
  moreover have "list_all (\<lambda>a. case driver_findById (bk_drivers b) (asg_driverId a) of
         None \<Rightarrow> False | Some d \<Rightarrow> drv_status d = OnDelivery) ?as"
    unfolding list_all_iff using booked_onceD(1) [OF b look] by fastforce
  ultimately show ?thesis by blast
qed


text \<open>A run that books a driver: hired, available, with a vehicle, and a delivery assigned.\<close>

abbreviation demo_driver :: string where "demo_driver \<equiv> stamped_id ''drv'' 0 (Suc 0)"
abbreviation demo_vehicle :: string where "demo_vehicle \<equiv> stamped_id ''veh'' 0 (Suc 0)"
abbreviation demo_delivery :: string where "demo_delivery \<equiv> stamped_id ''del'' 0 (Suc 0)"
abbreviation demo_parse :: "string \<Rightarrow> int option" where "demo_parse \<equiv> \<lambda>_. None"

lemma demo_times: "iso_or_throw 0 = Inr (iso_string 0)" "iso_or_throw 1 = Inr (iso_string 1)"
  by (simp_all add: iso_or_throw_def toIso_def max_time_def)

lemma demo_hired:
  "let b = snd (backend_exec demo_parse (ReqDriver (OpCreate 0 0 sample_input) :: string Request) backend_new) in
     (\<exists>d. driver_findById (bk_drivers b) demo_driver = Some d \<and> drv_id d = demo_driver \<and> drv_status d = Offline \<and> drv_active d) \<and>
     map_get (bk_stamps b) demo_driver = Some 0 \<and>
     vehicles_of b = vehicle_svc_new \<and> deliveries_of b = delivery_svc_new \<and> bk_assignments b = []"
proof -
  have "driver_findByEmail driver_repo_new e = None" for e
    by (simp add: driver_repo_new_def driver_findByEmail_def)
  then show ?thesis
    using sample_input_valid
    by (simp add: driver_create_eq drivers_of_def backend_new_def demo_times Let_def driver_findById_def driver_save_def
        driver_repo_new_def vehicles_of_def deliveries_of_def with_drivers_def change_dispatch_def
        vehicle_svc_new_def delivery_svc_new_def assignment_repo_new_def)
qed

lemma demo_available:
  assumes "driver_findById (bk_drivers b) demo_driver = Some d" "drv_id d = demo_driver" "drv_status d = Offline" "drv_active d"
    and "map_get (bk_stamps b) demo_driver = Some 0"
  shows "let b' = snd (backend_exec demo_parse (ReqDriver (OpSetAvailability 0 demo_driver Available) :: string Request) b) in
     (\<exists>e. driver_findById (bk_drivers b') demo_driver = Some e \<and> drv_status e = Available \<and> drv_active e) \<and>
     vehicles_of b' = vehicles_of b \<and> deliveries_of b' = deliveries_of b \<and> bk_assignments b' = bk_assignments b"
  using assms
  by (simp add: driver_exec_target [where now = 0 and i = demo_driver] drivers_of_def isDriverSettableTransition_def
      DRIVER_SETTABLE_STATUSES_def driver_touch_eq stamp_after_def floor_above_def demo_times Let_def
      vehicles_of_def deliveries_of_def with_drivers_def change_dispatch_def driver_findById_def driver_save_def set_stamp_def
      del: driver_exec.simps)

lemma demo_vehicle_ready:
  assumes "vehicles_of b = vehicle_svc_new"
  shows "let b' = backend_run demo_parse [ReqVehicle (VopRegister 0 0 sample_vehicle_input),
        ReqVehicle (VopAssociate 0 demo_vehicle (Some demo_driver)) :: string Request] b in
     (\<exists>v. vehicle_findByDriverId (bk_vehicles b') demo_driver = Some v) \<and>
     bk_drivers b' = bk_drivers b \<and> deliveries_of b' = deliveries_of b \<and> bk_assignments b' = bk_assignments b"
proof -
  have none: "vehicle_missing_fields sample_vehicle_input = []"
    by code_simp
  have driver: "\<not> isMissing (Str demo_driver)"
    by code_simp
  have fresh: "vehicle_findByIdentifier vehicle_repo_new e = None" for e
    by (simp add: vehicle_repo_new_def vehicle_findByIdentifier_def)
  show ?thesis
    using assms none driver fresh
    by (simp add: vehicle_register_eq vehicle_associate_eq vehicle_svc_new_def Let_def demo_times bound_elsewhere_def
        vehicle_findById_def vehicle_findByDriverId_def vehicle_save_def vehicles_of_def deliveries_of_def with_vehicles_def
        change_dispatch_def vehicle_repo_new_def del: isMissing.simps)
qed

lemma demo_assigned:
  assumes "driver_findById (bk_drivers b) demo_driver = Some e" "drv_status e = Available" "drv_active e"
    and "vehicle_findByDriverId (bk_vehicles b) demo_driver = Some v"
    and "deliveries_of b = delivery_svc_new" "bk_assignments b = []"
  shows "map asg_driverId (filter isActiveAssignment (assignment_list (bk_assignments
      (backend_run demo_parse [ReqDelivery (DopCreate 0 0 0 (Fulfilled sample_point) sample_delivery_input),
        ReqAssign 0 0 demo_driver (Some [demo_delivery]) :: string Request] b)))) = [demo_driver]"
proof -
  define b' where "b' = snd (backend_exec demo_parse
    (ReqDelivery (DopCreate 0 0 0 (Fulfilled sample_point) sample_delivery_input) :: string Request) b)"
  obtain d where d: "bk_deliveries b' = [(demo_delivery, d)]" "del_status d = Created" "del_assignmentId d = None"
    "bk_drivers b' = bk_drivers b" "bk_vehicles b' = bk_vehicles b" "bk_assignments b' = []"
    using assms(5,6)
    by (simp add: b'_def delivery_create_eq sample_delivery_valid demo_times delivery_svc_new_def delivery_save_def
        delivery_repo_new_def Let_def)
  have "resolveAssignableDeliveries (bk_deliveries b') [demo_delivery] [] = Inr [d]"
    by (simp add: d delivery_findById_def assign_next_iff)
  with d assms(1-4) have "map asg_driverId (filter isActiveAssignment (assignment_list (bk_assignments
      (snd (backend_exec demo_parse (ReqAssign 0 0 demo_driver (Some [demo_delivery]) :: string Request) b'))))) = [demo_driver]"
    by (simp add: assignment_create_eq isEligibleForAssignment_def isEligibleStatus_def demo_times assignment_list_def
        assignment_save_def isActiveAssignment_def Let_def del: resolveAssignableDeliveries.simps)
  then show ?thesis by (simp only: backend_run.simps b'_def)
qed

text \<open>Requests other than the four that can be out of order keep a run in order.\<close>

lemma in_order_run:
  "reachable_in_order parse b \<Longrightarrow> (\<And>req b. req \<in> set reqs \<Longrightarrow> orderly req b) \<Longrightarrow>
     reachable_in_order parse (backend_run parse (reqs :: string Request list) b)"
  by (induction reqs arbitrary: b) (auto intro: served)

theorem no_double_booking_witness:
  "\<exists>b. reachable_in_order demo_parse b \<and>
     map asg_driverId (filter isActiveAssignment (assignment_list (bk_assignments b))) = [demo_driver] \<and>
     (case driver_findById (bk_drivers b) demo_driver of None \<Rightarrow> False | Some d \<Rightarrow> drv_status d = OnDelivery)"
proof -
  define b1 where "b1 = snd (backend_exec demo_parse (ReqDriver (OpCreate 0 0 sample_input) :: string Request) backend_new)"
  define b2 where "b2 = snd (backend_exec demo_parse (ReqDriver (OpSetAvailability 0 demo_driver Available) :: string Request) b1)"
  define b3 where "b3 = backend_run demo_parse [ReqVehicle (VopRegister 0 0 sample_vehicle_input),
        ReqVehicle (VopAssociate 0 demo_vehicle (Some demo_driver)) :: string Request] b2"
  define b4 where "b4 = backend_run demo_parse [ReqDelivery (DopCreate 0 0 0 (Fulfilled sample_point) sample_delivery_input),
        ReqAssign 0 0 demo_driver (Some [demo_delivery]) :: string Request] b3"
  have "reachable_in_order demo_parse b1" unfolding b1_def by (rule served [OF fresh]) simp
  then have "reachable_in_order demo_parse b2" unfolding b2_def by (rule served) simp
  then have "reachable_in_order demo_parse b3" unfolding b3_def by (rule in_order_run) auto
  then have in_order: "reachable_in_order demo_parse b4" unfolding b4_def by (rule in_order_run) auto
  obtain d where 1: "driver_findById (bk_drivers b1) demo_driver = Some d" "drv_id d = demo_driver" "drv_status d = Offline"
    "drv_active d" "map_get (bk_stamps b1) demo_driver = Some 0" "vehicles_of b1 = vehicle_svc_new"
    "deliveries_of b1 = delivery_svc_new" "bk_assignments b1 = []"
    using demo_hired unfolding b1_def [symmetric] Let_def by blast
  obtain e where 2: "driver_findById (bk_drivers b2) demo_driver = Some e" "drv_status e = Available" "drv_active e"
    "vehicles_of b2 = vehicle_svc_new" "deliveries_of b2 = delivery_svc_new" "bk_assignments b2 = []"
    using demo_available [OF 1(1-5)] 1(6-8) unfolding b2_def [symmetric] Let_def by auto
  obtain v where 3: "vehicle_findByDriverId (bk_vehicles b3) demo_driver = Some v" "bk_drivers b3 = bk_drivers b2"
    "deliveries_of b3 = deliveries_of b2" "bk_assignments b3 = bk_assignments b2"
    using demo_vehicle_ready [OF 2(4)] unfolding b3_def [symmetric] Let_def by blast
  have 4: "map asg_driverId (filter isActiveAssignment (assignment_list (bk_assignments b4))) = [demo_driver]"
    unfolding b4_def by (rule demo_assigned [OF _ 2(2,3) 3(1)]) (simp_all add: 2 3)
  have "list_all (\<lambda>a. case driver_findById (bk_drivers b4) (asg_driverId a) of
         None \<Rightarrow> False | Some d \<Rightarrow> drv_status d = OnDelivery) (filter isActiveAssignment (assignment_list (bk_assignments b4)))"
    using no_double_booking [OF in_order] by blast
  then have "list_all (\<lambda>i. case driver_findById (bk_drivers b4) i of None \<Rightarrow> False | Some d \<Rightarrow> drv_status d = OnDelivery)
      (map asg_driverId (filter isActiveAssignment (assignment_list (bk_assignments b4))))"
    by (simp add: list.pred_map comp_def)
  then show ?thesis using in_order 4 by (intro exI [of _ b4]) simp
qed

section \<open>Finding\<close>

text \<open>
  The order matters. Completing an assignment a second time, after its driver was given a new one,
  makes the driver Available although the new assignment is active, so the driver can be booked again.
\<close>

lemma repeated_completion_frees:
  assumes b: "refs_ok b" and old: "assignment_findById (bk_assignments b) i = Some a" "asg_status a = Complete"
    and ended: "delivery_listByAssignmentId (bk_deliveries b) i \<noteq> []"
      "list_all (\<lambda>d. isTerminal (del_status d)) (delivery_listByAssignmentId (bk_deliveries b) i)"
    and new: "assignment_findById (bk_assignments b) j = Some c" "isActiveAssignment c" "asg_driverId c = asg_driverId a"
    and busy: "driver_findById (bk_drivers b) (asg_driverId a) = Some d" "drv_status d = OnDelivery"
  shows "let b' = snd (backend_exec parse (ReqComplete 0 i) b) in
     assignment_findById (bk_assignments b') j = Some c \<and>
     (\<exists>e. driver_findById (bk_drivers b') (asg_driverId c) = Some e \<and> drv_status e = Available)"
proof -
  have "i \<noteq> j" using old new by (auto simp: isActiveAssignment_def)
  moreover have "asg_id a = i" "drv_id d = asg_driverId a"
    using asg.look_key [OF refs_okD(4) [OF b] old(1)] drv.look_key [OF refs_okD(9) [OF b] busy(1)] .
  ultimately show ?thesis
    using assms
    by (simp add: completeIfAllStopsTerminal_def route_requireAssignment_def on_dispatch_def demo_times Let_def
        asg.look_put [OF refs_okD(4) [OF b]] drv.look_put [OF refs_okD(9) [OF b]])
qed

end
