(* ===== verification/Doubles.thy ===== *)
theory Doubles
  imports JS_Values
begin

text \<open>
  Rounding to the 64-bit numbers of JavaScript: nearest, ties to even, with subnormal numbers and
  overflow to infinity. Code whose result depends on the rounding (the orientation test of
  \<open>zones/geometry.ts\<close>, the reading of decimal numbers in \<open>JSON.parse\<close>, the easing of the markers in
  \<open>map/LiveMap.tsx\<close>) is modelled with these operations. The
  lemmas bound the error, and say when there is none.
\<close>

section \<open>Rounding\<close>

text \<open>The distance of neighbouring 64-bit numbers around \<open>x\<close>.\<close>

definition ulp_exp :: "real \<Rightarrow> int" where
  "ulp_exp x = max (\<lfloor>log 2 \<bar>x\<bar>\<rfloor> - 52) (- 1074)"

definition ulp :: "real \<Rightarrow> real" where
  "ulp x = 2 powi ulp_exp x"

definition round_even :: "real \<Rightarrow> int" where
  "round_even y =
     (let n = \<lfloor>y\<rfloor>; d = y - of_int n in if d < 1 / 2 \<or> d = 1 / 2 \<and> even n then n else n + 1)"

definition round_real :: "real \<Rightarrow> real" where
  "round_real x = (if x = 0 then 0 else of_int (round_even (x / ulp x)) * ulp x)"

definition to_double :: "real \<Rightarrow> jsnum" where
  "to_double x =
     (let r = round_real x in if 2 ^ 1024 \<le> r then PInf else if r \<le> - (2 ^ 1024) then NInf else Fin r)"

fun rounded :: "jsnum \<Rightarrow> jsnum" where
  "rounded (Fin x) = to_double x"
| "rounded NaN = NaN"
| "rounded PInf = PInf"
| "rounded NInf = NInf"

text \<open>The operators \<open>+\<close>, \<open>-\<close> and \<open>*\<close>.\<close>

definition double_plus :: "jsnum \<Rightarrow> jsnum \<Rightarrow> jsnum" where
  "double_plus a b = rounded (a + b)"

definition double_minus :: "jsnum \<Rightarrow> jsnum \<Rightarrow> jsnum" where
  "double_minus a b = rounded (a - b)"

definition double_times :: "jsnum \<Rightarrow> jsnum \<Rightarrow> jsnum" where
  "double_times a b = rounded (a * b)"

text \<open>The least positive number that is not subnormal.\<close>

definition min_normal :: real where
  "min_normal = 2 powi (- 1022)"

section \<open>Error\<close>

lemma min_normal_pos [simp]: "0 < min_normal"
  unfolding min_normal_def by (rule zero_less_power_int) simp

lemma least_exp: "(- 1074 :: int) = - 1022 + - 52"
  by simp

lemma powi_52: "(2 :: real) powi (- 52) = 1 / 2 ^ 52"
  by (simp add: power_int_def power_one_over)

lemma least_double: "(2 :: real) powi (- 1074) = min_normal / 2 ^ 52"
proof -
  have "(2 :: real) powi (- 1074) = min_normal * 2 powi (- 52)"
    unfolding min_normal_def least_exp by (rule power_int_add [OF disjI1 [OF numeral_neq_zero]])
  then show ?thesis unfolding powi_52 by (simp only: times_divide_eq_right mult_1_right)
qed

lemma ulp_pos [simp]: "0 < ulp x"
  by (simp add: ulp_def)

lemma round_even_error: "\<bar>of_int (round_even y) - y\<bar> \<le> 1 / 2"
  unfolding round_even_def Let_def by (auto; linarith)

lemma round_even_of_int [simp]: "round_even (of_int k) = k"
  by (simp add: round_even_def Let_def)

lemma round_even_minus: "round_even (- y) = - round_even y"
proof (cases "y = of_int \<lfloor>y\<rfloor>")
  case True
  then obtain k where "y = of_int k" by blast
  then show ?thesis using round_even_of_int [of k] round_even_of_int [of "- k"] by simp
next
  case False
  have "\<lfloor>- y\<rfloor> = - \<lfloor>y\<rfloor> - 1"
  proof (rule floor_unique)
    show "of_int (- \<lfloor>y\<rfloor> - 1) \<le> - y" using real_of_int_floor_add_one_ge [of y] by linarith
    show "- y < of_int (- \<lfloor>y\<rfloor> - 1) + 1" using False floor_correct [of y] by linarith
  qed
  then show ?thesis by (auto simp: round_even_def Let_def)
qed

lemma ulp_minus [simp]: "ulp (- x) = ulp x"
  by (simp add: ulp_def ulp_exp_def)

lemma round_real_minus: "round_real (- x) = - round_real x"
  by (simp add: round_real_def round_even_minus)

lemma round_real_zero [simp]: "round_real 0 = 0"
  by (simp add: round_real_def)

lemma round_real_ulp: "\<bar>round_real x - x\<bar> \<le> ulp x / 2"
proof (cases "x = 0")
  case False
  have "round_real x - x = (of_int (round_even (x / ulp x)) - x / ulp x) * ulp x"
    using False ulp_pos [of x] by (simp add: round_real_def left_diff_distrib less_imp_neq [THEN not_sym])
  then have "\<bar>round_real x - x\<bar> = \<bar>of_int (round_even (x / ulp x)) - x / ulp x\<bar> * ulp x"
    by (simp add: abs_mult abs_of_pos [OF ulp_pos])
  also have "\<dots> \<le> 1 / 2 * ulp x" by (intro mult_right_mono round_even_error) (simp add: less_imp_le)
  finally show ?thesis by simp
qed (simp add: less_imp_le)

lemma powi_le_mono: "a \<le> b \<Longrightarrow> (2 :: real) powi a \<le> 2 powi b"
  by (intro power_int_increasing) auto

lemma powi_floor_log: "x \<noteq> 0 \<Longrightarrow> 2 powi \<lfloor>log 2 \<bar>x\<bar>\<rfloor> \<le> \<bar>x\<bar>"
proof -
  assume "x \<noteq> 0"
  then have pos: "0 < \<bar>x\<bar>" by simp
  have "2 powr of_int \<lfloor>log 2 \<bar>x\<bar>\<rfloor> \<le> 2 powr log 2 \<bar>x\<bar>" by (intro powr_mono) auto
  then show ?thesis using pos by (simp add: powr_real_of_int')
qed

lemma ulp_le:
  assumes "x \<noteq> 0"
  shows "ulp x \<le> max (\<bar>x\<bar> / 2 ^ 52) (min_normal / 2 ^ 52)"
proof (cases "\<lfloor>log 2 \<bar>x\<bar>\<rfloor> - 52 \<le> - 1074")
  case True
  then have "ulp_exp x = - 1074" by (simp add: ulp_exp_def)
  then have "ulp x = min_normal / 2 ^ 52" unfolding ulp_def least_double [symmetric] by (rule arg_cong)
  then show ?thesis by linarith
next
  case False
  then have "ulp_exp x = \<lfloor>log 2 \<bar>x\<bar>\<rfloor> + - 52" by (simp add: ulp_exp_def)
  then have "ulp x = 2 powi \<lfloor>log 2 \<bar>x\<bar>\<rfloor> * 2 powi (- 52)"
    unfolding ulp_def by (simp only: power_int_add [OF disjI1 [OF numeral_neq_zero]])
  also have "\<dots> = 2 powi \<lfloor>log 2 \<bar>x\<bar>\<rfloor> / 2 ^ 52" by (simp only: powi_52 times_divide_eq_right mult_1_right)
  also have "\<dots> \<le> \<bar>x\<bar> / 2 ^ 52" by (intro divide_right_mono powi_floor_log assms) simp
  finally show ?thesis by linarith
qed

text \<open>Half a unit in the last place, for a bound that is not subnormal.\<close>

lemma round_real_error:
  assumes "\<bar>x\<bar> \<le> b" "min_normal \<le> b"
  shows "\<bar>round_real x - x\<bar> \<le> b / 2 ^ 53"
proof (cases "x = 0")
  case True
  with assms(1) show ?thesis by simp
next
  case False
  have "\<bar>x\<bar> / 2 ^ 52 \<le> b / 2 ^ 52" "min_normal / 2 ^ 52 \<le> b / 2 ^ 52"
    using assms by (simp_all only: divide_right_mono zero_le_power zero_le_numeral)
  then have "ulp x \<le> b / 2 ^ 52" using ulp_le [OF False] by linarith
  then have "ulp x / 2 \<le> b / 2 ^ 53" by simp
  with round_real_ulp [of x] show ?thesis by linarith
qed

text \<open>A small relative error does not change the sign.\<close>

lemma round_real_sgn:
  assumes "min_normal \<le> \<bar>x\<bar>"
  shows "sgn (round_real x) = sgn x"
proof -
  have pos: "0 < \<bar>x\<bar>" using assms min_normal_pos by linarith
  moreover have "\<bar>round_real x - x\<bar> \<le> \<bar>x\<bar> / 2 ^ 53" by (rule round_real_error [OF order_refl assms])
  moreover have "\<bar>x\<bar> / 2 ^ 53 < \<bar>x\<bar>" using pos by (simp add: field_simps)
  ultimately have "\<bar>round_real x - x\<bar> < \<bar>x\<bar>" by linarith
  then show ?thesis by (auto simp: sgn_if abs_if split: if_splits)
qed

lemma min_normal_le: "min_normal \<le> 1 / 2 ^ n" if "n \<le> 1022"
proof -
  have "min_normal \<le> 2 powi (- int n)" unfolding min_normal_def using that by (intro powi_le_mono) simp
  then show ?thesis by (simp add: power_int_minus divide_inverse)
qed

text \<open>Numbers of everyday size do not overflow.\<close>

lemma small_number: "\<bar>x\<bar> \<le> 1000000 \<Longrightarrow> \<bar>x\<bar> < 2 ^ 1000" for x :: real
proof -
  have "(2 :: real) ^ 20 \<le> 2 ^ 1000" by (rule power_increasing) simp_all
  then show "\<bar>x\<bar> \<le> 1000000 \<Longrightarrow> \<bar>x\<bar> < 2 ^ 1000" by simp
qed

lemma round_real_near: "\<bar>x\<bar> \<le> b \<Longrightarrow> 1 \<le> b \<Longrightarrow> \<bar>round_real x - x\<bar> \<le> b / 2 ^ 53"
  using min_normal_le [of 0] by (intro round_real_error) simp_all

section \<open>Numbers that need no rounding\<close>

definition is_double :: "real \<Rightarrow> bool" where
  "is_double x \<longleftrightarrow> (\<exists>m k :: int. x = of_int m * 2 powi k \<and> \<bar>m\<bar> < 2 ^ 53 \<and> - 1074 \<le> k)"

lemma round_real_double:
  assumes "is_double x"
  shows "round_real x = x"
proof (cases "x = 0")
  case False
  obtain m k :: int where x: "x = of_int m * 2 powi k" "\<bar>m\<bar> < 2 ^ 53" "- 1074 \<le> k"
    using assms by (auto simp: is_double_def)
  have "\<bar>real_of_int m\<bar> < 2 ^ 53" using x(2) by (metis of_int_abs of_int_less_iff of_int_numeral of_int_power)
  then have "\<bar>x\<bar> < 2 ^ 53 * 2 powi k" by (simp add: x(1) abs_mult)
  also have "\<dots> = 2 powi (53 + k)" by (simp add: power_int_add)
  finally have "2 powi \<lfloor>log 2 \<bar>x\<bar>\<rfloor> < (2 powi (53 + k) :: real)"
    using powi_floor_log [OF False] by linarith
  then have "\<lfloor>log 2 \<bar>x\<bar>\<rfloor> < 53 + k" using powi_le_mono [of "53 + k" "\<lfloor>log 2 \<bar>x\<bar>\<rfloor>"] by linarith
  with x(3) have e: "ulp_exp x \<le> k" by (simp add: ulp_exp_def)
  have "2 powi k = 2 powi (k - ulp_exp x) * ulp x"
    by (simp add: ulp_def power_int_add [symmetric])
  also have "2 powi (k - ulp_exp x) = of_int (2 ^ nat (k - ulp_exp x))"
    using e by (simp add: power_int_def)
  finally have scaled: "2 powi k = of_int (2 ^ nat (k - ulp_exp x)) * ulp x" .
  have "x = of_int (m * 2 ^ nat (k - ulp_exp x)) * ulp x"
    by (subst x(1), subst scaled) simp
  then have "x / ulp x = of_int (m * 2 ^ nat (k - ulp_exp x))"
    using ulp_pos [of x] by (metis less_irrefl nonzero_mult_div_cancel_right)
  then have "round_real x = (x / ulp x) * ulp x" using False by (simp only: round_real_def round_even_of_int if_False)
  then show ?thesis using ulp_pos [of x] by simp
qed simp

lemma to_double_small: "\<bar>x\<bar> < 2 ^ 1000 \<Longrightarrow> to_double x = Fin (round_real x)"
proof -
  assume x: "\<bar>x\<bar> < 2 ^ 1000"
  have "min_normal \<le> 1" using min_normal_le [of 0] by simp
  moreover have "(1 :: real) \<le> 2 ^ 1000" by (rule one_le_power) simp
  ultimately have "\<bar>round_real x - x\<bar> \<le> 2 ^ 1000 / 2 ^ 53" using x by (intro round_real_error) linarith+
  moreover have "(2 :: real) ^ 1000 / 2 ^ 53 \<le> 2 ^ 1000" "(2 :: real) ^ 1000 + 2 ^ 1000 < 2 ^ 1024" by simp_all
  ultimately have "\<bar>round_real x\<bar> < 2 ^ 1024" using x by linarith
  then show ?thesis by (auto simp: to_double_def Let_def)
qed

lemma to_double_exact: "is_double x \<Longrightarrow> \<bar>x\<bar> < 2 ^ 1000 \<Longrightarrow> to_double x = Fin x"
  by (simp add: to_double_small round_real_double)

lemma is_double_int: "\<bar>k\<bar> < 2 ^ 53 \<Longrightarrow> is_double (of_int k)"
  unfolding is_double_def by (intro exI [of _ k] exI [of _ 0]) simp

lemma is_double_scaled: "\<bar>m\<bar> < 2 ^ 53 \<Longrightarrow> - 1074 \<le> k \<Longrightarrow> is_double (of_int m * 2 powi k)"
  unfolding is_double_def by blast

lemma double_plus_Fin: "\<bar>x + y\<bar> < 2 ^ 1000 \<Longrightarrow> double_plus (Fin x) (Fin y) = Fin (round_real (x + y))"
  by (simp add: double_plus_def to_double_small)

lemma double_minus_Fin: "\<bar>x - y\<bar> < 2 ^ 1000 \<Longrightarrow> double_minus (Fin x) (Fin y) = Fin (round_real (x - y))"
  by (simp add: double_minus_def to_double_small)

lemma double_times_Fin: "\<bar>x * y\<bar> < 2 ^ 1000 \<Longrightarrow> double_times (Fin x) (Fin y) = Fin (round_real (x * y))"
  by (simp add: double_times_def to_double_small)

end
