(* ===== verification/Geometry.thy ===== *)
theory Geometry
  imports Doubles
begin

text \<open>
  The geometry of \<open>zones/geometry.ts\<close>: rings of positions, the segment intersection test and
  the pure polygon validator. The code is modelled on JavaScript numbers, with the rounding of the
  subtractions and products in \<open>orientation\<close>; the facts about segments and simple polygons are proved
  against their mathematical definitions over the real plane, for positions whose orientations are
  clear: coordinates are degrees, and of three positions two are equal, or all are on a grid of
  \<open>2^-17\<close> degrees, or they span twice an area of more than \<open>2^-32\<close> square degrees. Nearly collinear
  positions off the grid may be judged wrongly (\<open>sliver_looks_flat\<close>).
\<close>

section \<open>The code\<close>

type_synonym Position = "jsnum \<times> jsnum"
type_synonym Ring = "Position list"

record GeometryCheck =
  gc_isClosed :: bool
  gc_isValid :: bool

definition pointsEqual :: "Position \<Rightarrow> Position \<Rightarrow> bool" where
  "pointsEqual a b \<longleftrightarrow> js_eq (fst a) (fst b) \<and> js_eq (snd a) (snd b)"

definition orientation :: "Position \<Rightarrow> Position \<Rightarrow> Position \<Rightarrow> nat" where
  "orientation p q r =
     (let val = double_minus (double_times (double_minus (snd q) (snd p)) (double_minus (fst r) (fst q)))
                  (double_times (double_minus (fst q) (fst p)) (double_minus (snd r) (snd q))) in
      if js_eq val (Fin 0) then 0 else if js_lt (Fin 0) val then 1 else 2)"

definition onSegment :: "Position \<Rightarrow> Position \<Rightarrow> Position \<Rightarrow> bool" where
  "onSegment p q r \<longleftrightarrow>
     js_le (js_min (fst p) (fst r)) (fst q) \<and> js_le (fst q) (js_max (fst p) (fst r)) \<and>
     js_le (js_min (snd p) (snd r)) (snd q) \<and> js_le (snd q) (js_max (snd p) (snd r))"

definition segmentsIntersect :: "Position \<Rightarrow> Position \<Rightarrow> Position \<Rightarrow> Position \<Rightarrow> bool" where
  "segmentsIntersect p1 p2 p3 p4 =
     (let o1 = orientation p1 p2 p3; o2 = orientation p1 p2 p4;
          o3 = orientation p3 p4 p1; o4 = orientation p3 p4 p2 in
      if o1 \<noteq> o2 \<and> o3 \<noteq> o4 then True
      else if o1 = 0 \<and> onSegment p1 p3 p2 then True
      else if o2 = 0 \<and> onSegment p1 p4 p2 then True
      else if o3 = 0 \<and> onSegment p3 p1 p4 then True
      else if o4 = 0 \<and> onSegment p3 p2 p4 then True
      else False)"

definition collinearOverlap :: "Position \<Rightarrow> Position \<Rightarrow> Position \<Rightarrow> Position \<Rightarrow> bool" where
  "collinearOverlap a1 a2 b1 b2 =
     (if orientation a1 a2 b1 = 0 \<and> orientation a1 a2 b2 = 0 then
        (let sharedAtEnd = pointsEqual a2 b1; sharedAtStart = pointsEqual a1 b2 in
         if sharedAtEnd \<and> onSegment a1 b2 a2 then True
         else if sharedAtStart \<and> onSegment b1 a2 b2 then True
         else False)
      else False)"

text \<open>One pass of the inner loop: may the edges \<open>i < j\<close> of \<open>pts\<close> stand together?\<close>

definition edge_pair_ok :: "Ring \<Rightarrow> nat \<Rightarrow> nat \<Rightarrow> bool" where
  "edge_pair_ok pts i j =
     (let n = length pts;
          a1 = pts ! i; a2 = pts ! ((i + 1) mod n);
          b1 = pts ! j; b2 = pts ! ((j + 1) mod n);
          adjacent = (j = i + 1 \<or> i = 0 \<and> j = n - 1) in
      if adjacent then \<not> collinearOverlap a1 a2 b1 b2
      else \<not> segmentsIntersect a1 a2 b1 b2)"

text \<open>The two loops return false at the first pair that is not allowed.\<close>

definition isSimplePolygon :: "Ring \<Rightarrow> bool \<Rightarrow> bool" where
  "isSimplePolygon ring isClosed =
     (if \<not> isClosed then False
      else (let pts = take (length ring - 1) ring; n = length pts in
        if n < 3 then False
        else list_all (\<lambda>i. list_all (\<lambda>j. edge_pair_ok pts i j) [i + 1..<n]) [0..<n]))"

definition checkSync :: "Ring \<Rightarrow> GeometryCheck" where
  "checkSync ring =
     (let isClosed = (length ring \<ge> 4 \<and> pointsEqual (ring ! 0) (ring ! (length ring - 1)))
      in \<lparr>gc_isClosed = isClosed, gc_isValid = isSimplePolygon ring isClosed\<rparr>)"

definition distinctVertexCount :: "Ring \<Rightarrow> nat" where
  "distinctVertexCount ring =
     (if length ring \<ge> 2 \<and> pointsEqual (ring ! 0) (ring ! (length ring - 1)) then length ring - 1
      else length ring)"

text \<open>Number printing (\<open>`${x}`\<close>) is the parameter \<open>num\<close>.\<close>

definition ring_coords :: "(jsnum \<Rightarrow> string) \<Rightarrow> Ring \<Rightarrow> string" where
  "ring_coords num ring = js_join '', '' (map (\<lambda>(lng, lat). num lng @ '' '' @ num lat) ring)"

definition ringToLineStringWkt :: "(jsnum \<Rightarrow> string) \<Rightarrow> Ring \<Rightarrow> string" where
  "ringToLineStringWkt num ring = ''LINESTRING('' @ ring_coords num ring @ '')''"

definition ringToPolygonWkt :: "(jsnum \<Rightarrow> string) \<Rightarrow> Ring \<Rightarrow> string" where
  "ringToPolygonWkt num ring = ''POLYGON(('' @ ring_coords num ring @ ''))''"

section \<open>The real plane\<close>

type_synonym point = "real \<times> real"

definition pos :: "point \<Rightarrow> Position" where
  "pos p = (Fin (fst p), Fin (snd p))"

definition cross :: "point \<Rightarrow> point \<Rightarrow> point \<Rightarrow> real" where
  "cross p q r = (snd q - snd p) * (fst r - fst q) - (fst q - fst p) * (snd r - snd q)"

definition in_box :: "point \<Rightarrow> point \<Rightarrow> point \<Rightarrow> bool" where
  "in_box a x b \<longleftrightarrow> min (fst a) (fst b) \<le> fst x \<and> fst x \<le> max (fst a) (fst b) \<and>
     min (snd a) (snd b) \<le> snd x \<and> snd x \<le> max (snd a) (snd b)"

text \<open>\<open>x\<close> is a convex combination of \<open>a\<close> and \<open>b\<close>: a point of the closed segment.\<close>

definition on_segment :: "point \<Rightarrow> point \<Rightarrow> point \<Rightarrow> bool" where
  "on_segment a b x \<longleftrightarrow> (\<exists>t. 0 \<le> t \<and> t \<le> 1 \<and>
     fst x = fst a + t * (fst b - fst a) \<and> snd x = snd a + t * (snd b - snd a))"

lemma pos_eq [simp]: "pointsEqual (pos a) (pos b) \<longleftrightarrow> a = b"
  by (simp add: pointsEqual_def pos_def prod_eq_iff)

text \<open>Degrees, and positions whose orientation the rounding does not change.\<close>

definition in_range :: "point \<Rightarrow> bool" where
  "in_range p \<longleftrightarrow> \<bar>fst p\<bar> \<le> 180 \<and> \<bar>snd p\<bar> \<le> 180"

definition on_grid :: "point \<Rightarrow> bool" where
  "on_grid p \<longleftrightarrow> fst p * 2 ^ 17 = of_int \<lfloor>fst p * 2 ^ 17\<rfloor> \<and> snd p * 2 ^ 17 = of_int \<lfloor>snd p * 2 ^ 17\<rfloor>"

definition clear :: "point \<Rightarrow> point \<Rightarrow> point \<Rightarrow> bool" where
  "clear p q r \<longleftrightarrow> in_range p \<and> in_range q \<and> in_range r \<and>
     (p = q \<or> q = r \<or> p = r \<or> on_grid p \<and> on_grid q \<and> on_grid r \<or> 1 / 2 ^ 32 < \<bar>cross p q r\<bar>)"

definition rounded_cross :: "point \<Rightarrow> point \<Rightarrow> point \<Rightarrow> real" where
  "rounded_cross p q r = round_real
     (round_real (round_real (snd q - snd p) * round_real (fst r - fst q))
      - round_real (round_real (fst q - fst p) * round_real (snd r - snd q)))"

lemma round_difference:
  assumes "\<bar>x\<bar> \<le> 180" "\<bar>y\<bar> \<le> 180"
  shows "\<bar>round_real (x - y) - (x - y)\<bar> \<le> 1 / 2 ^ 44" "\<bar>round_real (x - y)\<bar> \<le> 361"
proof -
  have "\<bar>x - y\<bar> \<le> 360" using assms by linarith
  moreover have "min_normal \<le> 360" using min_normal_le [of 0] by simp
  ultimately have "\<bar>round_real (x - y) - (x - y)\<bar> \<le> 360 / 2 ^ 53" by (rule round_real_error)
  then show "\<bar>round_real (x - y) - (x - y)\<bar> \<le> 1 / 2 ^ 44" by simp
  moreover have "(1 / 2 ^ 44 :: real) \<le> 1" by simp
  ultimately show "\<bar>round_real (x - y)\<bar> \<le> 361" using \<open>\<bar>x - y\<bar> \<le> 360\<close> by linarith
qed

lemma round_product:
  assumes "\<bar>x\<bar> \<le> 361" "\<bar>y\<bar> \<le> 361"
  shows "\<bar>round_real (x * y) - x * y\<bar> \<le> 1 / 2 ^ 36" "\<bar>x * y\<bar> \<le> 130321"
proof -
  have "\<bar>x\<bar> * \<bar>y\<bar> \<le> 361 * 361" using assms by (intro mult_mono) auto
  then show xy: "\<bar>x * y\<bar> \<le> 130321" by (simp add: abs_mult)
  moreover have "min_normal \<le> 130321" using min_normal_le [of 0] by simp
  ultimately have "\<bar>round_real (x * y) - x * y\<bar> \<le> 130321 / 2 ^ 53" by (rule round_real_error)
  then show "\<bar>round_real (x * y) - x * y\<bar> \<le> 1 / 2 ^ 36" by simp
qed

text \<open>The product of two rounded differences.\<close>

lemma product_error:
  assumes "\<bar>x\<bar> \<le> 180" "\<bar>y\<bar> \<le> 180" "\<bar>u\<bar> \<le> 180" "\<bar>v\<bar> \<le> 180"
  shows "\<bar>round_real (round_real (x - y) * round_real (u - v)) - (x - y) * (u - v)\<bar> \<le> 1 / 2 ^ 34 + 1 / 2 ^ 36"
    "\<bar>round_real (round_real (x - y) * round_real (u - v))\<bar> \<le> 130322"
proof -
  let ?a = "round_real (x - y)" and ?b = "round_real (u - v)"
  note a = round_difference [OF assms(1,2)] and b = round_difference [OF assms(3,4)]
  note ab = round_product [OF a(2) b(2)]
  have "?a * ?b - (x - y) * (u - v) = (?a - (x - y)) * ?b + (x - y) * (?b - (u - v))" by (simp add: algebra_simps)
  moreover have "\<bar>(?a - (x - y)) * ?b\<bar> \<le> 1 / 2 ^ 44 * 361" unfolding abs_mult using a b by (intro mult_mono) auto
  moreover have "\<bar>(x - y) * (?b - (u - v))\<bar> \<le> 360 * (1 / 2 ^ 44)" unfolding abs_mult using assms b by (intro mult_mono) auto
  ultimately have "\<bar>?a * ?b - (x - y) * (u - v)\<bar> \<le> 1 / 2 ^ 44 * 361 + 360 * (1 / 2 ^ 44)" by linarith
  moreover have "1 / 2 ^ 44 * 361 + 360 * (1 / 2 ^ 44) \<le> (1 / 2 ^ 34 :: real)" by simp
  ultimately show "\<bar>round_real (?a * ?b) - (x - y) * (u - v)\<bar> \<le> 1 / 2 ^ 34 + 1 / 2 ^ 36" using ab(1) by linarith
  have "(1 / 2 ^ 36 :: real) \<le> 1" by simp
  then show "\<bar>round_real (?a * ?b)\<bar> \<le> 130322" using ab by linarith
qed

lemma orientation_rounded:
  assumes "in_range p" "in_range q" "in_range r"
  shows "orientation (pos p) (pos q) (pos r)
    = (if rounded_cross p q r = 0 then 0 else if rounded_cross p q r > 0 then 1 else 2)"
proof -
  have c: "\<bar>fst p\<bar> \<le> 180" "\<bar>snd p\<bar> \<le> 180" "\<bar>fst q\<bar> \<le> 180" "\<bar>snd q\<bar> \<le> 180" "\<bar>fst r\<bar> \<le> 180" "\<bar>snd r\<bar> \<le> 180"
    using assms by (simp_all add: in_range_def)
  have d: "double_minus (Fin x) (Fin y) = Fin (round_real (x - y))" if "\<bar>x\<bar> \<le> 140000" "\<bar>y\<bar> \<le> 140000" for x y
    by (rule double_minus_Fin, rule small_number) (use that in linarith)
  have t: "double_times (Fin x) (Fin y) = Fin (round_real (x * y))" if "\<bar>x\<bar> \<le> 361" "\<bar>y\<bar> \<le> 361" for x y
    by (rule double_times_Fin, rule small_number) (use round_product(2) [OF that] in linarith)
  have "double_minus (double_times (double_minus (snd (pos q)) (snd (pos p))) (double_minus (fst (pos r)) (fst (pos q))))
      (double_times (double_minus (fst (pos q)) (fst (pos p))) (double_minus (snd (pos r)) (snd (pos q)))) = Fin (rounded_cross p q r)"
    using product_error(2) [OF c(4,2,5,3)] product_error(2) [OF c(3,1,6,4)] c
    by (simp add: pos_def d t round_difference(2) rounded_cross_def)
  then show ?thesis by (simp only: orientation_def Let_def) simp
qed

lemma difference_error: "\<bar>a - b\<bar> \<le> e \<Longrightarrow> \<bar>c - d\<bar> \<le> e \<Longrightarrow> \<bar>(a - c) - (b - d)\<bar> \<le> 2 * (e :: real)"
  by linarith

lemma rounded_cross_far:
  assumes "in_range p" "in_range q" "in_range r" "1 / 2 ^ 32 < \<bar>cross p q r\<bar>"
  shows "sgn (rounded_cross p q r) = sgn (cross p q r)"
proof -
  have c: "\<bar>fst p\<bar> \<le> 180" "\<bar>snd p\<bar> \<le> 180" "\<bar>fst q\<bar> \<le> 180" "\<bar>snd q\<bar> \<le> 180" "\<bar>fst r\<bar> \<le> 180" "\<bar>snd r\<bar> \<le> 180"
    using assms by (simp_all add: in_range_def)
  define y where "y = round_real (round_real (snd q - snd p) * round_real (fst r - fst q))
      - round_real (round_real (fst q - fst p) * round_real (snd r - snd q))"
  have "\<bar>y - cross p q r\<bar> \<le> 2 * (1 / 2 ^ 34 + 1 / 2 ^ 36)"
    unfolding y_def cross_def
    by (rule difference_error [OF product_error(1) [OF c(4,2,5,3)] product_error(1) [OF c(3,1,6,4)]])
  moreover have "2 * (1 / 2 ^ 34 + 1 / 2 ^ 36) + 1 / 2 ^ 34 < (1 / 2 ^ 32 :: real)" by simp
  ultimately have near: "\<bar>y - cross p q r\<bar> + 1 / 2 ^ 34 < \<bar>cross p q r\<bar>" using assms(4) by linarith
  have "(0 :: real) < 1 / 2 ^ 34" by simp
  with near have s: "sgn y = sgn (cross p q r)" "1 / 2 ^ 34 \<le> \<bar>y\<bar>"
    by (auto simp: sgn_if abs_if split: if_splits)
  have "min_normal \<le> \<bar>y\<bar>" using s(2) min_normal_le [of 34] by linarith
  then have "sgn (round_real y) = sgn y" by (rule round_real_sgn)
  with s(1) show ?thesis by (simp add: rounded_cross_def y_def)
qed

lemma round_scaled: "\<bar>k\<bar> < 2 ^ 53 \<Longrightarrow> n \<le> 1000 \<Longrightarrow> round_real (of_int k / 2 ^ n) = of_int k / 2 ^ n"
proof (rule round_real_double)
  assume k: "\<bar>k\<bar> < 2 ^ 53" "n \<le> 1000"
  have "of_int k / 2 ^ n = of_int k * (2 :: real) powi (- int n)" by (simp add: power_int_minus divide_inverse)
  then show "is_double (of_int k / 2 ^ n)" using is_double_scaled [OF k(1), of "- int n"] k(2) by simp
qed

lemma grid_number:
  fixes x :: real
  assumes "\<bar>x\<bar> \<le> 180" "x * 2 ^ 17 = of_int \<lfloor>x * 2 ^ 17\<rfloor>"
  obtains m where "x = of_int m / 2 ^ 17" "\<bar>m\<bar> \<le> 23592960"
proof
  show "x = of_int \<lfloor>x * 2 ^ 17\<rfloor> / 2 ^ 17" using assms(2) by simp
  have "\<bar>x * 2 ^ 17\<bar> \<le> 23592960" using assms(1) by (simp add: abs_mult)
  then have "\<bar>real_of_int \<lfloor>x * 2 ^ 17\<rfloor>\<bar> \<le> 23592960" by (simp only: assms(2) [symmetric])
  then show "\<bar>\<lfloor>x * 2 ^ 17\<rfloor>\<bar> \<le> 23592960" by linarith
qed

lemma grid_difference:
  "\<bar>k\<bar> \<le> 23592960 \<Longrightarrow> \<bar>l\<bar> \<le> 23592960 \<Longrightarrow>
     round_real (of_int k / 2 ^ 17 - of_int l / 2 ^ 17) = of_int (k - l) / 2 ^ 17"
  using round_scaled [of "k - l" 17] by (simp add: diff_divide_distrib)

lemma grid_product:
  assumes "\<bar>k\<bar> \<le> 47185920" "\<bar>l\<bar> \<le> (47185920 :: int)"
  shows "\<bar>k * l\<bar> \<le> 2226511046246400"
    "round_real (of_int k / 2 ^ 17 * (of_int l / 2 ^ 17)) = of_int (k * l) / 2 ^ 34"
proof -
  have "\<bar>k\<bar> * \<bar>l\<bar> \<le> 47185920 * 47185920" using assms by (intro mult_mono) auto
  then show kl: "\<bar>k * l\<bar> \<le> 2226511046246400" by (simp add: abs_mult)
  have "of_int k / 2 ^ 17 * (of_int l / 2 ^ 17) = (of_int (k * l) / 2 ^ 34 :: real)" by simp
  then show "round_real (of_int k / 2 ^ 17 * (of_int l / 2 ^ 17)) = of_int (k * l) / 2 ^ 34"
    using round_scaled [of "k * l" 34] kl by simp
qed

lemma grid_cross:
  "\<bar>k\<bar> \<le> 2226511046246400 \<Longrightarrow> \<bar>l\<bar> \<le> 2226511046246400 \<Longrightarrow>
     round_real (of_int k / 2 ^ 34 - of_int l / 2 ^ 34) = of_int (k - l) / 2 ^ 34"
  using round_scaled [of "k - l" 34] by (simp add: diff_divide_distrib)

lemma rounded_cross_grid:
  assumes "in_range p" "in_range q" "in_range r" "on_grid p" "on_grid q" "on_grid r"
  shows "rounded_cross p q r = cross p q r"
proof -
  obtain a where a: "fst p = of_int a / 2 ^ 17" "\<bar>a\<bar> \<le> 23592960"
    by (rule grid_number [of "fst p"]) (use assms in \<open>simp_all only: in_range_def on_grid_def\<close>)
  obtain b where b: "snd p = of_int b / 2 ^ 17" "\<bar>b\<bar> \<le> 23592960"
    by (rule grid_number [of "snd p"]) (use assms in \<open>simp_all only: in_range_def on_grid_def\<close>)
  obtain c where c: "fst q = of_int c / 2 ^ 17" "\<bar>c\<bar> \<le> 23592960"
    by (rule grid_number [of "fst q"]) (use assms in \<open>simp_all only: in_range_def on_grid_def\<close>)
  obtain d where d: "snd q = of_int d / 2 ^ 17" "\<bar>d\<bar> \<le> 23592960"
    by (rule grid_number [of "snd q"]) (use assms in \<open>simp_all only: in_range_def on_grid_def\<close>)
  obtain e where e: "fst r = of_int e / 2 ^ 17" "\<bar>e\<bar> \<le> 23592960"
    by (rule grid_number [of "fst r"]) (use assms in \<open>simp_all only: in_range_def on_grid_def\<close>)
  obtain f where f: "snd r = of_int f / 2 ^ 17" "\<bar>f\<bar> \<le> 23592960"
    by (rule grid_number [of "snd r"]) (use assms in \<open>simp_all only: in_range_def on_grid_def\<close>)
  have m: "\<bar>d - b\<bar> \<le> 47185920" "\<bar>e - c\<bar> \<le> 47185920" "\<bar>c - a\<bar> \<le> 47185920" "\<bar>f - d\<bar> \<le> 47185920"
    using a(2) b(2) c(2) d(2) e(2) f(2) by linarith+
  have "rounded_cross p q r = of_int ((d - b) * (e - c) - (c - a) * (f - d)) / 2 ^ 34"
    unfolding rounded_cross_def a(1) b(1) c(1) d(1) e(1) f(1) grid_difference [OF d(2) b(2)] grid_difference [OF e(2) c(2)]
      grid_difference [OF c(2) a(2)] grid_difference [OF f(2) d(2)] grid_product(2) [OF m(1,2)] grid_product(2) [OF m(3,4)]
    by (rule grid_cross [OF grid_product(1) [OF m(1,2)] grid_product(1) [OF m(3,4)]])
  also have "\<dots> = (of_int (d - b) * of_int (e - c) - of_int (c - a) * of_int (f - d)) / (2 ^ 17 * 2 ^ 17)"
    by simp
  also have "\<dots> = of_int (d - b) / 2 ^ 17 * (of_int (e - c) / 2 ^ 17) - of_int (c - a) / 2 ^ 17 * (of_int (f - d) / 2 ^ 17)"
    by (simp only: diff_divide_distrib times_divide_times_eq)
  also have "\<dots> = cross p q r"
    by (simp only: cross_def a(1) b(1) c(1) d(1) e(1) f(1) diff_divide_distrib of_int_diff)
  finally show ?thesis .
qed

lemma round_real_swap: "round_real (x - y) = - round_real (y - x)"
  using round_real_minus [of "y - x"] by simp

lemma rounded_cross_same:
  assumes "p = q \<or> q = r \<or> p = r"
  shows "rounded_cross p q r = 0 \<and> cross p q r = 0"
  using assms
proof (elim disjE)
  assume "p = r"
  then show "rounded_cross p q r = 0 \<and> cross p q r = 0"
    by (simp add: rounded_cross_def cross_def round_real_swap [of "fst r" "fst q"] round_real_swap [of "snd r" "snd q"]
        round_real_minus algebra_simps)
qed (simp_all add: rounded_cross_def cross_def)

lemma orientation_clear:
  assumes "clear p q r"
  shows "orientation (pos p) (pos q) (pos r) = (if cross p q r = 0 then 0 else if cross p q r > 0 then 1 else 2)"
proof -
  have range: "in_range p" "in_range q" "in_range r" using assms by (simp_all add: clear_def)
  have "sgn (rounded_cross p q r) = sgn (cross p q r)"
    using assms rounded_cross_same [of p q r] rounded_cross_grid [OF range] rounded_cross_far [OF range]
    unfolding clear_def by fastforce
  then show ?thesis unfolding orientation_rounded [OF range] by (auto simp: sgn_if split: if_splits)
qed

lemma onSegment_pos [simp]: "onSegment (pos a) (pos x) (pos b) = in_box a x b"
  by (simp add: onSegment_def pos_def in_box_def)

lemma between_reals: "min a b \<le> x \<and> x \<le> max a b \<longleftrightarrow> (\<exists>t. 0 \<le> t \<and> t \<le> 1 \<and> x = a + t * (b - (a::real)))"
proof (cases "a = b")
  case True
  then show ?thesis by (auto intro: exI [of _ 0])
next
  case False
  have "x = a + (x - a) / (b - a) * (b - a)" using False by simp
  moreover have "0 \<le> (x - a) / (b - a) \<and> (x - a) / (b - a) \<le> 1" if "min a b \<le> x \<and> x \<le> max a b"
    using that False by (cases "a < b") (auto simp: field_simps min_def max_def)
  moreover have "min a b \<le> a + t * (b - a) \<and> a + t * (b - a) \<le> max a b" if "0 \<le> t" "t \<le> 1" for t
  proof (cases "a \<le> b")
    case True
    have "t * (b - a) \<le> 1 * (b - a)" using that True by (intro mult_right_mono) auto
    with that True show ?thesis by auto
  next
    case False
    have "t * (a - b) \<le> 1 * (a - b)" using that False by (intro mult_right_mono) auto
    moreover have "0 \<le> t * (a - b)" using that False by simp
    ultimately have "t * (a - b) \<le> a - b" "0 \<le> t * (a - b)" by simp_all
    with False show ?thesis by (auto simp: algebra_simps)
  qed
  ultimately show ?thesis by metis
qed

text \<open>On a segment: collinear with its ends and inside their bounding box.\<close>

lemma on_segment_iff: "on_segment a b x \<longleftrightarrow> cross a b x = 0 \<and> in_box a x b"
proof
  assume "on_segment a b x"
  then obtain t where "0 \<le> t" "t \<le> 1" and x: "fst x = fst a + t * (fst b - fst a)" "snd x = snd a + t * (snd b - snd a)"
    by (auto simp: on_segment_def)
  then have "in_box a x b"
    using between_reals [of "fst a" "fst b" "fst x"] between_reals [of "snd a" "snd b" "snd x"]
    by (auto simp: in_box_def)
  moreover have "cross a b x = 0"
    by (simp add: cross_def x algebra_simps)
  ultimately show "cross a b x = 0 \<and> in_box a x b" by blast
next
  assume asm: "cross a b x = 0 \<and> in_box a x b"
  then obtain t u where t: "0 \<le> t" "t \<le> 1" "fst x = fst a + t * (fst b - fst a)"
    and u: "0 \<le> u" "u \<le> 1" "snd x = snd a + u * (snd b - snd a)"
    using between_reals [of "fst a" "fst b" "fst x"] between_reals [of "snd a" "snd b" "snd x"]
    by (auto simp: in_box_def)
  have "(t - u) * ((fst b - fst a) * (snd b - snd a)) = 0"
    using asm t(3) u(3) by (simp add: cross_def algebra_simps)
  then consider "t = u" | "fst b = fst a" | "snd b = snd a" by auto
  then show "on_segment a b x"
  proof cases
    case 1
    with t u show ?thesis by (auto simp: on_segment_def)
  next
    case 2
    with t u show ?thesis unfolding on_segment_def by (intro exI [of _ u]) auto
  next
    case 3
    with t u show ?thesis unfolding on_segment_def by (intro exI [of _ t]) auto
  qed
qed

text \<open>All orientations of these positions are clear.\<close>

definition clear_positions :: "point list \<Rightarrow> bool" where
  "clear_positions ps \<longleftrightarrow> list_all (\<lambda>p. list_all (\<lambda>q. list_all (clear p q) ps) ps) ps"

lemma clear_positionsD: "clear_positions ps \<Longrightarrow> p \<in> set ps \<Longrightarrow> q \<in> set ps \<Longrightarrow> r \<in> set ps \<Longrightarrow> clear p q r"
  by (simp add: clear_positions_def list_all_iff)

lemma clear_positions_subset: "clear_positions ps \<Longrightarrow> set qs \<subseteq> set ps \<Longrightarrow> clear_positions qs"
  by (auto simp: clear_positions_def list_all_iff)

section \<open>Segment intersection\<close>

lemma collinear_param:
  assumes "cross p q r = 0" "p \<noteq> q"
  shows "\<exists>u. fst r = fst p + u * (fst q - fst p) \<and> snd r = snd p + u * (snd q - snd p)"
proof (cases "fst p = fst q")
  case True
  with assms have ne: "snd q - snd p \<noteq> 0" by (simp add: prod_eq_iff)
  have "(snd q - snd p) * (fst r - fst q) = 0" using assms(1) True by (simp add: cross_def)
  with ne have "fst r = fst q" by simp
  with True ne show ?thesis by (intro exI [of _ "(snd r - snd p) / (snd q - snd p)"]) simp
next
  case False
  then have ne: "fst q - fst p \<noteq> 0" by simp
  have "(snd r - snd p) * (fst q - fst p) = (fst r - fst p) * (snd q - snd p)"
    using assms(1) by (simp add: cross_def algebra_simps)
  then have "snd r - snd p = (fst r - fst p) / (fst q - fst p) * (snd q - snd p)"
    using ne by (simp add: field_simps)
  with ne show ?thesis by (intro exI [of _ "(fst r - fst p) / (fst q - fst p)"]) simp
qed

lemma cross_affine:
  assumes "fst x = fst a + t * (fst b - fst a)" "snd x = snd a + t * (snd b - snd a)"
  shows "cross p q x = (1 - t) * cross p q a + t * cross p q b"
  by (simp add: cross_def assms algebra_simps)

lemma sgn_combination_zero:
  assumes "(1 - t) * a + t * b = 0" "0 \<le> t" "t \<le> (1::real)" "sgn a = sgn b"
  shows "a = 0 \<and> b = 0"
proof -
  consider "a = 0" "b = 0" | "0 < a" "0 < b" | "a < 0" "b < 0"
    using assms(4) by (auto simp: sgn_if split: if_splits)
  then show ?thesis
  proof cases
    case 2
    then have "0 \<le> (1 - t) * a" "0 \<le> t * b" using assms by simp_all
    with assms(1) have "(1 - t) * a = 0" "t * b = 0" by linarith+
    with 2 show ?thesis by simp
  next
    case 3
    then have "(1 - t) * a \<le> 0" "t * b \<le> 0" using assms by (simp_all add: mult_nonneg_nonpos)
    with assms(1) have "(1 - t) * a = 0" "t * b = 0" by linarith+
    with 3 show ?thesis by simp
  qed simp
qed

text \<open>Two collinear segments that meet: an end of one lies on the other.\<close>

lemma collinear_meet:
  assumes x: "on_segment p1 p2 x" "on_segment p3 p4 x"
    and col: "cross p1 p2 p3 = 0" "cross p1 p2 p4 = 0"
  shows "on_segment p1 p2 p3 \<or> on_segment p1 p2 p4 \<or> on_segment p3 p4 p1"
proof (cases "p1 = p2")
  case True
  with x(1) have "x = p1" by (auto simp: on_segment_def prod_eq_iff)
  with x(2) show ?thesis by simp
next
  case False
  obtain u v where u: "fst p3 = fst p1 + u * (fst p2 - fst p1)" "snd p3 = snd p1 + u * (snd p2 - snd p1)"
    and v: "fst p4 = fst p1 + v * (fst p2 - fst p1)" "snd p4 = snd p1 + v * (snd p2 - snd p1)"
    using collinear_param [OF col(1) False] collinear_param [OF col(2) False] by blast
  obtain r t where r: "0 \<le> r" "r \<le> 1" "fst x = fst p1 + r * (fst p2 - fst p1)" "snd x = snd p1 + r * (snd p2 - snd p1)"
    and t: "0 \<le> t" "t \<le> 1" "fst x = fst p3 + t * (fst p4 - fst p3)" "snd x = snd p3 + t * (snd p4 - snd p3)"
    using x by (auto simp: on_segment_def)
  have "(r - (u + t * (v - u))) * (fst p2 - fst p1) = 0" "(r - (u + t * (v - u))) * (snd p2 - snd p1) = 0"
    using r(3,4) t(3,4) u v by (simp_all add: algebra_simps)
  with False have rt: "r = u + t * (v - u)" by (auto simp: prod_eq_iff)
  have "min u v \<le> r \<and> r \<le> max u v"
    using between_reals [of u v r] t(1,2) rt by blast
  then consider "0 \<le> u" "u \<le> 1" | "0 \<le> v" "v \<le> 1" | "min u v < 0" "1 < max u v"
    using r(1,2) by fastforce
  then show ?thesis
  proof cases
    case 1
    with u have "on_segment p1 p2 p3" by (auto simp: on_segment_def)
    then show ?thesis by simp
  next
    case 2
    with v have "on_segment p1 p2 p4" by (auto simp: on_segment_def)
    then show ?thesis by simp
  next
    case 3
    then have "min u v \<le> 0 \<and> 0 \<le> max u v" by linarith
    then obtain w where w: "0 \<le> w" "w \<le> 1" "0 = u + w * (v - u)"
      using between_reals [of u v 0] by blast
    have "fst p3 + w * (fst p4 - fst p3) = fst p1 + (u + w * (v - u)) * (fst p2 - fst p1)"
      "snd p3 + w * (snd p4 - snd p3) = snd p1 + (u + w * (v - u)) * (snd p2 - snd p1)"
      unfolding u v by (simp_all add: algebra_simps)
    with w have "on_segment p3 p4 p1" by (auto simp: on_segment_def)
    then show ?thesis by simp
  qed
qed

text \<open>Ends on different sides of each other's lines: the crossing point.\<close>

lemma crossing_point:
  assumes "sgn (cross p1 p2 p3) \<noteq> sgn (cross p1 p2 p4)" "sgn (cross p3 p4 p1) \<noteq> sgn (cross p3 p4 p2)"
  shows "\<exists>x. on_segment p1 p2 x \<and> on_segment p3 p4 x"
proof -
  let ?a = "cross p1 p2 p3" and ?b = "cross p1 p2 p4" and ?c = "cross p3 p4 p1" and ?d = "cross p3 p4 p2"
  have D: "?c - ?d = - (?a - ?b)" by (simp add: cross_def algebra_simps)
  have ratio: "0 \<le> a / (a - b) \<and> a / (a - b) \<le> 1 \<and> a \<noteq> b" if "sgn a \<noteq> sgn b" for a b :: real
    using that by (auto simp: sgn_if field_simps split: if_splits)
  let ?t = "?a / (?a - ?b)" and ?s = "?c / (?c - ?d)"
  have ne: "?a - ?b \<noteq> 0" using ratio [OF assms(1)] by simp
  have s: "?s = - ?c / (?a - ?b)" by (metis D minus_divide_left minus_divide_right)
  have line: "p + - c / k * q = r + a / k * w" if "p * k - c * q = r * k + a * w" "k \<noteq> 0" for p c k q r a w :: real
    using that by (simp add: field_simps)
  have "fst p1 * (?a - ?b) - ?c * (fst p2 - fst p1) = fst p3 * (?a - ?b) + ?a * (fst p4 - fst p3)"
    "snd p1 * (?a - ?b) - ?c * (snd p2 - snd p1) = snd p3 * (?a - ?b) + ?a * (snd p4 - snd p3)"
    by (simp_all add: cross_def algebra_simps)
  then have eq: "fst p1 + ?s * (fst p2 - fst p1) = fst p3 + ?t * (fst p4 - fst p3)"
    "snd p1 + ?s * (snd p2 - snd p1) = snd p3 + ?t * (snd p4 - snd p3)"
    unfolding s using ne by (blast intro: line)+
  let ?x = "(fst p3 + ?t * (fst p4 - fst p3), snd p3 + ?t * (snd p4 - snd p3))"
  have "on_segment p3 p4 ?x"
    using ratio [OF assms(1)] unfolding on_segment_def by (intro exI [of _ ?t]) simp
  moreover have "on_segment p1 p2 ?x"
    using ratio [OF assms(2)] eq unfolding on_segment_def by (intro exI [of _ ?s]) simp
  ultimately show ?thesis by blast
qed

lemma on_segment_ends [simp]: "on_segment a b a" "on_segment a b b"
  unfolding on_segment_def by (intro exI [of _ 0], simp) (intro exI [of _ 1], simp)

lemma segmentsIntersect_cases:
  assumes "clear_positions [p1, p2, p3, p4]"
  shows "segmentsIntersect (pos p1) (pos p2) (pos p3) (pos p4) \<longleftrightarrow>
     sgn (cross p1 p2 p3) \<noteq> sgn (cross p1 p2 p4) \<and> sgn (cross p3 p4 p1) \<noteq> sgn (cross p3 p4 p2) \<or>
     on_segment p1 p2 p3 \<or> on_segment p1 p2 p4 \<or> on_segment p3 p4 p1 \<or> on_segment p3 p4 p2"
proof -
  have c: "clear p1 p2 p3" "clear p1 p2 p4" "clear p3 p4 p1" "clear p3 p4 p2"
    by (rule clear_positionsD [OF assms]; simp)+
  have o: "orientation (pos p) (pos q) (pos r) = orientation (pos p) (pos q) (pos s) \<longleftrightarrow>
      sgn (cross p q r) = sgn (cross p q s)" if "clear p q r" "clear p q s" for p q r s
    using that by (auto simp: orientation_clear sgn_if)
  have z: "orientation (pos p) (pos q) (pos r) = 0 \<longleftrightarrow> cross p q r = 0" if "clear p q r" for p q r
    using that by (simp add: orientation_clear)
  show ?thesis
    by (simp add: segmentsIntersect_def Let_def o [OF c(1,2)] o [OF c(3,4)] z [OF c(1)] z [OF c(2)] z [OF c(3)] z [OF c(4)]
        on_segment_iff)
qed

lemma segmentsIntersect_point:
  assumes clear: "clear_positions [p1, p2, p3, p4]"
  shows "segmentsIntersect (pos p1) (pos p2) (pos p3) (pos p4) \<longleftrightarrow> (\<exists>x. on_segment p1 p2 x \<and> on_segment p3 p4 x)"
proof
  assume "segmentsIntersect (pos p1) (pos p2) (pos p3) (pos p4)"
  then show "\<exists>x. on_segment p1 p2 x \<and> on_segment p3 p4 x"
    unfolding segmentsIntersect_cases [OF clear] using crossing_point on_segment_ends by blast
next
  assume "\<exists>x. on_segment p1 p2 x \<and> on_segment p3 p4 x"
  then obtain x where x: "on_segment p1 p2 x" "on_segment p3 p4 x" by blast
  then obtain r t where r: "0 \<le> r" "r \<le> 1" "fst x = fst p1 + r * (fst p2 - fst p1)" "snd x = snd p1 + r * (snd p2 - snd p1)"
    and t: "0 \<le> t" "t \<le> 1" "fst x = fst p3 + t * (fst p4 - fst p3)" "snd x = snd p3 + t * (snd p4 - snd p3)"
    by (auto simp: on_segment_def)
  have "cross p1 p2 x = 0" "cross p3 p4 x = 0" using x by (simp_all add: on_segment_iff)
  then have zero: "(1 - t) * cross p1 p2 p3 + t * cross p1 p2 p4 = 0" "(1 - r) * cross p3 p4 p1 + r * cross p3 p4 p2 = 0"
    using cross_affine t(3,4) r(3,4) by metis+
  show "segmentsIntersect (pos p1) (pos p2) (pos p3) (pos p4)"
  proof (cases "sgn (cross p1 p2 p3) = sgn (cross p1 p2 p4)")
    case True
    with sgn_combination_zero [OF zero(1) t(1,2)] collinear_meet [OF x] show ?thesis
      by (auto simp: segmentsIntersect_cases [OF clear])
  next
    case False
    show ?thesis
    proof (cases "sgn (cross p3 p4 p1) = sgn (cross p3 p4 p2)")
      case True
      with sgn_combination_zero [OF zero(2) r(1,2)] collinear_meet [OF x(2,1)] show ?thesis
        by (auto simp: segmentsIntersect_cases [OF clear])
    qed (use False in \<open>auto simp: segmentsIntersect_cases [OF clear]\<close>)
  qed
qed

section \<open>Simple polygons\<close>

text \<open>
  A closed polygonal line with corners \<open>ps\<close> is simple when no edge has length zero and two
  edges share a point only if they are neighbours and the point is the corner between them.
\<close>

definition nxt :: "'a list \<Rightarrow> nat \<Rightarrow> nat" where
  "nxt ps i = (i + 1) mod length ps"

definition on_edge :: "point list \<Rightarrow> nat \<Rightarrow> point \<Rightarrow> bool" where
  "on_edge ps i x \<longleftrightarrow> on_segment (ps ! i) (ps ! nxt ps i) x"

definition simple_polygon :: "point list \<Rightarrow> bool" where
  "simple_polygon ps \<longleftrightarrow> 3 \<le> length ps \<and>
     (\<forall>i < length ps. ps ! i \<noteq> ps ! nxt ps i) \<and>
     (\<forall>i j x. i < j \<and> j < length ps \<and> on_edge ps i x \<and> on_edge ps j x \<longrightarrow>
        j = i + 1 \<and> x = ps ! j \<or> i = 0 \<and> j = length ps - 1 \<and> x = ps ! 0)"

lemma shared_beyond_corner:
  assumes "on_segment a b x" "on_segment b c x" "x \<noteq> b"
  shows "on_segment a b c \<or> on_segment b c a"
proof -
  obtain r where r: "0 \<le> r" "r \<le> 1" "fst x = fst a + r * (fst b - fst a)" "snd x = snd a + r * (snd b - snd a)"
    using assms(1) by (auto simp: on_segment_def)
  obtain t where t: "0 \<le> t" "t \<le> 1" "fst x = fst b + t * (fst c - fst b)" "snd x = snd b + t * (snd c - snd b)"
    using assms(2) by (auto simp: on_segment_def)
  define s where "s = 1 - r"
  have s: "0 \<le> s" "s \<le> 1" and eq: "s * (fst a - fst b) = t * (fst c - fst b)" "s * (snd a - snd b) = t * (snd c - snd b)"
    using r t by (simp_all add: s_def algebra_simps)
  have tpos: "0 < t" using t assms(3) by (cases "t = 0") (auto simp: prod_eq_iff)
  have spos: "0 < s"
  proof (rule ccontr)
    assume "\<not> 0 < s"
    with s(1) have "s = 0" by simp
    with r s_def have "x = b" by (auto simp: prod_eq_iff)
    with assms(3) show False by simp
  qed
  show ?thesis
  proof (cases "s \<le> t")
    case True
    have "fst c = fst a + (1 - s / t) * (fst b - fst a)" "snd c = snd a + (1 - s / t) * (snd b - snd a)"
      using eq tpos by (simp_all add: field_simps)
    moreover have "0 \<le> 1 - s / t" "1 - s / t \<le> 1" using True tpos spos by simp_all
    ultimately have "on_segment a b c" unfolding on_segment_def by blast
    then show ?thesis by blast
  next
    case False
    have "fst a = fst b + (t / s) * (fst c - fst b)" "snd a = snd b + (t / s) * (snd c - snd b)"
      using eq spos by (simp_all add: field_simps)
    moreover have "0 \<le> t / s" "t / s \<le> 1" using False tpos spos by simp_all
    ultimately have "on_segment b c a" unfolding on_segment_def by blast
    then show ?thesis by blast
  qed
qed

text \<open>What the adjacent-edge check excludes: the second edge turning back onto the first.\<close>

lemma overlap_at_end:
  assumes "clear_positions [a, b, c]"
  shows "collinearOverlap (pos a) (pos b) (pos b) (pos c) \<longleftrightarrow> on_segment a b c"
proof -
  have "clear a b b" "clear a b c" by (rule clear_positionsD [OF assms]; simp)+
  moreover
  have "cross a b b = 0" by (simp add: cross_def)
  moreover have "cross a b c = 0 \<Longrightarrow> a = c \<Longrightarrow> in_box a c b" by (simp add: in_box_def)
  ultimately show ?thesis
    by (auto simp: collinearOverlap_def orientation_clear on_segment_iff Let_def)
qed

lemma overlap_at_start:
  assumes "clear_positions [a, b, c]"
  shows "collinearOverlap (pos b) (pos c) (pos a) (pos b) \<longleftrightarrow> on_segment a b c"
proof -
  have "clear b c a" "clear b c b" by (rule clear_positionsD [OF assms]; simp)+
  moreover
  have "cross b c b = 0" "cross b c a = cross a b c" by (simp_all add: cross_def algebra_simps)
  moreover have "c = a \<Longrightarrow> in_box a c b" by (simp add: in_box_def)
  ultimately show ?thesis
    by (auto simp: collinearOverlap_def orientation_clear on_segment_iff Let_def)
qed

lemma nxt_simps:
  assumes "3 \<le> length ps"
  shows "nxt ps i < length ps" "i < length ps - 1 \<Longrightarrow> nxt ps i = i + 1" "i = length ps - 1 \<Longrightarrow> nxt ps i = 0"
proof -
  have "0 < length ps" using assms by linarith
  then show "nxt ps i < length ps" unfolding nxt_def by (rule mod_less_divisor)
  show "i < length ps - 1 \<Longrightarrow> nxt ps i = i + 1" by (simp add: nxt_def)
  assume "i = length ps - 1"
  with assms have "i + 1 = length ps" by simp
  then show "nxt ps i = 0" unfolding nxt_def by simp
qed

text \<open>The pair check of the code, in terms of segments.\<close>

lemma edge_pair_ok_iff:
  assumes n: "3 \<le> length ps" and ij: "i < j" "j < length ps" and clear: "clear_positions ps"
  shows "edge_pair_ok (map pos ps) i j \<longleftrightarrow>
     (if j = i + 1 then \<not> on_segment (ps ! i) (ps ! j) (ps ! nxt ps j)
      else if i = 0 \<and> j = length ps - 1 then \<not> on_segment (ps ! j) (ps ! 0) (ps ! 1)
      else \<nexists>x. on_edge ps i x \<and> on_edge ps j x)"
proof -
  have i: "nxt ps i = i + 1" using nxt_simps(2) [OF n, of i] ij by simp
  have corners: "clear_positions (map ((!) ps) is)" if "\<forall>k \<in> set is. k < length ps" for "is"
    by (rule clear_positions_subset [OF clear]) (use that in auto)
  have three: "clear_positions [ps ! k, ps ! l, ps ! m]" if "k < length ps" "l < length ps" "m < length ps" for k l m
    using corners [of "[k, l, m]"] that by simp
  have four: "clear_positions [ps ! i, ps ! nxt ps i, ps ! j, ps ! nxt ps j]"
    using corners [of "[i, nxt ps i, j, nxt ps j]"] ij nxt_simps(1) [OF n] by simp
  have nth: "map pos ps ! i = pos (ps ! i)" "map pos ps ! j = pos (ps ! j)"
    "map pos ps ! nxt ps i = pos (ps ! nxt ps i)" "map pos ps ! nxt ps j = pos (ps ! nxt ps j)"
    using ij nxt_simps(1) [OF n] by simp_all
  have e: "edge_pair_ok (map pos ps) i j \<longleftrightarrow>
     (if j = i + 1 \<or> i = 0 \<and> j = length ps - 1
      then \<not> collinearOverlap (pos (ps ! i)) (pos (ps ! nxt ps i)) (pos (ps ! j)) (pos (ps ! nxt ps j))
      else \<not> segmentsIntersect (pos (ps ! i)) (pos (ps ! nxt ps i)) (pos (ps ! j)) (pos (ps ! nxt ps j)))"
    using nth by (simp add: edge_pair_ok_def nxt_def Let_def)
  show ?thesis
  proof (cases "j = i + 1")
    case True
    moreover have "clear_positions [ps ! i, ps ! j, ps ! nxt ps j]" using ij nxt_simps(1) [OF n] by (intro three) auto
    ultimately show ?thesis unfolding e i by (simp add: overlap_at_end)
  next
    case False
    show ?thesis
    proof (cases "i = 0 \<and> j = length ps - 1")
      case True
      moreover have "clear_positions [ps ! j, ps ! 0, ps ! 1]" using ij n by (intro three) auto
      ultimately show ?thesis using False nxt_simps(3) [OF n, of j] unfolding e i by (simp add: overlap_at_start)
    next
      case wrap: False
      with False have "\<not> (j = i + 1 \<or> i = 0 \<and> j = length ps - 1)" by blast
      then show ?thesis
        unfolding e on_edge_def by (simp only: if_not_P [OF wrap] if_not_P [OF False] if_False segmentsIntersect_point [OF four])
    qed
  qed
qed

text \<open>The code's verdict on a corner list, with the neighbour checks gathered per corner.\<close>

definition polygon_checks :: "point list \<Rightarrow> bool" where
  "polygon_checks ps \<longleftrightarrow>
     (\<forall>i < length ps. \<not> on_segment (ps ! i) (ps ! nxt ps i) (ps ! nxt ps (nxt ps i))) \<and>
     (\<forall>i j x. i < j \<and> j < length ps \<and> on_edge ps i x \<and> on_edge ps j x \<longrightarrow>
        j = i + 1 \<or> i = 0 \<and> j = length ps - 1)"

lemma pairs_ok_iff:
  assumes n: "3 \<le> length ps" and clear: "clear_positions ps"
  shows "(\<forall>i j. i < j \<and> j < length ps \<longrightarrow> edge_pair_ok (map pos ps) i j) \<longleftrightarrow> polygon_checks ps"
proof
  assume ok: "\<forall>i j. i < j \<and> j < length ps \<longrightarrow> edge_pair_ok (map pos ps) i j"
  have "\<not> on_segment (ps ! i) (ps ! nxt ps i) (ps ! nxt ps (nxt ps i))" if i: "i < length ps" for i
  proof (cases "i = length ps - 1")
    case True
    have "edge_pair_ok (map pos ps) 0 (length ps - 1)" using ok n by simp
    moreover have "length ps - 1 \<noteq> 0 + 1" using n by simp
    ultimately show ?thesis
      using True nxt_simps(2) [OF n, of 0] nxt_simps(3) [OF n, of i] n
        edge_pair_ok_iff [OF n _ _ clear, of 0 "length ps - 1"] by simp
  next
    case False
    with i have "edge_pair_ok (map pos ps) i (i + 1)" using ok by simp
    with i False show ?thesis
      using nxt_simps(2) [OF n, of i] edge_pair_ok_iff [OF n _ _ clear, of i "i + 1"] by simp
  qed
  moreover have "j = i + 1 \<or> i = 0 \<and> j = length ps - 1"
    if that': "i < j" "j < length ps" "on_edge ps i x" "on_edge ps j x" for i j x
  proof (rule ccontr)
    assume "\<not> (j = i + 1 \<or> i = 0 \<and> j = length ps - 1)"
    then have a: "j \<noteq> i + 1" "\<not> (i = 0 \<and> j = length ps - 1)" by blast+
    have "edge_pair_ok (map pos ps) i j" using ok that' by blast
    then have "\<nexists>x. on_edge ps i x \<and> on_edge ps j x"
      by (simp only: edge_pair_ok_iff [OF n that'(1,2) clear] if_not_P [OF a(1)] if_not_P [OF a(2)] not_False_eq_True)
    with that' show False by blast
  qed
  ultimately show "polygon_checks ps" unfolding polygon_checks_def by blast
next
  assume checks: "polygon_checks ps"
  have corner: "\<not> on_segment (ps ! i) (ps ! nxt ps i) (ps ! nxt ps (nxt ps i))" if "i < length ps" for i
    using checks that unfolding polygon_checks_def by blast
  have apart: "j = i + 1 \<or> i = 0 \<and> j = length ps - 1"
    if "i < j" "j < length ps" "on_edge ps i x" "on_edge ps j x" for i j x
    using checks that unfolding polygon_checks_def by blast
  have "edge_pair_ok (map pos ps) i j" if ij: "i < j" "j < length ps" for i j
  proof (cases "j = i + 1")
    case True
    with corner [of i] ij nxt_simps(2) [OF n, of i] show ?thesis unfolding edge_pair_ok_iff [OF n ij clear] by simp
  next
    case False
    show ?thesis
    proof (cases "i = 0 \<and> j = length ps - 1")
      case True
      with corner [of j] ij nxt_simps(2) [OF n, of 0] nxt_simps(3) [OF n, of j] False n
      show ?thesis unfolding edge_pair_ok_iff [OF n ij clear] by simp
    next
      case wrap: False
      have "\<nexists>x. on_edge ps i x \<and> on_edge ps j x" using apart [OF ij] False wrap by blast
      then show ?thesis
        by (simp only: edge_pair_ok_iff [OF n ij clear] if_not_P [OF False] if_not_P [OF wrap] not_False_eq_True)
    qed
  qed
  then show "\<forall>i j. i < j \<and> j < length ps \<longrightarrow> edge_pair_ok (map pos ps) i j" by blast
qed

lemma on_edge_ends: "on_edge ps i (ps ! i)" "on_edge ps i (ps ! nxt ps i)"
  by (simp_all add: on_edge_def)

text \<open>The corner before corner \<open>i\<close>.\<close>

lemma prev_corner:
  assumes n: "3 \<le> length ps" and i: "i < length ps"
  obtains k where "k < length ps" "nxt ps k = i" "k = (if i = 0 then length ps - 1 else i - 1)"
proof (cases "i = 0")
  case True
  with n nxt_simps(3) [OF n] show ?thesis by (intro that [of "length ps - 1"]) auto
next
  case False
  with i nxt_simps(2) [OF n, of "i - 1"] show ?thesis by (intro that [of "i - 1"]) auto
qed

lemma simple_polygon_checks: "3 \<le> length ps \<and> polygon_checks ps \<longleftrightarrow> simple_polygon ps"
proof
  assume s: "simple_polygon ps"
  then have n: "3 \<le> length ps" and len: "\<And>i. i < length ps \<Longrightarrow> ps ! i \<noteq> ps ! nxt ps i"
    and meet: "\<And>i j x. i < j \<Longrightarrow> j < length ps \<Longrightarrow> on_edge ps i x \<Longrightarrow> on_edge ps j x \<Longrightarrow>
        j = i + 1 \<and> x = ps ! j \<or> i = 0 \<and> j = length ps - 1 \<and> x = ps ! 0"
    unfolding simple_polygon_def by blast+
  have "\<not> on_segment (ps ! i) (ps ! nxt ps i) (ps ! nxt ps (nxt ps i))" if i: "i < length ps" for i
  proof
    assume on: "on_segment (ps ! i) (ps ! nxt ps i) (ps ! nxt ps (nxt ps i))"
    let ?x = "ps ! nxt ps (nxt ps i)"
    have e: "on_edge ps i ?x" "on_edge ps (nxt ps i) ?x" using on by (simp_all add: on_edge_def)
    have ne: "?x \<noteq> ps ! nxt ps i" using len nxt_simps(1) [OF n] by metis
    show False
    proof (cases "i = length ps - 1")
      case True
      have r: "0 < length ps - 1" "length ps - 1 < length ps" "length ps - 1 \<noteq> 0 + 1" using n by linarith+
      have "nxt ps i = 0" by (rule nxt_simps(3) [OF n True])
      with meet [OF r(1,2), of ?x] e ne r(3) True show False by simp
    next
      case False
      with i have r: "i < i + 1" "i + 1 < length ps" by linarith+
      have "nxt ps i = i + 1" using nxt_simps(2) [OF n, of i] r by simp
      moreover have "\<not> (i = 0 \<and> i + 1 = length ps - 1)" using n by auto
      ultimately show False using meet [OF r, of ?x] e ne by auto
    qed
  qed
  with n meet show "3 \<le> length ps \<and> polygon_checks ps" unfolding polygon_checks_def by blast
next
  assume c: "3 \<le> length ps \<and> polygon_checks ps"
  then have n: "3 \<le> length ps" by blast
  have corner: "\<not> on_segment (ps ! i) (ps ! nxt ps i) (ps ! nxt ps (nxt ps i))" if "i < length ps" for i
    using c that unfolding polygon_checks_def by blast
  have apart: "j = i + 1 \<or> i = 0 \<and> j = length ps - 1"
    if "i < j" "j < length ps" "on_edge ps i x" "on_edge ps j x" for i j x
    using c that unfolding polygon_checks_def by blast
  have len: "ps ! i \<noteq> ps ! nxt ps i" if i: "i < length ps" for i
  proof -
    obtain k where k: "k < length ps" "nxt ps k = i" by (rule prev_corner [OF n i])
    have "on_segment (ps ! k) (ps ! nxt ps k) (ps ! nxt ps k)" by simp
    with corner [OF k(1)] k(2) show ?thesis by metis
  qed
  have share: "x = ps ! nxt ps i"
    if i: "i < length ps" and e: "on_edge ps i x" "on_edge ps (nxt ps i) x" for i x
  proof (rule ccontr)
    assume "x \<noteq> ps ! nxt ps i"
    then have "on_segment (ps ! nxt ps i) (ps ! nxt ps (nxt ps i)) (ps ! i)"
      using shared_beyond_corner e corner [OF i] unfolding on_edge_def by blast
    then have ei: "on_edge ps (nxt ps i) (ps ! i)" by (simp add: on_edge_def)
    obtain k where k: "k < length ps" "nxt ps k = i" "k = (if i = 0 then length ps - 1 else i - 1)"
      by (rule prev_corner [OF n i])
    have ek: "on_edge ps k (ps ! i)" using on_edge_ends(2) [of ps k] k(2) by simp
    let ?j = "nxt ps i"
    have j: "?j < length ps" by (rule nxt_simps(1) [OF n])
    show False
    proof (cases "length ps = 3")
      case True
      have "i = 0 \<or> i = 1 \<or> i = 2" using i True by linarith
      then have "nxt ps (nxt ps (nxt ps i)) = i" by (elim disjE) (simp_all add: nxt_def True)
      with corner [OF j] ei show False by (simp add: on_edge_def)
    next
      case False
      with n have n4: "4 \<le> length ps" by simp
      consider "i = 0" | "i = length ps - 1" | "0 < i" "i < length ps - 1" using i by linarith
      then show False
      proof cases
        case 1
        then have "?j = 1" "k = length ps - 1" using k(3) nxt_simps(2) [OF n, of 0] n by simp_all
        moreover have "1 < length ps - 1" "length ps - 1 < length ps" "length ps - 1 \<noteq> 1 + 1" using n4 by linarith+
        ultimately show False using apart [of 1 "length ps - 1" "ps ! i"] ei ek by simp
      next
        case 2
        then have "?j = 0" "k = length ps - 2" using k(3) nxt_simps(3) [OF n, of i] n by auto
        moreover have "0 < length ps - 2" "length ps - 2 < length ps" "length ps - 2 \<noteq> 0 + 1"
          "length ps - 2 \<noteq> length ps - 1" using n4 by linarith+
        ultimately show False using apart [of 0 "length ps - 2" "ps ! i"] ei ek by simp
      next
        case 3
        then have "?j = i + 1" "k = i - 1" using k(3) nxt_simps(2) [OF n, of i] by simp_all
        moreover have "i - 1 < i + 1" "i + 1 < length ps" "i + 1 \<noteq> i - 1 + 1"
          "\<not> (i - 1 = 0 \<and> i + 1 = length ps - 1)" using 3 n4 by auto
        ultimately show False using apart [of "i - 1" "i + 1" "ps ! i"] ei ek by metis
      qed
    qed
  qed
  have "j = i + 1 \<and> x = ps ! j \<or> i = 0 \<and> j = length ps - 1 \<and> x = ps ! 0"
    if ij: "i < j" "j < length ps" and e: "on_edge ps i x" "on_edge ps j x" for i j x
    using apart [OF ij e]
  proof
    assume "j = i + 1"
    moreover from this ij have "nxt ps i = j" using nxt_simps(2) [OF n, of i] by simp
    ultimately show ?thesis using share [of i x] ij e by simp
  next
    assume w: "i = 0 \<and> j = length ps - 1"
    then have "j = length ps - 1" by (rule conjunct2)
    then have z: "nxt ps j = 0" by (rule nxt_simps(3) [OF n])
    have "i = 0" using w by blast
    then have "on_edge ps (nxt ps j) x" using e(1) unfolding z by simp
    from share [OF ij(2) e(2) this] have "x = ps ! 0" unfolding z .
    with w show ?thesis by blast
  qed
  with n len show "simple_polygon ps" unfolding simple_polygon_def by blast
qed

text \<open>The verdict on a ring of finite positions.\<close>

lemma isSimplePolygon_ring:
  assumes "4 \<le> length ring" "clear_positions ring"
  shows "isSimplePolygon (map pos ring) True \<longleftrightarrow> simple_polygon (butlast ring)"
proof -
  have pts: "take (length ring - 1) (map pos ring) = map pos (butlast ring)"
    by (simp add: take_map butlast_conv_take)
  have n: "3 \<le> length (butlast ring)" using assms by simp
  have clear: "clear_positions (butlast ring)"
    by (rule clear_positions_subset [OF assms(2)]) (auto dest: in_set_butlastD)
  have pairs: "list_all (\<lambda>i. list_all (\<lambda>j. edge_pair_ok ps i j) [i + 1..<m]) [0..<m] \<longleftrightarrow>
      (\<forall>i j. i < j \<and> j < m \<longrightarrow> edge_pair_ok ps i j)" for ps m
    by (auto simp: list_all_iff)
  show ?thesis
    unfolding isSimplePolygon_def Let_def length_map pts pairs
    using n simple_polygon_checks [of "butlast ring"] pairs_ok_iff [OF n clear] by auto
qed

lemma checkSync_closed:
  "checkSync (map pos ring) =
     (let closed = (4 \<le> length ring \<and> hd ring = last ring)
      in \<lparr>gc_isClosed = closed, gc_isValid = (closed \<and> isSimplePolygon (map pos ring) True)\<rparr>)"
proof (cases "4 \<le> length ring")
  case True
  then have "ring \<noteq> []" by auto
  then have "hd ring = ring ! 0" "last ring = ring ! (length ring - 1)"
    by (simp_all add: hd_conv_nth last_conv_nth)
  moreover have "pointsEqual (map pos ring ! 0) (map pos ring ! (length (map pos ring) - 1)) \<longleftrightarrow>
      ring ! 0 = ring ! (length ring - 1)"
  proof -
    have "0 < length ring" "length ring - 1 < length ring" using True by linarith+
    then show ?thesis by (simp only: length_map nth_map pos_eq)
  qed
  ultimately have closed: "(length (map pos ring) \<ge> 4 \<and>
      pointsEqual (map pos ring ! 0) (map pos ring ! (length (map pos ring) - 1))) = (4 \<le> length ring \<and> hd ring = last ring)"
    by simp
  have open_ring: "\<not> isSimplePolygon r False" for r by (simp add: isSimplePolygon_def)
  show ?thesis
    using open_ring
    by (cases "hd ring = last ring") (simp_all only: checkSync_def closed Let_def True simp_thms)
next
  case False
  then show ?thesis by (simp add: checkSync_def isSimplePolygon_def Let_def)
qed

lemma checkSync_pos:
  assumes "clear_positions ring"
  shows "checkSync (map pos ring) =
     (let closed = (4 \<le> length ring \<and> hd ring = last ring)
      in \<lparr>gc_isClosed = closed, gc_isValid = (closed \<and> simple_polygon (butlast ring))\<rparr>)"
  using isSimplePolygon_ring [OF _ assms] by (auto simp: checkSync_closed Let_def)

section \<open>Properties\<close>

text \<open>
  C16. The segment test is exact on clear positions, degenerate segments included: \<open>segmentsIntersect\<close>
  holds exactly when the two closed segments have a common point. Positions are clear when the
  rounding of 64-bit numbers cannot change the orientation of any three of them: their
  coordinates are degrees, and any three are on the grid, or have two equal, or are not nearly
  collinear.
\<close>

theorem segmentsIntersect_iff:
  assumes "clear_positions [p1, p2, p3, p4]"
  shows "segmentsIntersect (pos p1) (pos p2) (pos p3) (pos p4) \<longleftrightarrow> (\<exists>x. on_segment p1 p2 x \<and> on_segment p3 p4 x)"
  by (rule segmentsIntersect_point [OF assms])

text \<open>A trapezium.\<close>

lemma sample_clear: "clear_positions [(1 / 8, 1 / 4), (7 / 8, 1 / 4), (3 / 4, 1 / 2), (1 / 4, 1 / 2)]"
  by (simp add: clear_positions_def clear_def in_range_def cross_def)

theorem segmentsIntersect_iff_witness:
  "segmentsIntersect (pos (1 / 8, 1 / 4)) (pos (3 / 4, 1 / 2)) (pos (7 / 8, 1 / 4)) (pos (1 / 4, 1 / 2))"
proof -
  have "clear_positions [(1 / 8, 1 / 4), (3 / 4, 1 / 2), (7 / 8, 1 / 4), (1 / 4, 1 / 2)]"
    by (rule clear_positions_subset [OF sample_clear]) auto
  moreover have "on_segment (1 / 8, 1 / 4) (3 / 4, 1 / 2) (1 / 2, 2 / 5)"
    unfolding on_segment_def by (intro exI [of _ "3 / 5"]) simp
  moreover have "on_segment (7 / 8, 1 / 4) (1 / 4, 1 / 2) (1 / 2, 2 / 5)"
    unfolding on_segment_def by (intro exI [of _ "3 / 5"]) simp
  ultimately show ?thesis using segmentsIntersect_iff by blast
qed

text \<open>
  C17. The pure validator is exact on clear positions: it reports a ring closed exactly when
  it has at least four positions and ends where it starts, and valid exactly when moreover its
  corners form a simple polygon (no zero-length edge, and edges meet only at common corners).
\<close>

theorem checkSync_simple_polygon:
  assumes "clear_positions ring"
  shows "checkSync (map pos ring) =
     \<lparr>gc_isClosed = (4 \<le> length ring \<and> hd ring = last ring),
      gc_isValid = (4 \<le> length ring \<and> hd ring = last ring \<and> simple_polygon (butlast ring))\<rparr>"
  by (auto simp: checkSync_pos [OF assms] Let_def)

theorem checkSync_simple_polygon_witness:
  "gc_isValid (checkSync (map pos [(1 / 8, 1 / 4), (7 / 8, 1 / 4), (3 / 4, 1 / 2), (1 / 4, 1 / 2), (1 / 8, 1 / 4)]))
    \<longleftrightarrow> simple_polygon [(1 / 8, 1 / 4), (7 / 8, 1 / 4), (3 / 4, 1 / 2), (1 / 4, 1 / 2)]"
proof -
  have "clear_positions [(1 / 8, 1 / 4), (7 / 8, 1 / 4), (3 / 4, 1 / 2), (1 / 4, 1 / 2), (1 / 8, 1 / 4)]"
    by (rule clear_positions_subset [OF sample_clear]) auto
  from checkSync_simple_polygon [OF this] show ?thesis by simp
qed

section \<open>Finding\<close>

text \<open>
  Three positions on a grid of \<open>2^-22\<close> degrees that are not collinear, but whose orientation is computed
  as if they were: their cross product is the difference of two products that round to the same number.
\<close>

lemma round_sliver: "round_real (1024 - 1 / 2 ^ 44) = 1024"
proof -
  have "\<lfloor>log 2 \<bar>1024 - 1 / 2 ^ 44 :: real\<bar>\<rfloor> = 9"
  proof (rule floor_unique)
    show "of_int 9 \<le> log 2 \<bar>1024 - 1 / 2 ^ 44 :: real\<bar>" by (subst le_log_iff) (simp_all add: powr_numeral)
    show "log 2 \<bar>1024 - 1 / 2 ^ 44 :: real\<bar> < of_int 9 + 1" by (subst log_less_iff) (simp_all add: powr_numeral)
  qed
  then have "ulp_exp (1024 - 1 / 2 ^ 44) = - int 43" by (simp add: ulp_exp_def)
  then have u: "ulp (1024 - 1 / 2 ^ 44) = 1 / 2 ^ 43" unfolding ulp_def by (simp only: power_int_minus power_int_of_nat divide_inverse mult_1)
  have "(1024 - 1 / 2 ^ 44) / (1 / 2 ^ 43) = (9007199254740991 + 1 / 2 :: real)" by simp
  moreover have "\<lfloor>9007199254740991 + 1 / 2 :: real\<rfloor> = 9007199254740991" by (rule floor_unique) simp_all
  ultimately show ?thesis unfolding round_real_def u by (simp add: round_even_def Let_def)
qed

lemma sliver_looks_flat:
  defines "u \<equiv> 1 / 2 ^ 22"
  shows "orientation (pos (0, 0)) (pos (32 - u, 32)) (pos (64 - u, 64 + u)) = 0
    \<and> cross (0, 0) (32 - u, 32) (64 - u, 64 + u) = u * u"
proof -
  have r: "round_real 32 = 32" "round_real (32 - u) = 32 - u" "round_real (32 + u) = 32 + u" "round_real 1024 = 1024"
    using round_scaled [of 32 0] round_scaled [of 134217727 22] round_scaled [of 134217729 22] round_scaled [of 1024 0]
    by (simp_all add: u_def)
  have sliver: "round_real ((32 - u) * (32 + u)) = 1024"
    using round_sliver by (simp add: u_def)
  have "rounded_cross (0, 0) (32 - u, 32) (64 - u, 64 + u) = 0"
    using sliver by (simp add: rounded_cross_def r)
  moreover have "in_range (0, 0)" "in_range (32 - u, 32)" "in_range (64 - u, 64 + u)"
    by (simp_all add: in_range_def u_def)
  ultimately have "orientation (pos (0, 0)) (pos (32 - u, 32)) (pos (64 - u, 64 + u)) = 0"
    using orientation_rounded by simp
  then show ?thesis by (simp add: cross_def algebra_simps)
qed

end
