(* ===== verification/Zones.thy ===== *)
theory Zones
  imports Geometry Stores Validation
begin

text \<open>
  The zone component: \<open>zones/zone-repository.ts\<close>, \<open>zones/zone-service.ts\<close> and
  \<open>zones/postgis-validator.ts\<close>. The interface \<open>ZoneGeometryValidator\<close> is the locale
  \<open>geometry_validator\<close>, interpreted by the pure validator and by the PostGIS-backed one over
  any SQL runner.
\<close>

section \<open>Repository\<close>

record Zone =
  zn_id :: string
  zn_name :: string
  zn_polygon :: Ring
  zn_arrivalLabel :: "string option"
  zn_createdAt :: string

type_synonym ZoneRepo = "(string, Zone) jsmap"

definition zone_repo_new :: ZoneRepo where
  "zone_repo_new = []"

definition zone_insert :: "Zone \<Rightarrow> ZoneRepo \<Rightarrow> ZoneRepo" where
  "zone_insert z r = map_set (zn_id z) z r"

definition zone_findById :: "ZoneRepo \<Rightarrow> string \<Rightarrow> Zone option" where
  "zone_findById r i = map_get r i"

definition zone_list :: "ZoneRepo \<Rightarrow> Zone list" where
  "zone_list r = map_values r"

definition zone_repo_ok :: "ZoneRepo \<Rightarrow> bool" where
  "zone_repo_ok r \<longleftrightarrow> store_ok zn_id r"

interpretation zn: keyed_store zone_insert zone_findById zone_list zn_id zone_repo_ok
  by unfold_locales
    (auto simp: zone_insert_def zone_findById_def zone_list_def zone_repo_ok_def
      store_ok_laws simp del: set_map)

section \<open>Service\<close>

definition ZONE_NAME_MIN :: nat where "ZONE_NAME_MIN = 1"
definition ZONE_NAME_MAX :: nat where "ZONE_NAME_MAX = 100"
definition ARRIVAL_LABEL_MIN :: nat where "ARRIVAL_LABEL_MIN = 1"
definition ARRIVAL_LABEL_MAX :: nat where "ARRIVAL_LABEL_MAX = 100"

fun strLen :: "jsval \<Rightarrow> nat" where
  "strLen (Str s) = length s"
| "strLen v = 0"

text \<open>One position of the raw polygon, or \<open>None\<close> when it is malformed.\<close>

definition to_position :: "jsval \<Rightarrow> Position option" where
  "to_position v = (case v of
     Arr (Num x # Num y # rest) \<Rightarrow> if is_nan x \<or> is_nan y then None else Some (x, y)
   | _ \<Rightarrow> None)"

fun ring_loop :: "jsval list \<Rightarrow> Ring \<Rightarrow> Ring option" where
  "ring_loop [] ring = Some ring"
| "ring_loop (v # polygon) ring =
     (case to_position v of None \<Rightarrow> None | Some p \<Rightarrow> ring_loop polygon (ring @ [p]))"

fun toRing :: "jsval \<Rightarrow> Ring option" where
  "toRing (Arr polygon) = ring_loop polygon []"
| "toRing v = None"

record CreateZoneInput =
  czi_name :: "string option"
  czi_polygon :: jsval
  czi_arrivalLabel :: "string option"

record ZoneSvc =
  zs_repo :: ZoneRepo
  zs_counter :: nat

definition zone_svc_new :: ZoneSvc where
  "zone_svc_new = \<lparr>zs_repo = zone_repo_new, zs_counter = 0\<rparr>"

text \<open>\<open>geometry.check\<close> settles with a check or passes an exception on.\<close>

type_synonym GeometryProvider = "Ring \<Rightarrow> exn + GeometryCheck"

definition isPolygonInvalid :: "GeometryProvider \<Rightarrow> Ring option \<Rightarrow> exn + bool" where
  "isPolygonInvalid check ring =
     (case ring of
        None \<Rightarrow> Inr True
      | Some r \<Rightarrow>
          if \<not> isValidVertexCount (Num (Fin (of_nat (distinctVertexCount r)))) then Inr True
          else (case check r of Inl e \<Rightarrow> Inl e | Inr c \<Rightarrow> Inr (\<not> gc_isClosed c \<or> \<not> gc_isValid c)))"

definition zone_name_bad :: "string option \<Rightarrow> bool" where
  "zone_name_bad name \<longleftrightarrow> isMissing (of_str_opt name) \<or> strLen (of_str_opt name) > ZONE_NAME_MAX"

definition zone_label_bad :: "string option \<Rightarrow> bool" where
  "zone_label_bad label \<longleftrightarrow> label \<noteq> None \<and>
     (strLen (of_str_opt label) < ARRIVAL_LABEL_MIN \<or> strLen (of_str_opt label) > ARRIVAL_LABEL_MAX)"

definition zone_create ::
    "GeometryProvider \<Rightarrow> id_source \<Rightarrow> int \<Rightarrow> CreateZoneInput \<Rightarrow> (ZoneSvc, exn, Zone) svc" where
  "zone_create check src clockNow inp =
     (let fields = (if zone_name_bad (czi_name inp) then [''name''] else []);
          fields = fields @ (if zone_label_bad (czi_arrivalLabel inp) then [''arrivalLabel''] else []);
          ring = toRing (czi_polygon inp) in
      sbind (slift (isPolygonInvalid check ring)) (\<lambda>invalid.
      let fields = fields @ (if invalid then [''polygon''] else []) in
      sbind (sreject (length fields > 0 \<or> ring = None) (DomainError (makeError (error_wire ValidationError) fields) 400)) (\<lambda>_.
      sbind (sget zs_counter) (\<lambda>n.
      let (newId, n') = next_id ''zone'' src n in
      sbind (smodify (\<lambda>s. s\<lparr>zs_counter := n'\<rparr>)) (\<lambda>_.
      sbind (slift (iso_or_throw clockNow)) (\<lambda>ts.
      let z = \<lparr>zn_id = newId, zn_name = str_arg (czi_name inp), zn_polygon = the ring,
               zn_arrivalLabel = czi_arrivalLabel inp, zn_createdAt = ts\<rparr> in
      sbind (smodify (\<lambda>s. s\<lparr>zs_repo := zone_insert z (zs_repo s)\<rparr>)) (\<lambda>_.
      sret z)))))))"

section \<open>PostGIS validator\<close>

definition SRID :: nat where "SRID = 4326"

definition parseBool :: "string option \<Rightarrow> bool" where
  "parseBool v = (case v of None \<Rightarrow> False
     | Some s \<Rightarrow> js_lower (js_trim s) = ''t'' \<or> js_lower (js_trim s) = ''true'')"

definition geom_from_text :: "string \<Rightarrow> string" where
  "geom_from_text wkt = ''ST_GeomFromText('' @ [CHR 0x27] @ wkt @ [CHR 0x27] @ '', '' @ nat_str SRID @ '')''"

text \<open>\<open>const [column] = await this.run(sql)\<close>; the state is the list of queries sent.\<close>

definition run_sql :: "(string \<Rightarrow> exn + string list) \<Rightarrow> string \<Rightarrow> (string list, exn, string option) svc" where
  "run_sql run sql = sbind (smodify (\<lambda>qs. qs @ [sql])) (\<lambda>_.
     sbind (slift (run sql)) (\<lambda>row. sret (case row of [] \<Rightarrow> None | c # _ \<Rightarrow> Some c)))"

definition postgis_check ::
    "(jsnum \<Rightarrow> string) \<Rightarrow> (string \<Rightarrow> exn + string list) \<Rightarrow> Ring \<Rightarrow> (string list, exn, GeometryCheck) svc" where
  "postgis_check num run ring =
     (let line = geom_from_text (ringToLineStringWkt num ring) in
      sbind (run_sql run (''SELECT ST_IsClosed('' @ line @ '');'')) (\<lambda>closedStr.
      let isClosed = parseBool closedStr in
      if isClosed then
        (let polygon = geom_from_text (ringToPolygonWkt num ring) in
         sbind (run_sql run (''SELECT ST_IsValid('' @ polygon @ '');'')) (\<lambda>validStr.
         sret \<lparr>gc_isClosed = isClosed, gc_isValid = parseBool validStr\<rparr>))
      else sret \<lparr>gc_isClosed = isClosed, gc_isValid = False\<rparr>))"

section \<open>The validator interface\<close>

text \<open>What the service may rely on: a ring that is not closed is never reported valid.\<close>

locale geometry_validator =
  fixes check :: GeometryProvider
  assumes valid_closed: "check r = Inr c \<Longrightarrow> gc_isValid c \<Longrightarrow> gc_isClosed c"
begin

lemma invalid_iff: "check r = Inr c \<Longrightarrow> (\<not> gc_isClosed c \<or> \<not> gc_isValid c) = (\<not> gc_isValid c)"
  using valid_closed by blast

lemma isPolygonInvalid_False:
  "isPolygonInvalid check ring = Inr False \<longleftrightarrow>
     (\<exists>r c. ring = Some r \<and> 3 \<le> distinctVertexCount r \<and> distinctVertexCount r \<le> 1000 \<and>
        check r = Inr c \<and> gc_isValid c)"
  using valid_closed
  by (auto simp: isPolygonInvalid_def simp del: isValidVertexCount.simps split: option.split sum.split)

end

definition pure_check :: GeometryProvider where
  "pure_check ring = Inr (checkSync ring)"

definition postgis_provider :: "(jsnum \<Rightarrow> string) \<Rightarrow> (string \<Rightarrow> exn + string list) \<Rightarrow> GeometryProvider" where
  "postgis_provider num run ring = fst (postgis_check num run ring [])"

interpretation pure: geometry_validator pure_check
proof unfold_locales
  have closed: "isSimplePolygon r b \<Longrightarrow> b" for r b
    by (simp add: isSimplePolygon_def split: if_splits)
  fix r c
  assume "pure_check r = Inr c" "gc_isValid c"
  then show "gc_isClosed c"
    unfolding pure_check_def checkSync_def Let_def by (auto dest: closed)
qed

interpretation postgis: geometry_validator "postgis_provider num run" for num run
proof unfold_locales
  fix r c
  assume "postgis_provider num run r = Inr c" "gc_isValid c"
  then show "gc_isClosed c"
    by (auto simp: postgis_provider_def postgis_check_def run_sql_def Let_def split: sum.splits if_splits)
qed

section \<open>Operations in closed form\<close>

definition zone_fields :: "bool \<Rightarrow> CreateZoneInput \<Rightarrow> string list" where
  "zone_fields invalid inp = (if zone_name_bad (czi_name inp) then [''name''] else []) @
     (if zone_label_bad (czi_arrivalLabel inp) then [''arrivalLabel''] else []) @ (if invalid then [''polygon''] else [])"

lemma zone_create_eq:
  "zone_create check src now inp s =
     (case isPolygonInvalid check (toRing (czi_polygon inp)) of
        Inl e \<Rightarrow> (Inl e, s)
      | Inr invalid \<Rightarrow>
          if zone_fields invalid inp \<noteq> [] then (Inl (domain_error ValidationError (zone_fields invalid inp) 400), s)
          else (let (newId, n') = next_id ''zone'' src (zs_counter s) in
            case iso_or_throw now of Inl e \<Rightarrow> (Inl e, s\<lparr>zs_counter := n'\<rparr>)
            | Inr ts \<Rightarrow> (let z = \<lparr>zn_id = newId, zn_name = str_arg (czi_name inp),
                zn_polygon = the (toRing (czi_polygon inp)), zn_arrivalLabel = czi_arrivalLabel inp, zn_createdAt = ts\<rparr>
                in (Inr z, s\<lparr>zs_repo := zone_insert z (zs_repo s), zs_counter := n'\<rparr>))))"
proof -
  have "toRing (czi_polygon inp) = None \<Longrightarrow> isPolygonInvalid check (toRing (czi_polygon inp)) = Inr True"
    by (simp add: isPolygonInvalid_def)
  then show ?thesis
    by (auto simp: zone_create_def zone_fields_def domain_error_def Let_def split: sum.split prod.split)
qed

text \<open>A polygon sent as finite positions.\<close>

definition json_ring :: "point list \<Rightarrow> jsval" where
  "json_ring ps = Arr (map (\<lambda>p. Arr [Num (Fin (fst p)), Num (Fin (snd p))]) ps)"

lemma toRing_json: "toRing (json_ring ps) = Some (map pos ps)"
proof -
  have "ring_loop (map (\<lambda>p. Arr [Num (Fin (fst p)), Num (Fin (snd p))]) ps) acc = Some (acc @ map pos ps)" for acc
    by (induction ps arbitrary: acc) (simp_all add: to_position_def is_nan_def pos_def)
  then show ?thesis by (simp add: json_ring_def)
qed

text \<open>The polygons the service accepts: closed, at most 1000 corners, simple by the validator's test.\<close>

definition acceptable_ring :: "point list \<Rightarrow> bool" where
  "acceptable_ring ps \<longleftrightarrow> 4 \<le> length ps \<and> length ps \<le> 1001 \<and> hd ps = last ps \<and> isSimplePolygon (map pos ps) True"

lemma distinctVertexCount_pos:
  "4 \<le> length ps \<Longrightarrow> hd ps = last ps \<Longrightarrow> distinctVertexCount (map pos ps) = length ps - 1"
proof -
  assume a: "4 \<le> length ps" "hd ps = last ps"
  then have ne: "ps \<noteq> []" by auto
  then have "ps ! 0 = ps ! (length ps - 1)" using a by (simp add: hd_conv_nth last_conv_nth)
  moreover have "0 < length ps" "length ps - 1 < length ps" using a by linarith+
  ultimately have "pointsEqual (map pos ps ! 0) (map pos ps ! (length (map pos ps) - 1))"
    by (simp only: length_map nth_map pos_eq)
  then show ?thesis using a by (simp add: distinctVertexCount_def)
qed

lemma pure_invalid: "isPolygonInvalid pure_check (Some (map pos ps)) = Inr (\<not> acceptable_ring ps)"
proof -
  have inr: "\<exists>b. isPolygonInvalid pure_check (Some (map pos ps)) = Inr b"
    by (auto simp: isPolygonInvalid_def pure_check_def simp del: isValidVertexCount.simps)
  have "isPolygonInvalid pure_check (Some (map pos ps)) = Inr False \<longleftrightarrow> acceptable_ring ps"
    using distinctVertexCount_pos [of ps]
    by (auto simp: pure.isPolygonInvalid_False pure_check_def checkSync_closed Let_def acceptable_ring_def)
  with inr show ?thesis by auto
qed

section \<open>Properties\<close>

text \<open>
  C18. Creating a zone with the pure validator, on a polygon of finite positions. A zone is stored,
  with exactly the submitted polygon, name and label, only if the name is not blank and at most
  100 characters, the label (if any) has 1 to 100 characters, and the ring is closed, has 3 to
  1000 corners and passes the edge test; otherwise the error names exactly the bad fields, in the
  order name, label, polygon, and nothing is stored. On clear positions the edge test tells
  exactly the simple polygons.
\<close>

theorem zone_create_outcome:
  "(case zone_create pure_check src now \<lparr>czi_name = name, czi_polygon = json_ring ps, czi_arrivalLabel = label\<rparr> s of
     (Inl e, s') \<Rightarrow> zs_repo s' = zs_repo s \<and>
       (let bad = (case name of None \<Rightarrow> [''name'']
              | Some nm \<Rightarrow> if list_all js_space nm \<or> 100 < length nm then [''name''] else []) @
            (case label of None \<Rightarrow> [] | Some l \<Rightarrow> if length l \<in> {1..100} then [] else [''arrivalLabel'']) @
            (if 4 \<le> length ps \<and> length ps \<le> 1001 \<and> hd ps = last ps \<and> isSimplePolygon (map pos ps) True then [] else [''polygon''])
        in e = (if bad = [] then RangeError else domain_error ValidationError bad 400))
   | (Inr z, s') \<Rightarrow>
       zone_findById (zs_repo s') = (zone_findById (zs_repo s))(zn_id z \<mapsto> z) \<and>
       name = Some (zn_name z) \<and> label = zn_arrivalLabel z \<and> zn_polygon z = map pos ps \<and>
       isSimplePolygon (map pos ps) True \<and> hd ps = last ps \<and> length ps \<in> {4..1001} \<and> zn_createdAt z = iso_string now) \<and>
   (clear_positions ps \<longrightarrow> 4 \<le> length ps \<longrightarrow> isSimplePolygon (map pos ps) True = simple_polygon (butlast ps))"
proof -
  let ?inp = "\<lparr>czi_name = name, czi_polygon = json_ring ps, czi_arrivalLabel = label\<rparr>"
  have name: "(if zone_name_bad name then [''name''] else []) = (case name of None \<Rightarrow> [''name'']
              | Some nm \<Rightarrow> if list_all js_space nm \<or> 100 < length nm then [''name''] else [])"
    by (cases name) (auto simp: zone_name_bad_def js_trim_empty_iff ZONE_NAME_MAX_def)
  have label: "(if zone_label_bad label then [''arrivalLabel''] else []) = (case label of None \<Rightarrow> []
      | Some l \<Rightarrow> if length l \<in> {1..100} then [] else [''arrivalLabel''])"
    by (cases label) (auto simp: zone_label_bad_def ARRIVAL_LABEL_MIN_def ARRIVAL_LABEL_MAX_def Suc_le_eq)
  define bad where "bad = zone_fields (\<not> acceptable_ring ps) ?inp"
  have bad_eq: "bad = (case name of None \<Rightarrow> [''name'']
              | Some nm \<Rightarrow> if list_all js_space nm \<or> 100 < length nm then [''name''] else []) @
            (case label of None \<Rightarrow> [] | Some l \<Rightarrow> if length l \<in> {1..100} then [] else [''arrivalLabel'']) @
            (if 4 \<le> length ps \<and> length ps \<le> 1001 \<and> hd ps = last ps \<and> isSimplePolygon (map pos ps) True then [] else [''polygon''])"
    by (simp add: bad_def zone_fields_def name [symmetric] label [symmetric] acceptable_ring_def)
  have none: "name \<noteq> None \<and> acceptable_ring ps" if "bad = []"
    using that by (cases name) (auto simp: bad_def zone_fields_def zone_name_bad_def split: if_splits)
  have run: "zone_create pure_check src now ?inp s =
     (if bad \<noteq> [] then (Inl (domain_error ValidationError bad 400), s)
      else (let (newId, n') = next_id ''zone'' src (zs_counter s) in
            case iso_or_throw now of Inl e \<Rightarrow> (Inl e, s\<lparr>zs_counter := n'\<rparr>)
            | Inr ts \<Rightarrow> (let z = \<lparr>zn_id = newId, zn_name = str_arg name,
                zn_polygon = map pos ps, zn_arrivalLabel = label, zn_createdAt = ts\<rparr>
                in (Inr z, s\<lparr>zs_repo := zone_insert z (zs_repo s), zs_counter := n'\<rparr>))))"
    by (simp add: zone_create_eq toRing_json pure_invalid bad_def Let_def split: prod.split sum.split)
  have exact: "clear_positions ps \<Longrightarrow> 4 \<le> length ps \<Longrightarrow> simple_polygon (butlast ps) = isSimplePolygon (map pos ps) True"
    using isSimplePolygon_ring [of ps] by simp
  show ?thesis
  proof (cases "bad = []")
    case False
    with bad_eq show ?thesis by (simp add: run exact Let_def)
  next
    case True
    with none obtain nm where nm: "name = Some nm" and acc: "acceptable_ring ps" by auto
    show ?thesis
      unfolding bad_eq [symmetric] run
      using True acc nm
      by (cases "\<bar>now\<bar> \<le> max_time")
        (simp_all add: exact Let_def acceptable_ring_def iso_or_throw_def toIso_def zone_insert_def
          zone_findById_def fun_eq_iff split: prod.split)
  qed
qed

theorem zone_create_outcome_witness:
  "isSimplePolygon (map pos [(1 / 8, 1 / 4), (7 / 8, 1 / 4), (3 / 4, 1 / 2), (1 / 4, 1 / 2), (1 / 8, 1 / 4)]) True
    \<longleftrightarrow> simple_polygon [(1 / 8, 1 / 4), (7 / 8, 1 / 4), (3 / 4, 1 / 2), (1 / 4, 1 / 2)]"
proof -
  have "clear_positions [(1 / 8, 1 / 4), (7 / 8, 1 / 4), (3 / 4, 1 / 2), (1 / 4, 1 / 2), (1 / 8, 1 / 4)]"
    by (rule clear_positions_subset [OF sample_clear]) auto
  then show ?thesis
    using zone_create_outcome [where ps = "[(1 / 8, 1 / 4), (7 / 8, 1 / 4), (3 / 4, 1 / 2), (1 / 4, 1 / 2), (1 / 8, 1 / 4)]"] by simp
qed

text \<open>
  The PostGIS validator asks for validity only of a ring that the database reports closed:
  one query when it does not, two otherwise; the verdict is the database's, read as a boolean,
  and a ring reported open is reported invalid.
\<close>

theorem postgis_check_queries:
  assumes "\<And>sql. \<exists>c rest. run sql = Inr (c # rest)"
  shows "\<exists>line polygon. postgis_check num run ring qs =
     (let closed = parseBool (Some (hd (projr (run line)))) in
      (Inr \<lparr>gc_isClosed = closed, gc_isValid = (closed \<and> parseBool (Some (hd (projr (run polygon)))))\<rparr>,
       qs @ line # (if closed then [polygon] else []))) \<and>
     line = ''SELECT ST_IsClosed('' @ geom_from_text (ringToLineStringWkt num ring) @ '');'' \<and>
     polygon = ''SELECT ST_IsValid('' @ geom_from_text (ringToPolygonWkt num ring) @ '');''"
proof -
  let ?line = "''SELECT ST_IsClosed('' @ geom_from_text (ringToLineStringWkt num ring) @ '');''"
  let ?polygon = "''SELECT ST_IsValid('' @ geom_from_text (ringToPolygonWkt num ring) @ '');''"
  obtain c rest d rest' where r: "run ?line = Inr (c # rest)" "run ?polygon = Inr (d # rest')"
    using assms by meson
  have "postgis_check num run ring qs =
     (let closed = parseBool (Some (hd (projr (run ?line)))) in
      (Inr \<lparr>gc_isClosed = closed, gc_isValid = (closed \<and> parseBool (Some (hd (projr (run ?polygon)))))\<rparr>,
       qs @ ?line # (if closed then [?polygon] else [])))"
    using r by (simp add: postgis_check_def run_sql_def Let_def)
  then show ?thesis by blast
qed

theorem postgis_check_queries_witness:
  "fst (postgis_check (\<lambda>x. ''0'') (\<lambda>sql. Inr [''f'']) [] []) = Inr \<lparr>gc_isClosed = False, gc_isValid = False\<rparr>"
proof -
  have "\<not> parseBool (Some ''f'')" by code_simp
  then show ?thesis
    using postgis_check_queries [where run = "\<lambda>sql. Inr [''f'']" and num = "\<lambda>x. ''0''" and ring = "[]" and qs = "[]"]
    by (auto simp: Let_def)
qed

end
