(* ===== verification/Notifications.thy ===== *)
theory Notifications
  imports Assignments
begin

text \<open>
  Arrival notifications: \<open>notifications/customer-notifier.ts\<close> (the notification and the
  recording notifier) and \<open>notifications/arrival-notification-service.ts\<close>. The service reads
  the delivery and assignment repositories; its own state is the notifier's record.
\<close>

record ArrivalNotification =
  an_deliveryId :: string
  an_trackingToken :: string
  an_zoneId :: string
  an_vehicleId :: string
  an_label :: "string option"
  an_timestamp :: string

text \<open>\<open>RecordingCustomerNotifier\<close>: the state is its array \<open>notified\<close>.\<close>

definition notifyArrival :: "ArrivalNotification \<Rightarrow> (ArrivalNotification list, exn, unit) svc" where
  "notifyArrival n = smodify (\<lambda>notified. notified @ [n])"

definition isArrivalForVehicle :: "AssignmentRepo \<Rightarrow> Delivery \<Rightarrow> string \<Rightarrow> bool" where
  "isArrivalForVehicle assignments d vehicleId =
     (if del_status d \<in> set TERMINAL_DELIVERY_STATUSES then False
      else case del_assignmentId d of
        None \<Rightarrow> False
      | Some a \<Rightarrow> if a = [] then False
          else (case assignment_findById assignments a of
              None \<Rightarrow> False
            | Some asgn \<Rightarrow> if \<not> isActiveAssignment asgn then False else asg_vehicleId asgn = vehicleId))"

definition arrival_for :: "ZoneEventMessage \<Rightarrow> Delivery \<Rightarrow> ArrivalNotification" where
  "arrival_for ev d = \<lparr>an_deliveryId = del_id d, an_trackingToken = del_trackingToken d,
     an_zoneId = ze_zoneId ev, an_vehicleId = ze_vehicleId ev, an_label = ze_label ev,
     an_timestamp = ze_timestamp ev\<rparr>"

text \<open>The loop over the candidates; \<open>routed\<close> is the array it returns.\<close>

fun route_arrivals ::
    "AssignmentRepo \<Rightarrow> ZoneEventMessage \<Rightarrow> Delivery list \<Rightarrow> ArrivalNotification list \<Rightarrow>
     (ArrivalNotification list, exn, ArrivalNotification list) svc" where
  "route_arrivals assignments ev [] routed = sret routed"
| "route_arrivals assignments ev (d # ds) routed =
     (if \<not> isArrivalForVehicle assignments d (ze_vehicleId ev) then route_arrivals assignments ev ds routed
      else sbind (notifyArrival (arrival_for ev d)) (\<lambda>_.
        route_arrivals assignments ev ds (routed @ [arrival_for ev d])))"

definition handleZoneEvent ::
    "DeliveryRepo \<Rightarrow> AssignmentRepo \<Rightarrow> ZoneEventMessage \<Rightarrow>
     (ArrivalNotification list, exn, ArrivalNotification list) svc" where
  "handleZoneEvent deliveries assignments ev =
     (if ze_type ev \<noteq> Enter then sret []
      else route_arrivals assignments ev (delivery_listByDestinationZoneId deliveries (ze_zoneId ev)) [])"

lemma route_arrivals_eq:
  "route_arrivals assignments ev ds routed s =
     (let ns = map (arrival_for ev) (filter (\<lambda>d. isArrivalForVehicle assignments d (ze_vehicleId ev)) ds)
      in (Inr (routed @ ns), s @ ns))"
  by (induction ds arbitrary: routed s) (simp_all add: notifyArrival_def Let_def)

lemma isArrivalForVehicle_iff:
  "isArrivalForVehicle assignments d v \<longleftrightarrow>
     \<not> isTerminal (del_status d) \<and> truthy (del_assignmentId d) \<and>
     (\<exists>a. assignment_findById assignments (the (del_assignmentId d)) = Some a \<and>
        asg_status a \<noteq> Complete \<and> asg_vehicleId a = v)"
  by (auto simp: isArrivalForVehicle_def isTerminal_def isActiveAssignment_def split: option.split)

text \<open>
  C19. Who is notified. Handling a zone event sends one notification, to the customer's tracking
  token, for each delivery that is bound for that zone, is not terminal, and is on an active
  assignment of the entering vehicle, and none for anyone else; it returns what it sent, and an
  Exit event sends nothing.
\<close>

theorem handleZoneEvent_notifies:
  assumes "delivery_repo_ok deliveries"
  shows "\<exists>ns. handleZoneEvent deliveries assignments ev sent = (Inr ns, sent @ ns) \<and>
     distinct (map an_deliveryId ns) \<and>
     (\<forall>n. n \<in> set ns \<longleftrightarrow> ze_type ev = Enter \<and>
        (\<exists>d a. delivery_findById deliveries (an_deliveryId n) = Some d \<and> n = arrival_for ev d \<and>
           del_destinationZoneId d = Some (ze_zoneId ev) \<and> del_status d \<notin> {Completed, Failed, Cancelled} \<and>
           truthy (del_assignmentId d) \<and> assignment_findById assignments (the (del_assignmentId d)) = Some a \<and>
           asg_status a \<noteq> Complete \<and> asg_vehicleId a = ze_vehicleId ev))"
proof (cases "ze_type ev = Enter")
  case False
  then show ?thesis by (simp add: handleZoneEvent_def)
next
  case True
  let ?P = "\<lambda>d. isArrivalForVehicle assignments d (ze_vehicleId ev)"
  let ?ds = "filter ?P (delivery_listByDestinationZoneId deliveries (ze_zoneId ev))"
  have mem: "d \<in> set (delivery_list deliveries) \<longleftrightarrow> delivery_findById deliveries (del_id d) = Some d" for d
    by (rule del.all_look [OF assms])
  have fields: "an_deliveryId (arrival_for ev d) = del_id d" for d
    by (simp add: arrival_for_def)
  have "distinct (map del_id (filter Q (delivery_list deliveries)))" for Q
    using del.all_distinct [OF assms] by (rule distinct_map_filter)
  then have dist: "distinct (map an_deliveryId (map (arrival_for ev) ?ds))"
    by (simp add: fields comp_def delivery_listByDestinationZoneId_def flip: delivery_list_def)
  have terminal: "isTerminal st \<longleftrightarrow> st \<in> {Completed, Failed, Cancelled}" for st
    by (cases st) auto
  have set: "n \<in> set (map (arrival_for ev) ?ds) \<longleftrightarrow>
      (\<exists>d. d \<in> set (delivery_list deliveries) \<and> n = arrival_for ev d \<and> del_destinationZoneId d = Some (ze_zoneId ev) \<and> ?P d)" for n
    by (auto simp: delivery_listByDestinationZoneId_def delivery_list_def)
  have iff: "n \<in> set (map (arrival_for ev) ?ds) \<longleftrightarrow> ze_type ev = Enter \<and>
        (\<exists>d a. delivery_findById deliveries (an_deliveryId n) = Some d \<and> n = arrival_for ev d \<and>
           del_destinationZoneId d = Some (ze_zoneId ev) \<and> del_status d \<notin> {Completed, Failed, Cancelled} \<and>
           truthy (del_assignmentId d) \<and> assignment_findById assignments (the (del_assignmentId d)) = Some a \<and>
           asg_status a \<noteq> Complete \<and> asg_vehicleId a = ze_vehicleId ev)" for n
    by (subst set, unfold isArrivalForVehicle_iff terminal mem) (use True fields in auto)
  have "handleZoneEvent deliveries assignments ev sent = (Inr (map (arrival_for ev) ?ds), sent @ map (arrival_for ev) ?ds)"
    using True by (simp add: handleZoneEvent_def route_arrivals_eq Let_def)
  with dist iff show ?thesis by blast
qed

theorem handleZoneEvent_notifies_witness:
  "\<exists>ns. handleZoneEvent [(''e'', (sample_delivery ''e'' Assigned (Some ''q''))\<lparr>del_destinationZoneId := Some ''z''\<rparr>)]
      [(''q'', sample_assignment ''q'' Pending)]
      \<lparr>ze_vehicleId = ''v'', ze_zoneId = ''z'', ze_type = Enter, ze_label = None, ze_timestamp = ''t''\<rparr> [] = (Inr ns, ns) \<and>
     (\<exists>n \<in> set ns. an_trackingToken n = ''e'')"
proof -
  let ?d = "(sample_delivery ''e'' Assigned (Some ''q''))\<lparr>del_destinationZoneId := Some ''z''\<rparr>"
  let ?ev = "\<lparr>ze_vehicleId = ''v'', ze_zoneId = ''z'', ze_type = Enter, ze_label = None, ze_timestamp = ''t''\<rparr>"
  let ?A = "[(''q'', sample_assignment ''q'' Pending)]"
  have ok: "delivery_repo_ok [(''e'', ?d)]"
    by (simp add: delivery_repo_ok_def store_ok_def sample_delivery_def)
  obtain ns where h: "handleZoneEvent [(''e'', ?d)] ?A ?ev [] = (Inr ns, [] @ ns)"
    and iff: "\<forall>n. n \<in> set ns \<longleftrightarrow> ze_type ?ev = Enter \<and>
        (\<exists>d a. delivery_findById [(''e'', ?d)] (an_deliveryId n) = Some d \<and> n = arrival_for ?ev d \<and>
           del_destinationZoneId d = Some (ze_zoneId ?ev) \<and> del_status d \<notin> {Completed, Failed, Cancelled} \<and>
           truthy (del_assignmentId d) \<and> assignment_findById ?A (the (del_assignmentId d)) = Some a \<and>
           asg_status a \<noteq> Complete \<and> asg_vehicleId a = ze_vehicleId ?ev)"
    using handleZoneEvent_notifies [OF ok, of ?A ?ev "[]"] by blast
  have "arrival_for ?ev ?d \<in> set ns"
    unfolding iff [rule_format]
    by (simp add: arrival_for_def delivery_findById_def sample_delivery_def assignment_findById_def sample_assignment_def)
  moreover have "an_trackingToken (arrival_for ?ev ?d) = ''e''"
    by (simp add: arrival_for_def sample_delivery_def)
  ultimately show ?thesis using h by auto
qed

end
