(* ===== verification/Reporting.thy ===== *)
theory Reporting
  imports Deliveries
begin

text \<open>
  Reporting: the append-only repositories of \<open>reporting/delivery-status-history-repository.ts\<close>
  and \<open>reporting/location-ping-repository.ts\<close>, and the queries of
  \<open>reporting/reporting-service.ts\<close>. \<open>Date.parse\<close> is the argument \<open>parse\<close>.
\<close>

section \<open>Repositories\<close>

record DeliveryStatusHistoryEntry =
  he_id :: string
  he_deliveryId :: string
  he_fromStatus :: "DeliveryStatus option"
  he_toStatus :: DeliveryStatus
  he_reason :: "string option"
  he_occurredAt :: string

definition history_insert ::
    "DeliveryStatusHistoryEntry \<Rightarrow> DeliveryStatusHistoryEntry list \<Rightarrow> DeliveryStatusHistoryEntry list" where
  "history_insert e es = es @ [e]"

definition history_listByDeliveryId ::
    "DeliveryStatusHistoryEntry list \<Rightarrow> string \<Rightarrow> DeliveryStatusHistoryEntry list" where
  "history_listByDeliveryId es i = filter (\<lambda>e. he_deliveryId e = i) es"

record LocationPing =
  lp_id :: string
  lp_vehicleId :: string
  lp_driverId :: "string option"
  lp_lat :: jsnum
  lp_lng :: jsnum
  lp_timestamp :: string
  lp_receivedAt :: "string option"
  lp_speed :: "jsnum option"
  lp_heading :: "jsnum option"
  lp_battery :: "jsnum option"

definition pings_insert :: "LocationPing \<Rightarrow> LocationPing list \<Rightarrow> LocationPing list" where
  "pings_insert p ps = ps @ [p]"

definition pings_listByVehicleId :: "LocationPing list \<Rightarrow> string \<Rightarrow> LocationPing list" where
  "pings_listByVehicleId ps v = filter (\<lambda>p. lp_vehicleId p = v) ps"

section \<open>Service\<close>

record TimeRange =
  tr_from :: string
  tr_to :: string

record DeliverySummary =
  sum_completed :: nat
  sum_failed :: nat
  sum_cancelled :: nat

definition parseRange :: "(string \<Rightarrow> int option) \<Rightarrow> TimeRange \<Rightarrow> exn + int \<times> int" where
  "parseRange parse rng =
     (case (parse (tr_from rng), parse (tr_to rng)) of
        (Some fromMs, Some toMs) \<Rightarrow>
          if fromMs > toMs then Inl (domain_error ValidationError [''from'', ''to''] 400) else Inr (fromMs, toMs)
      | _ \<Rightarrow> Inl (domain_error ValidationError [''from'', ''to''] 400))"

text \<open>
  The comparator \<open>a.t === b.t ? a.index - b.index : a.t - b.t\<close> on (item, index, t); an
  unparseable time is \<open>NaN\<close>, which equals nothing and makes the difference \<open>NaN\<close>.
\<close>

fun later :: "'a \<times> nat \<times> int option \<Rightarrow> 'a \<times> nat \<times> int option \<Rightarrow> bool" where
  "later (a, i, Some t) (b, j, Some u) = (if t = u then i > j else t > u)"
| "later (a, i, t) (b, j, u) = False"

definition stableSortByTime :: "(string \<Rightarrow> int option) \<Rightarrow> ('a \<Rightarrow> string) \<Rightarrow> 'a list \<Rightarrow> 'a list" where
  "stableSortByTime parse time items =
     map fst (js_sort later (map (\<lambda>(index, item). (item, index, parse (time item))) (enumerate 0 items)))"

definition getDeliveryHistory ::
    "(string \<Rightarrow> int option) \<Rightarrow> DeliveryStatusHistoryEntry list \<Rightarrow> string \<Rightarrow> DeliveryStatusHistoryEntry list" where
  "getDeliveryHistory parse history i = stableSortByTime parse he_occurredAt (history_listByDeliveryId history i)"

definition getVehicleTrack ::
    "(string \<Rightarrow> int option) \<Rightarrow> LocationPing list \<Rightarrow> string \<Rightarrow> TimeRange \<Rightarrow> exn + LocationPing list" where
  "getVehicleTrack parse pings v rng =
     (case parseRange parse rng of
        Inl e \<Rightarrow> Inl e
      | Inr (fromMs, toMs) \<Rightarrow>
          Inr (stableSortByTime parse lp_timestamp (filter (\<lambda>p. case parse (lp_timestamp p) of
              None \<Rightarrow> False | Some t \<Rightarrow> t \<ge> fromMs \<and> t \<le> toMs) (pings_listByVehicleId pings v))))"

text \<open>One pass of the summary loop; the comparisons of a \<open>NaN\<close> time are both false.\<close>

definition summary_step ::
    "(string \<Rightarrow> int option) \<Rightarrow> int \<Rightarrow> int \<Rightarrow> DeliverySummary \<Rightarrow> DeliveryStatusHistoryEntry \<Rightarrow> DeliverySummary" where
  "summary_step parse fromMs toMs summary e =
     (if he_toStatus e \<notin> set TERMINAL_DELIVERY_STATUSES then summary
      else if (case parse (he_occurredAt e) of None \<Rightarrow> False | Some t \<Rightarrow> t < fromMs \<or> t > toMs) then summary
      else (case he_toStatus e of
          Completed \<Rightarrow> summary\<lparr>sum_completed := sum_completed summary + 1\<rparr>
        | Failed \<Rightarrow> summary\<lparr>sum_failed := sum_failed summary + 1\<rparr>
        | Cancelled \<Rightarrow> summary\<lparr>sum_cancelled := sum_cancelled summary + 1\<rparr>
        | _ \<Rightarrow> summary))"

definition getDeliverySummary ::
    "(string \<Rightarrow> int option) \<Rightarrow> DeliveryStatusHistoryEntry list \<Rightarrow> TimeRange \<Rightarrow> exn + DeliverySummary" where
  "getDeliverySummary parse history rng =
     (case parseRange parse rng of
        Inl e \<Rightarrow> Inl e
      | Inr (fromMs, toMs) \<Rightarrow>
          Inr (foldl (summary_step parse fromMs toMs)
            \<lparr>sum_completed = 0, sum_failed = 0, sum_cancelled = 0\<rparr> history))"

section \<open>Sorting\<close>

lemma enumerate_fst_snd: "map snd (enumerate n xs) = xs"
  by (induction xs arbitrary: n) auto

text \<open>With every time parseable the index tie-break never fires against the order of the list.\<close>

lemma js_sort_indexed:
  assumes "\<forall>x \<in> set items. parse (time x) \<noteq> None"
  shows "map fst (js_sort later (map (\<lambda>(index, item). (item, index, parse (time item))) (enumerate n items))) =
    sort_key (\<lambda>x. the (parse (time x))) items"
  using assms
proof (induction items arbitrary: n)
  case Nil
  then show ?case by simp
next
  case (Cons x items)
  let ?w = "\<lambda>(index, item). (item, index, parse (time item))"
  let ?key = "\<lambda>x. the (parse (time x))"
  obtain t where t: "parse (time x) = Some t" using Cons.prems by auto
  have ins: "map fst (insort_by later (x, n, Some t) ys) = insort_key ?key x (map fst ys)"
    if "\<forall>y \<in> set ys. n < fst (snd y) \<and> (\<exists>u. snd (snd y) = Some u \<and> parse (time (fst y)) = Some u)" for ys
    using that t
  proof (induction ys)
    case (Cons y ys)
    obtain b j u where y: "y = (b, j, Some u)" "n < j" "parse (time b) = Some u"
      using Cons.prems(1) by (cases y) auto
    with Cons t show ?case by auto
  qed simp
  let ?ys = "js_sort later (map ?w (enumerate (Suc n) items))"
  have "\<forall>y \<in> set ?ys. n < fst (snd y) \<and> (\<exists>u. snd (snd y) = Some u \<and> parse (time (fst y)) = Some u)"
    using Cons.prems by (fastforce simp: in_set_enumerate_eq)
  from ins [OF this] show ?case
    using Cons t by simp
qed

lemma stableSortByTime_eq:
  "\<forall>x \<in> set items. parse (time x) \<noteq> None \<Longrightarrow>
     stableSortByTime parse time items = sort_key (\<lambda>x. the (parse (time x))) items"
  unfolding stableSortByTime_def by (rule js_sort_indexed)

lemma mset_stableSortByTime: "mset (stableSortByTime parse time items) = mset items"
proof -
  let ?ws = "map (\<lambda>(index, item). (item, index, parse (time item))) (enumerate 0 items)"
  have "mset (map fst (js_sort later ?ws)) = mset (map fst ?ws)"
    unfolding mset_map [of fst] by (simp only: mset_js_sort)
  moreover have "map fst ?ws = map snd (enumerate 0 items)"
    by (simp add: comp_def case_prod_beta)
  ultimately show ?thesis
    by (simp only: stableSortByTime_def enumerate_fst_snd)
qed

section \<open>Properties\<close>

text \<open>
  C20. A vehicle's track: an unparseable or inverted range is rejected; otherwise the answer is
  the vehicle's pings with a time in the closed range, in ascending order of time, pings of the
  same time in the order they were recorded.
\<close>

theorem getVehicleTrack_spec:
  "getVehicleTrack parse pings v rng =
     (case (parse (tr_from rng), parse (tr_to rng)) of
        (Some a, Some b) \<Rightarrow> if b < a then Inl (domain_error ValidationError [''from'', ''to''] 400)
          else Inr (sort_key (\<lambda>p. the (parse (lp_timestamp p)))
            [p \<leftarrow> pings. lp_vehicleId p = v \<and> (\<exists>t \<in> {a..b}. parse (lp_timestamp p) = Some t)])
      | _ \<Rightarrow> Inl (domain_error ValidationError [''from'', ''to''] 400))"
proof -
  have "stableSortByTime parse lp_timestamp (filter (\<lambda>p. case parse (lp_timestamp p) of
        None \<Rightarrow> False | Some t \<Rightarrow> t \<ge> a \<and> t \<le> b) (pings_listByVehicleId pings v)) =
      sort_key (\<lambda>p. the (parse (lp_timestamp p)))
        [p \<leftarrow> pings. lp_vehicleId p = v \<and> (\<exists>t \<in> {a..b}. parse (lp_timestamp p) = Some t)]" for a b
  proof -
    have "filter (\<lambda>p. case parse (lp_timestamp p) of None \<Rightarrow> False | Some t \<Rightarrow> t \<ge> a \<and> t \<le> b)
        (pings_listByVehicleId pings v) =
        [p \<leftarrow> pings. lp_vehicleId p = v \<and> (\<exists>t \<in> {a..b}. parse (lp_timestamp p) = Some t)]"
      by (auto simp: pings_listByVehicleId_def filter_filter split: option.split intro!: filter_cong)
    moreover have "\<forall>x \<in> set [p \<leftarrow> pings. lp_vehicleId p = v \<and> (\<exists>t \<in> {a..b}. parse (lp_timestamp p) = Some t)].
        parse (lp_timestamp x) \<noteq> None" by auto
    ultimately show ?thesis by (simp only: stableSortByTime_eq)
  qed
  then show ?thesis
    unfolding getVehicleTrack_def parseRange_def by (auto split: option.split)
qed

text \<open>
  A delivery's history loses and invents nothing, and when every recorded time parses it is
  in ascending order of time, entries of the same time in the order they were recorded.
\<close>

theorem getDeliveryHistory_spec:
  "mset (getDeliveryHistory parse history i) = mset [e \<leftarrow> history. he_deliveryId e = i] \<and>
   (if list_all (\<lambda>e. parse (he_occurredAt e) \<noteq> None) history
    then getDeliveryHistory parse history i =
      sort_key (\<lambda>e. the (parse (he_occurredAt e))) [e \<leftarrow> history. he_deliveryId e = i]
    else True)"
  by (auto simp: getDeliveryHistory_def history_listByDeliveryId_def mset_stableSortByTime list_all_iff
      intro!: stableSortByTime_eq)

lemma summary_loop:
  "foldl (summary_step parse a b) s es =
     (let n = (\<lambda>st. length (filter (\<lambda>e. he_toStatus e = st \<and>
          (case parse (he_occurredAt e) of None \<Rightarrow> True | Some t \<Rightarrow> t \<in> {a..b})) es))
      in \<lparr>sum_completed = sum_completed s + n Completed, sum_failed = sum_failed s + n Failed,
          sum_cancelled = sum_cancelled s + n Cancelled\<rparr>)"
proof (induction es arbitrary: s)
  case (Cons e es)
  have "(case parse (he_occurredAt e) of None \<Rightarrow> False | Some t \<Rightarrow> t < a \<or> t > b) =
      (\<not> (case parse (he_occurredAt e) of None \<Rightarrow> True | Some t \<Rightarrow> t \<in> {a..b}))"
    by (auto split: option.split)
  then show ?case
    using Cons by (cases "he_toStatus e") (simp_all add: summary_step_def Let_def)
qed simp

text \<open>
  The summary counts, for each terminal status, the history entries with that status and a
  time in the closed range. An entry whose time does not parse is counted in every range: the
  loop skips an entry only when a comparison holds, and none holds for \<open>NaN\<close>.
\<close>

theorem getDeliverySummary_spec:
  "getDeliverySummary parse history rng =
     (case (parse (tr_from rng), parse (tr_to rng)) of
        (Some a, Some b) \<Rightarrow> if b < a then Inl (domain_error ValidationError [''from'', ''to''] 400)
          else (let n = (\<lambda>st. length [e \<leftarrow> history. he_toStatus e = st \<and>
                  (case parse (he_occurredAt e) of None \<Rightarrow> True | Some t \<Rightarrow> t \<in> {a..b})])
            in Inr \<lparr>sum_completed = n Completed, sum_failed = n Failed, sum_cancelled = n Cancelled\<rparr>)
      | _ \<Rightarrow> Inl (domain_error ValidationError [''from'', ''to''] 400))"
  by (simp add: getDeliverySummary_def parseRange_def summary_loop Let_def split: option.split)

end
