(* ===== verification/Json.thy ===== *)
theory Json
  imports Doubles "HOL-Library.Monad_Syntax"
begin

text \<open>
  The parts of JavaScript's \<open>JSON\<close> object the source uses: \<open>JSON.stringify\<close> without a
  replacer or indentation and \<open>JSON.parse\<close> without a reviver, on dynamic values.

  A number literal reads as the 64-bit number nearest to what it writes, an infinity when it
  overflows (there is one zero). How a number that is not an integer below \<open>2^53\<close> is printed depends on
  the shortest representation of a 64-bit number and is a parameter (\<open>show_frac\<close>); the round trip is for
  numbers whose text, so printed, reads back as the number, as the language promises.
  Strings are over the code units 0 to 255; a \<open>\u\<close> escape of a higher one is outside the model
  and treated as a syntax error. The main results are the round trip \<open>json_parse_text\<close> and
  \<open>jvalue_fuel\<close>: the fuel of the parser is never exhausted.
\<close>

section \<open>Numbers\<close>

definition int_str :: "int \<Rightarrow> string" where
  "int_str k = (if k < 0 then CHR ''-'' # nat_str (nat (- k)) else nat_str (nat k))"

text \<open>\<open>Number.prototype.toString\<close>.\<close>

definition num_str :: "(real \<Rightarrow> string) \<Rightarrow> jsnum \<Rightarrow> string" where
  "num_str show_frac x = (case x of
      NaN \<Rightarrow> ''NaN''
    | PInf \<Rightarrow> ''Infinity''
    | NInf \<Rightarrow> ''-Infinity''
    | Fin r \<Rightarrow> if r = of_int \<lfloor>r\<rfloor> \<and> \<bar>r\<bar> < 2 ^ 53 then int_str \<lfloor>r\<rfloor> else show_frac r)"

definition is_digit :: "char \<Rightarrow> bool" where
  "is_digit c \<longleftrightarrow> 48 \<le> char_code c \<and> char_code c \<le> 57"

definition dec_digit :: "char \<Rightarrow> nat" where
  "dec_digit c = char_code c - 48"

definition decimal :: "string \<Rightarrow> nat" where
  "decimal ds = foldl (\<lambda>n c. 10 * n + dec_digit c) 0 ds"

section \<open>Printing\<close>

abbreviation "QUOTE \<equiv> CHR 0x22"
abbreviation "BACKSLASH \<equiv> CHR 0x5C"

definition json_escape :: "char \<Rightarrow> string" where
  "json_escape c =
     (if c = QUOTE then [BACKSLASH, QUOTE]
      else if c = BACKSLASH then [BACKSLASH, BACKSLASH]
      else if c = CHR 0x08 then [BACKSLASH, CHR ''b'']
      else if c = CHR 0x0C then [BACKSLASH, CHR ''f'']
      else if c = CHR 0x0A then [BACKSLASH, CHR ''n'']
      else if c = CHR 0x0D then [BACKSLASH, CHR ''r'']
      else if c = CHR 0x09 then [BACKSLASH, CHR ''t'']
      else if char_code c < 32 then
        [BACKSLASH, CHR ''u'', CHR ''0'', CHR ''0'',
         radix_digit (char_code c div 16), radix_digit (char_code c mod 16)]
      else [c])"

definition json_quote :: "string \<Rightarrow> string" where
  "json_quote s = QUOTE # concat (map json_escape s) @ [QUOTE]"

text \<open>
  \<open>undefined\<close> has no text: it prints as \<open>null\<close> in an array and its property is left out of an
  object; \<open>NaN\<close> and the infinities print as \<open>null\<close>.
\<close>

fun json_text :: "(real \<Rightarrow> string) \<Rightarrow> jsval \<Rightarrow> string"
  and json_member :: "(real \<Rightarrow> string) \<Rightarrow> string \<times> jsval \<Rightarrow> string" where
  "json_text show_frac Undefined = ''null''"
| "json_text show_frac Null = ''null''"
| "json_text show_frac (Bool b) = (if b then ''true'' else ''false'')"
| "json_text show_frac (Num x) = (if is_finite_num x then num_str show_frac x else ''null'')"
| "json_text show_frac (Str s) = json_quote s"
| "json_text show_frac (Arr vs) = ''['' @ js_join '','' (map (json_text show_frac) vs) @ '']''"
| "json_text show_frac (Obj ps) =
     ''{'' @ js_join '','' (map (json_member show_frac) (filter (\<lambda>p. snd p \<noteq> Undefined) ps)) @ ''}''"
| "json_member show_frac (k, v) = json_quote k @ '':'' @ json_text show_frac v"

definition json_stringify :: "(real \<Rightarrow> string) \<Rightarrow> jsval \<Rightarrow> string option" where
  "json_stringify show_frac v = (if v = Undefined then None else Some (json_text show_frac v))"

section \<open>Parsing\<close>

definition json_space :: "char \<Rightarrow> bool" where
  "json_space c \<longleftrightarrow> c \<in> {CHR 0x20, CHR 0x09, CHR 0x0A, CHR 0x0D}"

definition skip_space :: "string \<Rightarrow> string" where
  "skip_space s = dropWhile json_space s"

definition hex_val :: "char \<Rightarrow> nat option" where
  "hex_val c = (let n = char_code c in
     if 48 \<le> n \<and> n \<le> 57 then Some (n - 48)
     else if 97 \<le> n \<and> n \<le> 102 then Some (n - 87)
     else if 65 \<le> n \<and> n \<le> 70 then Some (n - 55)
     else None)"

fun hex4 :: "string \<Rightarrow> nat option" where
  "hex4 [a, b, c, d] = do {
     a' \<leftarrow> hex_val a; b' \<leftarrow> hex_val b; c' \<leftarrow> hex_val c; d' \<leftarrow> hex_val d;
     Some (4096 * a' + 256 * b' + 16 * c' + d') }"
| "hex4 _ = None"

definition unescape :: "char \<Rightarrow> char option" where
  "unescape c =
     (if c = QUOTE then Some QUOTE else if c = BACKSLASH then Some BACKSLASH
      else if c = CHR ''/'' then Some (CHR ''/'')
      else if c = CHR ''b'' then Some (CHR 0x08) else if c = CHR ''f'' then Some (CHR 0x0C)
      else if c = CHR ''n'' then Some (CHR 0x0A) else if c = CHR ''r'' then Some (CHR 0x0D)
      else if c = CHR ''t'' then Some (CHR 0x09) else None)"

definition prefix_char :: "char \<Rightarrow> string \<times> string \<Rightarrow> string \<times> string" where
  "prefix_char c = (\<lambda>(t, r). (c # t, r))"

text \<open>The characters of a string literal after its opening quote, and the text after it.\<close>

function jstring :: "string \<Rightarrow> (string \<times> string) option" where
  "jstring s = (case s of
      [] \<Rightarrow> None
    | c # cs \<Rightarrow>
        if c = QUOTE then Some ([], cs)
        else if c = BACKSLASH then
          (case cs of
             [] \<Rightarrow> None
           | e # es \<Rightarrow>
               if e = CHR ''u'' then
                 (case hex4 (take 4 es) of
                    Some k \<Rightarrow> if k < 256 then map_option (prefix_char (char_of k)) (jstring (drop 4 es)) else None
                  | None \<Rightarrow> None)
               else (case unescape e of
                    Some d \<Rightarrow> map_option (prefix_char d) (jstring es)
                  | None \<Rightarrow> None))
        else if char_code c < 32 then None
        else map_option (prefix_char c) (jstring cs))"
  by pat_completeness auto
termination
  by (relation "measure length") auto

declare jstring.simps [simp del]

text \<open>A number literal: optional sign, integer part, optional fraction, optional exponent.\<close>

definition span_digits :: "string \<Rightarrow> string \<times> string" where
  "span_digits s = (takeWhile is_digit s, dropWhile is_digit s)"

definition jfraction :: "string \<Rightarrow> (string \<times> string) option" where
  "jfraction s = (case s of
      c # cs \<Rightarrow> if c = CHR ''.'' then
                 (case span_digits cs of (fs, r) \<Rightarrow> if fs = [] then None else Some (fs, r))
               else Some ([], s)
    | [] \<Rightarrow> Some ([], s))"

definition jsign :: "string \<Rightarrow> int \<times> string" where
  "jsign s = (case s of
      c # cs \<Rightarrow> if c = CHR ''-'' then (-1, cs) else if c = CHR ''+'' then (1, cs) else (1, s)
    | [] \<Rightarrow> (1, s))"

definition jexponent :: "string \<Rightarrow> (int \<times> string) option" where
  "jexponent s = (case s of
      c # cs \<Rightarrow> if c = CHR ''e'' \<or> c = CHR ''E'' then
                 (case jsign cs of (sg, cs') \<Rightarrow>
                    (case span_digits cs' of (es, r) \<Rightarrow>
                       if es = [] then None else Some (sg * int (decimal es), r)))
               else Some (0, s)
    | [] \<Rightarrow> Some (0, s))"

definition jnumber :: "string \<Rightarrow> (jsval \<times> string) option" where
  "jnumber s = (let (neg, s1) = (case s of c # cs \<Rightarrow> if c = CHR ''-'' then (True, cs) else (False, s) | [] \<Rightarrow> (False, s));
                    (ds, s2) = span_digits s1 in
     if ds = [] \<or> (length ds > 1 \<and> hd ds = CHR ''0'') then None
     else do {
       (fs, s3) \<leftarrow> jfraction s2;
       (e, s4) \<leftarrow> jexponent s3;
       let m = (if neg then - of_nat (decimal (ds @ fs)) else of_nat (decimal (ds @ fs)) :: real);
       Some (Num (to_double (m * 10 powi (e - int (length fs)))), s4) })"

text \<open>\<open>JSON.parse\<close> keeps the last value of a repeated key, at the key's first place.\<close>

definition obj_of :: "(string \<times> jsval) list \<Rightarrow> jsval" where
  "obj_of ps = Obj (fold (\<lambda>(k, v). AList.update k v) ps [])"

definition jliteral :: "string \<Rightarrow> (jsval \<times> string) option" where
  "jliteral s =
     (if starts_with s ''null'' then Some (Null, drop 4 s)
      else if starts_with s ''true'' then Some (Bool True, drop 4 s)
      else if starts_with s ''false'' then Some (Bool False, drop 5 s)
      else jnumber s)"

fun jvalue :: "nat \<Rightarrow> string \<Rightarrow> (jsval \<times> string) option"
  and jelems :: "nat \<Rightarrow> string \<Rightarrow> (jsval list \<times> string) option"
  and jmembers :: "nat \<Rightarrow> string \<Rightarrow> ((string \<times> jsval) list \<times> string) option" where
  "jvalue 0 s = None"
| "jvalue (Suc n) s = (case skip_space s of
      [] \<Rightarrow> None
    | c # r \<Rightarrow>
        if c = QUOTE then map_option (\<lambda>(t, r'). (Str t, r')) (jstring r)
        else if c = CHR ''['' then
          (case skip_space r of
             [] \<Rightarrow> None
           | d # r' \<Rightarrow> if d = CHR '']'' then Some (Arr [], r')
                      else map_option (\<lambda>(vs, r''). (Arr vs, r'')) (jelems n (d # r')))
        else if c = CHR ''{'' then
          (case skip_space r of
             [] \<Rightarrow> None
           | d # r' \<Rightarrow> if d = CHR ''}'' then Some (Obj [], r')
                      else map_option (\<lambda>(ps, r''). (obj_of ps, r'')) (jmembers n (d # r')))
        else jliteral (c # r))"
| "jelems 0 s = None"
| "jelems (Suc n) s = (case jvalue n s of
      None \<Rightarrow> None
    | Some (v, r) \<Rightarrow>
        (case skip_space r of
           [] \<Rightarrow> None
         | d # r' \<Rightarrow>
             if d = CHR '','' then map_option (\<lambda>(vs, r''). (v # vs, r'')) (jelems n r')
             else if d = CHR '']'' then Some ([v], r') else None))"
| "jmembers 0 s = None"
| "jmembers (Suc n) s = (case skip_space s of
      [] \<Rightarrow> None
    | q # r \<Rightarrow>
        if q \<noteq> QUOTE then None
        else (case jstring r of
           None \<Rightarrow> None
         | Some (k, r1) \<Rightarrow>
             (case skip_space r1 of
                [] \<Rightarrow> None
              | d # r2 \<Rightarrow>
                  if d \<noteq> CHR '':'' then None
                  else (case jvalue n r2 of
                     None \<Rightarrow> None
                   | Some (v, r3) \<Rightarrow>
                       (case skip_space r3 of
                          [] \<Rightarrow> None
                        | e # r4 \<Rightarrow>
                            if e = CHR '','' then map_option (\<lambda>(ps, r'). ((k, v) # ps, r')) (jmembers n r4)
                            else if e = CHR ''}'' then Some ([(k, v)], r4) else None)))))"

definition json_parse :: "string \<Rightarrow> jsval option" where
  "json_parse s = (case jvalue (2 * length s + 1) s of
      Some (v, r) \<Rightarrow> if skip_space r = [] then Some v else None
    | None \<Rightarrow> None)"

text \<open>Reading a property: \<open>None\<close> is the \<open>TypeError\<close> on \<open>null\<close> and \<open>undefined\<close>.\<close>

definition js_prop :: "jsval \<Rightarrow> string \<Rightarrow> jsval option" where
  "js_prop v k = (case v of
      Undefined \<Rightarrow> None
    | Null \<Rightarrow> None
    | Obj ps \<Rightarrow> Some (or_else (map_of ps k) Undefined)
    | _ \<Rightarrow> Some Undefined)"

section \<open>The parser's fuel is enough\<close>

lemma skip_space_length: "length (skip_space s) \<le> length s"
  by (simp add: skip_space_def length_dropWhile_le)

lemma skip_space_Cons: "skip_space s = c # r \<Longrightarrow> length r < length s"
  using skip_space_length [of s] by simp

lemma jstring_Nil [simp]: "jstring [] = None"
  by (simp add: jstring.simps)

lemma jstring_Cons:
  "jstring (c # cs) =
     (if c = QUOTE then Some ([], cs)
      else if c = BACKSLASH then
        (case cs of
           [] \<Rightarrow> None
         | e # es \<Rightarrow>
             if e = CHR ''u'' then
               (case hex4 (take 4 es) of
                  Some k \<Rightarrow> if k < 256 then map_option (prefix_char (char_of k)) (jstring (drop 4 es)) else None
                | None \<Rightarrow> None)
             else (case unescape e of
                  Some d \<Rightarrow> map_option (prefix_char d) (jstring es)
                | None \<Rightarrow> None))
      else if char_code c < 32 then None
      else map_option (prefix_char c) (jstring cs))"
  by (subst jstring.simps) simp

text \<open>A successful step either ends at the quote or continues on a shorter rest.\<close>

lemma jstring_continues:
  assumes "jstring (c # cs) = Some (t, r)" "c \<noteq> QUOTE"
  shows "\<exists>x t'. length x \<le> length cs \<and> jstring x = Some (t', r)"
proof (cases "c = BACKSLASH")
  case True
  with assms(1) obtain e es where cs: "cs = e # es"
    unfolding jstring_Cons if_not_P [OF assms(2)] if_P [OF True] by (cases cs) auto
  show ?thesis
  proof (cases "e = CHR ''u''")
    case u: True
    from assms(1) have "\<exists>t'. jstring (drop 4 es) = Some (t', r)"
      unfolding jstring_Cons if_not_P [OF assms(2)] if_P [OF True] cs list.case if_P [OF u]
      by (auto simp: prefix_char_def split: option.splits if_split_asm)
    moreover have "length (drop 4 es) \<le> length cs" by (simp add: cs)
    ultimately show ?thesis by blast
  next
    case False
    from assms(1) have "\<exists>t'. jstring es = Some (t', r)"
      unfolding jstring_Cons if_not_P [OF assms(2)] if_P [OF True] cs list.case if_not_P [OF False]
      by (auto simp: prefix_char_def split: option.splits)
    moreover have "length es \<le> length cs" by (simp add: cs)
    ultimately show ?thesis by blast
  qed
next
  case False
  from assms(1) have "\<exists>t'. jstring cs = Some (t', r)"
    unfolding jstring_Cons if_not_P [OF assms(2)] if_not_P [OF False]
    by (auto simp: prefix_char_def split: if_split_asm)
  then show ?thesis by auto
qed

lemma jstring_shorter: "jstring s = Some (t, r) \<Longrightarrow> length r < length s"
proof (induction s arbitrary: t r rule: length_induct)
  case (1 s)
  from "1.prems" obtain c cs where s: "s = c # cs" by (cases s) auto
  show ?case
  proof (cases "c = QUOTE")
    case True
    with "1.prems" show ?thesis by (simp add: s jstring_Cons)
  next
    case False
    with jstring_continues "1.prems" s obtain x t' where "length x \<le> length cs" "jstring x = Some (t', r)"
      by blast
    moreover from this have "length r < length x" using "1.IH" s by simp
    ultimately show ?thesis by (simp add: s)
  qed
qed

lemma span_digits_length: "span_digits s = (ds, r) \<Longrightarrow> length ds + length r = length s"
  unfolding span_digits_def by (auto simp flip: length_append)

lemma jfraction_length: "jfraction s = Some (fs, r) \<Longrightarrow> length r \<le> length s"
  by (auto simp: jfraction_def split: list.splits if_splits prod.splits dest!: span_digits_length)

lemma jsign_length: "jsign s = (sg, r) \<Longrightarrow> length r \<le> length s"
  by (auto simp: jsign_def split: list.splits if_splits)

lemma jexponent_length: "jexponent s = Some (e, r) \<Longrightarrow> length r \<le> length s"
  by (auto simp: jexponent_def split: list.splits if_splits prod.splits
      dest!: span_digits_length jsign_length)

lemma jnumber_shorter:
  assumes "jnumber s = Some (v, r)"
  shows "length r < length s"
proof -
  obtain neg s1 where neg: "(case s of c # cs \<Rightarrow> if c = CHR ''-'' then (True, cs) else (False, s)
      | [] \<Rightarrow> (False, s)) = (neg, s1)"
    by (metis surj_pair)
  then have l1: "length s1 \<le> length s" by (auto split: list.splits if_splits)
  obtain ds s2 where ds: "span_digits s1 = (ds, s2)" by (metis surj_pair)
  from assms obtain fs s3 e where "ds \<noteq> []" "jfraction s2 = Some (fs, s3)" "jexponent s3 = Some (e, r)"
    unfolding jnumber_def neg Let_def prod.case ds
    by (auto split: if_splits bind_splits)
  with l1 span_digits_length [OF ds] jfraction_length jexponent_length show ?thesis
    by (metis add_less_cancel_right add_0 length_greater_0_conv order.strict_trans1 order.strict_trans2)
qed

lemma jliteral_shorter: "jliteral s = Some (v, r) \<Longrightarrow> length r < length s"
  by (auto simp: jliteral_def starts_with_iff dest: jnumber_shorter split: if_splits)

lemma parser_shorter:
  "(jvalue n s = Some (v, r) \<longrightarrow> length r < length s)
   \<and> (jelems n s = Some (vs, r) \<longrightarrow> length r < length s)
   \<and> (jmembers n s = Some (ps, r) \<longrightarrow> length r < length s)"
proof (induction n arbitrary: s v vs ps r)
  case (Suc n)
  note IH = Suc.IH [THEN conjunct1, rule_format] Suc.IH [THEN conjunct2, THEN conjunct1, rule_format]
    Suc.IH [THEN conjunct2, THEN conjunct2, rule_format]
  show ?case
  proof (intro conjI impI)
    assume "jvalue (Suc n) s = Some (v, r)"
    then show "length r < length s"
      by (auto split: list.splits if_split_asm dest!: skip_space_Cons jstring_shorter jliteral_shorter IH)
  next
    assume "jelems (Suc n) s = Some (vs, r)"
    then show "length r < length s"
      by (auto split: list.splits if_split_asm option.splits dest!: skip_space_Cons IH)
  next
    assume "jmembers (Suc n) s = Some (ps, r)"
    then show "length r < length s"
      by (auto split: list.splits if_split_asm option.splits dest!: skip_space_Cons jstring_shorter IH)
  qed
qed simp

lemmas jvalue_shorter = parser_shorter [THEN conjunct1, rule_format]
lemmas jelems_shorter = parser_shorter [THEN conjunct2, THEN conjunct1, rule_format]
lemmas jmembers_shorter = parser_shorter [THEN conjunct2, THEN conjunct2, rule_format]

text \<open>Twice the length of the text is enough: more fuel changes nothing.\<close>

lemma parser_fuel:
  "(2 * length s < n \<and> 2 * length s < m \<longrightarrow> jvalue n s = jvalue m s)
   \<and> (2 * length s + 1 < n \<and> 2 * length s + 1 < m \<longrightarrow> jelems n s = jelems m s \<and> jmembers n s = jmembers m s)"
proof (induction n arbitrary: m s)
  case (Suc n)
  note V = Suc.IH [THEN conjunct1, rule_format]
  note E = Suc.IH [THEN conjunct2, rule_format, THEN conjunct1]
  note M = Suc.IH [THEN conjunct2, rule_format, THEN conjunct2]
  show ?case
  proof (intro conjI impI)
    assume len: "2 * length s < Suc n \<and> 2 * length s < m"
    then obtain k where m: "m = Suc k" by (cases m) auto
    have "jelems n (d # r') = jelems k (d # r')" "jmembers n (d # r') = jmembers k (d # r')"
      if "skip_space s = c # r" "skip_space r = d # r'" for c r d r'
      using E [of "d # r'" k] M [of "d # r'" k] len m skip_space_length [of s] skip_space_length [of r] that
      by auto
    then show "jvalue (Suc n) s = jvalue m s"
      unfolding m jvalue.simps by (auto split: list.split)
  next
    assume len: "2 * length s + 1 < Suc n \<and> 2 * length s + 1 < m"
    then obtain k where m: "m = Suc k" by (cases m) auto
    have v: "jvalue n s = jvalue k s" using V [of s k] len m by auto
    have rest: "jelems n r' = jelems k r'"
      if "jvalue k s = Some (v, r)" "skip_space r = d # r'" for v r d r'
      using E [of r' k] len m jvalue_shorter [OF that(1)] skip_space_Cons [OF that(2)] by auto
    show "jelems (Suc n) s = jelems m s"
      unfolding m jelems.simps v by (auto split: option.split list.split simp: rest)
  next
    assume len: "2 * length s + 1 < Suc n \<and> 2 * length s + 1 < m"
    then obtain k where m: "m = Suc k" by (cases m) auto
    have v: "jvalue n r2 = jvalue k r2"
      if "skip_space s = q # r" "jstring r = Some (t, r1)" "skip_space r1 = d # r2" for q r t r1 d r2
      using V [of r2 k] len m skip_space_Cons [OF that(1)] jstring_shorter [OF that(2)]
        skip_space_Cons [OF that(3)] by auto
    have rest: "jmembers n r4 = jmembers k r4"
      if "skip_space s = q # r" "jstring r = Some (t, r1)" "skip_space r1 = d # r2"
        "jvalue k r2 = Some (v, r3)" "skip_space r3 = e # r4" for q r t r1 d r2 v r3 e r4
      using M [of r4 k] len m skip_space_Cons [OF that(1)] jstring_shorter [OF that(2)]
        skip_space_Cons [OF that(3)] jvalue_shorter [OF that(4)] skip_space_Cons [OF that(5)] by auto
    show "jmembers (Suc n) s = jmembers m s"
      unfolding m jmembers.simps by (auto split: option.split list.split simp: v rest)
  qed
qed simp

lemma jvalue_fuel: "2 * length s < n \<Longrightarrow> jvalue n s = jvalue (2 * length s + 1) s"
  using parser_fuel [of s n "2 * length s + 1"] by auto

section \<open>Round trip: strings and numbers\<close>

lemma char_of_char_code [simp]: "char_of (char_code c) = c"
  by (simp add: char_code_def)

lemma char_code_less [simp]: "char_code c < 256"
  by (simp add: char_code_def)

lemma hex_val_digit: "d < 16 \<Longrightarrow> hex_val (radix_digit d) = Some d"
  by (auto simp: hex_val_def Let_def char_code_radix_digit)

lemma hex4_control:
  assumes "char_code c < 32"
  shows "hex4 [CHR ''0'', CHR ''0'', radix_digit (char_code c div 16), radix_digit (char_code c mod 16)]
    = Some (char_code c)"
proof -
  have zero: "hex_val (CHR ''0'') = Some 0" by (simp add: hex_val_def char_code_def)
  have "char_code c div 16 < 16" using assms by simp
  then show ?thesis by (simp add: zero hex_val_digit)
qed

lemma jstring_escape: "jstring (json_escape c @ x) = map_option (prefix_char c) (jstring x)"
proof -
  let ?special = "{QUOTE, BACKSLASH, CHR 0x08, CHR 0x0C, CHR 0x0A, CHR 0x0D, CHR 0x09}"
  consider (special) "c \<in> ?special"
    | (control) "c \<notin> ?special" "char_code c < 32"
    | (plain) "c \<notin> ?special" "\<not> char_code c < 32"
    by blast
  then show ?thesis
  proof cases
    case special
    then show ?thesis by (auto simp: json_escape_def jstring_Cons unescape_def)
  next
    case control
    then have "json_escape c = [BACKSLASH, CHR ''u'', CHR ''0'', CHR ''0'',
         radix_digit (char_code c div 16), radix_digit (char_code c mod 16)]"
      by (simp add: json_escape_def)
    then show ?thesis
      using hex4_control [OF control(2)] by (simp add: jstring_Cons)
  next
    case plain
    then show ?thesis by (simp add: json_escape_def jstring_Cons)
  qed
qed

lemma jstring_quoted: "jstring (concat (map json_escape s) @ QUOTE # r) = Some (s, r)"
  by (induction s) (simp_all add: jstring_escape prefix_char_def, simp add: jstring_Cons)

lemma is_digit_radix_digit: "d < 10 \<Longrightarrow> is_digit (radix_digit d)"
  by (simp add: is_digit_def char_code_radix_digit)

lemma dec_digit_radix: "d < 10 \<Longrightarrow> dec_digit (radix_digit d) = d"
  by (simp add: dec_digit_def char_code_radix_digit)

lemma nat_str_digits: "list_all is_digit (nat_str n)"
proof (induction n rule: less_induct)
  case (less n)
  then show ?case
    using less [of "n div 10"]
    by (cases "n < 10") (simp_all add: nat_str_def to_radix.simps [of 10 n] is_digit_radix_digit)
qed

lemma decimal_snoc: "decimal (ds @ [c]) = 10 * decimal ds + dec_digit c"
  by (simp add: decimal_def)

lemma decimal_nat_str [simp]: "decimal (nat_str n) = n"
proof (induction n rule: less_induct)
  case (less n)
  show ?case
  proof (cases "n < 10")
    case True
    then show ?thesis
      by (simp add: nat_str_def to_radix.simps [of 10 n] decimal_def dec_digit_radix)
  next
    case False
    with less [of "n div 10"] show ?thesis
      by (simp add: nat_str_def to_radix.simps [of 10 n] decimal_snoc dec_digit_radix)
  qed
qed

lemma nat_str_nonempty [simp]: "nat_str n \<noteq> []"
  by (simp add: nat_str_def)

lemma hd_nat_str: "hd (nat_str n) = CHR ''0'' \<Longrightarrow> n = 0"
proof (induction n rule: less_induct)
  case (less n)
  show ?case
  proof (cases "n < 10")
    case True
    with less.prems have "dec_digit (radix_digit n) = dec_digit (CHR ''0'')"
      by (simp add: nat_str_def to_radix.simps [of 10 n])
    then show ?thesis using True by (simp add: dec_digit_radix) (simp add: dec_digit_def char_code_def)
  next
    case False
    with less.prems have "hd (nat_str (n div 10)) = CHR ''0''"
      by (simp add: nat_str_def to_radix.simps [of 10 n])
    with less.IH [of "n div 10"] False show ?thesis by simp
  qed
qed

lemma nat_str_zero: "nat_str 0 = ''0''"
  by code_simp

text \<open>What may follow a value inside a printed text.\<close>

definition follows :: "string \<Rightarrow> bool" where
  "follows r \<longleftrightarrow> (case r of [] \<Rightarrow> True | c # _ \<Rightarrow> c \<in> {CHR '','', CHR '']'', CHR ''}''})"

lemma follows_simps [simp]:
  "follows []" "follows (CHR '','' # r)" "follows (CHR '']'' # r)" "follows (CHR ''}'' # r)"
  by (simp_all add: follows_def)

lemma follows_cases:
  assumes "follows r"
  obtains "r = []" | c r' where "r = c # r'" "c \<in> {CHR '','', CHR '']'', CHR ''}''}"
  using assms by (cases r) (auto simp: follows_def)

lemma span_digits_append:
  assumes "list_all is_digit ds" "follows r"
  shows "span_digits (ds @ r) = (ds, r)"
  using assms(2)
proof (cases rule: follows_cases)
  case 1
  with assms(1) show ?thesis
    by (simp add: span_digits_def list_all_iff takeWhile_eq_all_conv dropWhile_eq_Nil_conv)
next
  case (2 c r')
  then have "\<not> is_digit c" by (auto simp: is_digit_def char_code_def)
  with assms(1) 2(1) show ?thesis
    by (simp add: span_digits_def list_all_iff)
qed

lemma jfraction_follows: "follows r \<Longrightarrow> jfraction r = Some ([], r)"
  by (erule follows_cases) (auto simp: jfraction_def)

lemma jexponent_follows: "follows r \<Longrightarrow> jexponent r = Some (0, r)"
  by (erule follows_cases) (auto simp: jexponent_def)

lemma to_double_int: "\<bar>k\<bar> < 2 ^ 53 \<Longrightarrow> to_double (of_int k) = Fin (of_int k)"
proof -
  assume k: "\<bar>k\<bar> < 2 ^ 53"
  then have "real_of_int \<bar>k\<bar> < real_of_int (2 ^ 53)" by (rule of_int_less_iff [THEN iffD2])
  moreover have "(2 :: real) ^ 53 \<le> 2 ^ 1000" by (rule power_increasing) simp_all
  ultimately show ?thesis by (intro to_double_exact is_double_int k) simp
qed

lemma jnumber_int_str:
  assumes "follows r" "\<bar>k\<bar> < 2 ^ 53"
  shows "jnumber (int_str k @ r) = Some (Num (Fin (of_int k)), r)"
proof -
  have lead: "\<not> (length (nat_str n) > 1 \<and> hd (nat_str n) = CHR ''0'')" for n
    using hd_nat_str [of n] by (auto simp: nat_str_zero)
  have nominus: "(case nat_str n @ r of c # cs \<Rightarrow> if c = CHR ''-'' then (True, cs) else (False, nat_str n @ r)
      | [] \<Rightarrow> (False, nat_str n @ r)) = (False, nat_str n @ r)" for n
    using nat_str_digits [of n] by (cases "nat_str n") (auto simp: is_digit_def char_code_def)
  note digits = span_digits_append [OF nat_str_digits assms(1)]
  note tail = jfraction_follows [OF assms(1)] jexponent_follows [OF assms(1)]
  have whole: "to_double (real n) = Fin (real n)" "to_double (- real n) = Fin (- real n)" if "int n < 2 ^ 53" for n
    using to_double_int [of "int n"] to_double_int [of "- int n"] that by simp_all
  show ?thesis
  proof (cases "k < 0")
    case True
    then show ?thesis
      using lead [of "nat (- k)"] whole(2) [of "nat (- k)"] assms(2)
      by (simp add: int_str_def jnumber_def Let_def digits tail)
  next
    case False
    then show ?thesis
      using lead [of "nat k"] whole(1) [of "nat k"] assms(2)
      by (simp add: int_str_def jnumber_def nominus Let_def digits tail)
  qed
qed

text \<open>Whatever may follow a number does not change how it is read.\<close>

lemma span_digits_follows:
  assumes "follows r"
  shows "span_digits (s @ r) = (fst (span_digits s), snd (span_digits s) @ r)"
proof (induction s)
  case Nil
  show ?case using span_digits_append [OF _ assms, of "[]"] by (simp add: span_digits_def)
next
  case (Cons c s)
  then show ?case by (simp add: span_digits_def)
qed

lemma jfraction_append:
  assumes "follows r" "jfraction s = Some (fs, x)"
  shows "jfraction (s @ r) = Some (fs, x @ r)"
proof (cases s)
  case Nil
  with assms show ?thesis using jfraction_follows [OF assms(1)] by (simp add: jfraction_def)
next
  case (Cons c cs)
  with assms(2) show ?thesis
    by (auto simp: jfraction_def span_digits_follows [OF assms(1)] split: if_splits prod.splits)
qed

lemma jsign_append: "follows r \<Longrightarrow> jsign (s @ r) = (fst (jsign s), snd (jsign s) @ r)"
  by (cases s) (auto simp: jsign_def elim!: follows_cases split: list.split)

lemma jexponent_append:
  assumes "follows r" "jexponent s = Some (e, x)"
  shows "jexponent (s @ r) = Some (e, x @ r)"
proof (cases s)
  case Nil
  with assms show ?thesis using jexponent_follows [OF assms(1)] by (simp add: jexponent_def)
next
  case (Cons c cs)
  with assms(2) show ?thesis
    by (auto simp: jexponent_def jsign_append [OF assms(1)] span_digits_follows [OF assms(1)] split: if_splits prod.splits)
qed

lemma jnumber_append:
  assumes "follows r" "jnumber s = Some (v, x)"
  shows "jnumber (s @ r) = Some (v, x @ r)"
proof -
  obtain neg s1 where s1: "(case s of c # cs \<Rightarrow> if c = CHR ''-'' then (True, cs) else (False, s) | [] \<Rightarrow> (False, s)) = (neg, s1)"
    by fastforce
  obtain ds s2 where s2: "span_digits s1 = (ds, s2)" by fastforce
  from assms(2) obtain fs s3 e where ok: "\<not> (ds = [] \<or> (length ds > 1 \<and> hd ds = CHR ''0''))"
    and s3: "jfraction s2 = Some (fs, s3)" and x: "jexponent s3 = Some (e, x)"
    and v: "v = Num (to_double ((if neg then - of_nat (decimal (ds @ fs)) else of_nat (decimal (ds @ fs))) * 10 powi (e - int (length fs))))"
    by (auto simp: jnumber_def s1 s2 Let_def split: if_splits Option.bind_splits)
  have "s \<noteq> []" using s1 s2 ok by (auto simp: span_digits_def)
  then have "(case s @ r of c # cs \<Rightarrow> if c = CHR ''-'' then (True, cs) else (False, s @ r) | [] \<Rightarrow> (False, s @ r)) = (neg, s1 @ r)"
    using s1 by (cases s) (auto split: if_splits)
  then show ?thesis
    using ok by (simp add: jnumber_def span_digits_follows [OF assms(1)] s2 Let_def jfraction_append [OF assms(1) s3]
        jexponent_append [OF assms(1) x] v)
qed

lemma jnumber_start: "jnumber s = Some (v, x) \<Longrightarrow> \<exists>c cs. s = c # cs \<and> (c = CHR ''-'' \<or> is_digit c)"
  by (cases s) (auto simp: jnumber_def span_digits_def Let_def split: if_splits)

section \<open>Round trip: values\<close>

text \<open>
  Values whose text determines them: no \<open>undefined\<close>, no repeated key, finite numbers, those that are no
  integers below \<open>2^53\<close> printed so that they read back.
\<close>

definition number_reads :: "(real \<Rightarrow> string) \<Rightarrow> real \<Rightarrow> bool" where
  "number_reads show_frac r \<longleftrightarrow>
     r = of_int \<lfloor>r\<rfloor> \<and> \<bar>r\<bar> < 2 ^ 53 \<or> jnumber (show_frac r) = Some (Num (Fin r), [])"

fun json_plain :: "(real \<Rightarrow> string) \<Rightarrow> jsval \<Rightarrow> bool" where
  "json_plain show_frac Undefined = False"
| "json_plain show_frac (Num x) = (case x of Fin r \<Rightarrow> number_reads show_frac r | _ \<Rightarrow> False)"
| "json_plain show_frac (Arr vs) = list_all (json_plain show_frac) vs"
| "json_plain show_frac (Obj ps) = (distinct (map fst ps) \<and> list_all (\<lambda>p. json_plain show_frac (snd p)) ps)"
| "json_plain show_frac _ = True"

definition stop_char :: "char \<Rightarrow> bool" where
  "stop_char c \<longleftrightarrow> json_space c \<or> c = CHR '']'' \<or> c = CHR ''}''"

lemma skip_space_start: "\<not> json_space c \<Longrightarrow> skip_space (c # s) = c # s"
  by (simp add: skip_space_def)

lemma number_start:
  assumes "c = CHR ''-'' \<or> is_digit c"
  shows "\<not> stop_char c" "c \<notin> {QUOTE, CHR ''['', CHR ''{'', CHR ''n'', CHR ''t'', CHR ''f''}"
  using assms by (auto simp: stop_char_def json_space_def is_digit_def char_code_def)

lemma json_text_number:
  assumes "json_plain show_frac (Num x)"
  shows "jnumber (json_text show_frac (Num x)) = Some (Num x, [])"
proof -
  obtain r where x: "x = Fin r" and r: "number_reads show_frac r"
    using assms by (cases x) auto
  show ?thesis
  proof (cases "r = of_int \<lfloor>r\<rfloor> \<and> \<bar>r\<bar> < 2 ^ 53")
    case True
    then have "real_of_int \<bar>\<lfloor>r\<rfloor>\<bar> < real_of_int (2 ^ 53)" by simp
    then have "\<bar>\<lfloor>r\<rfloor>\<bar> < 2 ^ 53" by (rule of_int_less_iff [THEN iffD1])
    from jnumber_int_str [OF _ this, of "[]"] True show ?thesis by (simp add: x num_str_def)
  next
    case False
    with r have "jnumber (show_frac r) = Some (Num (Fin r), [])" by (simp only: number_reads_def) blast
    with False show ?thesis by (simp only: x json_text.simps is_finite_num.simps num_str_def jsnum.case if_True if_False)
  qed
qed

lemma json_text_number_start:
  assumes "json_plain show_frac (Num x)"
  obtains c cs where "json_text show_frac (Num x) = c # cs" "c = CHR ''-'' \<or> is_digit c"
  using jnumber_start [OF json_text_number [OF assms]] by blast

lemma json_text_start:
  assumes "json_plain show_frac v"
  obtains c cs where "json_text show_frac v = c # cs" "\<not> stop_char c"
proof (cases v)
  case (Num x)
  with assms json_text_number_start number_start that show ?thesis by metis
next
  case (Bool b)
  then show ?thesis using that by (cases b) (auto simp: stop_char_def json_space_def)
qed (use assms that in \<open>auto simp: json_quote_def stop_char_def json_space_def split: if_splits\<close>)

lemma jliteral_number:
  assumes "follows r" "json_plain show_frac (Num x)"
  shows "jliteral (json_text show_frac (Num x) @ r) = Some (Num x, r)"
proof -
  obtain c cs where c: "json_text show_frac (Num x) = c # cs" "c = CHR ''-'' \<or> is_digit c"
    using json_text_number_start [OF assms(2)] .
  then have "\<not> starts_with (json_text show_frac (Num x) @ r) ''null''" "\<not> starts_with (json_text show_frac (Num x) @ r) ''true''"
    "\<not> starts_with (json_text show_frac (Num x) @ r) ''false''"
    using number_start(2) [OF c(2)] by auto
  moreover note jnumber_append [OF assms(1) json_text_number [OF assms(2)]]
  ultimately show ?thesis by (simp only: jliteral_def if_False append_Nil)
qed

lemma js_join_Cons: "js_join sep (x # y # zs) = x @ sep @ js_join sep (y # zs)"
  by (simp add: js_join_def)

lemma js_join_single [simp]: "js_join sep [x] = x"
  by (simp add: js_join_def)

lemma js_join_Nil [simp]: "js_join sep [] = []"
  by (simp add: js_join_def)

definition reads :: "(real \<Rightarrow> string) \<Rightarrow> jsval \<Rightarrow> bool" where
  "reads show_frac v \<longleftrightarrow> (\<forall>n r. follows r \<longrightarrow> 2 * length (json_text show_frac v @ r) < n
     \<longrightarrow> jvalue n (json_text show_frac v @ r) = Some (v, r))"

lemma readsD: "reads show_frac v \<Longrightarrow> follows r \<Longrightarrow> 2 * length (json_text show_frac v @ r) < n
     \<Longrightarrow> jvalue n (json_text show_frac v @ r) = Some (v, r)"
  by (simp add: reads_def)

lemma delimiters: "\<not> json_space (CHR '','')" "\<not> json_space (CHR '']'')" "\<not> json_space (CHR ''}'')"
  "\<not> json_space (CHR '':'')" "\<not> json_space QUOTE" "\<not> json_space (CHR ''['')" "\<not> json_space (CHR ''{'')"
  by (simp_all add: json_space_def)

lemma jelems_reads:
  assumes "vs \<noteq> []" "\<forall>v \<in> set vs. reads show_frac v"
    "2 * length (js_join '','' (map (json_text show_frac) vs) @ '']'' @ r) + 1 < n"
  shows "jelems n (js_join '','' (map (json_text show_frac) vs) @ '']'' @ r) = Some (vs, r)"
  using assms
proof (induction vs arbitrary: n)
  case (Cons v vs)
  then obtain m where n: "n = Suc m" by (cases n) auto
  show ?case
  proof (cases vs)
    case Nil
    with Cons.prems n show ?thesis
      using readsD [of show_frac v "CHR '']'' # r" m] by (simp add: skip_space_start delimiters)
  next
    case (Cons w ws)
    let ?rest = "js_join '','' (map (json_text show_frac) vs) @ '']'' @ r"
    have whole: "js_join '','' (map (json_text show_frac) (v # vs)) @ '']'' @ r
        = json_text show_frac v @ CHR '','' # ?rest"
      by (simp add: Cons js_join_Cons)
    have "jvalue m (json_text show_frac v @ CHR '','' # ?rest) = Some (v, CHR '','' # ?rest)"
      using Cons.prems n whole by (intro readsD) auto
    moreover have "jelems m ?rest = Some (vs, r)"
      using Cons.prems n whole Cons by (intro Cons.IH) auto
    ultimately show ?thesis
      unfolding n whole by (simp add: skip_space_start delimiters)
  qed
qed simp

lemma jmembers_reads:
  assumes "ps \<noteq> []" "\<forall>p \<in> set ps. reads show_frac (snd p)"
    "2 * length (js_join '','' (map (json_member show_frac) ps) @ ''}'' @ r) + 1 < n"
  shows "jmembers n (js_join '','' (map (json_member show_frac) ps) @ ''}'' @ r) = Some (ps, r)"
  using assms
proof (induction ps arbitrary: n)
  case (Cons p ps)
  then obtain m where n: "n = Suc m" by (cases n) auto
  obtain k v where p: "p = (k, v)" by (cases p)
  show ?case
  proof (cases ps)
    case Nil
    with Cons.prems n p show ?thesis
      using readsD [of show_frac v "CHR ''}'' # r" m]
      by (simp add: skip_space_start delimiters json_quote_def jstring_quoted)
  next
    case (Cons w ws)
    let ?rest = "js_join '','' (map (json_member show_frac) ps) @ ''}'' @ r"
    have whole: "js_join '','' (map (json_member show_frac) (p # ps)) @ ''}'' @ r
        = QUOTE # concat (map json_escape k) @ QUOTE # CHR '':'' # json_text show_frac v @ CHR '','' # ?rest"
      by (simp add: Cons js_join_Cons p json_quote_def)
    have "jvalue m (json_text show_frac v @ CHR '','' # ?rest) = Some (v, CHR '','' # ?rest)"
      using Cons.prems n whole p by (intro readsD) auto
    moreover have "jmembers m ?rest = Some (ps, r)"
      using Cons.prems n whole Cons by (intro Cons.IH) auto
    ultimately show ?thesis
      unfolding n whole by (simp add: skip_space_start delimiters jstring_quoted p)
  qed
qed simp

lemma fold_update_distinct:
  "distinct (map fst (acc @ ps)) \<Longrightarrow> fold (\<lambda>(k, v). AList.update k v) ps acc = acc @ ps"
proof (induction ps arbitrary: acc)
  case (Cons p ps)
  have fresh: "AList.update k v al = al @ [(k, v)]" if "k \<notin> fst ` set al" for k and v :: 'b and al
    using that by (induction al) auto
  obtain k v where p: "p = (k, v)" by (cases p)
  with Cons.prems have "AList.update k v acc = acc @ [(k, v)]" by (intro fresh) auto
  with Cons.IH [of "acc @ [(k, v)]"] Cons.prems show ?case by (simp add: p)
qed simp

lemma obj_of_distinct: "distinct (map fst ps) \<Longrightarrow> obj_of ps = Obj ps"
  using fold_update_distinct [of "[]" ps] by (simp add: obj_of_def)

lemma jvalue_literal:
  "\<not> json_space c \<Longrightarrow> c \<notin> {QUOTE, CHR ''['', CHR ''{''} \<Longrightarrow> jvalue (Suc n) (c # s) = jliteral (c # s)"
  by (simp add: skip_space_start)

lemma jliteral_words [simp]:
  "jliteral (''null'' @ r) = Some (Null, r)"
  "jliteral (''true'' @ r) = Some (Bool True, r)"
  "jliteral (''false'' @ r) = Some (Bool False, r)"
  by (simp_all add: jliteral_def)

lemma reads_word:
  assumes "json_text show_frac v = c # cs" "\<And>r. jliteral ((c # cs) @ r) = Some (v, r)"
    "\<not> json_space c" "c \<notin> {QUOTE, CHR ''['', CHR ''{''}"
  shows "reads show_frac v"
  unfolding reads_def
proof (intro allI impI)
  fix n r assume "2 * length (json_text show_frac v @ r) < n"
  then obtain m where "n = Suc m" by (cases n) auto
  then show "jvalue n (json_text show_frac v @ r) = Some (v, r)"
    using jvalue_literal [OF assms(3,4), of m "cs @ r"] assms(2) [of r] assms(1) by simp
qed

lemma plain_reads: "json_plain show_frac v \<Longrightarrow> reads show_frac v"
proof (induction v rule: jsval.induct)
  case Undefined
  then show ?case by simp
next
  case Null
  show ?case
    by (rule reads_word [of _ _ "CHR ''n''" "''ull''"]) (simp_all add: json_space_def jliteral_def)
next
  case (Bool b)
  show ?case
    by (cases b; rule reads_word [of _ _ "if b then CHR ''t'' else CHR ''f''" "if b then ''rue'' else ''alse''"])
      (simp_all add: json_space_def jliteral_def)
next
  case (Num x)
  show ?case unfolding reads_def
  proof (intro allI impI)
    fix n r assume r: "follows r" "2 * length (json_text show_frac (Num x) @ r) < n"
    then obtain m where n: "n = Suc m" by (cases n) auto
    obtain c cs where c: "json_text show_frac (Num x) = c # cs" "c = CHR ''-'' \<or> is_digit c"
      using json_text_number_start [OF Num] .
    have "jvalue n (json_text show_frac (Num x) @ r) = jliteral (json_text show_frac (Num x) @ r)"
      unfolding c(1) append_Cons n using number_start [OF c(2)] by (intro jvalue_literal) (auto simp: stop_char_def)
    then show "jvalue n (json_text show_frac (Num x) @ r) = Some (Num x, r)"
      using jliteral_number [OF r(1) Num] by simp
  qed
next
  case (Str t)
  show ?case unfolding reads_def
  proof (intro allI impI)
    fix n r assume "2 * length (json_text show_frac (Str t) @ r) < n"
    then obtain m where "n = Suc m" by (cases n) auto
    then show "jvalue n (json_text show_frac (Str t) @ r) = Some (Str t, r)"
      by (simp add: json_quote_def skip_space_start delimiters jstring_quoted)
  qed
next
  case (Arr vs)
  show ?case unfolding reads_def
  proof (intro allI impI)
    fix n r assume r: "follows r" "2 * length (json_text show_frac (Arr vs) @ r) < n"
    then obtain m where n: "n = Suc m" by (cases n) auto
    show "jvalue n (json_text show_frac (Arr vs) @ r) = Some (Arr vs, r)"
    proof (cases vs)
      case Nil
      then show ?thesis by (simp add: n skip_space_start delimiters)
    next
      case (Cons w ws)
      let ?body = "js_join '','' (map (json_text show_frac) vs) @ '']'' @ r"
      from Arr.prems Cons have "json_plain show_frac w" by simp
      then obtain c cs where c: "json_text show_frac w = c # cs" "\<not> stop_char c"
        by (rule json_text_start)
      have body: "\<exists>cs'. ?body = c # cs'"
        using c(1) by (cases ws) (simp_all add: Cons js_join_Cons)
      have "jelems m ?body = Some (vs, r)"
        using Arr r n Cons by (intro jelems_reads) (auto simp: list_all_iff)
      then show ?thesis
        using body c(2) by (auto simp: n skip_space_start delimiters stop_char_def)
    qed
  qed
next
  case (Obj ps)
  have plain: "\<And>p. p \<in> set ps \<Longrightarrow> json_plain show_frac (snd p)" and keys: "distinct (map fst ps)"
    using Obj.prems by (auto simp: list_all_iff)
  then have keep: "filter (\<lambda>p. snd p \<noteq> Undefined) ps = ps"
    by (intro filter_True) force
  show ?case unfolding reads_def
  proof (intro allI impI)
    fix n r assume r: "follows r" "2 * length (json_text show_frac (Obj ps) @ r) < n"
    then obtain m where n: "n = Suc m" by (cases n) auto
    show "jvalue n (json_text show_frac (Obj ps) @ r) = Some (Obj ps, r)"
    proof (cases ps)
      case Nil
      then show ?thesis by (simp add: n skip_space_start delimiters)
    next
      case (Cons w ws)
      let ?body = "js_join '','' (map (json_member show_frac) ps) @ ''}'' @ r"
      have body: "\<exists>cs'. ?body = QUOTE # cs'"
        by (cases w; cases ws) (simp_all add: Cons js_join_Cons json_quote_def)
      have "jmembers m ?body = Some (ps, r)"
        using Obj.IH plain r n Cons unfolding json_text.simps keep
        by (intro jmembers_reads) (auto simp: snds.simps)
      then show ?thesis
        using body by (auto simp: n keep skip_space_start delimiters obj_of_distinct [OF keys])
    qed
  qed
qed

lemma json_parse_text:
  assumes "json_plain show_frac v"
  shows "json_parse (json_text show_frac v) = Some v"
  using readsD [OF plain_reads [OF assms], of "[]" "2 * length (json_text show_frac v) + 1"]
  by (simp add: json_parse_def skip_space_def)

end
