(* ===== verification/Bytes.thy ===== *)
theory Bytes
  imports JS_Values "HOL-Library.Word"
begin

text \<open>
  Node's \<open>Buffer\<close> as far as the tokens and passwords use it: byte sequences with the encodings
  \<open>utf8\<close>, \<open>hex\<close> and \<open>base64\<close>, and the URL-safe base64 of \<open>auth/jwt.ts\<close>. Main results: decoding
  inverts encoding (\<open>utf8_decode_encode\<close>, \<open>hex_decode_encode\<close>, \<open>base64url_roundtrip\<close>).
\<close>

unbundle bit_operations_syntax

type_synonym byte = "8 word"

definition byte_of_char :: "char \<Rightarrow> byte" where
  "byte_of_char c = word_of_nat (char_code c)"

definition char_of_byte :: "byte \<Rightarrow> char" where
  "char_of_byte b = char_of (unat b)"

section \<open>UTF-8\<close>

text \<open>
  \<open>Buffer.from(s)\<close>: code units below 128 are one byte, those up to 255 two. \<open>toString('utf8')\<close>
  is defined on bytes that encode code units up to 255; other byte sequences decode to
  characters outside the model's strings (\<open>None\<close>).
\<close>

definition utf8_char :: "char \<Rightarrow> byte list" where
  "utf8_char c = (let b = byte_of_char c in
     if b < 0x80 then [b] else [0xC0 OR drop_bit 6 b, 0x80 OR (b AND 0x3F)])"

definition utf8_encode :: "string \<Rightarrow> byte list" where
  "utf8_encode s = concat (map utf8_char s)"

fun utf8_decode :: "byte list \<Rightarrow> string option" where
  "utf8_decode [] = Some []"
| "utf8_decode [b] = (if b < 0x80 then Some [char_of_byte b] else None)"
| "utf8_decode (b # c # bs) =
     (if b < 0x80 then map_option (Cons (char_of_byte b)) (utf8_decode (c # bs))
      else if (b = 0xC2 \<or> b = 0xC3) \<and> c AND 0xC0 = 0x80 then
        map_option (Cons (char_of_byte (push_bit 6 (b AND 0x03) OR (c AND 0x3F)))) (utf8_decode bs)
      else None)"

section \<open>Hexadecimal\<close>

definition hex_digit :: "byte \<Rightarrow> char" where
  "hex_digit b = radix_digit (unat b)"

definition hex_encode :: "byte list \<Rightarrow> string" where
  "hex_encode bs = concat (map (\<lambda>b. [hex_digit (drop_bit 4 b), hex_digit (b AND 0x0F)]) bs)"

definition hex_value :: "char \<Rightarrow> byte option" where
  "hex_value c = (let n = char_code c in
     if 48 \<le> n \<and> n \<le> 57 then Some (word_of_nat (n - 48))
     else if 97 \<le> n \<and> n \<le> 102 then Some (word_of_nat (n - 87))
     else if 65 \<le> n \<and> n \<le> 70 then Some (word_of_nat (n - 55))
     else None)"

text \<open>\<open>Buffer.from(s, 'hex')\<close> stops at the first pair that is not two hexadecimal digits.\<close>

fun hex_decode :: "string \<Rightarrow> byte list" where
  "hex_decode (a # b # cs) = (case (hex_value a, hex_value b) of
      (Some x, Some y) \<Rightarrow> (push_bit 4 x OR y) # hex_decode cs
    | _ \<Rightarrow> [])"
| "hex_decode _ = []"

section \<open>Base 64\<close>

definition b64_char :: "byte \<Rightarrow> char" where
  "b64_char x = (let n = unat x in
     if n < 26 then char_of (65 + n) else if n < 52 then char_of (71 + n)
     else if n < 62 then char_of (n - 4) else if n = 62 then CHR ''+'' else CHR ''/'')"

text \<open>Decoding accepts both the standard and the URL-safe letters; other characters are skipped.\<close>

definition b64_value :: "char \<Rightarrow> byte option" where
  "b64_value c = (let n = char_code c in
     if 65 \<le> n \<and> n \<le> 90 then Some (word_of_nat (n - 65))
     else if 97 \<le> n \<and> n \<le> 122 then Some (word_of_nat (n - 71))
     else if 48 \<le> n \<and> n \<le> 57 then Some (word_of_nat (n + 4))
     else if c = CHR ''+'' \<or> c = CHR ''-'' then Some 62
     else if c = CHR ''/'' \<or> c = CHR ''_'' then Some 63
     else None)"

definition sext1 :: "byte \<Rightarrow> byte" where "sext1 a = drop_bit 2 a"
definition sext2 :: "byte \<Rightarrow> byte \<Rightarrow> byte" where "sext2 a b = push_bit 4 (a AND 0x03) OR drop_bit 4 b"
definition sext3 :: "byte \<Rightarrow> byte \<Rightarrow> byte" where "sext3 b c = push_bit 2 (b AND 0x0F) OR drop_bit 6 c"
definition sext4 :: "byte \<Rightarrow> byte" where "sext4 c = c AND 0x3F"

fun b64_encode :: "byte list \<Rightarrow> string" where
  "b64_encode [] = []"
| "b64_encode [a] = [b64_char (sext1 a), b64_char (sext2 a 0)] @ ''==''"
| "b64_encode [a, b] = [b64_char (sext1 a), b64_char (sext2 a b), b64_char (sext3 b 0)] @ ''=''"
| "b64_encode (a # b # c # bs) =
     [b64_char (sext1 a), b64_char (sext2 a b), b64_char (sext3 b c), b64_char (sext4 c)] @ b64_encode bs"

definition join1 :: "byte \<Rightarrow> byte \<Rightarrow> byte" where "join1 x y = push_bit 2 x OR drop_bit 4 y"
definition join2 :: "byte \<Rightarrow> byte \<Rightarrow> byte" where "join2 y z = push_bit 4 y OR drop_bit 2 z"
definition join3 :: "byte \<Rightarrow> byte \<Rightarrow> byte" where "join3 z w = push_bit 6 z OR w"

fun b64_groups :: "byte list \<Rightarrow> byte list" where
  "b64_groups (x # y # z # w # xs) = join1 x y # join2 y z # join3 z w # b64_groups xs"
| "b64_groups [x, y, z] = [join1 x y, join2 y z]"
| "b64_groups [x, y] = [join1 x y]"
| "b64_groups _ = []"

definition b64_decode :: "string \<Rightarrow> byte list" where
  "b64_decode s = b64_groups (List.map_filter b64_value s)"

text \<open>\<open>base64UrlEncode\<close> and \<open>base64UrlDecode\<close> of \<open>auth/jwt.ts\<close>.\<close>

definition replace_char :: "char \<Rightarrow> char \<Rightarrow> string \<Rightarrow> string" where
  "replace_char a b s = map (\<lambda>c. if c = a then b else c) s"

definition base64UrlEncode :: "byte list \<Rightarrow> string" where
  "base64UrlEncode input =
     rev (dropWhile (\<lambda>c. c = CHR ''='')
       (rev (replace_char (CHR ''/'') (CHR ''_'') (replace_char (CHR ''+'') (CHR ''-'') (b64_encode input)))))"

definition base64UrlDecode :: "string \<Rightarrow> byte list" where
  "base64UrlDecode input =
     (let pad = (if length input mod 4 = 0 then [] else replicate (4 - length input mod 4) (CHR ''=''));
          normalized = replace_char (CHR ''_'') (CHR ''/'') (replace_char (CHR ''-'') (CHR ''+'') input) @ pad
      in b64_decode normalized)"

section \<open>UTF-8 and hexadecimal round trips\<close>

lemma byte_of_char_of_byte [simp]: "byte_of_char (char_of_byte b) = b"
proof -
  have "unat b < 256" using unsigned_less [of b, where ?'a = nat] by simp
  then show ?thesis by (simp add: byte_of_char_def char_of_byte_def char_code_def)
qed

lemma unat_byte_of_char: "unat (byte_of_char c) = char_code c"
  by (simp add: byte_of_char_def char_code_def unat_of_nat)

lemma char_of_byte_of_char [simp]: "char_of_byte (byte_of_char c) = c"
  by (simp add: char_of_byte_def unat_byte_of_char) (simp add: char_code_def)

lemma byte_of_char_inj: "byte_of_char c = byte_of_char d \<longleftrightarrow> c = d"
  by (metis char_of_byte_of_char)

text \<open>Bytes are equal when their eight bits are.\<close>

lemma byte_eq_iff:
  "a = b \<longleftrightarrow> bit a 0 = bit b 0 \<and> bit a 1 = bit b 1 \<and> bit a 2 = bit b 2 \<and> bit a 3 = bit b 3 \<and>
     bit a 4 = bit b 4 \<and> bit a 5 = bit b 5 \<and> bit a 6 = bit b 6 \<and> bit a 7 = bit b 7"
  for a b :: byte
proof -
  have eight: "n < 8 \<longleftrightarrow> n = 0 \<or> n = 1 \<or> n = 2 \<or> n = 3 \<or> n = 4 \<or> n = 5 \<or> n = 6 \<or> n = 7" for n :: nat
    by auto
  have "a = b \<longleftrightarrow> (\<forall>n < 8. bit a n = bit b n)"
    by (auto intro!: bit_word_eqI)
  then show ?thesis unfolding eight by blast
qed

lemma no_bit_beyond [simp]: "8 \<le> n \<Longrightarrow> \<not> bit (b :: byte) n"
  by (auto dest: bit_imp_le_length)

lemma byte_less_iff: "b < 0x80 \<longleftrightarrow> \<not> bit b 7" for b :: byte
proof -
  have "unat b < 256" using unsigned_less [of b, where ?'a = nat] by simp
  then have "unat b div 128 = 0 \<or> unat b div 128 = 1" by auto
  moreover have "bit b 7 \<longleftrightarrow> bit (unat b) 7" by (simp add: bit_unsigned_iff)
  moreover have "bit (unat b) 7 \<longleftrightarrow> odd (unat b div 128)" by (simp add: bit_iff_odd)
  ultimately show ?thesis by (auto simp: word_less_nat_alt)
qed

lemma utf8_two:
  assumes "\<not> b < (0x80 :: byte)"
  shows "\<not> 0xC0 OR drop_bit 6 b < 0x80" "0xC0 OR drop_bit 6 b = 0xC2 \<or> 0xC0 OR drop_bit 6 b = 0xC3"
    "(0x80 OR (b AND 0x3F)) AND 0xC0 = 0x80"
    "push_bit 6 ((0xC0 OR drop_bit 6 b) AND 0x03) OR ((0x80 OR (b AND 0x3F)) AND 0x3F) = b"
  using assms by (auto simp: byte_less_iff byte_eq_iff bit_simps)

lemma utf8_one: "char_code c < 128 \<longleftrightarrow> byte_of_char c < 0x80"
  by (simp add: word_less_nat_alt unat_byte_of_char)

lemma utf8_decode_step: "utf8_decode (utf8_char c @ bs) = map_option (Cons c) (utf8_decode bs)"
proof (cases "byte_of_char c < 0x80")
  case True
  then show ?thesis by (cases bs) (simp_all add: utf8_char_def Let_def)
next
  case False
  then show ?thesis using utf8_two [of "byte_of_char c"]
    by (auto simp: utf8_char_def Let_def)
qed

lemma utf8_decode_encode [simp]: "utf8_decode (utf8_encode s) = Some s"
  by (induction s) (simp_all add: utf8_encode_def utf8_decode_step)

lemma utf8_encode_inj: "utf8_encode s = utf8_encode t \<longleftrightarrow> s = t"
  by (metis option.inject utf8_decode_encode)

lemma nibble: "unat (drop_bit 4 b) < 16" "unat (b AND 0x0F) < 16" for b :: byte
proof -
  have "unat b < 256" using unsigned_less [of b, where ?'a = nat] by simp
  then show "unat (drop_bit 4 b) < 16" unfolding unsigned_drop_bit_eq by (simp add: drop_bit_eq_div take_bit_eq_mod)
  have "b AND 0x0F \<le> 0x0F" by (rule word_and_le1)
  then show "unat (b AND 0x0F) < 16" by (simp add: word_le_nat_alt)
qed

lemma hex_value_radix_digit: "d < 16 \<Longrightarrow> hex_value (radix_digit d) = Some (word_of_nat d)"
  by (auto simp: hex_value_def Let_def char_code_radix_digit)

lemma hex_byte:
  "hex_value (hex_digit (drop_bit 4 b)) = Some (drop_bit 4 b)"
  "hex_value (hex_digit (b AND 0x0F)) = Some (b AND 0x0F)"
  "push_bit 4 (drop_bit 4 b) OR (b AND 0x0F) = b"
  using nibble [of b]
  by (simp_all add: hex_digit_def hex_value_radix_digit) (auto simp: byte_eq_iff bit_simps)

lemma hex_digit_no_dollar: "unat b < 16 \<Longrightarrow> hex_digit b \<noteq> CHR ''$''"
  unfolding hex_digit_def by (drule hex_value_radix_digit) (auto simp: hex_value_def char_code_def)

lemma hex_decode_encode [simp]: "hex_decode (hex_encode bs) = bs"
  by (induction bs) (simp_all add: hex_encode_def hex_byte)

lemma hex_encode_no_dollar: "CHR ''$'' \<notin> set (hex_encode bs)"
  using hex_digit_no_dollar nibble by (auto simp: hex_encode_def dest: sym)

lemma length_hex_encode [simp]: "length (hex_encode bs) = 2 * length bs"
  by (induction bs) (simp_all add: hex_encode_def)

section \<open>Base 64 round trip\<close>

lemma b64_letter:
  assumes "x < (64 :: byte)"
  shows "b64_value (b64_char x) = Some x"
    "b64_char x \<notin> {CHR ''='', CHR ''.'', CHR ''-'', CHR ''_''}"
proof -
  define n where "n = unat x"
  have n: "n < 64" "x = word_of_nat n" using assms by (simp_all add: n_def word_less_nat_alt)
  have char: "char_code (char_of k) = k" if "k < 256" for k :: nat using that by (simp add: char_code_def)
  have codes: "char_code (CHR ''='') = 61" "char_code (CHR ''.'') = 46" "char_code (CHR ''-'') = 45"
    "char_code (CHR ''_'') = 95" "char_code (CHR ''+'') = 43" "char_code (CHR ''/'') = 47"
    by (simp_all add: char_code_def)
  have code: "char_code (b64_char x) = (if n < 26 then 65 + n else if n < 52 then 71 + n
     else if n < 62 then n - 4 else if n = 62 then 43 else 47)"
    using n(1) by (simp add: b64_char_def Let_def char codes flip: n_def)
  then have "char_code (b64_char x) \<notin> {61, 46, 45, 95}" by auto
  then show "b64_char x \<notin> {CHR ''='', CHR ''.'', CHR ''-'', CHR ''_''}"
    using codes by auto
  consider "n < 26" | "26 \<le> n" "n < 52" | "52 \<le> n" "n < 62" | "n = 62" | "n = 63" using n(1) by linarith
  then show "b64_value (b64_char x) = Some x"
  proof cases
    case 4
    then show ?thesis by (simp add: b64_char_def b64_value_def codes n(2))
  next
    case 5
    then show ?thesis by (simp add: b64_char_def b64_value_def codes n(2))
  next
    case 3
    then have "48 \<le> n - 4" "n - 4 \<le> 57" "\<not> 65 \<le> n - 4" "\<not> 97 \<le> n - 4" "n - 4 + 4 = n" by auto
    moreover have "char_code (b64_char x) = n - 4" using code 3 by simp
    ultimately show ?thesis using n(2) by (simp add: b64_value_def Let_def)
  qed (use n(2) code in \<open>simp_all add: b64_value_def Let_def\<close>)
qed

lemma sextet: "x AND 0x3F < (64 :: byte)"
proof -
  have "x AND 0x3F \<le> (0x3F :: byte)" by (rule word_and_le1)
  then show ?thesis by (simp add: word_le_nat_alt word_less_nat_alt)
qed

lemma sext_small: "sext1 a < 64" "sext2 a b < 64" "sext3 a b < 64" "sext4 a < 64"
proof -
  have "sext1 a AND 0x3F = sext1 a" "sext2 a b AND 0x3F = sext2 a b"
    "sext3 a b AND 0x3F = sext3 a b" "sext4 a AND 0x3F = sext4 a"
    by (simp_all add: sext1_def sext2_def sext3_def sext4_def byte_eq_iff bit_simps)
  then show "sext1 a < 64" "sext2 a b < 64" "sext3 a b < 64" "sext4 a < 64"
    by (metis sextet)+
qed

lemma sext_bytes [simp]:
  "join1 (sext1 a) (sext2 a b) = a" "join2 (sext2 a b) (sext3 b c) = b" "join3 (sext3 b c) (sext4 c) = c"
  by (auto simp: join1_def join2_def join3_def sext1_def sext2_def sext3_def sext4_def byte_eq_iff bit_simps)

text \<open>What the encoder writes: letters of sextets that decode to the bytes, then padding.\<close>

lemma b64_encode_shape:
  obtains xs k where "b64_encode bs = map b64_char xs @ replicate k (CHR ''='')"
    "\<forall>x \<in> set xs. x < 64" "b64_groups xs = bs"
proof -
  have "\<exists>xs k. b64_encode bs = map b64_char xs @ replicate k (CHR ''='')
      \<and> (\<forall>x \<in> set xs. x < 64) \<and> b64_groups xs = bs"
  proof (induction bs rule: b64_encode.induct)
    case (2 a)
    show ?case
      by (rule exI [of _ "[sext1 a, sext2 a 0]"], rule exI [of _ 2])
        (simp add: sext_small sext_bytes numeral_2_eq_2)
  next
    case (3 a b)
    show ?case
      by (rule exI [of _ "[sext1 a, sext2 a b, sext3 b 0]"], rule exI [of _ 1])
        (simp add: sext_small sext_bytes)
  next
    case (4 a b c bs)
    then obtain xs k where "b64_encode bs = map b64_char xs @ replicate k (CHR ''='')"
      "\<forall>x \<in> set xs. x < 64" "b64_groups xs = bs" by blast
    then show ?case
      by (intro exI [of _ "[sext1 a, sext2 a b, sext3 b c, sext4 c] @ xs"] exI [of _ k])
        (simp add: sext_small sext_bytes)
  qed simp
  with that show ?thesis by blast
qed

definition url_letter :: "char \<Rightarrow> char" where
  "url_letter c = (if c = CHR ''+'' then CHR ''-'' else if c = CHR ''/'' then CHR ''_'' else c)"

lemma replace_url: "replace_char (CHR ''/'') (CHR ''_'') (replace_char (CHR ''+'') (CHR ''-'') s) = map url_letter s"
  by (induction s) (auto simp: replace_char_def url_letter_def)

lemma dropWhile_replicate_append: "dropWhile (\<lambda>c. c = a) (replicate k a @ s) = dropWhile (\<lambda>c. c = a) s"
  by (induction k) auto

lemma base64UrlEncode_shape:
  assumes "b64_encode bs = map b64_char xs @ replicate k (CHR ''='')" "\<forall>x \<in> set xs. x < 64"
  shows "base64UrlEncode bs = map (url_letter \<circ> b64_char) xs"
proof -
  have "url_letter (b64_char x) \<noteq> CHR ''=''" if "x \<in> set xs" for x
    using b64_letter(2) [of x] assms(2) that by (auto simp: url_letter_def split: if_splits)
  then have "dropWhile (\<lambda>c. c = CHR ''='') (rev (map (url_letter \<circ> b64_char) xs)) = rev (map (url_letter \<circ> b64_char) xs)"
    by (cases xs rule: rev_cases) auto
  moreover have "url_letter (CHR ''='') = CHR ''=''" by (simp add: url_letter_def)
  ultimately show ?thesis
    by (simp add: base64UrlEncode_def replace_url assms(1) rev_map dropWhile_replicate_append)
qed

lemma map_filter_letters: "\<forall>x \<in> set xs. x < 64 \<Longrightarrow> List.map_filter b64_value (map b64_char xs) = xs"
  by (induction xs) (simp_all add: List.map_filter_simps b64_letter)

lemma base64url_roundtrip [simp]: "base64UrlDecode (base64UrlEncode bs) = bs"
proof -
  obtain xs k where xs: "b64_encode bs = map b64_char xs @ replicate k (CHR ''='')"
    "\<forall>x \<in> set xs. x < 64" "b64_groups xs = bs"
    by (rule b64_encode_shape)
  have letters: "replace_char (CHR ''_'') (CHR ''/'') (replace_char (CHR ''-'') (CHR ''+'') (map (url_letter \<circ> b64_char) xs))
      = map b64_char xs"
    using xs(2) b64_letter(2) by (auto simp: replace_char_def url_letter_def)
  have pad: "List.map_filter b64_value (replicate j (CHR ''='')) = []" for j
    by (induction j) (simp_all add: List.map_filter_simps b64_value_def char_code_def)
  have all: "List.map_filter b64_value (map b64_char xs @ replicate j (CHR ''='')) = xs" for j
    using map_filter_letters [OF xs(2)] pad [of j] by (simp add: List.map_filter_def)
  show ?thesis
    using all [of 0]
    by (simp add: base64UrlEncode_shape [OF xs(1,2)] base64UrlDecode_def b64_decode_def Let_def letters all xs(3))
qed

lemma base64url_no_dot: "CHR ''.'' \<notin> set (base64UrlEncode bs)"
proof -
  obtain xs k where xs: "b64_encode bs = map b64_char xs @ replicate k (CHR ''='')" "\<forall>x \<in> set xs. x < 64"
    by (rule b64_encode_shape)
  have "url_letter (b64_char x) \<noteq> CHR ''.''" if "x \<in> set xs" for x
    using b64_letter(2) [of x] xs(2) that by (auto simp: url_letter_def split: if_splits)
  then show ?thesis by (force simp: base64UrlEncode_shape [OF xs])
qed

end
