(* ===== verification/Auth.thy ===== *)
theory Auth
  imports Json Bytes Rbac Stores
begin

text \<open>
  Sessions and credentials (\<open>auth/jwt.ts\<close>, \<open>auth/passwords.ts\<close>, \<open>auth/auth-service.ts\<close>).
  The primitives of \<open>node:crypto\<close> are a parameter (\<open>Platform\<close>), together with the printing of
  non-integer numbers; the tokens themselves (JSON, UTF-8, base64url, splitting, comparing,
  expiry) are the code's. Times are the injected clock's readings in milliseconds, in the order
  in which the code reads it; lifetimes are whole seconds.
\<close>

section \<open>Model: tokens\<close>

record Platform =
  hmac_sha256 :: "string \<Rightarrow> string \<Rightarrow> byte list"
  scryptSync :: "string \<Rightarrow> byte list \<Rightarrow> nat \<Rightarrow> byte list"
  show_fraction :: "real \<Rightarrow> string"

datatype token_error =
    TokenInvalidError string
  | TokenExpiredError
  | TokenTypeError

definition HEADER :: jsval where
  "HEADER = Obj [(''alg'', Str ''HS256''), (''typ'', Str ''JWT'')]"

definition sign :: "Platform \<Rightarrow> string \<Rightarrow> string \<Rightarrow> string" where
  "sign pf signingInput secret = base64UrlEncode (hmac_sha256 pf secret signingInput)"

definition encode_part :: "Platform \<Rightarrow> jsval \<Rightarrow> string" where
  "encode_part pf v = base64UrlEncode (utf8_encode (json_text (show_fraction pf) v))"

definition signJwt :: "Platform \<Rightarrow> jsval \<Rightarrow> string \<Rightarrow> string" where
  "signJwt pf claims secret =
     (let header = encode_part pf HEADER;
          payload = encode_part pf claims;
          signingInput = header @ ''.'' @ payload
      in signingInput @ ''.'' @ sign pf signingInput secret)"

definition decode_part :: "string \<Rightarrow> jsval option" where
  "decode_part payload = Option.bind (utf8_decode (base64UrlDecode payload)) json_parse"

definition check_claims :: "jsval \<Rightarrow> int \<Rightarrow> token_error + jsval" where
  "check_claims claims nowMs = (case js_prop claims ''exp'' of
      None \<Rightarrow> Inl TokenTypeError
    | Some (Num e) \<Rightarrow>
        if js_le (e * Fin 1000) (Fin (of_int nowMs)) then Inl TokenExpiredError else Inr claims
    | Some _ \<Rightarrow> Inl (TokenInvalidError ''missing exp''))"

definition verifyJwt :: "Platform \<Rightarrow> string \<Rightarrow> string \<Rightarrow> int \<Rightarrow> token_error + jsval" where
  "verifyJwt pf token secret nowMs = (case js_split (CHR ''.'') token of
      [header, payload, signature] \<Rightarrow>
        (let expected = sign pf (header @ ''.'' @ payload) secret;
             actualBuf = utf8_encode signature;
             expectedBuf = utf8_encode expected
         in if length actualBuf \<noteq> length expectedBuf \<or> actualBuf \<noteq> expectedBuf
            then Inl (TokenInvalidError ''signature mismatch'')
            else case decode_part payload of
                None \<Rightarrow> Inl (TokenInvalidError ''unparseable claims'')
              | Some claims \<Rightarrow> check_claims claims nowMs)
    | _ \<Rightarrow> Inl (TokenInvalidError ''malformed token''))"

section \<open>Model: passwords\<close>

definition KEYLEN :: nat where "KEYLEN = 64"
definition SALT_BYTES :: nat where "SALT_BYTES = 16"
definition PREFIX :: string where "PREFIX = ''scrypt''"

text \<open>\<open>salt\<close> is what \<open>randomBytes(SALT_BYTES)\<close> returned.\<close>

definition hashPassword :: "Platform \<Rightarrow> byte list \<Rightarrow> string \<Rightarrow> string" where
  "hashPassword pf salt password =
     (let derived = scryptSync pf password salt KEYLEN
      in PREFIX @ ''$'' @ hex_encode salt @ ''$'' @ hex_encode derived)"

definition verifyPassword :: "Platform \<Rightarrow> string \<Rightarrow> string \<Rightarrow> bool" where
  "verifyPassword pf password stored = (case js_split (CHR ''$'') stored of
      [prefix, saltHex, hashHex] \<Rightarrow>
        if prefix \<noteq> PREFIX then False
        else (let salt = hex_decode saltHex; expected = hex_decode hashHex in
          if length salt = 0 \<or> length expected \<noteq> KEYLEN then False
          else (let derived = scryptSync pf password salt KEYLEN in
            length derived = length expected \<and> derived = expected))
    | _ \<Rightarrow> False)"

section \<open>Model: the service\<close>

record UserRecord =
  usr_id :: string
  usr_email :: string
  usr_role :: Role
  usr_passwordHash :: string

type_synonym UserRepo = "(string, UserRecord) jsmap"

definition user_repo_new :: UserRepo where
  "user_repo_new = []"

definition user_register ::
    "Platform \<Rightarrow> byte list \<Rightarrow> string \<Rightarrow> string \<Rightarrow> string \<Rightarrow> Role \<Rightarrow> UserRepo \<Rightarrow> UserRecord \<times> UserRepo" where
  "user_register pf salt i email password role repo =
     (let r = \<lparr>usr_id = i, usr_email = email, usr_role = role, usr_passwordHash = hashPassword pf salt password\<rparr>
      in (r, map_set (js_lower email) r repo))"

definition user_findByEmail :: "UserRepo \<Rightarrow> string \<Rightarrow> UserRecord option" where
  "user_findByEmail repo email = map_get repo (js_lower email)"

record LoginResult =
  lr_token :: string
  lr_refreshToken :: string
  lr_role :: Role
  lr_expiresAt :: string

record RefreshResult =
  rf_token :: string
  rf_expiresAt :: string

record TrackingScope =
  ts_deliveryId :: jsval
  ts_scope :: string

record AuthConfig =
  cfg_secret :: string
  cfg_accessTtlSeconds :: int
  cfg_refreshTtlSeconds :: int
  cfg_trackingTtlSeconds :: int

definition auth_DEFAULTS :: "int \<times> int \<times> int" where
  "auth_DEFAULTS = (15 * 60, 7 * 24 * 60 * 60, 24 * 60 * 60)"

definition auth_new :: "string \<Rightarrow> int option \<Rightarrow> int option \<Rightarrow> int option \<Rightarrow> AuthConfig" where
  "auth_new secret accessTtl refreshTtl trackingTtl = (case auth_DEFAULTS of (a, r, t) \<Rightarrow>
     \<lparr>cfg_secret = secret, cfg_accessTtlSeconds = or_else accessTtl a,
      cfg_refreshTtlSeconds = or_else refreshTtl r, cfg_trackingTtlSeconds = or_else trackingTtl t\<rparr>)"

text \<open>The module computes the dummy hash once; \<open>salt\<close> is the salt it drew then.\<close>

definition DUMMY_HASH :: "Platform \<Rightarrow> byte list \<Rightarrow> string" where
  "DUMMY_HASH pf salt = hashPassword pf salt ''::unmatchable-sentinel::''"

definition nowSeconds :: "int \<Rightarrow> int" where
  "nowSeconds now = now div 1000"

definition num_of_int :: "int \<Rightarrow> jsval" where
  "num_of_int k = Num (Fin (of_int k))"

text \<open>An object literal \<open>{...base, ...extra}\<close>: later properties replace earlier ones in place.\<close>

definition spread :: "(string \<times> jsval) list \<Rightarrow> (string \<times> jsval) list \<Rightarrow> jsval" where
  "spread base extra = Obj (fold (\<lambda>(k, v). AList.update k v) extra base)"

definition issue_token ::
    "Platform \<Rightarrow> AuthConfig \<Rightarrow> int \<Rightarrow> jsval \<Rightarrow> string \<Rightarrow> int \<Rightarrow> (string \<times> jsval) list \<Rightarrow> string \<times> int" where
  "issue_token pf cfg now sub kind ttlSeconds extra =
     (let iat = nowSeconds now; expiry = iat + ttlSeconds
      in (signJwt pf (spread [(''sub'', sub), (''iat'', num_of_int iat), (''exp'', num_of_int expiry),
            (''type'', Str kind)] extra) (cfg_secret cfg), expiry))"

definition auth_failed :: exn where
  "auth_failed = AuthError (makeError (error_wire AuthenticationFailed) []) 401"

definition login ::
    "Platform \<Rightarrow> byte list \<Rightarrow> AuthConfig \<Rightarrow> UserRepo \<Rightarrow> int \<Rightarrow> int \<Rightarrow> string \<Rightarrow> string \<Rightarrow> exn + LoginResult" where
  "login pf dummySalt cfg users now1 now2 email password =
     (let user = user_findByEmail users email;
          ok = verifyPassword pf password
            (case user of Some u \<Rightarrow> usr_passwordHash u | None \<Rightarrow> DUMMY_HASH pf dummySalt)
      in case user of
          None \<Rightarrow> Inl auth_failed
        | Some u \<Rightarrow>
            if \<not> ok then Inl auth_failed
            else (let access = issue_token pf cfg now1 (Str (usr_id u)) ''access'' (cfg_accessTtlSeconds cfg)
                        [(''role'', Str (role_wire (usr_role u)))];
                      refresh = issue_token pf cfg now2 (Str (usr_id u)) ''refresh'' (cfg_refreshTtlSeconds cfg)
                        [(''role'', Str (role_wire (usr_role u)))]
                  in case iso_or_throw (snd access * 1000) of
                      Inl e \<Rightarrow> Inl e
                    | Inr expiresAt \<Rightarrow> Inr \<lparr>lr_token = fst access, lr_refreshToken = fst refresh,
                        lr_role = usr_role u, lr_expiresAt = expiresAt\<rparr>))"

definition verifyToken :: "Platform \<Rightarrow> AuthConfig \<Rightarrow> int \<Rightarrow> string \<Rightarrow> exn + jsval" where
  "verifyToken pf cfg now token = (case verifyJwt pf token (cfg_secret cfg) now of
      Inr claims \<Rightarrow> Inr claims
    | Inl TokenExpiredError \<Rightarrow> Inl auth_failed
    | Inl (TokenInvalidError m) \<Rightarrow> Inl auth_failed
    | Inl TokenTypeError \<Rightarrow> Inl (External ''TypeError''))"

definition read_claim :: "jsval \<Rightarrow> string \<Rightarrow> jsval" where
  "read_claim claims k = or_else (js_prop claims k) Undefined"

definition refresh_session ::
    "Platform \<Rightarrow> AuthConfig \<Rightarrow> int \<Rightarrow> int \<Rightarrow> string \<Rightarrow> exn + RefreshResult" where
  "refresh_session pf cfg now1 now2 refreshToken = (case verifyToken pf cfg now1 refreshToken of
      Inl e \<Rightarrow> Inl e
    | Inr claims \<Rightarrow>
        if read_claim claims ''type'' \<noteq> Str ''refresh'' then Inl auth_failed
        else (let access = issue_token pf cfg now2 (read_claim claims ''sub'') ''access'' (cfg_accessTtlSeconds cfg)
                [(''role'', read_claim claims ''role'')]
          in case iso_or_throw (snd access * 1000) of
              Inl e \<Rightarrow> Inl e
            | Inr expiresAt \<Rightarrow> Inr \<lparr>rf_token = fst access, rf_expiresAt = expiresAt\<rparr>))"

definition issueTrackingToken :: "Platform \<Rightarrow> AuthConfig \<Rightarrow> int \<Rightarrow> string \<Rightarrow> string" where
  "issueTrackingToken pf cfg now deliveryId =
     fst (issue_token pf cfg now (Str deliveryId) ''tracking'' (cfg_trackingTtlSeconds cfg)
       [(''role'', Str (role_wire CustomerRole)), (''scope'', Str (''delivery:'' @ deliveryId))])"

definition resolveTrackingToken :: "Platform \<Rightarrow> AuthConfig \<Rightarrow> int \<Rightarrow> string \<Rightarrow> exn + TrackingScope" where
  "resolveTrackingToken pf cfg now token = (case verifyToken pf cfg now token of
      Inl e \<Rightarrow> Inl e
    | Inr claims \<Rightarrow> (case (read_claim claims ''type'', read_claim claims ''scope'') of
        (Str t, Str sc) \<Rightarrow>
          if t = ''tracking'' then Inr \<lparr>ts_deliveryId = read_claim claims ''sub'', ts_scope = sc\<rparr>
          else Inl (AuthError (makeError (error_wire AuthorizationDenied) []) 403)
      | _ \<Rightarrow> Inl (AuthError (makeError (error_wire AuthorizationDenied) []) 403)))"

section \<open>Tokens\<close>

lemma sign_no_dot: "CHR ''.'' \<notin> set (sign pf t k)"
  by (simp add: sign_def base64url_no_dot)

lemma encode_part_no_dot: "CHR ''.'' \<notin> set (encode_part pf v)"
  by (simp add: encode_part_def base64url_no_dot)

lemma decode_encode_part: "json_plain (show_fraction pf) v \<Longrightarrow> decode_part (encode_part pf v) = Some v"
  by (simp add: decode_part_def encode_part_def json_parse_text)

lemma split_three:
  "js_split d t = [a, b, c] \<longleftrightarrow> t = a @ d # b @ d # c \<and> d \<notin> set a \<and> d \<notin> set b \<and> d \<notin> set c"
proof
  assume eq: "js_split d t = [a, b, c]"
  have "t = concat (map (\<lambda>p. p @ [d]) (butlast (js_split d t))) @ last (js_split d t)
      \<and> (\<forall>p \<in> set (js_split d t). d \<notin> set p)" for t
  proof (induction t)
    case (Cons x xs)
    then show ?case by (cases "js_split d xs") (auto split: if_splits)
  qed simp
  from this [of t] show "t = a @ d # b @ d # c \<and> d \<notin> set a \<and> d \<notin> set b \<and> d \<notin> set c"
    by (simp add: eq)
qed (simp add: js_split_append js_split_no_sep)

text \<open>Acceptance: a mac over the first two parts, readable claims, and an expiry ahead.\<close>

lemma check_claims_Inr:
  "check_claims claims now = Inr c \<longleftrightarrow>
     c = claims \<and> (\<exists>e. js_prop claims ''exp'' = Some (Num e) \<and> \<not> js_le (e * Fin 1000) (Fin (of_int now)))"
  by (auto simp: check_claims_def split: option.split jsval.split if_splits)

lemma verifyJwt_parts:
  assumes "CHR ''.'' \<notin> set h" "CHR ''.'' \<notin> set p" "CHR ''.'' \<notin> set g"
  shows "verifyJwt pf (h @ ''.'' @ p @ ''.'' @ g) secret now =
     (if g = sign pf (h @ ''.'' @ p) secret
      then case decode_part p of
          None \<Rightarrow> Inl (TokenInvalidError ''unparseable claims'')
        | Some claims \<Rightarrow> check_claims claims now
      else Inl (TokenInvalidError ''signature mismatch''))"
  using assms by (simp add: verifyJwt_def js_split_append js_split_no_sep Let_def utf8_encode_inj)

lemma verifyJwt_Inr:
  "verifyJwt pf token secret now = Inr claims \<longleftrightarrow>
     (\<exists>h p. token = h @ ''.'' @ p @ ''.'' @ sign pf (h @ ''.'' @ p) secret
        \<and> CHR ''.'' \<notin> set h \<and> CHR ''.'' \<notin> set p
        \<and> (\<exists>c. decode_part p = Some c \<and> check_claims c now = Inr claims))"
proof
  assume acc: "verifyJwt pf token secret now = Inr claims"
  then obtain h p g where "js_split (CHR ''.'') token = [h, p, g]"
    by (auto simp: verifyJwt_def split: list.splits)
  then have t: "token = h @ ''.'' @ p @ ''.'' @ g" and nd: "CHR ''.'' \<notin> set h" "CHR ''.'' \<notin> set p" "CHR ''.'' \<notin> set g"
    by (simp_all add: split_three)
  from acc [unfolded t verifyJwt_parts [OF nd]] t nd
  show "\<exists>h p. token = h @ ''.'' @ p @ ''.'' @ sign pf (h @ ''.'' @ p) secret
        \<and> CHR ''.'' \<notin> set h \<and> CHR ''.'' \<notin> set p
        \<and> (\<exists>c. decode_part p = Some c \<and> check_claims c now = Inr claims)"
    by (auto split: if_splits option.splits)
qed (auto simp: verifyJwt_parts [OF _ _ sign_no_dot, simplified])

lemma signJwt_parts:
  "signJwt pf claims secret =
     encode_part pf HEADER @ ''.'' @ encode_part pf claims @ ''.''
       @ sign pf (encode_part pf HEADER @ ''.'' @ encode_part pf claims) secret"
  by (simp add: signJwt_def Let_def)

lemma verify_signed:
  "json_plain (show_fraction pf) claims \<Longrightarrow> verifyJwt pf (signJwt pf claims secret) secret now = check_claims claims now"
  unfolding signJwt_parts
  by (subst verifyJwt_parts) (simp_all add: encode_part_no_dot sign_no_dot decode_encode_part)

section \<open>Sessions\<close>

lemma num_of_int_plain: "\<bar>k\<bar> < 2 ^ 53 \<Longrightarrow> json_plain f (num_of_int k)"
proof -
  assume "\<bar>k\<bar> < 2 ^ 53"
  then have "real_of_int \<bar>k\<bar> < real_of_int (2 ^ 53)" by (rule of_int_less_iff [THEN iffD2])
  then show ?thesis by (simp add: num_of_int_def number_reads_def)
qed

text \<open>The claims of a token, as issued.\<close>

definition claims_of :: "jsval \<Rightarrow> int \<Rightarrow> int \<Rightarrow> string \<Rightarrow> (string \<times> jsval) list \<Rightarrow> jsval" where
  "claims_of sub iat expiry kind extra =
     Obj ([(''sub'', sub), (''iat'', num_of_int iat), (''exp'', num_of_int expiry), (''type'', Str kind)] @ extra)"

lemma spread_fresh:
  assumes "distinct (map fst (base @ extra))"
  shows "spread base extra = Obj (base @ extra)"
  using fold_update_distinct [OF assms] by (simp add: spread_def)

lemma issue_token_eq:
  assumes "distinct (map fst extra)" "set (map fst extra) \<subseteq> {''role'', ''scope''}"
  shows "issue_token pf cfg now sub kind ttl extra =
     (signJwt pf (claims_of sub (now div 1000) (now div 1000 + ttl) kind extra) (cfg_secret cfg), now div 1000 + ttl)"
proof -
  have "distinct (map fst ([(''sub'', sub), (''iat'', num_of_int (now div 1000)),
      (''exp'', num_of_int (now div 1000 + ttl)), (''type'', Str kind)] @ extra))"
    using assms by auto
  from spread_fresh [OF this] show ?thesis
    by (simp add: issue_token_def nowSeconds_def Let_def claims_of_def)
qed

lemma snd_issue_token [simp]: "snd (issue_token pf cfg now sub kind ttl extra) = now div 1000 + ttl"
  by (simp add: issue_token_def nowSeconds_def Let_def)

lemma check_claims_of:
  "check_claims (claims_of sub iat expiry kind extra) now =
     (if expiry * 1000 \<le> now then Inl TokenExpiredError else Inr (claims_of sub iat expiry kind extra))"
proof -
  have "real_of_int expiry * 1000 \<le> real_of_int now \<longleftrightarrow> expiry * 1000 \<le> now"
    by (metis of_int_le_iff of_int_mult of_int_numeral)
  then show ?thesis by (simp add: check_claims_def claims_of_def js_prop_def num_of_int_def)
qed

lemma read_claim_of:
  "read_claim (claims_of sub iat expiry kind extra) ''sub'' = sub"
  "read_claim (claims_of sub iat expiry kind extra) ''type'' = Str kind"
  "read_claim (claims_of sub iat expiry kind ((''role'', r) # extra)) ''role'' = r"
  "read_claim (claims_of sub iat expiry kind [(''role'', r), (''scope'', s)]) ''scope'' = s"
  by (simp_all add: read_claim_def claims_of_def js_prop_def)

text \<open>The clock and the lifetimes stay where integers print in decimal.\<close>

definition sane_times :: "AuthConfig \<Rightarrow> int \<Rightarrow> bool" where
  "sane_times cfg now \<longleftrightarrow> \<bar>now\<bar> \<le> max_time \<and> \<bar>cfg_accessTtlSeconds cfg\<bar> \<le> 10 ^ 12
     \<and> \<bar>cfg_refreshTtlSeconds cfg\<bar> \<le> 10 ^ 12 \<and> \<bar>cfg_trackingTtlSeconds cfg\<bar> \<le> 10 ^ 12"

lemma sane_second: "sane_times cfg now \<Longrightarrow> \<bar>now div 1000\<bar> \<le> 10 ^ 13"
  unfolding sane_times_def max_time_def by (auto simp: abs_le_iff)

lemma claims_of_plain:
  assumes "sane_times cfg now" "\<bar>ttl\<bar> \<le> 10 ^ 12" "json_plain f sub" "distinct (map fst extra)"
    "set (map fst extra) \<subseteq> {''role'', ''scope''}" "\<forall>p \<in> set extra. json_plain f (snd p)"
  shows "json_plain f (claims_of sub (now div 1000) (now div 1000 + ttl) kind extra)"
proof -
  have "\<bar>now div 1000\<bar> < 2 ^ 53" "\<bar>now div 1000 + ttl\<bar> < 2 ^ 53"
    using sane_second [OF assms(1)] assms(2) by auto
  then show ?thesis
    using assms(3-6) num_of_int_plain by (auto simp: claims_of_def list_all_iff)
qed

lemma verify_issued:
  assumes "sane_times cfg t" "\<bar>ttl\<bar> \<le> 10 ^ 12" "json_plain (show_fraction pf) sub" "distinct (map fst extra)"
    "set (map fst extra) \<subseteq> {''role'', ''scope''}" "\<forall>p \<in> set extra. json_plain (show_fraction pf) (snd p)"
  shows "verifyToken pf cfg now (fst (issue_token pf cfg t sub kind ttl extra)) =
     (if now < (t div 1000 + ttl) * 1000
      then Inr (claims_of sub (t div 1000) (t div 1000 + ttl) kind extra) else Inl auth_failed)"
  using verify_signed [OF claims_of_plain [OF assms], of kind "cfg_secret cfg" now]
  by (simp add: verifyToken_def issue_token_eq [OF assms(4,5)] check_claims_of)

lemma login_Inr:
  "login pf salt cfg users t1 t2 email pw = Inr res \<longleftrightarrow>
     (\<exists>u. user_findByEmail users email = Some u \<and> verifyPassword pf pw (usr_passwordHash u)
        \<and> \<bar>(t1 div 1000 + cfg_accessTtlSeconds cfg) * 1000\<bar> \<le> max_time
        \<and> res = \<lparr>lr_token = fst (issue_token pf cfg t1 (Str (usr_id u)) ''access'' (cfg_accessTtlSeconds cfg)
                    [(''role'', Str (role_wire (usr_role u)))]),
                 lr_refreshToken = fst (issue_token pf cfg t2 (Str (usr_id u)) ''refresh'' (cfg_refreshTtlSeconds cfg)
                    [(''role'', Str (role_wire (usr_role u)))]),
                 lr_role = usr_role u,
                 lr_expiresAt = iso_string ((t1 div 1000 + cfg_accessTtlSeconds cfg) * 1000)\<rparr>)"
  by (auto simp: login_def Let_def issue_token_eq iso_or_throw_Inr split: option.splits sum.splits if_splits)
    (auto simp: iso_or_throw_Inl)

lemma login_fails:
  "user_findByEmail users email = None \<or>
     (\<exists>u. user_findByEmail users email = Some u \<and> \<not> verifyPassword pf pw (usr_passwordHash u))
   \<Longrightarrow> login pf salt cfg users t1 t2 email pw = Inl auth_failed"
  by (auto simp: login_def Let_def)

section \<open>Passwords\<close>

lemma verify_hashed:
  assumes "salt \<noteq> []" "\<And>p. length (scryptSync pf p salt KEYLEN) = KEYLEN"
  shows "verifyPassword pf p (hashPassword pf salt q) \<longleftrightarrow>
     scryptSync pf p salt KEYLEN = scryptSync pf q salt KEYLEN"
proof -
  have "CHR ''$'' \<notin> set PREFIX" by (simp add: PREFIX_def)
  moreover have "hashPassword pf salt q
      = PREFIX @ CHR ''$'' # hex_encode salt @ CHR ''$'' # hex_encode (scryptSync pf q salt KEYLEN)"
    by (simp add: hashPassword_def Let_def)
  ultimately have "js_split (CHR ''$'') (hashPassword pf salt q)
      = [PREFIX, hex_encode salt, hex_encode (scryptSync pf q salt KEYLEN)]"
    using split_three hex_encode_no_dollar by blast
  then show ?thesis
    using assms by (simp add: verifyPassword_def Let_def)
qed

lemma findByEmail_registered:
  "user_findByEmail (snd (user_register pf salt i email pw role repo)) e =
     (if js_lower e = js_lower email then Some (fst (user_register pf salt i email pw role repo))
      else user_findByEmail repo e)"
  by (simp add: user_findByEmail_def user_register_def Let_def map_get_set)

lemma login_registered:
  assumes "js_lower e = js_lower email" "salt \<noteq> []" "\<And>p. length (scryptSync pf p salt KEYLEN) = KEYLEN"
    and "scryptSync pf pw' salt KEYLEN = scryptSync pf pw salt KEYLEN"
    and "\<bar>(t1 div 1000 + cfg_accessTtlSeconds cfg) * 1000\<bar> \<le> max_time"
  shows "\<exists>res. login pf ds cfg (snd (user_register pf salt i email pw role repo)) t1 t2 e pw' = Inr res"
  using assms verify_hashed [of salt pf pw' pw]
  by (simp add: login_Inr findByEmail_registered) (simp add: user_register_def Let_def)

section \<open>Properties\<close>

text \<open>
  C21. What a session token must be. A token is accepted exactly when it is a header part, a
  payload part and the mac of these two under the secret, the payload reads as JSON with a
  numeric expiry, and that expiry (in seconds) lies after the current time; the answer is the
  payload's claims. Nothing else passes, in particular no token with a third part that is not
  the mac of its first two.
\<close>

theorem verifyJwt_accepts:
  "verifyJwt pf token secret now = Inr claims \<longleftrightarrow>
     (\<exists>h p e. token = h @ ''.'' @ p @ ''.'' @ sign pf (h @ ''.'' @ p) secret
        \<and> CHR ''.'' \<notin> set h \<and> CHR ''.'' \<notin> set p
        \<and> decode_part p = Some claims
        \<and> js_prop claims ''exp'' = Some (Num e) \<and> \<not> js_le (e * Fin 1000) (Fin (of_int now)))"
  unfolding verifyJwt_Inr check_claims_Inr by blast

text \<open>
  C24. Token round trip: verifying, under the same secret, what \<open>signJwt\<close> made of claims with a
  whole-second expiry gives back exactly these claims before the expiry, and the expiry error
  from that instant on.
\<close>

theorem signJwt_roundtrip:
  assumes "json_plain (show_fraction pf) (Obj ps)" "map_of ps ''exp'' = Some (num_of_int expiry)"
  shows "verifyJwt pf (signJwt pf (Obj ps) secret) secret now =
     (if now < expiry * 1000 then Inr (Obj ps) else Inl TokenExpiredError)"
proof -
  have "real_of_int expiry * 1000 \<le> real_of_int now \<longleftrightarrow> expiry * 1000 \<le> now"
    by (metis of_int_le_iff of_int_mult of_int_numeral)
  then show ?thesis
    by (simp add: verify_signed [OF assms(1)] check_claims_def js_prop_def assms(2) num_of_int_def)
qed

text \<open>A platform to evaluate on: a mac and a key derivation without secrecy.\<close>

definition toy_platform :: Platform where
  "toy_platform = \<lparr>hmac_sha256 = (\<lambda>k t. utf8_encode (k @ t)),
     scryptSync = (\<lambda>p s n. take n (utf8_encode p @ replicate n 0)), show_fraction = (\<lambda>_. [])\<rparr>"

lemma toy_platform_keys: "length (scryptSync toy_platform p s n) = n"
  by (simp add: toy_platform_def)

theorem signJwt_roundtrip_witness:
  "verifyJwt toy_platform
     (signJwt toy_platform (Obj [(''sub'', Str ''u-1''), (''exp'', num_of_int 2)]) ''k'') ''k'' 1999
   = Inr (Obj [(''sub'', Str ''u-1''), (''exp'', num_of_int 2)])"
proof -
  have "json_plain (show_fraction toy_platform) (num_of_int 2)" by (rule num_of_int_plain) simp
  then show ?thesis
    using signJwt_roundtrip [of toy_platform "[(''sub'', Str ''u-1''), (''exp'', num_of_int 2)]" 2 "''k''" 1999]
    by simp
qed

text \<open>
  C22. The life of a session. A login succeeds only for a registered email and a password its
  hash verifies. Then, at any later time, the access token verifies as the user's access token
  with the user's role until its expiry and is refused afterwards; it never refreshes a session;
  the refresh token, until its own expiry, yields a new access token of the same user and role.
\<close>

theorem session_lifecycle:
  assumes "login pf salt cfg users t1 t2 email pw = Inr res"
    and "sane_times cfg t1" "sane_times cfg t2" "sane_times cfg t3"
  shows "\<exists>u. user_findByEmail users email = Some u \<and> verifyPassword pf pw (usr_passwordHash u)
    \<and> lr_role res = usr_role u
    \<and> (if now < (t1 div 1000 + cfg_accessTtlSeconds cfg) * 1000
        then \<exists>c. verifyToken pf cfg now (lr_token res) = Inr c \<and> read_claim c ''sub'' = Str (usr_id u)
           \<and> read_claim c ''role'' = Str (role_wire (usr_role u)) \<and> read_claim c ''type'' = Str ''access''
        else verifyToken pf cfg now (lr_token res) = Inl auth_failed)
    \<and> refresh_session pf cfg now t3 (lr_token res) = Inl auth_failed
    \<and> (if now < (t2 div 1000 + cfg_refreshTtlSeconds cfg) * 1000
           \<and> \<bar>(t3 div 1000 + cfg_accessTtlSeconds cfg) * 1000\<bar> \<le> max_time
        then \<exists>r. refresh_session pf cfg now t3 (lr_refreshToken res) = Inr r
           \<and> (if t4 < (t3 div 1000 + cfg_accessTtlSeconds cfg) * 1000
               then \<exists>c. verifyToken pf cfg t4 (rf_token r) = Inr c \<and> read_claim c ''sub'' = Str (usr_id u)
                 \<and> read_claim c ''role'' = Str (role_wire (usr_role u)) \<and> read_claim c ''type'' = Str ''access''
               else verifyToken pf cfg t4 (rf_token r) = Inl auth_failed)
        else \<exists>e. refresh_session pf cfg now t3 (lr_refreshToken res) = Inl e)"
proof -
  let ?claims = "\<lambda>u t ttl kind. claims_of (Str (usr_id u)) (t div 1000) (t div 1000 + ttl) kind
     [(''role'', Str (role_wire (usr_role u)))]"
  from assms(1) obtain u where u: "user_findByEmail users email = Some u" "verifyPassword pf pw (usr_passwordHash u)"
    and res: "lr_token res = fst (issue_token pf cfg t1 (Str (usr_id u)) ''access'' (cfg_accessTtlSeconds cfg)
        [(''role'', Str (role_wire (usr_role u)))])"
      "lr_refreshToken res = fst (issue_token pf cfg t2 (Str (usr_id u)) ''refresh'' (cfg_refreshTtlSeconds cfg)
        [(''role'', Str (role_wire (usr_role u)))])" "lr_role res = usr_role u"
    by (auto simp: login_Inr)
  have ttl: "\<bar>cfg_accessTtlSeconds cfg\<bar> \<le> 10 ^ 12" "\<bar>cfg_refreshTtlSeconds cfg\<bar> \<le> 10 ^ 12"
    using assms(2) by (simp_all add: sane_times_def)
  have issued: "verifyToken pf cfg now (fst (issue_token pf cfg t (Str (usr_id u)) kind ttl
        [(''role'', Str (role_wire (usr_role u)))])) =
      (if now < (t div 1000 + ttl) * 1000 then Inr (?claims u t ttl kind) else Inl auth_failed)"
    if "sane_times cfg t" "\<bar>ttl\<bar> \<le> 10 ^ 12" for now t kind ttl
    using that by (intro verify_issued) auto
  note access = issued [OF assms(2) ttl(1)] and refresh = issued [OF assms(3) ttl(2)]
    and renewed = issued [OF assms(4) ttl(1)]
  show ?thesis
    by (rule exI [of _ u])
      (simp add: u res access refresh renewed refresh_session_def read_claim_of Let_def
        iso_or_throw_def toIso_def)
qed

theorem session_lifecycle_witness:
  "\<exists>u. user_findByEmail (snd (user_register toy_platform [1] ''u-1'' ''A@b.c'' ''pw'' Dispatcher [])) ''a@B.c'' = Some u"
proof -
  let ?pf = "toy_platform" and ?cfg = "auth_new ''k'' None None None"
  let ?users = "snd (user_register ?pf [1] ''u-1'' ''A@b.c'' ''pw'' Dispatcher [])"
  have sane: "sane_times ?cfg 0"
    by (simp add: sane_times_def auth_new_def auth_DEFAULTS_def max_time_def)
  have "js_lower ''a@B.c'' = js_lower ''A@b.c''" by code_simp
  then obtain res where "login ?pf [2] ?cfg ?users 0 0 ''a@B.c'' ''pw'' = Inr res"
    using login_registered [of "''a@B.c''" "''A@b.c''" "[1]" ?pf "''pw''" "''pw''" 0 ?cfg] toy_platform_keys
    by (fastforce simp: auth_new_def auth_DEFAULTS_def max_time_def)
  from session_lifecycle [OF this sane sane sane] show ?thesis by blast
qed

text \<open>
  Who can log in. After a user is registered, a login under that email, in whatever case,
  with a password that derives the same key succeeds, and with any other password fails with
  the authentication error; under an email that nobody registered every password fails the
  same way. (Key derivation returns keys of the requested length, as \<open>scrypt\<close> does.)
\<close>

theorem registered_user_logs_in:
  assumes "salt \<noteq> []" "\<And>p. length (scryptSync pf p salt KEYLEN) = KEYLEN"
    and "\<bar>(t1 div 1000 + cfg_accessTtlSeconds cfg) * 1000\<bar> \<le> max_time"
  shows "case login pf ds cfg (snd (user_register pf salt i email pw role repo)) t1 t2 e pw' of
      Inr res \<Rightarrow> if js_lower e = js_lower email
        then scryptSync pf pw' salt KEYLEN = scryptSync pf pw salt KEYLEN \<and> lr_role res = role
        else user_findByEmail repo e \<noteq> None
    | Inl x \<Rightarrow> x = auth_failed \<and>
        (if js_lower e = js_lower email then scryptSync pf pw' salt KEYLEN \<noteq> scryptSync pf pw salt KEYLEN
         else login pf ds cfg repo t1 t2 e pw' = Inl auth_failed)"
proof (cases "js_lower e = js_lower email")
  case True
  have u: "user_findByEmail (snd (user_register pf salt i email pw role repo)) e
      = Some \<lparr>usr_id = i, usr_email = email, usr_role = role, usr_passwordHash = hashPassword pf salt pw\<rparr>"
    using True by (simp add: findByEmail_registered) (simp add: user_register_def Let_def)
  show ?thesis
  proof (cases "scryptSync pf pw' salt KEYLEN = scryptSync pf pw salt KEYLEN")
    case same: True
    then obtain res where res: "login pf ds cfg (snd (user_register pf salt i email pw role repo)) t1 t2 e pw' = Inr res"
      using login_registered [OF True assms(1,2) same assms(3)] by blast
    then have "lr_role res = role" by (auto simp: login_Inr u)
    then show ?thesis by (simp add: res True same)
  next
    case False
    then have "login pf ds cfg (snd (user_register pf salt i email pw role repo)) t1 t2 e pw' = Inl auth_failed"
      using u verify_hashed [OF assms(1,2), of pw' pw] by (intro login_fails) auto
    then show ?thesis by (simp add: True False)
  qed
next
  case False
  then have same: "login pf ds cfg (snd (user_register pf salt i email pw role repo)) t1 t2 e pw'
      = login pf ds cfg repo t1 t2 e pw'"
    by (simp add: login_def findByEmail_registered Let_def)
  show ?thesis
  proof (cases "login pf ds cfg repo t1 t2 e pw'")
    case (Inl x)
    then have "x = auth_failed"
      using assms(3) by (auto simp: login_def Let_def iso_or_throw_def toIso_def split: option.splits if_splits)
    then show ?thesis by (simp add: same Inl False)
  next
    case (Inr res)
    then have "user_findByEmail repo e \<noteq> None" by (auto simp: login_Inr)
    then show ?thesis by (simp add: same Inr False)
  qed
qed

theorem registered_user_logs_in_witness:
  "login toy_platform [2] (auth_new ''k'' None None None)
     (snd (user_register toy_platform [1] ''u-1'' ''a@b.c'' ''pw'' Dispatcher [])) 0 0 ''a@b.c'' ''no'' = Inl auth_failed"
proof -
  have "take KEYLEN (utf8_encode ''no'' @ replicate KEYLEN 0) ! 0 = 0x6E"
    "take KEYLEN (utf8_encode ''pw'' @ replicate KEYLEN 0) ! 0 = 0x70"
    by (simp_all add: KEYLEN_def utf8_encode_def utf8_char_def byte_of_char_def char_code_def)
  then have "scryptSync toy_platform ''no'' [1] KEYLEN \<noteq> scryptSync toy_platform ''pw'' [1] KEYLEN"
    by (auto simp: toy_platform_def)
  then show ?thesis
    using registered_user_logs_in [where salt = "[1]" and pf = toy_platform and ?t1.0 = 0 and ?t2.0 = 0
        and cfg = "auth_new ''k'' None None None" and ds = "[2]" and i = "''u-1''" and email = "''a@b.c''"
        and pw = "''pw''" and role = Dispatcher and repo = "[]" and e = "''a@b.c''" and pw' = "''no''"]
      toy_platform_keys
    by (auto simp: auth_new_def auth_DEFAULTS_def max_time_def split: sum.splits)
qed

text \<open>
  C23. Tracking tokens and access control together. Until it expires a delivery's tracking token
  resolves to that delivery and its scope, afterwards it is refused; the access token of a
  session never resolves; and a customer who presents the resolved scope may read that one
  delivery and do nothing else.
\<close>

theorem tracking_token_scope:
  assumes "sane_times cfg t"
  shows "resolveTrackingToken pf cfg now (issueTrackingToken pf cfg t d) =
      (if now < (t div 1000 + cfg_trackingTtlSeconds cfg) * 1000
       then Inr \<lparr>ts_deliveryId = Str d, ts_scope = delivery_scope d\<rparr> else Inl auth_failed)
    \<and> resolveTrackingToken pf cfg now (fst (issue_token pf cfg t (Str u) ''access'' (cfg_accessTtlSeconds cfg)
          [(''role'', Str (role_wire ro))])) =
      (if now < (t div 1000 + cfg_accessTtlSeconds cfg) * 1000
       then Inl (AuthError \<lparr>err_code = ''authorization-denied'', err_fields = []\<rparr> 403) else Inl auth_failed)
    \<and> (authorize \<lparr>pr_role = Some CustomerRole, pr_userId = None, pr_trackingScope = Some (delivery_scope d)\<rparr> a r = Allow
      \<longleftrightarrow> a = ActRead \<and> rr_type r = RDelivery \<and> rr_deliveryId r = Some d)"
proof (intro conjI)
  have "verifyToken pf cfg now (issueTrackingToken pf cfg t d) =
      (if now < (t div 1000 + cfg_trackingTtlSeconds cfg) * 1000
       then Inr (claims_of (Str d) (t div 1000) (t div 1000 + cfg_trackingTtlSeconds cfg) ''tracking''
         [(''role'', Str (role_wire CustomerRole)), (''scope'', Str (''delivery:'' @ d))])
       else Inl auth_failed)"
    unfolding issueTrackingToken_def
    using assms by (intro verify_issued) (auto simp: sane_times_def)
  then show "resolveTrackingToken pf cfg now (issueTrackingToken pf cfg t d) =
      (if now < (t div 1000 + cfg_trackingTtlSeconds cfg) * 1000
       then Inr \<lparr>ts_deliveryId = Str d, ts_scope = delivery_scope d\<rparr> else Inl auth_failed)"
    by (simp add: resolveTrackingToken_def read_claim_of delivery_scope_def)
  have "verifyToken pf cfg now (fst (issue_token pf cfg t (Str u) ''access'' (cfg_accessTtlSeconds cfg)
          [(''role'', Str (role_wire ro))])) =
      (if now < (t div 1000 + cfg_accessTtlSeconds cfg) * 1000
       then Inr (claims_of (Str u) (t div 1000) (t div 1000 + cfg_accessTtlSeconds cfg) ''access''
         [(''role'', Str (role_wire ro))])
       else Inl auth_failed)"
    using assms by (intro verify_issued) (auto simp: sane_times_def)
  then show "resolveTrackingToken pf cfg now (fst (issue_token pf cfg t (Str u) ''access'' (cfg_accessTtlSeconds cfg)
          [(''role'', Str (role_wire ro))])) =
      (if now < (t div 1000 + cfg_accessTtlSeconds cfg) * 1000
       then Inl (AuthError \<lparr>err_code = ''authorization-denied'', err_fields = []\<rparr> 403) else Inl auth_failed)"
    by (simp add: resolveTrackingToken_def read_claim_of makeError_def split: jsval.split)
  show "authorize \<lparr>pr_role = Some CustomerRole, pr_userId = None, pr_trackingScope = Some (delivery_scope d)\<rparr> a r = Allow
      \<longleftrightarrow> a = ActRead \<and> rr_type r = RDelivery \<and> rr_deliveryId r = Some d"
    by (auto simp: authorize_def authorizeCustomer_Allow)
qed

theorem tracking_token_scope_witness:
  "resolveTrackingToken toy_platform (auth_new ''k'' None None None) 86399999
     (issueTrackingToken toy_platform (auth_new ''k'' None None None) 0 ''d-1'')
   = Inr \<lparr>ts_deliveryId = Str ''d-1'', ts_scope = delivery_scope ''d-1''\<rparr>"
proof -
  have "sane_times (auth_new ''k'' None None None) 0"
    by (simp add: sane_times_def auth_new_def auth_DEFAULTS_def max_time_def)
  from tracking_token_scope [OF this, THEN conjunct1, of toy_platform 86399999 "''d-1''"] show ?thesis
    by (simp add: auth_new_def auth_DEFAULTS_def)
qed

section \<open>The dummy hash\<close>

text \<open>
  The comment on \<open>DUMMY_HASH\<close> says that it never verifies against any password; it is an ordinary
  hash, and verifies for the sentinel. (A login for an unknown user fails all the same.)
\<close>

lemma dummy_hash_verifies:
  assumes "salt \<noteq> []" "\<And>p. length (scryptSync pf p salt KEYLEN) = KEYLEN"
  shows "verifyPassword pf ''::unmatchable-sentinel::'' (DUMMY_HASH pf salt)"
  unfolding DUMMY_HASH_def by (simp add: verify_hashed [OF assms])

end
