(* ===== verification/Fleet_Map.thy ===== *)
theory Fleet_Map
  imports Contracts Json
begin

text \<open>
  The live map's data (\<open>map/geo.ts\<close>, \<open>map/useFleetState.ts\<close> and the pure part of
  \<open>map/mapStyle.ts\<close>): vehicle states folded from position events, traces bounded in time and
  length, filters, projection and bounds. \<open>parse\<close> stands for the date parser (\<open>new Date(s)\<close>,
  \<open>None\<close> for an invalid date); an absent optional field and \<open>null\<close> are both \<open>None\<close>, which
  the code never tells apart. Vehicle ids are taken not to be names of inherited properties of
  objects (such as \<open>constructor\<close>), which an object used as a record would also find.
\<close>

section \<open>Model: vehicles, traces and the map's geometry\<close>

datatype VehicleKind = KindGround | KindAir | KindSea

record VehicleState =
  vs_vehicleId :: string
  vs_lat :: jsnum
  vs_lng :: jsnum
  vs_driverStatus :: string
  vs_heading :: "jsnum option"
  vs_label :: "string option"
  vs_kind :: "VehicleKind option"
  vs_zoneIds :: "string list option"
  vs_active :: "bool option"

datatype Timestamp = IsoStamp string | MsStamp jsnum

record TracePing =
  tp_lat :: jsnum
  tp_lng :: jsnum
  tp_timestamp :: Timestamp

definition TRACE_WINDOW_MS :: jsnum where
  "TRACE_WINDOW_MS = Fin (60 * 60 * 1000)"

fun toEpoch :: "(string \<Rightarrow> int option) \<Rightarrow> Timestamp \<Rightarrow> jsnum" where
  "toEpoch parse (MsStamp t) = t"
| "toEpoch parse (IsoStamp s) = (case parse s of None \<Rightarrow> NaN | Some t \<Rightarrow> Fin (of_int t))"

definition in_window :: "jsnum \<Rightarrow> jsnum \<Rightarrow> jsnum \<Rightarrow> bool" where
  "in_window cutoff now t \<longleftrightarrow> is_finite_num t \<and> js_le cutoff t \<and> js_le t now"

definition windowTrace :: "(string \<Rightarrow> int option) \<Rightarrow> TracePing list \<Rightarrow> jsnum \<Rightarrow> jsnum \<Rightarrow> TracePing list" where
  "windowTrace parse pings now windowMs =
     (let cutoff = now - windowMs
      in map fst (js_sort (\<lambda>a b. js_lt (Fin 0) (snd a - snd b))
           (filter (\<lambda>(p, t). in_window cutoff now t)
             (map (\<lambda>p. (p, toEpoch parse (tp_timestamp p))) pings))))"

record MapFilter =
  mf_driverStatus :: "string option"
  mf_zoneId :: "string option"

definition keeps_vehicle :: "MapFilter \<Rightarrow> VehicleState \<Rightarrow> bool" where
  "keeps_vehicle flt v \<longleftrightarrow>
     (if vs_active v = Some False then False
      else if truthy (mf_driverStatus flt) \<and> Some (vs_driverStatus v) \<noteq> mf_driverStatus flt then False
      else if truthy (mf_zoneId flt) \<and> the (mf_zoneId flt) \<notin> set (or_else (vs_zoneIds v) []) then False
      else True)"

definition filterVehicles :: "VehicleState list \<Rightarrow> MapFilter \<Rightarrow> VehicleState list" where
  "filterVehicles vehicles flt = filter (keeps_vehicle flt) vehicles"

definition projectMercator :: "real \<Rightarrow> real \<Rightarrow> real \<times> real" where
  "projectMercator lng lat =
     (let x = (lng + 180) / 360;
          clampedLat = max (- 85.05112878) (min 85.05112878 lat);
          s = sin ((clampedLat * pi) / 180);
          y = 0.5 - ln ((1 + s) / (1 - s)) / (4 * pi)
      in (x, y))"

text \<open>The bounds are \<open>(minLng, minLat, maxLng, maxLat)\<close> of points \<open>(lng, lat)\<close>.\<close>

type_synonym Box = "jsnum \<times> jsnum \<times> jsnum \<times> jsnum"

fun bounds_step :: "Box \<Rightarrow> jsnum \<times> jsnum \<Rightarrow> Box" where
  "bounds_step (minLng, minLat, maxLng, maxLat) (lng, lat) =
     (js_min minLng lng, js_min minLat lat, js_max maxLng lng, js_max maxLat lat)"

definition boundsOf :: "(jsnum \<times> jsnum) list \<Rightarrow> Box option" where
  "boundsOf points =
     (if points = [] then None else Some (foldl bounds_step (PInf, PInf, NInf, NInf) points))"

definition kindFromId :: "string \<Rightarrow> VehicleKind" where
  "kindFromId i =
     (if starts_with i ''FLT'' then KindAir else if starts_with i ''SHP'' then KindSea else KindGround)"

text \<open>The angle, in degrees, by which a marker's icon is turned.\<close>

definition marker_angle :: "VehicleKind \<Rightarrow> jsnum option \<Rightarrow> jsnum" where
  "marker_angle kind heading =
     (let rotates = kind = KindAir \<or> kind = KindSea
      in case heading of Some h \<Rightarrow> (if rotates then h else Fin 0) | None \<Rightarrow> Fin 0)"

section \<open>Model: the fleet state\<close>

record ZonePolygon =
  zp_id :: string
  zp_name :: string
  zp_ring :: "(real \<times> real) list"

definition seed_vehicle :: "string \<Rightarrow> real \<Rightarrow> real \<Rightarrow> string \<Rightarrow> real \<Rightarrow> string list option \<Rightarrow> VehicleState" where
  "seed_vehicle i lat lng status heading zs =
     \<lparr>vs_vehicleId = i, vs_lat = Fin lat, vs_lng = Fin lng, vs_driverStatus = status,
      vs_heading = Some (Fin heading), vs_label = Some i, vs_kind = Some KindGround,
      vs_zoneIds = zs, vs_active = Some True\<rparr>"

definition SEED_VEHICLES :: "VehicleState list" where
  "SEED_VEHICLES =
    [seed_vehicle ''VAN-014'' 47.6062 (- 122.3321) ''On_Delivery'' 45 (Some [''zone-dt'']),
     seed_vehicle ''VAN-022'' 47.6205 (- 122.3493) ''Available'' 200 None,
     seed_vehicle ''TRK-003'' 47.5952 (- 122.3316) ''On_Break'' 310 (Some [''zone-sodo'']),
     seed_vehicle ''VAN-031'' 47.6145 (- 122.3201) ''On_Delivery'' 120 None]"

definition SEED_ZONES :: "ZonePolygon list" where
  "SEED_ZONES =
    [\<lparr>zp_id = ''zone-dt'', zp_name = ''Downtown Core'',
      zp_ring = [(- 122.3415, 47.6125), (- 122.3245, 47.6125), (- 122.3245, 47.6005),
        (- 122.3415, 47.6005), (- 122.3415, 47.6125)]\<rparr>,
     \<lparr>zp_id = ''zone-sodo'', zp_name = ''SODO Depot'',
      zp_ring = [(- 122.3389, 47.5985), (- 122.3262, 47.5985), (- 122.3262, 47.5905),
        (- 122.3389, 47.5905), (- 122.3389, 47.5985)]\<rparr>]"

definition seed_ping :: "int \<Rightarrow> nat \<Rightarrow> TracePing" where
  "seed_ping now i =
     \<lparr>tp_lat = Fin (47.6 + of_nat i * 0.0009 + sin (of_nat i / 2) * 0.0004),
      tp_lng = Fin (- 122.34 + of_nat i * 0.0011),
      tp_timestamp = MsStamp (Fin (of_int (now - int i * 4 * 60 * 1000)))\<rparr>"

definition seedTraces :: "int \<Rightarrow> (string, TracePing list) jsmap" where
  "seedTraces now = [(''VAN-014'', map (seed_ping now) (rev [0..<13]))]"

definition bounded :: "(string \<Rightarrow> int option) \<Rightarrow> TracePing list \<Rightarrow> jsnum \<Rightarrow> TracePing list" where
  "bounded parse pings now =
     (let cutoff = now - TRACE_WINDOW_MS;
          kept = filter (\<lambda>p. js_le cutoff (toEpoch parse (tp_timestamp p))) pings
      in if length kept > 2000 then drop (length kept - 2000) kept else kept)"

record FleetState =
  fs_vehicles :: "(string, VehicleState) jsmap"
  fs_traces :: "(string, TracePing list) jsmap"

definition fleet_state_new :: "int \<Rightarrow> FleetState" where
  "fleet_state_new now =
     \<lparr>fs_vehicles = map_new (map (\<lambda>v. (vs_vehicleId v, v)) SEED_VEHICLES), fs_traces = seedTraces now\<rparr>"

definition moved_vehicle :: "VehicleState option \<Rightarrow> PositionEvent \<Rightarrow> VehicleState" where
  "moved_vehicle existing p =
     \<lparr>vs_vehicleId = pos_vehicleId p, vs_lat = pos_lat p, vs_lng = pos_lng p,
      vs_driverStatus = or_else (map_option vs_driverStatus existing) ''On_Delivery'',
      vs_heading = nullish (Option.bind (pos_telemetry p) tel_heading) (Option.bind existing vs_heading),
      vs_label = nullish (Option.bind existing vs_label) (Some (pos_vehicleId p)),
      vs_kind = nullish (Option.bind existing vs_kind) (Some (kindFromId (pos_vehicleId p))),
      vs_zoneIds = Option.bind existing vs_zoneIds,
      vs_active = Some True\<rparr>"

definition place_vehicle :: "PositionEvent \<Rightarrow> (string, VehicleState) jsmap \<Rightarrow> (string, VehicleState) jsmap" where
  "place_vehicle p prev = map_set (pos_vehicleId p) (moved_vehicle (map_get prev (pos_vehicleId p)) p) prev"

definition push_trace ::
    "(string \<Rightarrow> int option) \<Rightarrow> jsnum \<Rightarrow> PositionEvent \<Rightarrow> (string, TracePing list) jsmap \<Rightarrow> (string, TracePing list) jsmap" where
  "push_trace parse now p prev =
     (let arr = or_else (map_get prev (pos_vehicleId p)) []
            @ [\<lparr>tp_lat = pos_lat p, tp_lng = pos_lng p, tp_timestamp = IsoStamp (pos_timestamp p)\<rparr>]
      in map_set (pos_vehicleId p) (bounded parse arr now) prev)"

definition on_position :: "(string \<Rightarrow> int option) \<Rightarrow> int \<Rightarrow> PositionEvent \<Rightarrow> FleetState \<Rightarrow> FleetState" where
  "on_position parse now p s =
     \<lparr>fs_vehicles = place_vehicle p (fs_vehicles s),
      fs_traces = push_trace parse (Fin (of_int now)) p (fs_traces s)\<rparr>"

text \<open>What the hook hands to the map.\<close>

definition useFleetState :: "FleetState \<Rightarrow> VehicleState list \<times> ZonePolygon list \<times> (string, TracePing list) jsmap" where
  "useFleetState s = (map_values (fs_vehicles s), SEED_ZONES, fs_traces s)"


section \<open>Traces\<close>

lemma windowTrace_alt:
  "windowTrace parse pings now w =
     js_sort (\<lambda>p q. js_lt (Fin 0) (toEpoch parse (tp_timestamp p) - toEpoch parse (tp_timestamp q)))
       (filter (\<lambda>p. in_window (now - w) now (toEpoch parse (tp_timestamp p))) pings)"
proof -
  let ?t = "\<lambda>p. toEpoch parse (tp_timestamp p)"
  have "filter (\<lambda>(p, t). in_window (now - w) now t) (map (\<lambda>p. (p, ?t p)) pings)
      = map (\<lambda>p. (p, ?t p)) (filter (\<lambda>p. in_window (now - w) now (?t p)) pings)"
    by (induction pings) auto
  then have "windowTrace parse pings now w = map fst (js_sort (\<lambda>a b. js_lt (Fin 0) (snd a - snd b))
      (map (\<lambda>p. (p, ?t p)) (filter (\<lambda>p. in_window (now - w) now (?t p)) pings)))"
    by (simp add: windowTrace_def Let_def)
  also have "\<dots> = map fst (map (\<lambda>p. (p, ?t p)) (js_sort (\<lambda>p q. js_lt (Fin 0) (?t p - ?t q))
      (filter (\<lambda>p. in_window (now - w) now (?t p)) pings)))"
    by (subst js_sort_map [where gt = "\<lambda>p q. js_lt (Fin 0) (?t p - ?t q)"]) simp_all
  finally show ?thesis by (simp add: comp_def)
qed

text \<open>On pings with a finite time the order is the stable order by time.\<close>

definition stamp_of :: "(string \<Rightarrow> int option) \<Rightarrow> TracePing \<Rightarrow> real" where
  "stamp_of parse p = (case toEpoch parse (tp_timestamp p) of Fin t \<Rightarrow> t | _ \<Rightarrow> 0)"

lemma is_finite_numE: "is_finite_num t \<Longrightarrow> \<exists>x. t = Fin x"
  by (cases t) auto

lemma windowTrace_sort_key:
  "windowTrace parse pings now w = sort_key (stamp_of parse)
     (filter (\<lambda>p. in_window (now - w) now (toEpoch parse (tp_timestamp p))) pings)"
proof -
  have cong: "js_sort gt xs = js_sort gt' xs"
    if "\<And>x y. x \<in> set xs \<Longrightarrow> y \<in> set xs \<Longrightarrow> gt x y = gt' x y" for gt gt' and xs :: "TracePing list"
    using js_sort_map [of xs gt id gt'] that by simp
  show ?thesis
    unfolding windowTrace_alt js_sort_key [symmetric]
    by (rule cong) (auto simp: in_window_def stamp_of_def dest!: is_finite_numE)
qed

lemma in_window_earlier:
  assumes "c \<le> n"
  shows "in_window (Fin n - TRACE_WINDOW_MS) (Fin n) t \<Longrightarrow> js_le (Fin c - TRACE_WINDOW_MS) t"
  using assms by (cases t) (auto simp: in_window_def TRACE_WINDOW_MS_def)

lemma length_bounded: "length (bounded parse xs now) \<le> 2000"
  by (simp add: bounded_def Let_def)

lemma set_bounded: "set (bounded parse xs now) \<subseteq> set xs"
  by (auto simp: bounded_def Let_def dest: in_set_dropD)

lemma bounded_short:
  "length xs \<le> 2000 \<Longrightarrow>
     bounded parse xs now = filter (\<lambda>p. js_le (now - TRACE_WINDOW_MS) (toEpoch parse (tp_timestamp p))) xs"
  by (simp add: bounded_def Let_def) (metis length_filter_le le_trans not_less)

lemma length_bounded_le: "length (bounded parse xs now) \<le> length xs"
proof -
  define kept where "kept = filter (\<lambda>p. js_le (now - TRACE_WINDOW_MS) (toEpoch parse (tp_timestamp p))) xs"
  have "length kept \<le> length xs" by (simp add: kept_def)
  moreover have "length (bounded parse xs now) \<le> length kept"
    by (simp add: bounded_def Let_def kept_def [symmetric])
  ultimately show ?thesis by linarith
qed

text \<open>The pings the window at time \<open>n\<close> looks at.\<close>

definition visible :: "(string \<Rightarrow> int option) \<Rightarrow> real \<Rightarrow> TracePing list \<Rightarrow> TracePing list" where
  "visible parse n = filter (\<lambda>p. in_window (Fin n - TRACE_WINDOW_MS) (Fin n) (toEpoch parse (tp_timestamp p)))"

lemma visible_bounded:
  assumes "length xs \<le> 2000" "c \<le> n"
  shows "visible parse n (bounded parse xs (Fin c)) = visible parse n xs"
  unfolding visible_def bounded_short [OF assms(1)] filter_filter
  by (rule filter_cong) (auto dest: in_window_earlier [OF assms(2)])

section \<open>Runs\<close>

text \<open>A run is a list of position events with the clock reading at which each was handled.\<close>

definition fleet_run :: "(string \<Rightarrow> int option) \<Rightarrow> (int \<times> PositionEvent) list \<Rightarrow> FleetState \<Rightarrow> FleetState" where
  "fleet_run parse es s = foldl (\<lambda>s (now, p). on_position parse now p s) s es"

lemma fleet_run_simps [simp]:
  "fleet_run parse [] s = s"
  "fleet_run parse (es @ [(now, p)]) s = on_position parse now p (fleet_run parse es s)"
  by (simp_all add: fleet_run_def)

text \<open>Everything ever reported of a vehicle, the seeded pings first.\<close>

definition ping_of :: "PositionEvent \<Rightarrow> TracePing" where
  "ping_of p = \<lparr>tp_lat = pos_lat p, tp_lng = pos_lng p, tp_timestamp = IsoStamp (pos_timestamp p)\<rparr>"

definition reported :: "string \<Rightarrow> (int \<times> PositionEvent) list \<Rightarrow> PositionEvent list" where
  "reported v es = filter (\<lambda>p. pos_vehicleId p = v) (map snd es)"

definition all_pings :: "int \<Rightarrow> string \<Rightarrow> (int \<times> PositionEvent) list \<Rightarrow> TracePing list" where
  "all_pings t0 v es = or_else (map_get (seedTraces t0) v) [] @ map ping_of (reported v es)"

definition trace_of :: "FleetState \<Rightarrow> string \<Rightarrow> TracePing list" where
  "trace_of s v = or_else (map_get (fs_traces s) v) []"

lemma trace_of_on_position:
  "trace_of (on_position parse now p s) v =
     (if v = pos_vehicleId p then bounded parse (trace_of s v @ [ping_of p]) (Fin (of_int now)) else trace_of s v)"
  by (simp add: trace_of_def on_position_def push_trace_def Let_def ping_of_def)

lemma trace_of_new: "trace_of (fleet_state_new t0) v = or_else (map_get (seedTraces t0) v) []"
  by (simp add: trace_of_def fleet_state_new_def)

lemma length_seedTraces: "length (or_else (map_get (seedTraces t0) v) []) \<le> 13"
  by (simp add: seedTraces_def)

lemma length_trace_of: "length (trace_of (fleet_run parse es (fleet_state_new t0)) v) \<le> 2000"
proof (induction es rule: rev_induct)
  case Nil
  then show ?case using length_seedTraces [of t0 v] by (simp add: trace_of_new)
next
  case (snoc e es)
  then show ?case using length_bounded by (cases e) (simp add: trace_of_on_position)
qed

lemma all_pings_snoc:
  "all_pings t0 v (es @ [(now, p)]) = all_pings t0 v es @ (if pos_vehicleId p = v then [ping_of p] else [])"
  by (simp add: all_pings_def reported_def)

lemma trace_of_visible:
  assumes "length (all_pings t0 v es) \<le> 2000" "\<forall>e \<in> set es. of_int (fst e) \<le> n"
  shows "visible parse n (trace_of (fleet_run parse es (fleet_state_new t0)) v) = visible parse n (all_pings t0 v es)
    \<and> length (trace_of (fleet_run parse es (fleet_state_new t0)) v) \<le> length (all_pings t0 v es)"
  using assms
proof (induction es rule: rev_induct)
  case Nil
  then show ?case by (simp add: trace_of_new all_pings_def reported_def)
next
  case (snoc e es)
  obtain now p where e: "e = (now, p)" by (cases e)
  let ?tr = "trace_of (fleet_run parse es (fleet_state_new t0)) v"
  have IH: "visible parse n ?tr = visible parse n (all_pings t0 v es)" "length ?tr \<le> length (all_pings t0 v es)"
    using snoc.IH snoc.prems by (auto simp: e all_pings_snoc split: if_splits)
  have now: "of_int now \<le> n" using snoc.prems(2) by (simp add: e)
  show ?case
  proof (cases "pos_vehicleId p = v")
    case True
    have short: "length (?tr @ [ping_of p]) \<le> 2000"
      using IH(2) snoc.prems(1) True by (simp add: e all_pings_snoc)
    have "length (bounded parse (?tr @ [ping_of p]) (Fin (of_int now))) \<le> Suc (length ?tr)"
      using length_bounded_le [of parse "?tr @ [ping_of p]"] by simp
    then show ?thesis
      using True IH visible_bounded [OF short now, of parse]
      by (simp add: e trace_of_on_position all_pings_snoc visible_def)
  next
    case False
    then show ?thesis using IH by (simp add: e trace_of_on_position all_pings_snoc)
  qed
qed

text \<open>
  Pings that come in the order of their times, none of them ahead of \<open>n\<close>: the window is the end of the
  list, and so is what the cap keeps.
\<close>

definition latest :: "nat \<Rightarrow> 'a list \<Rightarrow> 'a list" where
  "latest k xs = drop (length xs - k) xs"

definition in_time_order :: "(string \<Rightarrow> int option) \<Rightarrow> real \<Rightarrow> TracePing list \<Rightarrow> bool" where
  "in_time_order parse n ps \<longleftrightarrow>
     list_all (\<lambda>p. is_finite_num (toEpoch parse (tp_timestamp p)) \<and> js_le (toEpoch parse (tp_timestamp p)) (Fin n)) ps
     \<and> sorted (map (stamp_of parse) ps)"

lemma latest_short: "length xs \<le> k \<Longrightarrow> latest k xs = xs"
  by (simp add: latest_def)

lemma latest_append: "latest k (latest k xs @ ys) = latest k (xs @ ys)"
  by (cases "length xs \<le> k") (simp_all add: latest_def algebra_simps)

lemma bounded_latest:
  "bounded parse xs now = latest 2000 (filter (\<lambda>p. js_le (now - TRACE_WINDOW_MS) (toEpoch parse (tp_timestamp p))) xs)"
  by (simp add: bounded_def latest_def Let_def)

lemma in_time_order_parts:
  "in_time_order parse n (xs @ ys) \<longleftrightarrow> in_time_order parse n xs \<and> in_time_order parse n ys
     \<and> (\<forall>x \<in> set xs. \<forall>y \<in> set ys. stamp_of parse x \<le> stamp_of parse y)"
  by (auto simp: in_time_order_def sorted_append)

lemma in_time_order_drop: "in_time_order parse n xs \<Longrightarrow> in_time_order parse n (drop j xs)"
  using in_time_order_parts [of parse n "take j xs" "drop j xs"] by simp

lemma in_time_order_filter: "in_time_order parse n xs \<Longrightarrow> in_time_order parse n (filter P xs)"
  by (auto simp: in_time_order_def list_all_iff sorted_filter)

lemma visible_suffix:
  assumes "in_time_order parse n xs"
  shows "\<exists>m. visible parse n xs = drop m xs \<and> (\<forall>j. visible parse n (drop j xs) = drop (max m j) xs)"
  using assms
proof (induction xs)
  case Nil
  show ?case by (simp add: visible_def)
next
  case (Cons x xs)
  have tail: "in_time_order parse n xs" and first: "\<forall>y \<in> set xs. stamp_of parse x \<le> stamp_of parse y"
    using in_time_order_parts [of parse n "[x]" xs] Cons.prems by simp_all
  have seen: "y \<in> set (x # xs) \<Longrightarrow> in_window (Fin n - TRACE_WINDOW_MS) (Fin n) (toEpoch parse (tp_timestamp y))
      \<longleftrightarrow> n - 3600000 \<le> stamp_of parse y" for y
    using Cons.prems by (auto simp: in_time_order_def list_all_iff in_window_def TRACE_WINDOW_MS_def stamp_of_def
        dest!: is_finite_numE split: jsnum.splits)
  obtain m where m: "visible parse n xs = drop m xs" "\<And>j. visible parse n (drop j xs) = drop (max m j) xs"
    using Cons.IH [OF tail] by blast
  show ?case
  proof (cases "n - 3600000 \<le> stamp_of parse x")
    case True
    then have all: "\<forall>y \<in> set (x # xs). n - 3600000 \<le> stamp_of parse y" using first by auto
    have "visible parse n (drop j (x # xs)) = drop j (x # xs)" for j
      unfolding visible_def using all seen by (intro filter_True ballI) (auto dest!: in_set_dropD)
    from this [of 0] this show ?thesis by (intro exI [of _ 0]) simp
  next
    case False
    have skip: "visible parse n (x # xs) = visible parse n xs" unfolding visible_def using False seen [of x] by simp
    have "visible parse n (drop j (x # xs)) = drop (max (Suc m) j) (x # xs)" for j
    proof (cases j)
      case 0
      then show ?thesis by (simp add: skip m(1))
    next
      case (Suc i)
      then show ?thesis using m(2) [of i] by simp
    qed
    moreover have "visible parse n (x # xs) = drop (Suc m) (x # xs)" by (simp add: skip m(1))
    ultimately show ?thesis by blast
  qed
qed

lemma visible_latest:
  assumes "in_time_order parse n xs"
  shows "visible parse n (latest k xs) = latest k (visible parse n xs)"
proof -
  obtain m where m: "visible parse n xs = drop m xs" "\<And>j. visible parse n (drop j xs) = drop (max m j) xs"
    using visible_suffix [OF assms] by blast
  have "max m (length xs - k) = length xs - m - k + m" by (cases "m \<le> length xs - k") simp_all
  then show ?thesis by (simp add: latest_def m)
qed

lemma trace_of_latest:
  assumes "in_time_order parse n (all_pings t0 v es)" "\<forall>e \<in> set es. of_int (fst e) \<le> n"
  shows "visible parse n (trace_of (fleet_run parse es (fleet_state_new t0)) v) = latest 2000 (visible parse n (all_pings t0 v es))
    \<and> in_time_order parse n (trace_of (fleet_run parse es (fleet_state_new t0)) v)
    \<and> set (trace_of (fleet_run parse es (fleet_state_new t0)) v) \<subseteq> set (all_pings t0 v es)"
  using assms
proof (induction es rule: rev_induct)
  case Nil
  have "length (visible parse n (all_pings t0 v [])) \<le> 2000"
    unfolding visible_def
    by (rule le_trans [OF length_filter_le]) (use length_seedTraces [of t0 v] in \<open>simp add: all_pings_def reported_def\<close>)
  with Nil show ?case by (simp add: trace_of_new all_pings_def reported_def latest_short)
next
  case (snoc e es)
  obtain now p where e: "e = (now, p)" by (cases e)
  let ?tr = "trace_of (fleet_run parse es (fleet_state_new t0)) v" and ?all = "all_pings t0 v es"
  have before: "in_time_order parse n ?all"
    using snoc.prems(1) by (auto simp: e all_pings_snoc in_time_order_parts split: if_splits)
  have IH: "visible parse n ?tr = latest 2000 (visible parse n ?all)" "in_time_order parse n ?tr" "set ?tr \<subseteq> set ?all"
    using snoc.IH [OF before] snoc.prems(2) by auto
  have now: "of_int now \<le> n" using snoc.prems(2) by (simp add: e)
  show ?case
  proof (cases "pos_vehicleId p = v")
    case True
    let ?keep = "filter (\<lambda>p. js_le (Fin (of_int now) - TRACE_WINDOW_MS) (toEpoch parse (tp_timestamp p)))"
    have order: "in_time_order parse n (?tr @ [ping_of p])"
      using snoc.prems(1) IH True by (auto simp: e all_pings_snoc in_time_order_parts)
    then have kept: "in_time_order parse n (?keep (?tr @ [ping_of p]))" by (rule in_time_order_filter)
    have "visible parse n (?keep (?tr @ [ping_of p])) = visible parse n (?tr @ [ping_of p])"
      unfolding visible_def filter_filter by (rule filter_cong) (auto dest: in_window_earlier [OF now])
    also have "\<dots> = latest 2000 (visible parse n ?all) @ visible parse n [ping_of p]"
      using IH(1) by (simp add: visible_def)
    finally have "latest 2000 (visible parse n (?keep (?tr @ [ping_of p])))
        = latest 2000 (visible parse n ?all @ visible parse n [ping_of p])" by (simp only: latest_append)
    then have "visible parse n (bounded parse (?tr @ [ping_of p]) (Fin (of_int now)))
        = latest 2000 (visible parse n (?all @ [ping_of p]))"
      unfolding bounded_latest visible_latest [OF kept] by (simp add: visible_def)
    moreover have "in_time_order parse n (bounded parse (?tr @ [ping_of p]) (Fin (of_int now)))"
      unfolding bounded_latest latest_def by (rule in_time_order_drop [OF kept])
    moreover have "set (bounded parse (?tr @ [ping_of p]) (Fin (of_int now))) \<subseteq> set (?all @ [ping_of p])"
      using set_bounded [of parse "?tr @ [ping_of p]"] IH(3) by fastforce
    ultimately show ?thesis using True by (simp add: e trace_of_on_position all_pings_snoc)
  next
    case False
    then show ?thesis using IH by (simp add: e trace_of_on_position all_pings_snoc)
  qed
qed

section \<open>Vehicles\<close>

lemma vehicles_on_position:
  "fs_vehicles (on_position parse now p s) =
     map_set (pos_vehicleId p) (moved_vehicle (map_get (fs_vehicles s) (pos_vehicleId p)) p) (fs_vehicles s)"
  by (simp add: on_position_def place_vehicle_def)

text \<open>The stored state of a vehicle, from its seed and what was reported of it.\<close>

definition seed_of :: "string \<Rightarrow> VehicleState option" where
  "seed_of v = List.find (\<lambda>s. vs_vehicleId s = v) SEED_VEHICLES"

definition vehicle_after :: "VehicleState option \<Rightarrow> PositionEvent list \<Rightarrow> VehicleState option" where
  "vehicle_after sd ps = foldl (\<lambda>v p. Some (moved_vehicle v p)) sd ps"

lemma seed_vehicles_get: "map_get (fs_vehicles (fleet_state_new t0)) v = seed_of v"
  by (auto simp add: fleet_state_new_def map_get_new seed_of_def SEED_VEHICLES_def seed_vehicle_def)

lemma vehicles_after:
  "map_get (fs_vehicles (fleet_run parse es (fleet_state_new t0))) v = vehicle_after (seed_of v) (reported v es)"
proof (induction es rule: rev_induct)
  case Nil
  then show ?case by (simp add: seed_vehicles_get reported_def vehicle_after_def)
next
  case (snoc e es)
  then show ?case
    by (cases e) (auto simp: vehicles_on_position reported_def vehicle_after_def)
qed

lemma vehicle_keys:
  "distinct (map_keys (fs_vehicles (fleet_run parse es (fleet_state_new t0))))
   \<and> (\<forall>(k, v) \<in> set (fs_vehicles (fleet_run parse es (fleet_state_new t0))). vs_vehicleId v = k)"
proof (induction es rule: rev_induct)
  case Nil
  then show ?case by (simp add: fleet_state_new_def map_new_def SEED_VEHICLES_def seed_vehicle_def)
next
  case (snoc e es)
  have upd: "set (map_set k x m) \<subseteq> insert (k, x) (set m)" for k and x :: VehicleState and m
    by (induction m) auto
  obtain now p where e: "e = (now, p)" by (cases e)
  show ?case
    using snoc upd [of "pos_vehicleId p"]
    by (auto simp: e vehicles_on_position distinct_update moved_vehicle_def
        simp del: map_map dest!: subsetD [OF upd])
qed

text \<open>What a run of reports leaves of a vehicle: the last position, the first identity.\<close>

lemma vehicle_after_snoc:
  "vehicle_after sd (ps @ [p]) = Some (moved_vehicle (vehicle_after sd ps) p)"
  by (simp add: vehicle_after_def)

lemma vehicle_after_None:
  "ps \<noteq> [] \<Longrightarrow> list_all (\<lambda>p. pos_vehicleId p = v) ps \<Longrightarrow> \<exists>w. vehicle_after None ps = Some w
     \<and> vs_driverStatus w = ''On_Delivery'' \<and> vs_label w = Some v \<and> vs_kind w = Some (kindFromId v)
     \<and> vs_zoneIds w = None"
proof (induction ps rule: rev_induct)
  case (snoc p ps)
  then show ?case
    by (cases "ps = []") (auto simp: vehicle_after_snoc moved_vehicle_def nullish_def vehicle_after_def)
qed simp

lemma vehicle_after_Some:
  "vs_label s \<noteq> None \<Longrightarrow> vs_kind s \<noteq> None \<Longrightarrow> \<exists>w. vehicle_after (Some s) ps = Some w
     \<and> vs_driverStatus w = vs_driverStatus s \<and> vs_label w = vs_label s \<and> vs_kind w = vs_kind s
     \<and> vs_zoneIds w = vs_zoneIds s"
proof (induction ps rule: rev_induct)
  case Nil
  then show ?case by (simp add: vehicle_after_def)
next
  case (snoc p ps)
  then show ?case by (auto simp: vehicle_after_snoc moved_vehicle_def nullish_def split: option.split)
qed


section \<open>Projection and bounds\<close>

lemma bounds_fold:
  "foldl bounds_step (Fin a, Fin b, Fin c, Fin d) (map (\<lambda>(x, y). (Fin x, Fin y)) ps) =
     (Fin (Min (insert a (fst ` set ps))), Fin (Min (insert b (snd ` set ps))),
      Fin (Max (insert c (fst ` set ps))), Fin (Max (insert d (snd ` set ps))))"
proof (induction ps arbitrary: a b c d)
  case (Cons p ps)
  have mn: "Min (insert (min u v) A) = Min (insert u (insert v A))" if "finite A" for u v :: real and A
    using that by (cases "A = {}") (simp_all add: min.assoc)
  have mx: "Max (insert (max u v) A) = Max (insert u (insert v A))" if "finite A" for u v :: real and A
    using that by (cases "A = {}") (simp_all add: max.assoc)
  show ?case by (cases p) (simp add: Cons.IH mn mx)
qed simp

lemma boundsOf_Fin:
  "boundsOf (map (\<lambda>(x, y). (Fin x, Fin y)) ps) =
     (if ps = [] then None
      else Some (Fin (Min (fst ` set ps)), Fin (Min (snd ` set ps)), Fin (Max (fst ` set ps)), Fin (Max (snd ` set ps))))"
proof (cases ps)
  case (Cons p qs)
  have first: "bounds_step (PInf, PInf, NInf, NInf) (Fin x, Fin y) = (Fin x, Fin y, Fin x, Fin y)" for x y
    by (simp add: js_min_def js_max_def is_nan_def)
  show ?thesis
    by (cases p) (simp add: Cons boundsOf_def first bounds_fold del: bounds_step.simps)
qed (simp add: boundsOf_def)

definition clamped_lat :: "real \<Rightarrow> real" where
  "clamped_lat lat = max (- 85.05112878) (min 85.05112878 lat)"

definition mercator_sin :: "real \<Rightarrow> real" where
  "mercator_sin lat = sin ((clamped_lat lat * pi) / 180)"

lemma clamped_lat_odd: "clamped_lat (- lat) = - clamped_lat lat"
  by (auto simp: clamped_lat_def max_def min_def)

lemma clamped_lat_mono: "a \<le> b \<Longrightarrow> clamped_lat a \<le> clamped_lat b"
  by (auto simp: clamped_lat_def max_def min_def)

lemma clamp_angle: "- (pi / 2) < (clamped_lat lat * pi) / 180" "(clamped_lat lat * pi) / 180 < pi / 2"
proof -
  have c: "- 90 < clamped_lat lat" "clamped_lat lat < 90" by (auto simp: clamped_lat_def)
  have "clamped_lat lat * pi < 90 * pi" using c(2) pi_gt_zero by (rule mult_strict_right_mono)
  moreover have "- 90 * pi < clamped_lat lat * pi" using c(1) pi_gt_zero by (rule mult_strict_right_mono)
  ultimately show "- (pi / 2) < (clamped_lat lat * pi) / 180" "(clamped_lat lat * pi) / 180 < pi / 2"
    by (simp_all add: field_simps)
qed

lemma mercator_sin_bounds: "- 1 < mercator_sin lat" "mercator_sin lat < 1"
proof -
  have "sin (- (pi / 2)) < mercator_sin lat" "mercator_sin lat < sin (pi / 2)"
    unfolding mercator_sin_def using clamp_angle [of lat]
    by (intro sin_monotone_2pi; simp del: sin_pi_half sin_minus)+
  then show "- 1 < mercator_sin lat" "mercator_sin lat < 1" by simp_all
qed

lemma mercator_sin_mono: "a \<le> b \<Longrightarrow> mercator_sin a \<le> mercator_sin b"
  unfolding mercator_sin_def using clamp_angle [of a] clamp_angle [of b]
  by (intro sin_monotone_2pi_le) (auto simp: clamped_lat_mono divide_right_mono mult_right_mono)

lemma mercator_sin_minus: "mercator_sin (- lat) = - mercator_sin lat"
  by (simp add: mercator_sin_def clamped_lat_odd)

lemma projectMercator_eq:
  "projectMercator lng lat =
     ((lng + 180) / 360, 0.5 - ln ((1 + mercator_sin lat) / (1 - mercator_sin lat)) / (4 * pi))"
  by (simp add: projectMercator_def mercator_sin_def clamped_lat_def Let_def)

lemma projectMercator_south:
  assumes "a \<le> b"
  shows "snd (projectMercator lng b) \<le> snd (projectMercator lng a)"
proof -
  have "(1 + mercator_sin a) / (1 - mercator_sin a) \<le> (1 + mercator_sin b) / (1 - mercator_sin b)"
    using mercator_sin_bounds [of a] mercator_sin_bounds [of b] mercator_sin_mono [OF assms]
    by (intro frac_le) auto
  then have "ln ((1 + mercator_sin a) / (1 - mercator_sin a)) \<le> ln ((1 + mercator_sin b) / (1 - mercator_sin b))"
    using mercator_sin_bounds [of a] mercator_sin_bounds [of b] by (subst ln_le_cancel_iff) auto
  then show ?thesis by (simp add: projectMercator_eq divide_right_mono)
qed

lemma projectMercator_mirror: "snd (projectMercator lng (- lat)) = 1 - snd (projectMercator lng lat)"
proof -
  have "ln ((1 - mercator_sin lat) / (1 + mercator_sin lat)) = - ln ((1 + mercator_sin lat) / (1 - mercator_sin lat))"
    using mercator_sin_bounds [of lat] by (simp add: ln_div)
  then show ?thesis by (simp add: projectMercator_eq mercator_sin_minus)
qed

section \<open>Properties\<close>

text \<open>
  C29. What the map draws is the history, up to the cap. The clock does not go back behind a handled
  report, and either the pings of the vehicle come in the order of their times, none ahead of the
  clock, or there are at most 2000 of them. Then the trace drawn at time \<open>now\<close> is the latest 2000 of
  all pings ever reported of the vehicle (and seeded) whose time is in the last hour, ordered by
  time, ties in the order of arrival: the pruning of the stored trace loses nothing else. However
  many reports come, the stored trace never exceeds 2000 pings.
\<close>

theorem trace_shows_history:
  assumes "list_all (\<lambda>e. fst e \<le> now) es"
    "in_time_order parse (of_int now) (all_pings t0 v es) \<or> length (all_pings t0 v es) \<le> 2000"
  shows "windowTrace parse (trace_of (fleet_run parse es (fleet_state_new t0)) v) (Fin (of_int now)) TRACE_WINDOW_MS
      = sort_key (stamp_of parse) (latest 2000 (filter (\<lambda>p. in_window (Fin (of_int now) - TRACE_WINDOW_MS) (Fin (of_int now))
          (toEpoch parse (tp_timestamp p))) (all_pings t0 v es)))
    \<and> length (trace_of (fleet_run parse (es @ es2) (fleet_state_new t0)) v) \<le> 2000"
proof -
  have clock: "\<forall>e \<in> set es. real_of_int (fst e) \<le> of_int now" using assms(1) by (auto simp: list_all_iff)
  have "visible parse (of_int now) (trace_of (fleet_run parse es (fleet_state_new t0)) v)
      = latest 2000 (visible parse (of_int now) (all_pings t0 v es))"
    using assms(2)
  proof
    assume "length (all_pings t0 v es) \<le> 2000"
    moreover from this have "length (visible parse (of_int now) (all_pings t0 v es)) \<le> 2000"
      unfolding visible_def by (rule le_trans [OF length_filter_le])
    ultimately show ?thesis using trace_of_visible [OF _ clock] latest_short by metis
  qed (rule trace_of_latest [OF _ clock, THEN conjunct1])
  then show ?thesis by (simp add: windowTrace_sort_key visible_def length_trace_of)
qed

definition ping_at :: "string \<Rightarrow> string \<Rightarrow> PositionEvent" where
  "ping_at v t = \<lparr>pos_vehicleId = v, pos_lat = Fin 1, pos_lng = Fin 2, pos_timestamp = t, pos_telemetry = None\<rparr>"

text \<open>Reports at one a second, whose timestamp has as many characters as seconds have passed.\<close>

definition each_second :: "nat \<Rightarrow> (int \<times> PositionEvent) list" where
  "each_second k = map (\<lambda>i. (1000 * int i, ping_at ''V'' (replicate i CHR ''I''))) [0..<k]"

definition by_length :: "string \<Rightarrow> int option" where
  "by_length s = Some (1000 * int (length s))"

lemma each_second_pings:
  "all_pings 0 ''V'' (each_second k) = map (\<lambda>i. ping_of (ping_at ''V'' (replicate i CHR ''I''))) [0..<k]"
  by (simp add: all_pings_def seedTraces_def reported_def each_second_def comp_def)
    (simp add: ping_at_def)

lemma each_second_stamp:
  "toEpoch by_length (tp_timestamp (ping_of (ping_at ''V'' (replicate i CHR ''I'')))) = Fin (1000 * real i)"
  by (simp add: ping_of_def ping_at_def by_length_def)

lemma each_second_order:
  "in_time_order by_length (of_int (1000 * int k)) (all_pings 0 ''V'' (each_second k))"
  unfolding in_time_order_def each_second_pings
  by (auto simp: each_second_stamp list_all_iff comp_def stamp_of_def sorted_iff_nth_mono)

theorem trace_shows_history_witness:
  "windowTrace by_length (trace_of (fleet_run by_length (each_second 3000) (fleet_state_new 0)) ''V'')
     (Fin (of_int (1000 * int 3000))) TRACE_WINDOW_MS
   = map (\<lambda>i. ping_of (ping_at ''V'' (replicate i CHR ''I''))) [1000..<3000]"
proof -
  define k :: nat where "k = 3000"
  have k: "k \<le> 3600" "k - 2000 = 1000" by (simp_all add: k_def)
  let ?ping = "\<lambda>i. ping_of (ping_at ''V'' (replicate i CHR ''I''))"
  let ?trace = "windowTrace by_length (trace_of (fleet_run by_length (each_second k) (fleet_state_new 0)) ''V'')
     (Fin (of_int (1000 * int k))) TRACE_WINDOW_MS"
  have clock: "list_all (\<lambda>e. fst e \<le> 1000 * int k) (each_second k)" by (simp add: each_second_def list_all_iff)
  have "filter (\<lambda>p. in_window (Fin (of_int (1000 * int k)) - TRACE_WINDOW_MS) (Fin (of_int (1000 * int k)))
      (toEpoch by_length (tp_timestamp p))) (map ?ping [0..<k]) = map ?ping [0..<k]"
    using k(1) by (intro filter_True) (auto simp: each_second_stamp in_window_def TRACE_WINDOW_MS_def)
  then have "?trace = sort_key (stamp_of by_length) (latest 2000 (map ?ping [0..<k]))"
    using trace_shows_history [OF clock disjI1 [OF each_second_order], THEN conjunct1] unfolding each_second_pings by simp
  also have "latest 2000 (map ?ping [0..<k]) = map ?ping [1000..<k]" by (simp add: latest_def drop_map k(2))
  also have "sort_key (stamp_of by_length) (map ?ping [1000..<k]) = map ?ping [1000..<k]"
    by (rule sort_key_id_if_sorted) (simp add: comp_def stamp_of_def each_second_stamp sorted_iff_nth_mono)
  finally show ?thesis unfolding k_def .
qed

text \<open>
  The fleet on the map. After any sequence of reports the map holds each vehicle once, namely
  the seeded and the reported ones; a reported vehicle is active and at the position of its last
  report; its status, label, kind and zones are those it had before its first report, and for a
  vehicle that is not seeded they are on delivery, its id, the kind of its id, and none.
\<close>

theorem fleet_vehicles_track:
  "let vs = fs_vehicles (fleet_run parse es (fleet_state_new t0)) in
     distinct (map vs_vehicleId (map_values vs))
     \<and> (\<forall>v. case reported v es of
           [] \<Rightarrow> map_get vs v = seed_of v
         | _ # _ \<Rightarrow> (\<exists>w :: VehicleState. map_get vs v = Some w \<and> vs_active w = Some True
             \<and> vs_lat w = pos_lat (last (reported v es)) \<and> vs_lng w = pos_lng (last (reported v es))
             \<and> (case seed_of v of
                   Some s \<Rightarrow> vs_driverStatus w = vs_driverStatus s \<and> vs_label w = vs_label s
                     \<and> vs_kind w = vs_kind s \<and> vs_zoneIds w = vs_zoneIds s
                 | None \<Rightarrow> vs_driverStatus w = ''On_Delivery'' \<and> vs_label w = Some v
                     \<and> vs_kind w = Some (kindFromId v) \<and> vs_zoneIds w = None)))"
proof -
  let ?vs = "fs_vehicles (fleet_run parse es (fleet_state_new t0))"
  have ids: "map vs_vehicleId (map_values ?vs) = map_keys ?vs"
    using vehicle_keys [of parse es t0] by (auto simp: comp_def)
  have last: "\<exists>w :: VehicleState. map_get ?vs v = Some w \<and> vs_active w = Some True
      \<and> vs_lat w = pos_lat (last (reported v es)) \<and> vs_lng w = pos_lng (last (reported v es))"
    if "reported v es \<noteq> []" for v
    using that by (cases "reported v es" rule: rev_cases) (auto simp: vehicles_after vehicle_after_snoc moved_vehicle_def)
  have kept: "\<exists>w :: VehicleState. map_get ?vs v = Some w \<and>
      (case seed_of v of
         Some s \<Rightarrow> vs_driverStatus w = vs_driverStatus s \<and> vs_label w = vs_label s
           \<and> vs_kind w = vs_kind s \<and> vs_zoneIds w = vs_zoneIds s
       | None \<Rightarrow> vs_driverStatus w = ''On_Delivery'' \<and> vs_label w = Some v
           \<and> vs_kind w = Some (kindFromId v) \<and> vs_zoneIds w = None)"
    if "reported v es \<noteq> []" for v
  proof (cases "seed_of v")
    case None
    have "list_all (\<lambda>p. pos_vehicleId p = v) (reported v es)" by (auto simp: reported_def list_all_iff)
    from vehicle_after_None [OF that this] show ?thesis by (simp add: vehicles_after None)
  next
    case (Some s)
    then have "s \<in> set SEED_VEHICLES" by (auto simp: seed_of_def dest: find_SomeD)
    then have "vs_label s \<noteq> None" "vs_kind s \<noteq> None" by (auto simp: SEED_VEHICLES_def seed_vehicle_def)
    from vehicle_after_Some [OF this, of "reported v es"] show ?thesis by (simp add: vehicles_after Some)
  qed
  have "case reported v es of [] \<Rightarrow> map_get ?vs v = seed_of v
         | _ # _ \<Rightarrow> (\<exists>w :: VehicleState. map_get ?vs v = Some w \<and> vs_active w = Some True
             \<and> vs_lat w = pos_lat (last (reported v es)) \<and> vs_lng w = pos_lng (last (reported v es))
             \<and> (case seed_of v of
                   Some s \<Rightarrow> vs_driverStatus w = vs_driverStatus s \<and> vs_label w = vs_label s
                     \<and> vs_kind w = vs_kind s \<and> vs_zoneIds w = vs_zoneIds s
                 | None \<Rightarrow> vs_driverStatus w = ''On_Delivery'' \<and> vs_label w = Some v
                     \<and> vs_kind w = Some (kindFromId v) \<and> vs_zoneIds w = None))" for v
  proof (cases "reported v es")
    case Nil
    then show ?thesis by (simp add: vehicles_after vehicle_after_def)
  next
    case (Cons p ps)
    then have ne: "reported v es \<noteq> []" by simp
    from last [OF ne] kept [OF ne] show ?thesis unfolding Cons list.case by auto
  qed
  then show ?thesis
    using vehicle_keys [of parse es t0] unfolding Let_def ids by blast
qed

end
