(* ===== verification/Fleet_Simulation.thy ===== *)
theory Fleet_Simulation
  imports Contracts "HOL-Library.Word" "HOL-Library.Monad_Syntax"
begin

text \<open>
  The in-browser fleet simulation (\<open>sim/fleetSimulation.ts\<close>): its data, its pseudo-random
  generator (exact, on 32-bit words), the construction of routes and vehicles, and the tick that
  moves every vehicle along its loop and emits position and zone events.

  Coordinates and distances are exact reals and the functions of \<open>Math\<close> are the real ones, so
  the model has no rounding: the code's distances agree up to rounding. The while loop of the tick is
  a partial function (\<open>None\<close> is a loop that never ends); \<open>advance_returns\<close> shows that it ends for every
  vehicle there is. That is a fact about exact arithmetic: in 64-bit numbers a tick so long that
  subtracting a segment from the remaining distance changes nothing (some \<open>10^20\<close> milliseconds; the
  program's are of one second) would not end.
\<close>

unbundle bit_operations_syntax

section \<open>Data\<close>

type_synonym LngLat = "real \<times> real"

record SimZone =
  sz_id :: string
  sz_name :: string
  sz_label :: string
  sz_ring :: "LngLat list"

record SimVehicleSpec =
  sv_vehicleId :: string
  sv_driverStatus :: string
  sv_speed :: real
  sv_route :: "LngLat list"

record SimVehicle = SimVehicleSpec +
  sv_segIndex :: nat
  sv_segFrac :: real
  sv_lng :: real
  sv_lat :: real
  sv_heading :: real
  sv_inside :: "string set"

datatype SimFrame = PositionFrame PositionEvent | ZoneFrame ZoneEventMessage

record CityFleet =
  cf_prefix :: string
  cf_center :: LngLat
  cf_count :: nat
  cf_radius :: real

datatype RouteKind = Ground | Air | Sea

definition SEATTLE_ROUTES :: "(string \<times> LngLat list) list" where
  "SEATTLE_ROUTES =
  [(''VAN-014'', [(- 122.3493, 47.6205), (- 122.3415, 47.6135), (- 122.3330, 47.6062), (- 122.3300, 47.6010),
     (- 122.3320, 47.5950), (- 122.3380, 47.5930), (- 122.3430, 47.6000), (- 122.3470, 47.6110)]),
   (''VAN-022'', [(- 122.3201, 47.6145), (- 122.3289, 47.6175), (- 122.3367, 47.6131), (- 122.3321, 47.6062),
     (- 122.3262, 47.6020), (- 122.3245, 47.6090), (- 122.3270, 47.6160)]),
   (''TRK-003'', [(- 122.3316, 47.5905), (- 122.3300, 47.5985), (- 122.3340, 47.6040), (- 122.3389, 47.5985),
     (- 122.3360, 47.5920), (- 122.3290, 47.5910)]),
   (''VAN-031'', [(- 122.3140, 47.6180), (- 122.3245, 47.6125), (- 122.3331, 47.6097), (- 122.3415, 47.6065),
     (- 122.3360, 47.6135), (- 122.3250, 47.6190)]),
   (''VAN-045'', [(- 122.3550, 47.6090), (- 122.3450, 47.6060), (- 122.3360, 47.6030), (- 122.3300, 47.5980),
     (- 122.3380, 47.5950), (- 122.3480, 47.6010)])]"

definition AIR_ROUTES :: "(string \<times> LngLat list) list" where
  "AIR_ROUTES =
  [(''FLT-301'', [(- 74, 40.7), (- 21, 64), (- 0.1, 51.5), (12.5, 41.9), (55.3, 25.2), (31, 30)]),
   (''FLT-302'', [(139.7, 35.7), (121, 14.6), (103.8, 1.35), (151.2, - 33.9), (174.7, - 36.8)]),
   (''FLT-303'', [(- 118.2, 34), (- 74, 40.7), (- 46.6, - 23.5), (- 77, - 12), (- 99.1, 19.4)]),
   (''FLT-304'', [(- 0.1, 51.5), (28.9, 41), (72.8, 19), (103.8, 1.35), (55.3, 25.2)])]"

definition SEA_ROUTES :: "(string \<times> LngLat list) list" where
  "SEA_ROUTES =
  [(''SHP-401'', [(- 71, 40.5), (- 45, 38), (- 12, 38.7), (- 12, 33), (- 40, 30)]),
   (''SHP-402'', [(141, 35), (170, 32), (- 150, 30), (- 130, 34), (- 119, 33.7)]),
   (''SHP-403'', [(56, 25), (63, 18), (70, 8), (104, 1.2), (75, 5)])]"

definition CITY_FLEETS :: "CityFleet list" where
  "CITY_FLEETS =
  [\<lparr>cf_prefix = ''NYC'', cf_center = (- 74.006, 40.7128), cf_count = 4, cf_radius = 0.05\<rparr>,
   \<lparr>cf_prefix = ''LDN'', cf_center = (- 0.1276, 51.5072), cf_count = 4, cf_radius = 0.05\<rparr>,
   \<lparr>cf_prefix = ''DXB'', cf_center = (55.2708, 25.2048), cf_count = 3, cf_radius = 0.06\<rparr>,
   \<lparr>cf_prefix = ''SIN'', cf_center = (103.8198, 1.3521), cf_count = 3, cf_radius = 0.045\<rparr>,
   \<lparr>cf_prefix = ''TYO'', cf_center = (139.6917, 35.6895), cf_count = 4, cf_radius = 0.05\<rparr>,
   \<lparr>cf_prefix = ''SYD'', cf_center = (151.2093, - 33.8688), cf_count = 3, cf_radius = 0.05\<rparr>,
   \<lparr>cf_prefix = ''SAO'', cf_center = (- 46.6333, - 23.5505), cf_count = 3, cf_radius = 0.06\<rparr>,
   \<lparr>cf_prefix = ''MEX'', cf_center = (- 99.1332, 19.4326), cf_count = 3, cf_radius = 0.06\<rparr>]"

definition SIM_ZONES :: "SimZone list" where
  "SIM_ZONES =
  [\<lparr>sz_id = ''zone-dt'', sz_name = ''Downtown Core'', sz_label = ''Downtown Core'',
     sz_ring = [(- 122.3415, 47.6125), (- 122.3245, 47.6125), (- 122.3245, 47.6005), (- 122.3415, 47.6005),
     (- 122.3415, 47.6125)]\<rparr>,
   \<lparr>sz_id = ''zone-sodo'', sz_name = ''SODO Depot'', sz_label = ''SODO Depot'',
     sz_ring = [(- 122.3389, 47.5985), (- 122.3262, 47.5985), (- 122.3262, 47.5905), (- 122.3389, 47.5905),
     (- 122.3389, 47.5985)]\<rparr>]"

definition STATUS_CYCLE :: "string list" where
  "STATUS_CYCLE = [''On_Delivery'', ''On_Delivery'', ''Available'', ''On_Break'']"

fun LOOP_SECONDS :: "RouteKind \<Rightarrow> real" where
  "LOOP_SECONDS Ground = 130"
| "LOOP_SECONDS Air = 230"
| "LOOP_SECONDS Sea = 340"

section \<open>Plane geometry\<close>

text \<open>\<open>Math.atan2\<close>, \<open>Math.hypot\<close>, \<open>Math.round\<close> and the remainder \<open>%\<close> (sign of the dividend).\<close>

definition js_atan2 :: "real \<Rightarrow> real \<Rightarrow> real" where
  "js_atan2 y x =
     (if x > 0 then arctan (y / x)
      else if x < 0 then (if y \<ge> 0 then arctan (y / x) + pi else arctan (y / x) - pi)
      else if y > 0 then pi / 2 else if y < 0 then - (pi / 2) else 0)"

definition js_hypot :: "real \<Rightarrow> real \<Rightarrow> real" where
  "js_hypot x y = sqrt (x\<^sup>2 + y\<^sup>2)"

definition js_round :: "real \<Rightarrow> int" where
  "js_round x = \<lfloor>x + 1 / 2\<rfloor>"

definition js_rem :: "real \<Rightarrow> real \<Rightarrow> real" where
  "js_rem x y = (let q = x / y in x - y * (if q \<ge> 0 then of_int \<lfloor>q\<rfloor> else of_int \<lceil>q\<rceil>))"

definition M_PER_DEG_LAT :: real where
  "M_PER_DEG_LAT = 111320"

definition metresPerDegLng :: "real \<Rightarrow> real" where
  "metresPerDegLng lat = M_PER_DEG_LAT * cos ((lat * pi) / 180)"

definition segmentMetres :: "LngLat \<Rightarrow> LngLat \<Rightarrow> real" where
  "segmentMetres a b =
     (let lat = (snd a + snd b) / 2
      in js_hypot ((fst b - fst a) * metresPerDegLng lat) ((snd b - snd a) * M_PER_DEG_LAT))"

definition bearing :: "LngLat \<Rightarrow> LngLat \<Rightarrow> real" where
  "bearing a b =
     (let lat = (snd a + snd b) / 2;
          dx = (fst b - fst a) * metresPerDegLng lat;
          dy = (snd b - snd a) * M_PER_DEG_LAT
      in js_rem ((js_atan2 dx dy * 180) / pi + 360) 360)"

definition edge_crosses :: "real \<Rightarrow> real \<Rightarrow> LngLat \<Rightarrow> LngLat \<Rightarrow> bool" where
  "edge_crosses lng lat p q \<longleftrightarrow>
     (snd p > lat) \<noteq> (snd q > lat) \<and>
     lng < ((fst q - fst p) * (lat - snd p)) / (snd q - snd p) + fst p"

definition pointInRing :: "real \<Rightarrow> real \<Rightarrow> LngLat list \<Rightarrow> bool" where
  "pointInRing lng lat ring =
     (let n = length ring - 1
      in fold (\<lambda>i inside. if edge_crosses lng lat (ring ! i) (ring ! (if i = 0 then n - 1 else i - 1))
           then \<not> inside else inside) [0..<n] False)"

section \<open>Routes\<close>

definition catmull :: "real \<Rightarrow> real \<Rightarrow> real \<Rightarrow> real \<Rightarrow> real \<Rightarrow> real" where
  "catmull c0 c1 c2 c3 t = (let t2 = t * t; t3 = t2 * t in
     0.5 * (2 * c1 + (- c0 + c2) * t + (2 * c0 - 5 * c1 + 4 * c2 - c3) * t2
            + (- c0 + 3 * c1 - 3 * c2 + c3) * t3))"

definition catmullRomClosed :: "LngLat list \<Rightarrow> nat \<Rightarrow> LngLat list" where
  "catmullRomClosed pts segments = (let n = length pts in
     concat (map (\<lambda>i.
       let p0 = pts ! ((i + n - 1) mod n); p1 = pts ! i;
           p2 = pts ! ((i + 1) mod n); p3 = pts ! ((i + 2) mod n)
       in map (\<lambda>s. let t = real s / real segments
            in (catmull (fst p0) (fst p1) (fst p2) (fst p3) t,
                catmull (snd p0) (snd p1) (snd p2) (snd p3) t)) [0..<segments])
       [0..<n]))"

text \<open>The generator: one draw from the current state, in \<open>[0, 1)\<close>, and the next state.\<close>

type_synonym rng = "32 word"

definition mulberry32 :: "rng \<Rightarrow> real \<times> rng" where
  "mulberry32 seed =
     (let a = seed + 0x6D2B79F5;
          t = (a XOR drop_bit 15 a) * (1 OR a);
          t' = (t + (t XOR drop_bit 7 t) * (61 OR t)) XOR t
      in (real (unat (t' XOR drop_bit 14 t')) / 4294967296, a))"

text \<open>A loop that draws from the generator.\<close>

fun map_rng :: "('a \<Rightarrow> rng \<Rightarrow> 'b \<times> rng) \<Rightarrow> 'a list \<Rightarrow> rng \<Rightarrow> 'b list \<times> rng" where
  "map_rng f [] r = ([], r)"
| "map_rng f (x # xs) r = (case f x r of (y, r1) \<Rightarrow> case map_rng f xs r1 of (ys, r2) \<Rightarrow> (y # ys, r2))"

definition makeLoop :: "LngLat \<Rightarrow> real \<Rightarrow> nat \<Rightarrow> rng \<Rightarrow> LngLat list \<times> rng" where
  "makeLoop center radiusDeg points =
     (let latScale = 1 / max 0.2 (cos ((snd center * pi) / 180))
      in map_rng (\<lambda>i r. case mulberry32 r of (u, r1) \<Rightarrow> case mulberry32 r1 of (v, r2) \<Rightarrow>
             let angle = (2 * pi * real i) / real points + (u - 0.5) * 0.4;
                 rad = radiusDeg * (0.55 + v * 0.9)
             in ((fst center + cos angle * rad * latScale, snd center + sin angle * rad), r2))
           [0..<points])"

definition routeLength :: "LngLat list \<Rightarrow> real" where
  "routeLength route =
     fold (\<lambda>i total. total + segmentMetres (route ! i) (route ! ((i + 1) mod length route)))
       [0..<length route] 0"

definition loopSpeed :: "LngLat list \<Rightarrow> RouteKind \<Rightarrow> real" where
  "loopSpeed route kind = max 8 (routeLength route / LOOP_SECONDS kind)"

fun seattleStatus :: "string \<Rightarrow> string" where
  "seattleStatus i =
     (if i = ''VAN-022'' then ''Available'' else if i = ''TRK-003'' then ''On_Break'' else ''On_Delivery'')"

definition spec_of :: "string \<Rightarrow> string \<Rightarrow> RouteKind \<Rightarrow> LngLat list \<Rightarrow> SimVehicleSpec" where
  "spec_of i status kind route =
     \<lparr>sv_vehicleId = i, sv_driverStatus = status, sv_speed = loopSpeed route kind, sv_route = route\<rparr>"

definition city_spec :: "CityFleet \<times> nat \<Rightarrow> rng \<Rightarrow> SimVehicleSpec \<times> rng" where
  "city_spec = (\<lambda>(fleet, v) r. case mulberry32 r of (u, r1) \<Rightarrow>
     case makeLoop (cf_center fleet) (cf_radius fleet) (6 + nat \<lfloor>u * 3\<rfloor>) r1 of (pts, r2) \<Rightarrow>
       (spec_of (cf_prefix fleet @ ''-'' @ nat_str (201 + v)) (STATUS_CYCLE ! (v mod length STATUS_CYCLE))
          Ground (catmullRomClosed pts 14), r2))"

definition buildSpecs :: "SimVehicleSpec list" where
  "buildSpecs =
     map (\<lambda>(i, route). spec_of i (seattleStatus i) Ground (catmullRomClosed route 16)) SEATTLE_ROUTES
     @ fst (map_rng city_spec (concat (map (\<lambda>fleet. map (Pair fleet) [0..<cf_count fleet]) CITY_FLEETS)) 20260630)
     @ map (\<lambda>(i, route). spec_of i ''On_Delivery'' Air (catmullRomClosed route 22)) AIR_ROUTES
     @ map (\<lambda>(i, route). spec_of i ''On_Delivery'' Sea (catmullRomClosed route 20)) SEA_ROUTES"

section \<open>The simulation\<close>

definition zones_at :: "real \<Rightarrow> real \<Rightarrow> string set" where
  "zones_at lng lat = set (map sz_id (filter (\<lambda>z. pointInRing lng lat (sz_ring z)) SIM_ZONES))"

definition start_vehicle :: "SimVehicleSpec \<Rightarrow> rng \<Rightarrow> SimVehicle \<times> rng" where
  "start_vehicle s r = (case mulberry32 r of (u, r1) \<Rightarrow> case mulberry32 r1 of (v, r2) \<Rightarrow>
     let route = sv_route s;
         startIndex = nat \<lfloor>u * real (length route)\<rfloor>;
         start = route ! startIndex;
         next_pt = route ! ((startIndex + 1) mod length route)
     in (\<lparr>sv_vehicleId = sv_vehicleId s, sv_driverStatus = sv_driverStatus s, sv_speed = sv_speed s,
          sv_route = route, sv_segIndex = startIndex, sv_segFrac = v, sv_lng = fst start,
          sv_lat = snd start, sv_heading = bearing start next_pt,
          sv_inside = zones_at (fst start) (snd start)\<rparr>, r2))"

definition sim_new :: "SimVehicle list" where
  "sim_new = fst (map_rng start_vehicle buildSpecs 987654321)"

text \<open>\<open>segmentMetres(a, b) || 1\<close>.\<close>

definition seg_len :: "LngLat list \<Rightarrow> nat \<Rightarrow> real" where
  "seg_len route i =
     (let d = segmentMetres (route ! i) (route ! ((i + 1) mod length route)) in if d = 0 then 1 else d)"

text \<open>The while loop: distance left, segment index, fraction of the segment, heading.\<close>

partial_function (option) advance ::
    "LngLat list \<Rightarrow> real \<Rightarrow> nat \<Rightarrow> real \<Rightarrow> real \<Rightarrow> (nat \<times> real \<times> real) option" where
  "advance route remaining i f heading =
     (if remaining > 0 then
        let a = route ! i; b = route ! ((i + 1) mod length route);
            segLen = seg_len route i; segRemain = segLen * (1 - f)
        in if remaining < segRemain
           then advance route 0 i (f + remaining / segLen) (bearing a b)
           else advance route (remaining - segRemain) ((i + 1) mod length route) 0 (bearing a b)
      else Some (i, f, heading))"

definition move_vehicle :: "real \<Rightarrow> SimVehicle \<Rightarrow> SimVehicle option" where
  "move_vehicle dtMs v = do {
     (i, f, h) \<leftarrow> advance (sv_route v) (sv_speed v * (dtMs / 1000)) (sv_segIndex v) (sv_segFrac v) (sv_heading v);
     let a = sv_route v ! i;
     let b = sv_route v ! ((i + 1) mod length (sv_route v));
     Some (v\<lparr>sv_segIndex := i, sv_segFrac := f, sv_heading := h,
       sv_lng := fst a + (fst b - fst a) * f, sv_lat := snd a + (snd b - snd a) * f\<rparr>) }"

definition position_frame :: "string \<Rightarrow> SimVehicle \<Rightarrow> SimFrame" where
  "position_frame now v = PositionFrame
     \<lparr>pos_vehicleId = sv_vehicleId v, pos_lat = Fin (sv_lat v), pos_lng = Fin (sv_lng v), pos_timestamp = now,
      pos_telemetry = Some \<lparr>tel_speed = Some (Fin (of_int (js_round (sv_speed v * 3.6)))),
        tel_heading = Some (Fin (of_int (js_round (sv_heading v)))), tel_battery = None\<rparr>\<rparr>"

definition zone_frame :: "string \<Rightarrow> string \<Rightarrow> SimZone \<Rightarrow> ZoneEventType \<Rightarrow> SimFrame" where
  "zone_frame now vehicleId z kind = ZoneFrame
     \<lparr>ze_vehicleId = vehicleId, ze_zoneId = sz_id z, ze_type = kind, ze_label = Some (sz_label z), ze_timestamp = now\<rparr>"

definition zone_step :: "string \<Rightarrow> SimZone \<Rightarrow> SimVehicle \<times> SimFrame list \<Rightarrow> SimVehicle \<times> SimFrame list" where
  "zone_step now z = (\<lambda>(v, frames).
     let isIn = pointInRing (sv_lng v) (sv_lat v) (sz_ring z); was = sz_id z \<in> sv_inside v
     in if isIn \<and> \<not> was then
          (v\<lparr>sv_inside := insert (sz_id z) (sv_inside v)\<rparr>, frames @ [zone_frame now (sv_vehicleId v) z Enter])
        else if \<not> isIn \<and> was then
          (v\<lparr>sv_inside := sv_inside v - {sz_id z}\<rparr>, frames @ [zone_frame now (sv_vehicleId v) z Exit])
        else (v, frames))"

definition tick_vehicle :: "string \<Rightarrow> real \<Rightarrow> SimVehicle \<Rightarrow> (SimVehicle \<times> SimFrame list) option" where
  "tick_vehicle now dtMs v = do {
     v' \<leftarrow> move_vehicle dtMs v;
     Some (fold (zone_step now) SIM_ZONES (v', [position_frame now v'])) }"

fun sim_tick :: "string \<Rightarrow> real \<Rightarrow> SimVehicle list \<Rightarrow> (SimVehicle list \<times> SimFrame list) option" where
  "sim_tick now dtMs [] = Some ([], [])"
| "sim_tick now dtMs (v # vs) = do {
     (v', fs) \<leftarrow> tick_vehicle now dtMs v;
     (vs', gs) \<leftarrow> sim_tick now dtMs vs;
     Some (v' # vs', fs @ gs) }"

section \<open>The generator and the routes\<close>

lemma mulberry32_unit: "0 \<le> fst (mulberry32 r)" "fst (mulberry32 r) < 1"
proof -
  have less: "(unsigned x :: real) < 4294967296" for x :: "32 word"
  proof -
    have "unat x < 4294967296" using unsigned_less [of x, where ?'a = nat] by simp
    then have "real (unat x) < real 4294967296" by (rule of_nat_less_iff [THEN iffD2])
    then show ?thesis by (simp only: of_nat_unat of_nat_numeral)
  qed
  have "(0 :: real) \<le> real (unat x)" for x :: "32 word" by (rule of_nat_0_le_iff)
  then have "(0 :: real) \<le> unsigned x" for x :: "32 word" by (simp only: of_nat_unat)
  with less show "0 \<le> fst (mulberry32 r)" "fst (mulberry32 r) < 1"
    by (simp_all add: mulberry32_def Let_def)
qed

lemma map_rng_Cons: "fst (map_rng f (x # xs) r) = fst (f x r) # fst (map_rng f xs (snd (f x r)))"
  by (simp split: prod.split)

lemma length_map_rng [simp]: "length (fst (map_rng f xs r)) = length xs"
  by (induction xs arbitrary: r) (simp_all add: map_rng_Cons del: map_rng.simps(2))

lemma map_rng_nth:
  "k < length xs \<Longrightarrow> \<exists>r'. fst (map_rng f xs r) ! k = fst (f (xs ! k) r')"
proof (induction xs arbitrary: k r)
  case (Cons x xs)
  then show ?case by (cases k) (auto simp: map_rng_Cons simp del: map_rng.simps(2))
qed simp

lemma map_rng_elem:
  assumes "y \<in> set (fst (map_rng f xs r))"
  obtains x r' where "x \<in> set xs" "y = fst (f x r')"
  using assms map_rng_nth [of _ xs f r] by (metis in_set_conv_nth length_map_rng)

lemma length_catmullRomClosed: "length (catmullRomClosed pts n) = length pts * n"
  by (simp add: catmullRomClosed_def Let_def length_concat o_def sum_list_triv)

text \<open>The smooth curve passes through the control points.\<close>

lemma catmull_zero: "catmull c0 c1 c2 c3 0 = c1"
  by (simp add: catmull_def Let_def)

section \<open>Point in ring\<close>

text \<open>On an axis-parallel rectangle the test is membership, lower and left edge included.\<close>

definition rect_ring :: "real \<Rightarrow> real \<Rightarrow> real \<Rightarrow> real \<Rightarrow> LngLat list" where
  "rect_ring x0 y0 x1 y1 = [(x0, y1), (x1, y1), (x1, y0), (x0, y0), (x0, y1)]"

lemma pointInRing_rect:
  assumes "x0 < x1" "y0 < y1"
  shows "pointInRing lng lat (rect_ring x0 y0 x1 y1) \<longleftrightarrow> x0 \<le> lng \<and> lng < x1 \<and> y0 \<le> lat \<and> lat < y1"
  using assms
  by (auto simp: pointInRing_def rect_ring_def edge_crosses_def Let_def upt_rec numeral_nat)

section \<open>Moving along a loop\<close>

lemma js_hypot_nonneg: "0 \<le> js_hypot x y"
  by (simp add: js_hypot_def)

lemma seg_len_pos: "0 < seg_len route i"
  using js_hypot_nonneg by (auto simp: seg_len_def segmentMetres_def Let_def less_le)

text \<open>The odometer: metres from the start of the loop.\<close>

definition along :: "LngLat list \<Rightarrow> nat \<Rightarrow> real \<Rightarrow> real" where
  "along route i f = (\<Sum>j < i. seg_len route j) + seg_len route i * f"

definition loop_length :: "LngLat list \<Rightarrow> real" where
  "loop_length route = (\<Sum>j < length route. seg_len route j)"

text \<open>Where the loop stands after the distance \<open>d\<close>: on the route, the odometer advanced by \<open>d\<close>.\<close>

definition arrives :: "LngLat list \<Rightarrow> real \<Rightarrow> nat \<Rightarrow> real \<Rightarrow> (nat \<times> real \<times> real) option \<Rightarrow> bool" where
  "arrives route d i f r \<longleftrightarrow> (\<exists>i' f' h' laps. r = Some (i', f', h') \<and> i' < length route \<and> 0 \<le> f' \<and> f' < 1
     \<and> along route i' f' + of_nat laps * loop_length route = along route i f + max 0 d)"

lemma arrives_here: "i < length route \<Longrightarrow> 0 \<le> f \<Longrightarrow> f < 1 \<Longrightarrow> d \<le> 0 \<Longrightarrow> arrives route d i f (Some (i, f, h))"
  unfolding arrives_def by (intro exI [of _ i] exI [of _ f] exI [of _ h] exI [of _ 0]) simp

lemma along_next:
  assumes "i < length route"
  shows "\<exists>laps. along route ((i + 1) mod length route) 0 + of_nat laps * loop_length route = along route i 1"
proof (cases "i + 1 = length route")
  case True
  then have "along route i 1 = loop_length route"
    by (simp add: along_def loop_length_def flip: True)
  with True show ?thesis by (intro exI [of _ 1]) (simp add: along_def)
next
  case False
  with assms show ?thesis by (intro exI [of _ 0]) (simp add: along_def)
qed

lemma arrives_next:
  assumes "arrives route (d - seg_len route i * (1 - f)) ((i + 1) mod length route) 0 r"
    "i < length route" "seg_len route i * (1 - f) \<le> d" "f < 1"
  shows "arrives route d i f r"
proof -
  from assms(1) obtain i' f' h' laps where r: "r = Some (i', f', h')" "i' < length route" "0 \<le> f'" "f' < 1"
    and eq: "along route i' f' + of_nat laps * loop_length route
      = along route ((i + 1) mod length route) 0 + max 0 (d - seg_len route i * (1 - f))"
    by (auto simp: arrives_def)
  obtain wrap where "along route ((i + 1) mod length route) 0 + of_nat wrap * loop_length route = along route i 1"
    using along_next [OF assms(2)] by blast
  moreover have "along route i 1 + (d - seg_len route i * (1 - f)) = along route i f + d"
    by (simp add: along_def algebra_simps)
  moreover have "0 \<le> d" using assms(3,4) seg_len_pos [of route i] by (smt (verit) mult_pos_pos)
  ultimately have "along route i' f' + of_nat (laps + wrap) * loop_length route = along route i f + max 0 d"
    using eq assms(3) by (simp add: algebra_simps)
  with r show ?thesis unfolding arrives_def by blast
qed

lemma advance_within:
  assumes "0 < d" "d < seg_len route i * (1 - f)" "i < length route" "0 \<le> f"
  shows "arrives route d i f (advance route d i f h)"
proof -
  have pos: "0 < seg_len route i" by (rule seg_len_pos)
  have "advance route d i f h
      = Some (i, f + d / seg_len route i, bearing (route ! i) (route ! ((i + 1) mod length route)))"
    using assms(1,2) by (subst advance.simps, subst advance.simps) (simp add: Let_def)
  moreover have "f + d / seg_len route i < 1"
    using assms(2) pos by (simp add: field_simps)
  moreover have "along route i (f + d / seg_len route i) = along route i f + d"
    using pos by (simp add: along_def field_simps)
  ultimately show ?thesis
    unfolding arrives_def using assms pos
    by (intro exI [of _ i] exI [of _ "f + d / seg_len route i"]
        exI [of _ "bearing (route ! i) (route ! ((i + 1) mod length route))"] exI [of _ 0]) simp
qed

lemma advance_beyond:
  assumes "0 < d" "\<not> d < seg_len route i * (1 - f)"
  shows "advance route d i f h = advance route (d - seg_len route i * (1 - f)) ((i + 1) mod length route) 0
      (bearing (route ! i) (route ! ((i + 1) mod length route)))"
  using assms by (subst advance.simps) (simp add: Let_def)

lemma advance_beyond_arrives:
  assumes "arrives route (d - seg_len route i * (1 - f)) ((i + 1) mod length route) 0
      (advance route (d - seg_len route i * (1 - f)) ((i + 1) mod length route) 0
        (bearing (route ! i) (route ! ((i + 1) mod length route))))"
    "0 < d" "\<not> d < seg_len route i * (1 - f)" "i < length route" "f < 1"
  shows "arrives route d i f (advance route d i f h)"
  unfolding advance_beyond [OF assms(2,3)] using assms(3) by (intro arrives_next [OF assms(1,4) _ assms(5)]) simp

lemma advance_from_corner:
  assumes "\<forall>j < length route. m \<le> seg_len route j" "0 < m"
  shows "d \<le> real k * m \<Longrightarrow> i < length route \<Longrightarrow> arrives route d i 0 (advance route d i 0 h)"
proof (induction k arbitrary: d i h)
  case 0
  then show ?case by (subst advance.simps) (simp add: arrives_here)
next
  case (Suc k)
  consider "d \<le> 0" | "0 < d" "d < seg_len route i * (1 - 0)" | "0 < d" "\<not> d < seg_len route i * (1 - 0)"
    by linarith
  then show ?case
  proof cases
    case 1
    with Suc.prems show ?thesis by (subst advance.simps) (simp add: arrives_here)
  next
    case 2
    with Suc.prems show ?thesis by (intro advance_within) auto
  next
    case 3
    have "d - seg_len route i * (1 - 0) \<le> real k * m"
      using Suc.prems assms(1) by (auto simp: algebra_simps)
    moreover have "(i + 1) mod length route < length route"
      using Suc.prems(2) by (intro mod_less_divisor) auto
    ultimately have "arrives route (d - seg_len route i * (1 - 0)) ((i + 1) mod length route) 0
        (advance route (d - seg_len route i * (1 - 0)) ((i + 1) mod length route) 0 h')" for h'
      by (rule Suc.IH)
    then show ?thesis using 3 Suc.prems(2) by (rule advance_beyond_arrives) simp
  qed
qed

text \<open>The while loop ends, on the route, having advanced the odometer by exactly the distance.\<close>

lemma advance_returns:
  assumes "i < length route" "0 \<le> f" "f < 1"
  shows "arrives route d i f (advance route d i f h)"
proof -
  define m where "m = Min (seg_len route ` {..< length route})"
  have ne: "seg_len route ` {..< length route} \<noteq> {}" using assms(1) by auto
  have m: "\<forall>j < length route. m \<le> seg_len route j" by (simp add: m_def)
  have "m \<in> seg_len route ` {..< length route}"
    unfolding m_def by (rule Min_in) (use ne in auto)
  then have pos: "0 < m" using seg_len_pos by auto
  consider "d \<le> 0" | "0 < d" "d < seg_len route i * (1 - f)" | "0 < d" "\<not> d < seg_len route i * (1 - f)" by linarith
  then show ?thesis
  proof cases
    case 1
    with assms show ?thesis by (subst advance.simps) (simp add: arrives_here)
  next
    case 2
    with assms show ?thesis by (intro advance_within)
  next
    case 3
    obtain k where "(d - seg_len route i * (1 - f)) / m \<le> real k" using real_arch_simple by blast
    then have "d - seg_len route i * (1 - f) \<le> real k * m" using pos by (simp add: field_simps)
    moreover have "(i + 1) mod length route < length route"
      using assms(1) by (intro mod_less_divisor) auto
    ultimately have "arrives route (d - seg_len route i * (1 - f)) ((i + 1) mod length route) 0
        (advance route (d - seg_len route i * (1 - f)) ((i + 1) mod length route) 0 h')" for h'
      by (rule advance_from_corner [OF m pos])
    then show ?thesis using 3 assms(1,3) by (rule advance_beyond_arrives)
  qed
qed

section \<open>A tick\<close>

text \<open>
  Between two states of a vehicle: identity kept, the odometer advanced by \<open>d\<close> metres up to whole
  laps, and the new state on its route, placed on its segment, with the zones of its place.
\<close>

definition on_route :: "SimVehicle \<Rightarrow> bool" where
  "on_route v \<longleftrightarrow> sv_segIndex v < length (sv_route v) \<and> 0 \<le> sv_segFrac v \<and> sv_segFrac v < 1"

definition placed :: "SimVehicle \<Rightarrow> bool" where
  "placed v \<longleftrightarrow> (let a = sv_route v ! sv_segIndex v;
       b = sv_route v ! ((sv_segIndex v + 1) mod length (sv_route v))
     in sv_lng v = fst a + (fst b - fst a) * sv_segFrac v \<and> sv_lat v = snd a + (snd b - snd a) * sv_segFrac v)"

definition odometer :: "SimVehicle \<Rightarrow> real" where
  "odometer v = along (sv_route v) (sv_segIndex v) (sv_segFrac v)"

definition same_vehicle :: "SimVehicle \<Rightarrow> SimVehicle \<Rightarrow> bool" where
  "same_vehicle v w \<longleftrightarrow> sv_vehicleId w = sv_vehicleId v \<and> sv_driverStatus w = sv_driverStatus v
     \<and> sv_speed w = sv_speed v \<and> sv_route w = sv_route v"

definition driven :: "real \<Rightarrow> SimVehicle \<Rightarrow> SimVehicle \<Rightarrow> bool" where
  "driven d v w \<longleftrightarrow> same_vehicle v w \<and> on_route w
     \<and> (\<exists>laps. odometer w + of_nat laps * loop_length (sv_route v) = odometer v + d)"

definition tracked :: "SimVehicle \<Rightarrow> bool" where
  "tracked v \<longleftrightarrow> sv_inside v = zones_at (sv_lng v) (sv_lat v)"

lemma move_vehicle_driven:
  assumes "on_route v"
  shows "\<exists>w. move_vehicle dtMs v = Some w \<and> driven (max 0 (sv_speed v * (dtMs / 1000))) v w \<and> placed w
     \<and> sv_inside w = sv_inside v"
proof -
  obtain i f h laps where adv: "advance (sv_route v) (sv_speed v * (dtMs / 1000)) (sv_segIndex v) (sv_segFrac v) (sv_heading v)
      = Some (i, f, h)" "i < length (sv_route v)" "0 \<le> f" "f < 1"
    "along (sv_route v) i f + of_nat laps * loop_length (sv_route v)
      = along (sv_route v) (sv_segIndex v) (sv_segFrac v) + max 0 (sv_speed v * (dtMs / 1000))"
    using advance_returns [of "sv_segIndex v" "sv_route v" "sv_segFrac v"] assms
    unfolding arrives_def on_route_def by meson
  then show ?thesis
    by (auto simp: move_vehicle_def Let_def driven_def same_vehicle_def on_route_def placed_def odometer_def)
qed

definition zone_events :: "string \<Rightarrow> SimVehicle \<Rightarrow> SimZone list \<Rightarrow> SimFrame list" where
  "zone_events now v zs =
     map (\<lambda>z. zone_frame now (sv_vehicleId v) z (if pointInRing (sv_lng v) (sv_lat v) (sz_ring z) then Enter else Exit))
       (filter (\<lambda>z. pointInRing (sv_lng v) (sv_lat v) (sz_ring z) \<noteq> (sz_id z \<in> sv_inside v)) zs)"

lemma zone_step_eq:
  "zone_step now z (v, fs) =
     (v\<lparr>sv_inside := sv_inside v - {sz_id z}
         \<union> (if pointInRing (sv_lng v) (sv_lat v) (sz_ring z) then {sz_id z} else {})\<rparr>,
      fs @ zone_events now v [z])"
  by (cases v) (auto simp: zone_step_def Let_def zone_events_def)

lemma zone_fold:
  assumes "distinct (map sz_id zs)"
  shows "fold (zone_step now) zs (v, fs) =
     (v\<lparr>sv_inside := sv_inside v - set (map sz_id zs)
         \<union> set (map sz_id (filter (\<lambda>z. pointInRing (sv_lng v) (sv_lat v) (sz_ring z)) zs))\<rparr>,
      fs @ zone_events now v zs)"
  using assms
proof (induction zs arbitrary: v fs)
  case Nil
  then show ?case by (simp add: zone_events_def)
next
  case (Cons z zs)
  let ?v = "v\<lparr>sv_inside := sv_inside v - {sz_id z}
         \<union> (if pointInRing (sv_lng v) (sv_lat v) (sz_ring z) then {sz_id z} else {})\<rparr>"
  have "zone_events now v (z # zs) = zone_events now v [z] @ zone_events now v zs"
    by (simp add: zone_events_def)
  moreover have "zone_events now ?v zs = zone_events now v zs"
    using Cons.prems unfolding zone_events_def
    by (intro arg_cong2 [where f = map] filter_cong) (auto simp: image_iff)
  moreover have "sv_inside ?v - set (map sz_id zs) \<union> X
      = sv_inside v - set (map sz_id (z # zs)) \<union>
        ((if pointInRing (sv_lng v) (sv_lat v) (sz_ring z) then {sz_id z} else {}) \<union> X)" for X
    using Cons.prems by auto
  ultimately show ?case
    using Cons.IH [of ?v "fs @ zone_events now v [z]"] Cons.prems
    by (simp add: zone_step_eq)
qed

lemma SIM_ZONES_distinct: "distinct (map sz_id SIM_ZONES)"
  by (simp add: SIM_ZONES_def)

lemma zones_at_known: "zones_at x y \<subseteq> set (map sz_id SIM_ZONES)"
  by (auto simp: zones_at_def)

lemma inside_irrelevant [simp]:
  "driven d v (w\<lparr>sv_inside := S\<rparr>) = driven d v w" "placed (w\<lparr>sv_inside := S\<rparr>) = placed w"
  by (simp_all add: driven_def same_vehicle_def on_route_def odometer_def placed_def)

lemma tick_vehicle_spec:
  assumes "on_route v" "tracked v"
  shows "\<exists>w. tick_vehicle now dtMs v =
       Some (w, position_frame now w # zone_events now (w\<lparr>sv_inside := sv_inside v\<rparr>) SIM_ZONES)
     \<and> driven (max 0 (sv_speed v * (dtMs / 1000))) v w \<and> placed w \<and> tracked w"
proof -
  obtain w where w: "move_vehicle dtMs v = Some w" "driven (max 0 (sv_speed v * (dtMs / 1000))) v w"
    "placed w" "sv_inside w = sv_inside v"
    using move_vehicle_driven [OF assms(1)] by blast
  let ?w = "w\<lparr>sv_inside := zones_at (sv_lng w) (sv_lat w)\<rparr>"
  have "sv_inside w - set (map sz_id SIM_ZONES) = {}"
    using assms(2) w(4) zones_at_known by (auto simp: tracked_def)
  then have "sv_inside w - set (map sz_id SIM_ZONES) \<union>
      set (map sz_id (filter (\<lambda>z. pointInRing (sv_lng w) (sv_lat w) (sz_ring z)) SIM_ZONES)) = zones_at (sv_lng w) (sv_lat w)"
    unfolding zones_at_def by (simp only: Un_empty_left)
  then have "fold (zone_step now) SIM_ZONES (w, [position_frame now w])
      = (?w, position_frame now w # zone_events now w SIM_ZONES)"
    unfolding zone_fold [OF SIM_ZONES_distinct] by simp
  then have "tick_vehicle now dtMs v = Some (?w, position_frame now w # zone_events now w SIM_ZONES)"
    by (simp add: tick_vehicle_def w(1))
  moreover have "position_frame now w = position_frame now ?w" by (simp add: position_frame_def)
  moreover have "?w\<lparr>sv_inside := sv_inside v\<rparr> = w" using w(4) by simp
  moreover have "driven (max 0 (sv_speed v * (dtMs / 1000))) v ?w" "placed ?w" "tracked ?w"
    using w(2,3) by (simp_all add: tracked_def)
  ultimately show ?thesis by metis
qed

section \<open>Ticks in sequence\<close>

text \<open>What one tick emits for a vehicle that was in state \<open>v\<close> and is now in state \<open>w\<close>.\<close>

definition vehicle_frames :: "string \<Rightarrow> SimVehicle \<Rightarrow> SimVehicle \<Rightarrow> SimFrame list" where
  "vehicle_frames now v w = position_frame now w # zone_events now (w\<lparr>sv_inside := sv_inside v\<rparr>) SIM_ZONES"

definition tick_ok :: "real \<Rightarrow> SimVehicle \<Rightarrow> SimVehicle \<Rightarrow> bool" where
  "tick_ok dtMs v w \<longleftrightarrow> driven (max 0 (sv_speed v * (dtMs / 1000))) v w \<and> placed w \<and> tracked w"

lemma sim_tick_spec:
  assumes "\<forall>v \<in> set vs. on_route v \<and> tracked v"
  shows "\<exists>ws. sim_tick now dtMs vs = Some (ws, concat (map2 (vehicle_frames now) vs ws))
     \<and> list_all2 (tick_ok dtMs) vs ws"
  using assms
proof (induction vs)
  case (Cons v vs)
  then obtain ws where ws: "sim_tick now dtMs vs = Some (ws, concat (map2 (vehicle_frames now) vs ws))"
    "list_all2 (tick_ok dtMs) vs ws" by auto
  obtain w where w: "tick_vehicle now dtMs v = Some (w, vehicle_frames now v w)" "tick_ok dtMs v w"
    using tick_vehicle_spec [of v now dtMs] Cons.prems by (auto simp: vehicle_frames_def tick_ok_def)
  show ?case
    by (rule exI [of _ "w # ws"]) (simp add: ws w)
qed simp

text \<open>A subscriber that follows the zone events of one vehicle; \<open>None\<close> is an event that does not fit.\<close>

fun follow :: "string \<Rightarrow> string set \<Rightarrow> SimFrame list \<Rightarrow> string set option" where
  "follow i S [] = Some S"
| "follow i S (PositionFrame p # fs) = follow i S fs"
| "follow i S (ZoneFrame m # fs) =
     (if ze_vehicleId m \<noteq> i then follow i S fs
      else case ze_type m of
          Enter \<Rightarrow> if ze_zoneId m \<in> S then None else follow i (insert (ze_zoneId m) S) fs
        | Exit \<Rightarrow> if ze_zoneId m \<in> S then follow i (S - {ze_zoneId m}) fs else None)"

lemma follow_append: "follow i S (fs @ gs) = Option.bind (follow i S fs) (\<lambda>T. follow i T gs)"
  by (induction i S fs rule: follow.induct) (auto split: ZoneEventType.split)

lemma zone_events_Cons: "zone_events now v (z # zs) = zone_events now v [z] @ zone_events now v zs"
  by (simp add: zone_events_def)

lemma follow_zone_events:
  assumes "distinct (map sz_id zs)"
  shows "follow (sv_vehicleId v) (sv_inside v) (zone_events now v zs) =
     Some (sv_inside v - set (map sz_id zs)
       \<union> set (map sz_id (filter (\<lambda>z. pointInRing (sv_lng v) (sv_lat v) (sz_ring z)) zs)))"
  using assms
proof (induction zs arbitrary: v)
  case Nil
  then show ?case by (simp add: zone_events_def)
next
  case (Cons z zs)
  let ?S = "sv_inside v - {sz_id z} \<union> (if pointInRing (sv_lng v) (sv_lat v) (sz_ring z) then {sz_id z} else {})"
  let ?v = "v\<lparr>sv_inside := ?S\<rparr>"
  have one: "follow (sv_vehicleId v) (sv_inside v) (zone_events now v [z]) = Some ?S"
    by (auto simp: zone_events_def zone_frame_def)
  have rest: "zone_events now v zs = zone_events now ?v zs"
    using Cons.prems unfolding zone_events_def
    by (intro arg_cong2 [where f = map] filter_cong) (auto simp: image_iff)
  have "?S - set (map sz_id zs) \<union> X = sv_inside v - set (map sz_id (z # zs)) \<union>
        ((if pointInRing (sv_lng v) (sv_lat v) (sz_ring z) then {sz_id z} else {}) \<union> X)" for X
    using Cons.prems by auto
  then show ?case
    using Cons.IH [of ?v] Cons.prems
    by (simp add: zone_events_Cons [of now v z zs] follow_append one rest)
qed

lemma follow_other: "sv_vehicleId w \<noteq> i \<Longrightarrow> follow i S (vehicle_frames now v w) = Some S"
proof -
  assume ne: "sv_vehicleId w \<noteq> i"
  have "follow i S (map (\<lambda>z. zone_frame now (sv_vehicleId w) z (k z)) zs) = Some S" for k zs
    using ne by (induction zs) (simp_all add: zone_frame_def)
  then show ?thesis by (simp add: vehicle_frames_def position_frame_def zone_events_def)
qed

lemma follow_own:
  assumes "tracked v" "tick_ok dtMs v w"
  shows "follow (sv_vehicleId v) (sv_inside v) (vehicle_frames now v w) = Some (sv_inside w)"
proof -
  have "sv_inside v - set (map sz_id SIM_ZONES) = {}"
    using assms(1) zones_at_known by (auto simp: tracked_def)
  then have "sv_inside v - set (map sz_id SIM_ZONES) \<union>
      set (map sz_id (filter (\<lambda>z. pointInRing (sv_lng w) (sv_lat w) (sz_ring z)) SIM_ZONES)) = sv_inside w"
    using assms(2) unfolding tick_ok_def tracked_def zones_at_def by (simp only: Un_empty_left)
  moreover have "sv_vehicleId w = sv_vehicleId v"
    using assms(2) by (simp add: tick_ok_def driven_def same_vehicle_def)
  ultimately show ?thesis
    using follow_zone_events [OF SIM_ZONES_distinct, of "w\<lparr>sv_inside := sv_inside v\<rparr>" now]
    by (simp add: vehicle_frames_def position_frame_def)
qed

lemma tick_ids: "list_all2 (tick_ok dtMs) vs ws \<Longrightarrow> map sv_vehicleId ws = map sv_vehicleId vs"
  by (induction rule: list_all2_induct) (simp_all add: tick_ok_def driven_def same_vehicle_def)

lemma follow_tick:
  assumes "list_all2 (tick_ok dtMs) vs ws" "\<forall>v \<in> set vs. tracked v" "distinct (map sv_vehicleId vs)"
    "k < length vs"
  shows "follow (sv_vehicleId (vs ! k)) (sv_inside (vs ! k)) (concat (map2 (vehicle_frames now) vs ws))
     = Some (sv_inside (ws ! k))"
  using assms
proof (induction arbitrary: k rule: list_all2_induct)
  case (Cons v vs w ws)
  have ids: "map sv_vehicleId ws = map sv_vehicleId vs" by (rule tick_ids) (rule Cons.hyps)
  have other: "follow i S (concat (map2 (vehicle_frames now) vs ws)) = Some S"
    if "i \<notin> set (map sv_vehicleId vs)" for i S
  proof -
    have "length vs = length ws" using Cons.hyps list_all2_lengthD by blast
    then show ?thesis using ids that
      by (induction vs ws rule: list_induct2) (auto simp: follow_append follow_other)
  qed
  have id: "sv_vehicleId w = sv_vehicleId v"
    using Cons.hyps by (simp add: tick_ok_def driven_def same_vehicle_def)
  show ?case
  proof (cases k)
    case 0
    with Cons.prems Cons.hyps show ?thesis
      by (simp add: follow_append follow_own other)
  next
    case (Suc j)
    then have "sv_vehicleId w \<noteq> sv_vehicleId (vs ! j)" using Cons.prems id nth_mem [of j vs] by auto
    with Cons.prems Suc show ?thesis
      by (simp add: follow_append follow_other Cons.IH)
  qed
qed simp

fun sim_run :: "(string \<times> real) list \<Rightarrow> SimVehicle list \<Rightarrow> (SimVehicle list \<times> SimFrame list) option" where
  "sim_run [] vs = Some (vs, [])"
| "sim_run ((now, dtMs) # ticks) vs = do {
     (vs1, fs) \<leftarrow> sim_tick now dtMs vs;
     (vs2, gs) \<leftarrow> sim_run ticks vs1;
     Some (vs2, fs @ gs) }"

definition distance_of :: "real \<Rightarrow> (string \<times> real) list \<Rightarrow> real" where
  "distance_of speed ticks = (\<Sum>t \<leftarrow> ticks. max 0 (speed * (snd t / 1000)))"

lemma driven_trans: "driven d v w \<Longrightarrow> driven e w x \<Longrightarrow> driven (d + e) v x"
proof -
  assume "driven d v w" "driven e w x"
  then obtain k l where "odometer w + real k * loop_length (sv_route v) = odometer v + d"
    "odometer x + real l * loop_length (sv_route v) = odometer w + e" "same_vehicle v w" "same_vehicle w x" "on_route x"
    by (auto simp: driven_def same_vehicle_def)
  moreover from this have "odometer x + real (k + l) * loop_length (sv_route v) = odometer v + (d + e)"
    by (simp add: algebra_simps)
  ultimately show ?thesis unfolding driven_def same_vehicle_def by metis
qed

definition run_ok :: "(string \<times> real) list \<Rightarrow> SimVehicle \<Rightarrow> SimVehicle \<Rightarrow> bool" where
  "run_ok ticks v w \<longleftrightarrow> driven (distance_of (sv_speed v) ticks) v w \<and> tracked w
     \<and> (if ticks = [] then w = v else placed w)"

lemma run_ok_Nil: "on_route v \<Longrightarrow> tracked v \<Longrightarrow> run_ok [] v v"
  by (auto simp: run_ok_def distance_of_def driven_def same_vehicle_def intro!: exI [of _ 0])

lemma run_ok_Cons: "tick_ok dtMs v w \<Longrightarrow> run_ok ticks w x \<Longrightarrow> run_ok ((now, dtMs) # ticks) v x"
proof -
  assume t: "tick_ok dtMs v w" and r: "run_ok ticks w x"
  have speed: "sv_speed w = sv_speed v" using t by (simp add: tick_ok_def driven_def same_vehicle_def)
  have "driven (max 0 (sv_speed v * (dtMs / 1000)) + distance_of (sv_speed v) ticks) v x"
    using driven_trans t r unfolding tick_ok_def run_ok_def speed by blast
  moreover have "placed x" using t r by (auto simp: run_ok_def tick_ok_def split: if_splits)
  ultimately show ?thesis using r by (simp add: run_ok_def distance_of_def)
qed

lemma tick_ok_keeps: "list_all2 (tick_ok dtMs) vs ws \<Longrightarrow> \<forall>w \<in> set ws. on_route w \<and> tracked w"
  by (auto simp: list_all2_conv_all_nth in_set_conv_nth tick_ok_def driven_def)

lemma sim_run_spec:
  assumes "\<forall>v \<in> set vs. on_route v \<and> tracked v" "distinct (map sv_vehicleId vs)"
  shows "\<exists>ws fs. sim_run ticks vs = Some (ws, fs) \<and> list_all2 (run_ok ticks) vs ws
     \<and> (\<forall>k < length vs. follow (sv_vehicleId (vs ! k)) (sv_inside (vs ! k)) fs = Some (sv_inside (ws ! k)))"
  using assms
proof (induction ticks arbitrary: vs)
  case Nil
  then show ?case by (auto simp: list_all2_same run_ok_Nil)
next
  case (Cons t ticks)
  obtain now dtMs where t: "t = (now, dtMs)" by (cases t)
  let ?frames = "\<lambda>us. concat (map2 (vehicle_frames now) vs us)"
  obtain us where us: "sim_tick now dtMs vs = Some (us, ?frames us)" "list_all2 (tick_ok dtMs) vs us"
    using sim_tick_spec [OF Cons.prems(1)] by blast
  have ids: "map sv_vehicleId us = map sv_vehicleId vs" by (rule tick_ids [OF us(2)])
  obtain ws gs where ws: "sim_run ticks us = Some (ws, gs)" "list_all2 (run_ok ticks) us ws"
    "\<forall>k < length us. follow (sv_vehicleId (us ! k)) (sv_inside (us ! k)) gs = Some (sv_inside (ws ! k))"
    using Cons.IH [OF tick_ok_keeps [OF us(2)]] Cons.prems(2) ids by auto
  have len: "length us = length vs" using us(2) by (simp add: list_all2_lengthD)
  have "follow (sv_vehicleId (vs ! k)) (sv_inside (vs ! k)) (?frames us @ gs) = Some (sv_inside (ws ! k))"
    if "k < length vs" for k
  proof -
    have "sv_vehicleId (us ! k) = sv_vehicleId (vs ! k)"
      using ids that len by (metis nth_map)
    then have "follow (sv_vehicleId (vs ! k)) (sv_inside (us ! k)) gs = Some (sv_inside (ws ! k))"
      using ws(3) that len by metis
    then show ?thesis
      using follow_tick [OF us(2) _ Cons.prems(2) that, of now] Cons.prems(1)
      by (simp add: follow_append)
  qed
  moreover have "list_all2 (run_ok (t # ticks)) vs ws"
    unfolding t by (rule list_all2_trans [where ?P1.0 = "tick_ok dtMs" and ?P2.0 = "run_ok ticks" and bs = us])
      (use run_ok_Cons us(2) ws(2) in blast)+
  ultimately show ?case
    by (simp add: t us(1) ws(1))
qed

section \<open>The fleet\<close>

lemma start_vehicle_ok:
  assumes "sv_route s \<noteq> []"
  shows "on_route (fst (start_vehicle s r)) \<and> tracked (fst (start_vehicle s r))"
proof -
  obtain u r1 v r2 where u: "mulberry32 r = (u, r1)" and v: "mulberry32 r1 = (v, r2)" by (metis surj_pair)
  have "0 \<le> u" "u < 1" "0 \<le> v" "v < 1"
    using mulberry32_unit [of r] mulberry32_unit [of r1] by (simp_all add: u v)
  moreover have "nat \<lfloor>u * real (length (sv_route s))\<rfloor> < length (sv_route s)"
  proof -
    have "u * real (length (sv_route s)) < real (length (sv_route s))"
      using assms \<open>u < 1\<close> by simp
    then have "\<lfloor>u * real (length (sv_route s))\<rfloor> < int (length (sv_route s))" by linarith
    moreover have "0 \<le> \<lfloor>u * real (length (sv_route s))\<rfloor>" using \<open>0 \<le> u\<close> by simp
    ultimately show ?thesis by (simp add: nat_less_iff)
  qed
  ultimately show ?thesis
    by (simp add: start_vehicle_def u v Let_def on_route_def tracked_def)
qed

lemma start_vehicle_id [simp]: "sv_vehicleId (fst (start_vehicle s r)) = sv_vehicleId s"
  by (simp add: start_vehicle_def Let_def split: prod.split)

lemma city_spec_id [simp]:
  "sv_vehicleId (fst (city_spec (fleet, v) r)) = cf_prefix fleet @ ''-'' @ nat_str (201 + v)"
  by (simp add: city_spec_def spec_of_def split: prod.split)

lemma map_rng_map:
  assumes "\<And>x r. g (fst (f x r)) = h x"
  shows "map g (fst (map_rng f xs r)) = map h xs"
  by (induction xs arbitrary: r) (simp_all add: map_rng_Cons assms del: map_rng.simps(2))

lemma vehicle_ids:
  "map sv_vehicleId sim_new =
     map fst SEATTLE_ROUTES
     @ map (\<lambda>(fleet, v). cf_prefix fleet @ ''-'' @ nat_str (201 + v))
         (concat (map (\<lambda>fleet. map (Pair fleet) [0..<cf_count fleet]) CITY_FLEETS))
     @ map fst AIR_ROUTES @ map fst SEA_ROUTES"
proof -
  have city: "map sv_vehicleId (fst (map_rng city_spec xs r))
      = map (\<lambda>(fleet, v). cf_prefix fleet @ ''-'' @ nat_str (201 + v)) xs" for xs r
    by (rule map_rng_map) (auto split: prod.split)
  have table: "map sv_vehicleId (map (\<lambda>(i, route). spec_of i (st i) kind (g route)) xs) = map fst xs"
    for st kind g and xs :: "(string \<times> LngLat list) list"
    by (simp add: spec_of_def case_prod_beta)
  have "map sv_vehicleId sim_new = map sv_vehicleId buildSpecs"
    unfolding sim_new_def by (rule map_rng_map) simp
  then show ?thesis by (simp only: buildSpecs_def map_append table city)
qed

lemma vehicle_ids_distinct: "distinct (map sv_vehicleId sim_new)"
  unfolding vehicle_ids by code_simp

definition sound_spec :: "SimVehicleSpec \<Rightarrow> bool" where
  "sound_spec s \<longleftrightarrow> sv_route s \<noteq> [] \<and> 8 \<le> sv_speed s"

lemma sound_spec_of: "pts \<noteq> [] \<Longrightarrow> 0 < n \<Longrightarrow> sound_spec (spec_of i st kind (catmullRomClosed pts n))"
  using length_catmullRomClosed [of pts n] by (auto simp: sound_spec_def spec_of_def loopSpeed_def)

lemma sound_city_spec: "sound_spec (fst (city_spec p r))"
proof -
  obtain fleet v where p: "p = (fleet, v)" by (cases p)
  obtain u r1 where u: "mulberry32 r = (u, r1)" by (metis surj_pair)
  obtain pts r2 where pts: "makeLoop (cf_center fleet) (cf_radius fleet) (6 + nat \<lfloor>u * 3\<rfloor>) r1 = (pts, r2)"
    by (metis surj_pair)
  have "length (fst (makeLoop (cf_center fleet) (cf_radius fleet) (6 + nat \<lfloor>u * 3\<rfloor>) r1)) = 6 + nat \<lfloor>u * 3\<rfloor>"
    by (simp add: makeLoop_def Let_def)
  then have "pts \<noteq> []" unfolding pts by auto
  then show ?thesis by (simp add: city_spec_def p u pts sound_spec_of)
qed

lemma buildSpecs_sound: "\<forall>s \<in> set buildSpecs. sound_spec s"
proof -
  have table: "\<forall>s \<in> set (map (\<lambda>(i, route). spec_of i (st i) kind (catmullRomClosed route n)) xs). sound_spec s"
    if "list_all (\<lambda>p. snd p \<noteq> []) xs" "0 < n" for st kind n and xs :: "(string \<times> LngLat list) list"
    using that by (auto simp: list_all_iff intro!: sound_spec_of)
  have "list_all (\<lambda>p. snd p \<noteq> []) SEATTLE_ROUTES" "list_all (\<lambda>p. snd p \<noteq> []) AIR_ROUTES"
    "list_all (\<lambda>p. snd p \<noteq> []) SEA_ROUTES"
    by (simp_all add: SEATTLE_ROUTES_def AIR_ROUTES_def SEA_ROUTES_def)
  moreover have "\<forall>s \<in> set (fst (map_rng city_spec xs r)). sound_spec s" for xs r
    using sound_city_spec by (metis map_rng_elem)
  ultimately show ?thesis
    unfolding buildSpecs_def set_append ball_Un using table by simp
qed

lemma sim_new_ok: "\<forall>v \<in> set sim_new. on_route v \<and> tracked v"
  using buildSpecs_sound start_vehicle_ok
  by (auto simp: sim_new_def sound_spec_def elim!: map_rng_elem)

lemma js_atan2_bounds: "- pi < js_atan2 y x" "js_atan2 y x \<le> pi"
proof -
  have a: "- (pi / 2) < arctan z" "arctan z < pi / 2" for z using arctan_lbound arctan_ubound by auto
  have pos: "0 < pi" by (rule pi_gt_zero)
  have neg: "arctan (y / x) \<le> 0" if "y \<ge> 0" "x < 0"
    using that by (simp add: divide_nonneg_neg)
  have nonneg: "0 < arctan (y / x)" if "\<not> y \<ge> 0" "x < 0"
    using that by (simp add: divide_neg_neg)
  have "- pi < js_atan2 y x \<and> js_atan2 y x \<le> pi"
    using a [of "y / x"] pos neg nonneg unfolding js_atan2_def by (auto split: if_splits)
  then show "- pi < js_atan2 y x" "js_atan2 y x \<le> pi" by auto
qed

lemma js_rem_range: "0 \<le> x \<Longrightarrow> 0 < y \<Longrightarrow> 0 \<le> js_rem x y \<and> js_rem x y < y"
proof -
  assume x: "0 \<le> x" and y: "0 < y"
  then have q: "0 \<le> x / y" by simp
  have "of_int \<lfloor>x / y\<rfloor> * y \<le> x" "x < (of_int \<lfloor>x / y\<rfloor> + 1) * y"
    using y by (rule floor_divide_lower, rule floor_divide_upper)
  then show ?thesis using q by (simp add: js_rem_def Let_def algebra_simps)
qed

section \<open>Properties\<close>

text \<open>
  In exact arithmetic the simulation never hangs and drives true. For every sequence of ticks the
  run ends; every vehicle keeps its identity, is on its loop, at the point that its segment and
  fraction name, and its odometer has advanced, up to whole laps, by the sum of its speed times the
  (non-negative) tick lengths.
\<close>

theorem sim_run_drives:
  "\<exists>ws fs. sim_run ticks sim_new = Some (ws, fs) \<and>
     list_all2 (\<lambda>v w. same_vehicle v w \<and> on_route w \<and> (if ticks = [] then w = v else placed w)
       \<and> (\<exists>laps. odometer w + of_nat laps * loop_length (sv_route v)
            = odometer v + (\<Sum>t \<leftarrow> ticks. max 0 (sv_speed v * (snd t / 1000))))) sim_new ws"
proof -
  obtain ws fs where "sim_run ticks sim_new = Some (ws, fs)" "list_all2 (run_ok ticks) sim_new ws"
    using sim_run_spec [OF sim_new_ok vehicle_ids_distinct] by blast
  then show ?thesis
    by (intro exI [of _ ws] exI [of _ fs])
      (auto simp: run_ok_def driven_def distance_of_def elim!: list_all2_mono split: if_splits)
qed

text \<open>
  C28. Zone events tell the truth. After any sequence of ticks, a subscriber who starts from a
  vehicle's initial zones and applies its Enter and Exit events in order never sees an Enter for
  a zone the vehicle is in nor an Exit for one it is not in, and ends with exactly the zones
  whose rings contain the vehicle's position.
\<close>

theorem zone_events_truthful:
  "\<exists>ws fs. sim_run ticks sim_new = Some (ws, fs) \<and>
     list_all (\<lambda>k. follow (sv_vehicleId (sim_new ! k)) (zones_at (sv_lng (sim_new ! k)) (sv_lat (sim_new ! k))) fs
        = Some (zones_at (sv_lng (ws ! k)) (sv_lat (ws ! k)))) [0..<length sim_new]"
proof -
  obtain ws fs where ws: "sim_run ticks sim_new = Some (ws, fs)" "list_all2 (run_ok ticks) sim_new ws"
    "\<forall>k < length sim_new. follow (sv_vehicleId (sim_new ! k)) (sv_inside (sim_new ! k)) fs = Some (sv_inside (ws ! k))"
    using sim_run_spec [OF sim_new_ok vehicle_ids_distinct] by blast
  have "sv_inside (sim_new ! k) = zones_at (sv_lng (sim_new ! k)) (sv_lat (sim_new ! k))"
    "sv_inside (ws ! k) = zones_at (sv_lng (ws ! k)) (sv_lat (ws ! k))" if "k < length sim_new" for k
    using that sim_new_ok ws(2) by (auto simp: tracked_def run_ok_def list_all2_conv_all_nth)
  with ws show ?thesis by (auto simp: list_all_iff)
qed

text \<open>
  The zones of a position: the ray-casting test, on the two zones of the simulation, is
  membership in the rectangles they describe, southern and western edges included.
\<close>

theorem zones_at_rectangles:
  "zones_at lng lat =
     (if - 122.3415 \<le> lng \<and> lng < - 122.3245 \<and> 47.6005 \<le> lat \<and> lat < 47.6125 then {''zone-dt''} else {})
     \<union> (if - 122.3389 \<le> lng \<and> lng < - 122.3262 \<and> 47.5905 \<le> lat \<and> lat < 47.5985 then {''zone-sodo''} else {})"
proof -
  have "zones_at lng lat = (if pointInRing lng lat (sz_ring (SIM_ZONES ! 0)) then {''zone-dt''} else {})
     \<union> (if pointInRing lng lat (sz_ring (SIM_ZONES ! 1)) then {''zone-sodo''} else {})"
    by (auto simp: zones_at_def SIM_ZONES_def)
  moreover have "sz_ring (SIM_ZONES ! 0) = rect_ring (- 122.3415) 47.6005 (- 122.3245) 47.6125"
    "sz_ring (SIM_ZONES ! 1) = rect_ring (- 122.3389) 47.5905 (- 122.3262) 47.5985"
    by (simp_all add: SIM_ZONES_def rect_ring_def)
  ultimately show ?thesis by (simp add: pointInRing_rect)
qed

text \<open>
  Every heading the simulation computes is a compass heading: at least 0, less than 360.
\<close>

theorem bearing_compass: "0 \<le> bearing a b \<and> bearing a b < 360"
proof -
  define lat where "lat = (snd a + snd b) / 2"
  define q where "q = js_atan2 ((fst b - fst a) * metresPerDegLng lat) ((snd b - snd a) * M_PER_DEG_LAT)"
  have "- pi < q" "q \<le> pi" using js_atan2_bounds by (simp_all add: q_def)
  then have "- 180 < (q * 180) / pi" by (simp add: field_simps)
  then have "0 \<le> (q * 180) / pi + 360" by simp
  then show ?thesis
    unfolding bearing_def Let_def lat_def [symmetric] q_def [symmetric] by (intro js_rem_range) simp_all
qed

end
