(* ===== verification/Live_Map.thy ===== *)
theory Live_Map
  imports Fleet_Map Fleet_Simulation Doubles
begin

text \<open>
  The live map's markers (\<open>map/LiveMap.tsx\<close>) and the filterable view around it
  (\<open>map/MapView.tsx\<close>): the reconciliation of markers with the vehicles shown, the animation
  frame that eases every marker to its target, the trace of the selected vehicle, and the
  selection. The map library is external: a marker is what was last set on it.
\<close>

section \<open>Model: markers\<close>

text \<open>The remainder of a division by 360, on numbers.\<close>

fun rem360 :: "jsnum \<Rightarrow> jsnum" where
  "rem360 (Fin x) = Fin (js_rem x 360)"
| "rem360 _ = NaN"

definition lerpAngle :: "jsnum \<Rightarrow> jsnum \<Rightarrow> jsnum \<Rightarrow> jsnum" where
  "lerpAngle a b t = (let d = rem360 (b - a + Fin 540) - Fin 180 in a + d * t)"

text \<open>
  \<open>me_position\<close> is where the marker stands (\<open>setLngLat\<close>), \<open>me_angle\<close> the rotation of its icon;
  points are \<open>(lng, lat)\<close>.
\<close>

record MarkerEntry =
  me_position :: "jsnum \<times> jsnum"
  me_angle :: jsnum
  me_curr :: "jsnum \<times> jsnum"
  me_target :: "jsnum \<times> jsnum"
  me_headingCurr :: jsnum
  me_headingTarget :: jsnum
  me_kind :: VehicleKind
  me_status :: string
  me_selected :: bool
  me_label :: "string option"

definition ease :: "jsnum \<Rightarrow> jsnum \<Rightarrow> jsnum" where
  "ease c target = double_plus c (double_times (double_minus target c) (to_double (16 / 100)))"

definition animate_entry :: "MarkerEntry \<Rightarrow> MarkerEntry" where
  "animate_entry e =
     (let c = (ease (fst (me_curr e)) (fst (me_target e)), ease (snd (me_curr e)) (snd (me_target e)));
          e' = e\<lparr>me_curr := c, me_position := c\<rparr>
      in if me_kind e = KindAir \<or> me_kind e = KindSea
         then (let h = lerpAngle (me_headingCurr e) (me_headingTarget e) (Fin 0.16)
               in e'\<lparr>me_headingCurr := h, me_angle := h\<rparr>)
         else e')"

definition animate :: "(string, MarkerEntry) jsmap \<Rightarrow> (string, MarkerEntry) jsmap" where
  "animate entries = map (\<lambda>(k, e). (k, animate_entry e)) entries"

definition heading_of :: "VehicleState \<Rightarrow> jsnum" where
  "heading_of v = or_else (vs_heading v) (Fin 0)"

definition new_entry :: "string option \<Rightarrow> VehicleState \<Rightarrow> MarkerEntry" where
  "new_entry selectedVehicleId v =
     (let kind = or_else (vs_kind v) (kindFromId (vs_vehicleId v)); heading = heading_of v
      in \<lparr>me_position = (vs_lng v, vs_lat v), me_angle = marker_angle kind (Some heading),
          me_curr = (vs_lng v, vs_lat v), me_target = (vs_lng v, vs_lat v),
          me_headingCurr = heading, me_headingTarget = heading, me_kind = kind,
          me_status = vs_driverStatus v, me_selected = (Some (vs_vehicleId v) = selectedVehicleId),
          me_label = vs_label v\<rparr>)"

text \<open>A rebuilt element is drawn for the kind of the vehicle, which the entry does not take over.\<close>

definition update_entry :: "string option \<Rightarrow> VehicleState \<Rightarrow> MarkerEntry \<Rightarrow> MarkerEntry" where
  "update_entry selectedVehicleId v e =
     (let kind = or_else (vs_kind v) (kindFromId (vs_vehicleId v));
          status = vs_driverStatus v; selected = (Some (vs_vehicleId v) = selectedVehicleId);
          e' = e\<lparr>me_target := (vs_lng v, vs_lat v), me_headingTarget := heading_of v\<rparr>
      in if me_status e' \<noteq> status \<or> me_selected e' \<noteq> selected
         then e'\<lparr>me_angle := marker_angle kind (Some (me_headingCurr e')), me_status := status, me_selected := selected\<rparr>
         else e')"

definition reconcile_vehicle ::
    "string option \<Rightarrow> (string, MarkerEntry) jsmap \<Rightarrow> VehicleState \<Rightarrow> (string, MarkerEntry) jsmap" where
  "reconcile_vehicle selectedVehicleId entries v = (case map_get entries (vs_vehicleId v) of
      None \<Rightarrow> map_set (vs_vehicleId v) (new_entry selectedVehicleId v) entries
    | Some e \<Rightarrow> map_set (vs_vehicleId v) (update_entry selectedVehicleId v e) entries)"

definition reconcile ::
    "VehicleState list \<Rightarrow> string option \<Rightarrow> (string, MarkerEntry) jsmap \<Rightarrow> (string, MarkerEntry) jsmap" where
  "reconcile vehicles selectedVehicleId entries =
     (let seen = set (map vs_vehicleId vehicles);
          entries' = foldl (reconcile_vehicle selectedVehicleId) entries vehicles
      in filter (\<lambda>(i, e). i \<in> seen) entries')"

section \<open>Model: the trace of the selected vehicle\<close>

text \<open>
  The effect that draws the trace: the coordinates of the line, the vehicle whose trace was
  framed last, and the box the view is fitted to, if it is.
\<close>

definition trace_effect ::
    "(string \<Rightarrow> int option) \<Rightarrow> TracePing list \<Rightarrow> string option \<Rightarrow> jsnum \<Rightarrow> string option
     \<Rightarrow> (jsnum \<times> jsnum) list \<times> string option \<times> Box option" where
  "trace_effect parse tracePings selectedVehicleId now framed =
     (let ordered = if truthy selectedVehicleId then windowTrace parse tracePings now TRACE_WINDOW_MS else [];
          coordinates = map (\<lambda>p. (tp_lng p, tp_lat p)) ordered
      in if \<not> truthy selectedVehicleId then (coordinates, None, None)
         else if framed \<noteq> selectedVehicleId \<and> 1 < length coordinates
         then (coordinates, selectedVehicleId, boundsOf coordinates)
         else (coordinates, framed, None))"

section \<open>Model: the filterable view\<close>

record MapViewState =
  mv_driverStatus :: "string option"
  mv_zoneId :: "string option"
  mv_selected :: "string option"

definition map_view_new :: MapViewState where
  "map_view_new = \<lparr>mv_driverStatus = None, mv_zoneId = None, mv_selected = None\<rparr>"

text \<open>A choice in a select box: the empty value means no filter.\<close>

definition choice :: "string \<Rightarrow> string option" where
  "choice value = (if value = [] then None else Some value)"

definition choose_status :: "string \<Rightarrow> MapViewState \<Rightarrow> MapViewState" where
  "choose_status value s = s\<lparr>mv_driverStatus := choice value\<rparr>"

definition choose_zone :: "string \<Rightarrow> MapViewState \<Rightarrow> MapViewState" where
  "choose_zone value s = s\<lparr>mv_zoneId := choice value\<rparr>"

definition select_vehicle :: "string \<Rightarrow> MapViewState \<Rightarrow> MapViewState" where
  "select_vehicle i s = s\<lparr>mv_selected := Some i\<rparr>"

definition shown :: "VehicleState list \<Rightarrow> MapViewState \<Rightarrow> VehicleState list" where
  "shown vehicles s = filterVehicles vehicles \<lparr>mf_driverStatus = mv_driverStatus s, mf_zoneId = mv_zoneId s\<rparr>"

definition clear_hidden_selection :: "VehicleState list \<Rightarrow> MapViewState \<Rightarrow> MapViewState" where
  "clear_hidden_selection vehicles s =
     (if truthy (mv_selected s) \<and> \<not> (\<exists>v \<in> set (shown vehicles s). Some (vs_vehicleId v) = mv_selected s)
      then s\<lparr>mv_selected := None\<rparr> else s)"

definition view_trace :: "(string, TracePing list) jsmap \<Rightarrow> MapViewState \<Rightarrow> TracePing list" where
  "view_trace tracesByVehicle s = (case mv_selected s of
      Some i \<Rightarrow> if i = [] then [] else or_else (map_get tracesByVehicle i) []
    | None \<Rightarrow> [])"


section \<open>Reconciliation\<close>

definition reconciled :: "string option \<Rightarrow> VehicleState \<Rightarrow> MarkerEntry option \<Rightarrow> MarkerEntry" where
  "reconciled sel v old = (case old of None \<Rightarrow> new_entry sel v | Some e \<Rightarrow> update_entry sel v e)"

lemma reconcile_vehicle_eq:
  "reconcile_vehicle sel m v = map_set (vs_vehicleId v) (reconciled sel v (map_get m (vs_vehicleId v))) m"
  by (simp add: reconcile_vehicle_def reconciled_def split: option.split)

lemma reconcile_fold:
  "distinct (map vs_vehicleId vs) \<Longrightarrow> map_get (foldl (reconcile_vehicle sel) m vs) i =
     (case List.find (\<lambda>v. vs_vehicleId v = i) vs of
        None \<Rightarrow> map_get m i | Some v \<Rightarrow> Some (reconciled sel v (map_get m i)))"
proof (induction vs arbitrary: m)
  case (Cons v vs)
  have "List.find (\<lambda>w. vs_vehicleId w = vs_vehicleId v) vs = None"
    using Cons.prems by (simp add: find_None_iff) (metis image_eqI)
  then show ?case
    using Cons by (auto simp: reconcile_vehicle_eq split: option.split)
qed simp

lemma map_get_seen: "map_get (filter (\<lambda>(i, e). i \<in> A) m) i = (if i \<in> A then map_get m i else None)"
  by (induction m) auto

lemma reconcile_keys_distinct:
  "distinct (map_keys m) \<Longrightarrow> distinct (map_keys (reconcile vs sel m))"
proof -
  have "distinct (map_keys m) \<Longrightarrow> distinct (map_keys (foldl (reconcile_vehicle sel) m vs))" for m
    by (induction vs arbitrary: m) (simp_all add: reconcile_vehicle_eq)
  moreover have "distinct (map_keys xs) \<Longrightarrow> distinct (map_keys (filter P xs))" for P and xs :: "(string, MarkerEntry) jsmap"
    by (induction xs) auto
  ultimately show "distinct (map_keys m) \<Longrightarrow> ?thesis" by (simp add: reconcile_def Let_def)
qed

lemma find_member: "List.find P xs = None \<longleftrightarrow> \<not> (\<exists>x \<in> set xs. P x)"
  by (auto simp: find_None_iff)

lemma reconcile_get:
  assumes "distinct (map vs_vehicleId vs)"
  shows "map_get (reconcile vs sel m) i =
     map_option (\<lambda>v. reconciled sel v (map_get m i)) (List.find (\<lambda>v. vs_vehicleId v = i) vs)"
proof (cases "List.find (\<lambda>v. vs_vehicleId v = i) vs")
  case None
  then have "i \<notin> set (map vs_vehicleId vs)" by (auto simp: find_None_iff)
  then show ?thesis by (simp add: reconcile_def Let_def map_get_seen None)
next
  case (Some v)
  then have "i \<in> set (map vs_vehicleId vs)" by (auto dest!: find_SomeD)
  then show ?thesis by (simp add: reconcile_def Let_def map_get_seen reconcile_fold [OF assms] Some)
qed

lemma reconciled_fields:
  "me_target (reconciled sel v old) = (vs_lng v, vs_lat v)"
  "me_headingTarget (reconciled sel v old) = heading_of v"
  "me_status (reconciled sel v old) = vs_driverStatus v"
  "me_selected (reconciled sel v old) \<longleftrightarrow> Some (vs_vehicleId v) = sel"
  "me_curr (reconciled sel v old) = (case old of None \<Rightarrow> (vs_lng v, vs_lat v) | Some e \<Rightarrow> me_curr e)"
  "me_position (reconciled sel v old) = (case old of None \<Rightarrow> (vs_lng v, vs_lat v) | Some e \<Rightarrow> me_position e)"
  by (auto simp: reconciled_def new_entry_def update_entry_def Let_def split: option.split)

section \<open>Animation\<close>

lemma errors_add:
  "\<bar>r - (c + p)\<bar> \<le> e1 \<Longrightarrow> \<bar>p - m\<bar> \<le> e2 \<Longrightarrow> \<bar>m - s\<bar> \<le> e3 \<Longrightarrow> c + s - t = u \<Longrightarrow> \<bar>u\<bar> = v
     \<Longrightarrow> e1 + e2 + e3 \<le> e \<Longrightarrow> \<bar>r - t\<bar> \<le> v + e" for r :: real
  by linarith

text \<open>Exactly, a frame leaves 84 % of the distance; the rounding adds less than \<open>2^-40\<close> degrees.\<close>

lemma ease_near:
  assumes "\<bar>t\<bar> \<le> 180" "\<bar>c - t\<bar> \<le> 370"
  obtains c' where "ease (Fin c) (Fin t) = Fin c'" "\<bar>c' - t\<bar> \<le> (84 / 100) * \<bar>c - t\<bar> + 1 / 2 ^ 40"
proof -
  define k where "k = round_real (16 / 100)"
  define d where "d = round_real (t - c)"
  define p where "p = round_real (d * k)"
  have k: "\<bar>k - (16 / 100)\<bar> \<le> 1 / 2 ^ 53" unfolding k_def by (rule round_real_near) simp_all
  have d: "\<bar>d - (t - c)\<bar> \<le> 370 / 2 ^ 53" unfolding d_def using assms(2) by (intro round_real_near) linarith+
  have tiny: "(370 :: real) / 2 ^ 53 \<le> 1" "(371 :: real) / 2 ^ 53 \<le> 1" "(1 :: real) / 2 ^ 53 \<le> 1 / 100" by simp_all
  have k1: "\<bar>k\<bar> \<le> 1" using k tiny(3) by linarith
  have d1: "\<bar>d\<bar> \<le> 371" using d tiny(1) assms(2) by linarith
  have "\<bar>d\<bar> * \<bar>k\<bar> \<le> 371 * 1" using k1 d1 by (intro mult_mono) simp_all
  then have dk: "\<bar>d * k\<bar> \<le> 371" by (simp add: abs_mult)
  then have p: "\<bar>p - d * k\<bar> \<le> 371 / 2 ^ 53" unfolding p_def by (rule round_real_near) simp
  have c: "\<bar>c\<bar> \<le> 550" using assms by linarith
  have cp: "\<bar>c + p\<bar> \<le> 922" using c p dk tiny by linarith
  then have sum: "\<bar>round_real (c + p) - (c + p)\<bar> \<le> 922 / 2 ^ 53" by (rule round_real_near) simp
  have literal: "to_double (16 / 100) = Fin k" unfolding k_def by (intro to_double_small small_number) simp
  have minus: "double_minus (Fin t) (Fin c) = Fin d"
    unfolding d_def using assms(2) by (intro double_minus_Fin small_number) linarith
  have times: "double_times (Fin d) (Fin k) = Fin p"
    unfolding p_def using dk by (intro double_times_Fin small_number) linarith
  have plus: "double_plus (Fin c) (Fin p) = Fin (round_real (c + p))"
    using cp by (intro double_plus_Fin small_number) linarith
  have "\<bar>d * k - (t - c) * (16 / 100)\<bar> \<le> 741 / 2 ^ 53"
  proof -
    have eq: "d * k - (t - c) * (16 / 100) = d * (k - (16 / 100)) + (d - (t - c)) * (16 / 100)"
      by (simp only: left_diff_distrib right_diff_distrib)
    have "\<bar>d * (k - (16 / 100))\<bar> \<le> 371 * (1 / 2 ^ 53)" unfolding abs_mult using d1 k by (intro mult_mono) simp_all
    moreover have "\<bar>(d - (t - c)) * (16 / 100)\<bar> \<le> 370 / 2 ^ 53 * 1" unfolding abs_mult using d by (intro mult_mono) simp_all
    ultimately have "\<bar>d * (k - (16 / 100)) + (d - (t - c)) * (16 / 100)\<bar> \<le> 371 * (1 / 2 ^ 53) + 370 / 2 ^ 53 * 1"
      by (intro order_trans [OF abs_triangle_ineq add_mono])
    then show ?thesis unfolding eq by simp
  qed
  moreover have "(922 / 2 ^ 53) + 371 / 2 ^ 53 + 741 / 2 ^ 53 \<le> (1 / 2 ^ 40 :: real)" by simp
  moreover have "c + (t - c) * (16 / 100) - t = (84 / 100) * (c - t)" by (simp add: field_simps)
  moreover have "\<bar>(84 / 100) * (c - t)\<bar> = (84 / 100) * \<bar>c - t\<bar>" by (simp only: abs_mult abs_divide abs_numeral)
  ultimately have "\<bar>round_real (c + p) - t\<bar> \<le> (84 / 100) * \<bar>c - t\<bar> + 1 / 2 ^ 40"
    by (intro errors_add [OF sum p])
  moreover have "ease (Fin c) (Fin t) = Fin (round_real (c + p))" unfolding ease_def literal minus times plus ..
  ultimately show ?thesis by (intro that)
qed

text \<open>Over many frames the rounding errors shrink with the distance.\<close>

definition settles :: "real \<Rightarrow> nat \<Rightarrow> real \<Rightarrow> real \<Rightarrow> bool" where
  "settles t n a c \<longleftrightarrow> \<bar>c - t\<bar> \<le> (84 / 100) ^ n * \<bar>a - t\<bar> + 1 / 2 ^ 36"

lemma ease_settles:
  assumes "\<bar>t\<bar> \<le> 180" "\<bar>a\<bar> \<le> 180" "settles t n a c"
  obtains c' where "ease (Fin c) (Fin t) = Fin c'" "settles t (Suc n) a c'"
proof -
  define r :: real where "r = (84 / 100) ^ n"
  have "r \<le> 1" unfolding r_def by (rule power_le_one) simp_all
  then have "r * \<bar>a - t\<bar> \<le> 1 * \<bar>a - t\<bar>" by (rule mult_right_mono) simp
  also have "\<dots> \<le> 360" using assms(1,2) by simp
  finally have "r * \<bar>a - t\<bar> + 1 / 2 ^ 36 \<le> 360 + 1 / 2 ^ 36" by (rule add_right_mono)
  with assms(3) have "\<bar>c - t\<bar> \<le> 360 + 1 / 2 ^ 36" unfolding settles_def r_def by (rule order_trans)
  moreover have "(1 :: real) / 2 ^ 36 \<le> 1" by simp
  ultimately obtain c' where c': "ease (Fin c) (Fin t) = Fin c'" "\<bar>c' - t\<bar> \<le> (84 / 100) * \<bar>c - t\<bar> + 1 / 2 ^ 40"
    using ease_near [OF assms(1), of c] by force
  have "(84 / 100) * \<bar>c - t\<bar> \<le> (84 / 100) * ((84 / 100) ^ n * \<bar>a - t\<bar> + 1 / 2 ^ 36)"
    using assms(3) unfolding settles_def by (intro mult_left_mono) simp_all
  also have "\<dots> = (84 / 100) ^ Suc n * \<bar>a - t\<bar> + (84 / 100) / 2 ^ 36" by (simp add: algebra_simps)
  finally have "\<bar>c' - t\<bar> \<le> (84 / 100) ^ Suc n * \<bar>a - t\<bar> + (84 / 100) / 2 ^ 36 + 1 / 2 ^ 40" using c'(2) by linarith
  moreover have "(84 / 100) / 2 ^ 36 + 1 / 2 ^ 40 \<le> (1 / 2 ^ 36 :: real)" by simp
  ultimately have "settles t (Suc n) a c'" unfolding settles_def by linarith
  with c'(1) show ?thesis by (rule that)
qed

lemma animate_entry_fields [simp]:
  "me_target (animate_entry e) = me_target e"
  "me_headingTarget (animate_entry e) = me_headingTarget e"
  "me_curr (animate_entry e) = (ease (fst (me_curr e)) (fst (me_target e)), ease (snd (me_curr e)) (snd (me_target e)))"
  "me_position (animate_entry e) = me_curr (animate_entry e)"
  "me_kind (animate_entry e) = me_kind e"
  by (simp_all add: animate_entry_def Let_def)

lemma animate_iterated:
  assumes "me_target e = (Fin x, Fin y)" "me_curr e = (Fin a, Fin b)"
    "\<bar>x\<bar> \<le> 180" "\<bar>y\<bar> \<le> 180" "\<bar>a\<bar> \<le> 180" "\<bar>b\<bar> \<le> 180"
  shows "\<exists>p q. me_curr ((animate_entry ^^ n) e) = (Fin p, Fin q) \<and> settles x n a p \<and> settles y n b q"
proof (induction n)
  case 0
  show ?case by (simp add: assms settles_def)
next
  case (Suc n)
  then obtain p q where pq: "me_curr ((animate_entry ^^ n) e) = (Fin p, Fin q)" "settles x n a p" "settles y n b q" by blast
  have t: "me_target ((animate_entry ^^ n) e) = (Fin x, Fin y)" by (induction n) (simp_all add: assms(1))
  obtain p' where p': "ease (Fin p) (Fin x) = Fin p'" "settles x (Suc n) a p'" using ease_settles [OF assms(3,5) pq(2)] .
  obtain q' where q': "ease (Fin q) (Fin y) = Fin q'" "settles y (Suc n) b q'" using ease_settles [OF assms(4,6) pq(3)] .
  show ?case using p' q' by (simp add: pq(1) t)
qed

lemma js_rem_split:
  "\<exists>k :: int. x = js_rem x 360 + 360 * of_int k \<and> (if 0 \<le> x then 0 \<le> js_rem x 360 \<and> js_rem x 360 < 360
     else - 360 < js_rem x 360 \<and> js_rem x 360 \<le> 0)"
proof -
  define q where "q = (if 0 \<le> x / 360 then \<lfloor>x / 360\<rfloor> else \<lceil>x / 360\<rceil>)"
  have r: "js_rem x 360 = x - 360 * of_int q" by (simp add: js_rem_def q_def Let_def)
  have "(if 0 \<le> x / 360 then of_int q \<le> x / 360 \<and> x / 360 < of_int q + 1
      else of_int q - 1 < x / 360 \<and> x / 360 \<le> of_int q)"
    unfolding q_def by (auto; linarith)
  then have "if 0 \<le> x then of_int q * 360 \<le> x \<and> x < (of_int q + 1) * 360
      else (of_int q - 1) * 360 < x \<and> x \<le> of_int q * 360"
    by (auto simp: field_simps split: if_splits)
  then show ?thesis
    by (intro exI [of _ q]) (auto simp: r algebra_simps split: if_splits)
qed

text \<open>Turning: the shortest way, as long as the current angle is at most 540 degrees ahead.\<close>

lemma lerpAngle_Fin:
  "lerpAngle (Fin a) (Fin b) (Fin t) = Fin (a + (js_rem (b - a + 540) 360 - 180) * t)"
  by (simp add: lerpAngle_def Let_def)

lemma lerpAngle_shortest:
  assumes "a \<le> b + 540"
  shows "\<exists>d (k :: int). lerpAngle (Fin a) (Fin b) (Fin t) = Fin (a + d * t)
    \<and> - 180 \<le> d \<and> d < 180 \<and> b = a + d + 360 * of_int k"
proof -
  obtain k :: int where k: "b - a + 540 = js_rem (b - a + 540) 360 + 360 * of_int k"
    "0 \<le> js_rem (b - a + 540) 360" "js_rem (b - a + 540) 360 < 360"
    using js_rem_split [of "b - a + 540"] assms by auto
  then show ?thesis
    by (intro exI [of _ "js_rem (b - a + 540) 360 - 180"] exI [of _ "k - 1"]) (auto simp: lerpAngle_Fin)
qed


section \<open>Reconciled markers\<close>

lemma fleet_ids_distinct: "distinct (map vs_vehicleId (map_values (fs_vehicles (fleet_run parse es (fleet_state_new t0)))))"
proof -
  have "map vs_vehicleId (map_values (fs_vehicles (fleet_run parse es (fleet_state_new t0))))
      = map_keys (fs_vehicles (fleet_run parse es (fleet_state_new t0)))"
    using vehicle_keys [of parse es t0] by (auto simp: comp_def)
  with vehicle_keys [of parse es t0] show ?thesis by (simp del: map_map)
qed

lemma shown_ids_distinct: "distinct (map vs_vehicleId vs) \<Longrightarrow> distinct (map vs_vehicleId (shown vs view))"
  by (simp add: shown_def filterVehicles_def distinct_map_filter)

lemma reconcile_shown:
  assumes "distinct (map vs_vehicleId vs)" "v \<in> set vs"
  shows "map_get (reconcile vs sel old) (vs_vehicleId v) = Some (reconciled sel v (map_get old (vs_vehicleId v)))"
proof -
  have "List.find (\<lambda>w. vs_vehicleId w = vs_vehicleId v) vs \<noteq> None" using assms(2) by (auto simp: find_None_iff)
  then obtain w where w: "List.find (\<lambda>w. vs_vehicleId w = vs_vehicleId v) vs = Some w" by blast
  then have "w \<in> set vs" "vs_vehicleId w = vs_vehicleId v" by (auto dest: find_SomeD)
  with assms have "w = v" by (auto simp: distinct_map dest: inj_onD)
  with w show ?thesis by (simp add: reconcile_get [OF assms(1)])
qed

lemma reconcile_keys:
  assumes "distinct (map vs_vehicleId vs)"
  shows "set (map_keys (reconcile vs sel old)) = vs_vehicleId ` set vs"
proof (rule set_eqI)
  fix i
  have "i \<in> set (map_keys (reconcile vs sel old)) \<longleftrightarrow> map_get (reconcile vs sel old) i \<noteq> None"
    by (simp add: map_of_eq_None_iff)
  also have "\<dots> \<longleftrightarrow> List.find (\<lambda>v. vs_vehicleId v = i) vs \<noteq> None"
    by (simp add: reconcile_get [OF assms])
  also have "\<dots> \<longleftrightarrow> i \<in> vs_vehicleId ` set vs"
    by (auto simp: find_None_iff)
  finally show "i \<in> set (map_keys (reconcile vs sel old)) \<longleftrightarrow> i \<in> vs_vehicleId ` set vs" .
qed

text \<open>Where the marker stands and how its icon is turned, after some frames.\<close>

lemma animate_entry_angle:
  "me_angle (animate_entry e) = (if me_kind e \<in> {KindAir, KindSea} then me_headingCurr (animate_entry e) else me_angle e)"
  "me_kind e \<notin> {KindAir, KindSea} \<Longrightarrow> me_headingCurr (animate_entry e) = me_headingCurr e"
  by (simp_all add: animate_entry_def Let_def)

lemma frames_set:
  "me_position ((animate_entry ^^ n) m) = (if n = 0 then me_position m else me_curr ((animate_entry ^^ n) m))
   \<and> me_angle ((animate_entry ^^ n) m) =
      (if 0 < n \<and> me_kind m \<in> {KindAir, KindSea} then me_headingCurr ((animate_entry ^^ n) m) else me_angle m)"
proof -
  have kind: "me_kind ((animate_entry ^^ k) m) = me_kind m" for k by (induction k) simp_all
  show ?thesis
  proof (induction n)
    case (Suc k)
    then show ?case using animate_entry_angle [of "(animate_entry ^^ k) m"] kind [of k] by simp
  qed simp
qed

lemma frames_shrink:
  "case (me_curr m, me_target m) of
     ((Fin a, Fin b), (Fin x, Fin y)) \<Rightarrow> if list_all (\<lambda>c. \<bar>c\<bar> \<le> 180) [a, b, x, y]
       then \<exists>p q. me_curr ((animate_entry ^^ n) m) = (Fin p, Fin q) \<and> settles x n a p \<and> settles y n b q else True
   | _ \<Rightarrow> True"
  using animate_iterated [of m] by (auto split: prod.split jsnum.split)

section \<open>Properties\<close>

text \<open>
  C30. The markers are the vehicles shown. Whatever markers are on the map, whatever was reported
  and whatever filter and selection are set, after reconciliation there is exactly one marker per
  vehicle that passes the filter; it heads for that vehicle's current position and heading, is
  drawn with its status and with the halo exactly when it is selected, and it stays where it was
  (a new one starts at the vehicle's position). Every frame sets the marker where the easing has
  come to, and the icon of a plane or ship to the eased heading; after \<open>n\<close> frames what is left of each
  coordinate's distance is at most \<open>(84 / 100)^n\<close> of it, up to \<open>2^-36\<close> degrees for the rounding (coordinates are degrees).
\<close>

theorem markers_show_fleet:
  "let vehicles = shown (map_values (fs_vehicles (fleet_run parse es (fleet_state_new t0)))) view;
       markers = reconcile vehicles (mv_selected view) old
   in set (map_keys markers) = vs_vehicleId ` set vehicles
     \<and> list_all (\<lambda>v. \<exists>m :: MarkerEntry. map_get markers (vs_vehicleId v) = Some m
         \<and> me_target m = (vs_lng v, vs_lat v) \<and> me_headingTarget m = heading_of v
         \<and> me_status m = vs_driverStatus v \<and> (me_selected m \<longleftrightarrow> mv_selected view = Some (vs_vehicleId v))
         \<and> (me_position m, me_curr m) = (case map_get old (vs_vehicleId v) of
               None \<Rightarrow> ((vs_lng v, vs_lat v), (vs_lng v, vs_lat v)) | Some e \<Rightarrow> (me_position e, me_curr e))
         \<and> (let later = (animate_entry ^^ n) m in
              me_position later = (if n = 0 then me_position m else me_curr later)
            \<and> me_angle later = (if 0 < n \<and> me_kind m \<in> {KindAir, KindSea} then me_headingCurr later else me_angle m)
            \<and> (case (me_curr m, me_target m) of
                 ((Fin a, Fin b), (Fin x, Fin y)) \<Rightarrow> if list_all (\<lambda>c. \<bar>c\<bar> \<le> 180) [a, b, x, y]
                   then \<exists>p q. me_curr later = (Fin p, Fin q)
                     \<and> \<bar>p - x\<bar> \<le> (84 / 100) ^ n * \<bar>a - x\<bar> + 1 / 2 ^ 36 \<and> \<bar>q - y\<bar> \<le> (84 / 100) ^ n * \<bar>b - y\<bar> + 1 / 2 ^ 36
                   else True
               | _ \<Rightarrow> True))) vehicles"
proof -
  define fleet where "fleet = map_values (fs_vehicles (fleet_run parse es (fleet_state_new t0)))"
  define vehicles where "vehicles = shown fleet view"
  have d: "distinct (map vs_vehicleId vehicles)"
    unfolding vehicles_def fleet_def by (intro shown_ids_distinct fleet_ids_distinct)
  define fits where "fits v m \<longleftrightarrow> me_target m = (vs_lng v, vs_lat v) \<and> me_headingTarget m = heading_of v
         \<and> me_status m = vs_driverStatus v \<and> (me_selected m \<longleftrightarrow> mv_selected view = Some (vs_vehicleId v))
         \<and> (me_position m, me_curr m) = (case map_get old (vs_vehicleId v) of
               None \<Rightarrow> ((vs_lng v, vs_lat v), (vs_lng v, vs_lat v)) | Some e \<Rightarrow> (me_position e, me_curr e))
         \<and> (let later = (animate_entry ^^ n) m in
              me_position later = (if n = 0 then me_position m else me_curr later)
            \<and> me_angle later = (if 0 < n \<and> me_kind m \<in> {KindAir, KindSea} then me_headingCurr later else me_angle m)
            \<and> (case (me_curr m, me_target m) of
                 ((Fin a, Fin b), (Fin x, Fin y)) \<Rightarrow> if list_all (\<lambda>c. \<bar>c\<bar> \<le> 180) [a, b, x, y]
                   then \<exists>p q. me_curr later = (Fin p, Fin q)
                     \<and> \<bar>p - x\<bar> \<le> (84 / 100) ^ n * \<bar>a - x\<bar> + 1 / 2 ^ 36 \<and> \<bar>q - y\<bar> \<le> (84 / 100) ^ n * \<bar>b - y\<bar> + 1 / 2 ^ 36
                   else True
               | _ \<Rightarrow> True))" for v and m :: MarkerEntry
  have "fits v (reconciled (mv_selected view) v (map_get old (vs_vehicleId v)))" for v
    unfolding fits_def Let_def settles_def [symmetric]
    by (intro conjI frames_shrink frames_set [THEN conjunct1] frames_set [THEN conjunct2])
      (auto simp: reconciled_fields split: option.split)
  then have "\<exists>m :: MarkerEntry. map_get (reconcile vehicles (mv_selected view) old) (vs_vehicleId v) = Some m \<and> fits v m"
    if "v \<in> set vehicles" for v
    using reconcile_shown [OF d that] by blast
  with reconcile_keys [OF d] show ?thesis
    unfolding Let_def list_all_iff fleet_def [symmetric] vehicles_def [symmetric] fits_def by blast
qed

text \<open>
  The selection stays on the map: after the effect that follows every change, a selected vehicle is
  one of those shown, and nothing but a hidden selection is dropped.
\<close>

lemma selection_is_shown:
  assumes "mv_selected (clear_hidden_selection vehicles s) = Some i" "i \<noteq> []"
  shows "i \<in> vs_vehicleId ` set (shown vehicles s) \<and> clear_hidden_selection vehicles s = s"
  using assms by (auto simp: clear_hidden_selection_def split: if_splits)

lemma framed_once:
  assumes "trace_effect parse pings (Some i) now framed = (cs, framed', Some box)" "i \<noteq> []"
  shows "framed \<noteq> Some i \<and> framed' = Some i
    \<and> snd (snd (trace_effect parse pings' (Some i) now' framed')) = None"
  using assms by (auto simp: trace_effect_def Let_def split: if_splits)

section \<open>Finding\<close>

text \<open>
  \<open>lerpAngle\<close> is meant to turn the shortest way. The current angle is never brought back into
  range, so it grows by 360 with every clockwise turn of a plane or ship; more than 540 degrees
  ahead of the target the dividend is negative, its remainder too, and the icon turns a full
  circle too far. Such an angle is reached with headings of a compass.
\<close>

lemma lerpAngle_full_circle: "lerpAngle (Fin 730) (Fin 10) (Fin t) = Fin (730 - 360 * t)"
proof -
  have "js_rem (- 180) 360 = - 180"
  proof -
    have "\<lceil>(- 180 :: real) / 360\<rceil> = 0" by linarith
    then show ?thesis by (simp add: js_rem_def Let_def)
  qed
  then show ?thesis by (simp add: lerpAngle_Fin)
qed

lemma lerpAngle_climbs:
  assumes "0 \<le> a" "a \<le> 540"
  shows "\<exists>b. 0 \<le> b \<and> b < 360 \<and> lerpAngle (Fin a) (Fin b) (Fin 0.16) = Fin (a + 27.2)"
proof -
  obtain k :: int where k: "a + 170 = js_rem (a + 170) 360 + 360 * of_int k"
    "0 \<le> js_rem (a + 170) 360" "js_rem (a + 170) 360 < 360"
    using js_rem_split [of "a + 170"] assms by auto
  let ?b = "js_rem (a + 170) 360"
  obtain d and j :: int where d: "lerpAngle (Fin a) (Fin ?b) (Fin 0.16) = Fin (a + d * 0.16)"
    "- 180 \<le> d" "d < 180" "?b = a + d + 360 * of_int j"
    using lerpAngle_shortest [of a ?b "0.16"] assms k by auto
  have eq: "d - 170 = 360 * of_int (- j - k)" using k d by (simp add: algebra_simps)
  have zero: "z = 0" if "e = 360 * real_of_int z" "- 360 < e" "e < 360" for e z
    using that by (cases "z \<le> - 1"; cases "1 \<le> z") auto
  have "- j - k = 0" using d(2,3) by (intro zero [OF eq]) simp_all
  with eq have "d = 170" by simp
  with d k show ?thesis by (intro exI [of _ ?b]) simp
qed

lemma heading_runs_away:
  "\<exists>bs. list_all (\<lambda>b. 0 \<le> b \<and> b < 360) bs
     \<and> foldl (\<lambda>a b. lerpAngle a (Fin b) (Fin 0.16)) (Fin 0) bs = Fin 544"
proof -
  have "n \<le> 20 \<Longrightarrow> \<exists>bs. list_all (\<lambda>b. 0 \<le> b \<and> b < 360) bs
     \<and> foldl (\<lambda>a b. lerpAngle a (Fin b) (Fin 0.16)) (Fin 0) bs = Fin (27.2 * of_nat n)" for n
  proof (induction n)
    case 0
    show ?case by (rule exI [of _ "[]"]) simp
  next
    case (Suc n)
    then obtain bs where bs: "list_all (\<lambda>b. 0 \<le> b \<and> b < 360) bs"
      "foldl (\<lambda>a b. lerpAngle a (Fin b) (Fin 0.16)) (Fin 0) bs = Fin (27.2 * of_nat n)" by auto
    have "real n \<le> 19" using Suc.prems by simp
    then have "0 \<le> 27.2 * real n" "27.2 * real n \<le> 540" by simp_all
    from lerpAngle_climbs [OF this] obtain b where
      "0 \<le> b" "b < 360" "lerpAngle (Fin (27.2 * real n)) (Fin b) (Fin 0.16) = Fin (27.2 * real n + 27.2)" by blast
    with bs show ?case by (intro exI [of _ "bs @ [b]"]) (simp add: algebra_simps)
  qed
  from this [of 20] show ?thesis by simp
qed

end
