(* ===== verification/Globe_Spin.thy ===== *)
theory Globe_Spin
  imports JS_Values
begin

text \<open>
  The rotating globe (\<open>map/globeSpin.ts\<close>) as a state machine. The map is external: its zoom and
  the longitude of its centre are arguments of the actions at which the code reads them, and the
  longitudes it is eased to are recorded. Timers are numbered as they are made.
\<close>

section \<open>Model\<close>

record SpinOptions =
  so_secondsPerRevolution :: "jsnum option"
  so_maxSpinZoom :: "jsnum option"
  so_slowSpinZoom :: "jsnum option"
  so_pauseOnInteraction :: "bool option"
  so_resumeDelayMs :: "jsnum option"

definition secondsPerRevolution :: "SpinOptions \<Rightarrow> jsnum" where
  "secondsPerRevolution opts = or_else (so_secondsPerRevolution opts) (Fin 120)"

definition maxSpinZoom :: "SpinOptions \<Rightarrow> jsnum" where
  "maxSpinZoom opts = or_else (so_maxSpinZoom opts) (Fin 5)"

definition slowSpinZoom :: "SpinOptions \<Rightarrow> jsnum" where
  "slowSpinZoom opts = or_else (so_slowSpinZoom opts) (Fin 3)"

definition pauseOnInteraction :: "SpinOptions \<Rightarrow> bool" where
  "pauseOnInteraction opts = or_else (so_pauseOnInteraction opts) True"

definition resumeDelayMs :: "SpinOptions \<Rightarrow> jsnum" where
  "resumeDelayMs opts = or_else (so_resumeDelayMs opts) (Fin 4000)"

record Spin =
  sp_enabled :: bool
  sp_interacting :: bool
  sp_resumeTimer :: "nat option"
  sp_listening :: bool
  sp_pending :: "(nat \<times> jsnum) list"
  sp_made :: nat
  sp_eases :: "jsnum list"

definition spin_new :: Spin where
  "spin_new = \<lparr>sp_enabled = False, sp_interacting = False, sp_resumeTimer = None, sp_listening = True,
     sp_pending = [], sp_made = 0, sp_eases = []\<rparr>"

definition degPerSec :: "SpinOptions \<Rightarrow> jsnum \<Rightarrow> jsnum" where
  "degPerSec opts zoom =
     (let d = js_div (Fin 360) (secondsPerRevolution opts)
      in if js_lt (slowSpinZoom opts) zoom
         then d * js_div (maxSpinZoom opts - zoom) (maxSpinZoom opts - slowSpinZoom opts) else d)"

definition spin_step :: "SpinOptions \<Rightarrow> jsnum \<Rightarrow> jsnum \<Rightarrow> Spin \<Rightarrow> Spin" where
  "spin_step opts zoom lng s =
     (if \<not> sp_enabled s \<or> sp_interacting s then s
      else if js_le (maxSpinZoom opts) zoom then s
      else s\<lparr>sp_eases := sp_eases s @ [lng - degPerSec opts zoom]\<rparr>)"

definition clear_resume :: "Spin \<Rightarrow> Spin" where
  "clear_resume s = (case sp_resumeTimer s of
      Some h \<Rightarrow> s\<lparr>sp_pending := filter (\<lambda>e. fst e \<noteq> h) (sp_pending s)\<rparr> | None \<Rightarrow> s)"

definition onInteractStart :: "SpinOptions \<Rightarrow> Spin \<Rightarrow> Spin" where
  "onInteractStart opts s =
     (if \<not> pauseOnInteraction opts then s else clear_resume (s\<lparr>sp_interacting := True\<rparr>))"

definition onInteractEnd :: "SpinOptions \<Rightarrow> Spin \<Rightarrow> Spin" where
  "onInteractEnd opts s =
     (if \<not> pauseOnInteraction opts then s
      else (let s' = clear_resume s in
        s'\<lparr>sp_resumeTimer := Some (sp_made s'), sp_made := Suc (sp_made s'),
           sp_pending := sp_pending s' @ [(sp_made s', resumeDelayMs opts)]\<rparr>))"

definition resume :: "SpinOptions \<Rightarrow> jsnum \<Rightarrow> jsnum \<Rightarrow> Spin \<Rightarrow> Spin" where
  "resume opts zoom lng s = spin_step opts zoom lng (s\<lparr>sp_interacting := False\<rparr>)"

definition wheel :: "SpinOptions \<Rightarrow> Spin \<Rightarrow> Spin" where
  "wheel opts s = onInteractEnd opts (onInteractStart opts s)"

definition spin_start :: "SpinOptions \<Rightarrow> jsnum \<Rightarrow> jsnum \<Rightarrow> Spin \<Rightarrow> Spin" where
  "spin_start opts zoom lng s = spin_step opts zoom lng (s\<lparr>sp_enabled := True\<rparr>)"

definition spin_stop :: "Spin \<Rightarrow> Spin" where
  "spin_stop s = clear_resume (s\<lparr>sp_enabled := False\<rparr>)"

definition spin_destroy :: "Spin \<Rightarrow> Spin" where
  "spin_destroy s = (clear_resume (s\<lparr>sp_enabled := False\<rparr>))\<lparr>sp_listening := False\<rparr>"

section \<open>Steps\<close>

datatype spin_action =
    Start jsnum jsnum
  | Stop
  | Destroy
  | MoveEnd jsnum jsnum
  | InteractStart
  | InteractEnd
  | Wheel
  | ResumeFires nat jsnum jsnum

text \<open>The listeners are those of the map; the wheel's is never taken off.\<close>

inductive spin_move :: "SpinOptions \<Rightarrow> Spin \<Rightarrow> spin_action \<Rightarrow> Spin \<Rightarrow> bool" for opts where
  starts: "spin_move opts s (Start zoom lng) (spin_start opts zoom lng s)"
| stops: "spin_move opts s Stop (spin_stop s)"
| destroys: "spin_move opts s Destroy (spin_destroy s)"
| moves: "sp_listening s \<Longrightarrow> spin_move opts s (MoveEnd zoom lng) (spin_step opts zoom lng s)"
| grabs: "sp_listening s \<Longrightarrow> spin_move opts s InteractStart (onInteractStart opts s)"
| releases: "sp_listening s \<Longrightarrow> spin_move opts s InteractEnd (onInteractEnd opts s)"
| wheels: "spin_move opts s Wheel (wheel opts s)"
| resumes: "(h, ms) \<in> set (sp_pending s) \<Longrightarrow>
     spin_move opts s (ResumeFires h zoom lng)
       (resume opts zoom lng (s\<lparr>sp_pending := filter (\<lambda>e. fst e \<noteq> h) (sp_pending s)\<rparr>))"

inductive spin_run :: "SpinOptions \<Rightarrow> spin_action list \<Rightarrow> Spin \<Rightarrow> bool" for opts where
  begins: "spin_run opts [] spin_new"
| continues: "spin_run opts as s \<Longrightarrow> spin_move opts s a s' \<Longrightarrow> spin_run opts (as @ [a]) s'"

inductive_cases spin_moveE: "spin_move opts s a s'"

section \<open>Timers\<close>

lemma clear_resume_fields [simp]:
  "sp_enabled (clear_resume s) = sp_enabled s" "sp_interacting (clear_resume s) = sp_interacting s"
  "sp_resumeTimer (clear_resume s) = sp_resumeTimer s" "sp_listening (clear_resume s) = sp_listening s"
  "sp_made (clear_resume s) = sp_made s" "sp_eases (clear_resume s) = sp_eases s"
  by (simp_all add: clear_resume_def split: option.split)

lemma spin_step_fields [simp]:
  "sp_enabled (spin_step opts z l s) = sp_enabled s" "sp_interacting (spin_step opts z l s) = sp_interacting s"
  "sp_resumeTimer (spin_step opts z l s) = sp_resumeTimer s" "sp_listening (spin_step opts z l s) = sp_listening s"
  "sp_made (spin_step opts z l s) = sp_made s" "sp_pending (spin_step opts z l s) = sp_pending s"
  by (simp_all add: spin_step_def)

lemmas spin_defs = onInteractStart_def onInteractEnd_def resume_def wheel_def spin_start_def
  spin_stop_def spin_destroy_def

text \<open>At most one timer is pending, and it is the one the handle names.\<close>

definition one_timer :: "Spin \<Rightarrow> bool" where
  "one_timer s \<longleftrightarrow> sp_pending s = []
     \<or> (\<exists>h ms. sp_pending s = [(h, ms)] \<and> sp_resumeTimer s = Some h)"

lemma clear_resume_pending: "one_timer s \<Longrightarrow> sp_pending (clear_resume s) = []"
  by (auto simp: one_timer_def clear_resume_def split: option.split)

lemma one_timer_upd [simp]:
  "one_timer (s\<lparr>sp_enabled := b\<rparr>) = one_timer s" "one_timer (s\<lparr>sp_interacting := b\<rparr>) = one_timer s"
  "one_timer (s\<lparr>sp_listening := b\<rparr>) = one_timer s" "one_timer (spin_step opts z l s) = one_timer s"
  by (simp_all add: one_timer_def)

lemma one_timer_clear: "one_timer s \<Longrightarrow> one_timer (clear_resume s)"
  using clear_resume_pending by (simp add: one_timer_def)

lemma one_timer_move: "spin_move opts s a s' \<Longrightarrow> one_timer s \<Longrightarrow> one_timer s'"
proof (induction rule: spin_move.induct)
  case (resumes h ms s zoom lng)
  then show ?case by (auto simp: one_timer_def resume_def)
next
  case (releases s)
  then show ?case using clear_resume_pending [of s] by (auto simp: one_timer_def onInteractEnd_def Let_def)
next
  case (wheels s)
  have "one_timer (onInteractEnd opts s)" if "one_timer s" for s
    using that clear_resume_pending [of s] by (auto simp: one_timer_def onInteractEnd_def Let_def)
  moreover have "one_timer (onInteractStart opts s)"
    using wheels by (simp add: onInteractStart_def one_timer_clear)
  ultimately show ?case by (simp add: wheel_def)
qed (simp_all add: spin_defs one_timer_clear)

lemma one_timer_run: "spin_run opts as s \<Longrightarrow> one_timer s"
proof (induction rule: spin_run.induct)
  case begins
  then show ?case by (simp add: one_timer_def spin_new_def)
qed (rule one_timer_move)

section \<open>Moving the map\<close>

text \<open>Whether the spin is switched on after a sequence of actions.\<close>

fun switched :: "bool \<Rightarrow> spin_action \<Rightarrow> bool" where
  "switched on (Start z l) = True"
| "switched on Stop = False"
| "switched on Destroy = False"
| "switched on a = on"

definition switched_on :: "spin_action list \<Rightarrow> bool" where
  "switched_on as = foldl switched False as"

lemma onInteract_fields [simp]:
  "sp_enabled (onInteractStart opts s) = sp_enabled s" "sp_enabled (onInteractEnd opts s) = sp_enabled s"
  "sp_eases (onInteractStart opts s) = sp_eases s" "sp_eases (onInteractEnd opts s) = sp_eases s"
  by (simp_all add: onInteractStart_def onInteractEnd_def Let_def)

lemma enabled_move: "spin_move opts s a s' \<Longrightarrow> sp_enabled s' = switched (sp_enabled s) a"
  by (induction rule: spin_move.induct) (simp_all add: resume_def wheel_def spin_start_def spin_stop_def spin_destroy_def)

lemma enabled_run: "spin_run opts as s \<Longrightarrow> sp_enabled s = switched_on as"
  by (induction rule: spin_run.induct) (simp_all add: spin_new_def switched_on_def enabled_move)

fun reading :: "spin_action \<Rightarrow> (jsnum \<times> jsnum) option" where
  "reading (Start z l) = Some (z, l)"
| "reading (MoveEnd z l) = Some (z, l)"
| "reading (ResumeFires h z l) = Some (z, l)"
| "reading a = None"

text \<open>
  Whether the user has hands on the globe: from the start of an interaction until the resume timer
  fires; and whether that timer is running: from the end of the last interaction, until it fires or
  another interaction, a stop or the end of the spin cancels it.
\<close>

fun grabbed :: "bool \<Rightarrow> spin_action \<Rightarrow> bool" where
  "grabbed b InteractStart = True"
| "grabbed b Wheel = True"
| "grabbed b (ResumeFires h z l) = False"
| "grabbed b a = b"

definition hands_on :: "spin_action list \<Rightarrow> bool" where
  "hands_on as = foldl grabbed False as"

fun released :: "bool \<Rightarrow> spin_action \<Rightarrow> bool" where
  "released b InteractEnd = True"
| "released b Wheel = True"
| "released b (Start z l) = b"
| "released b (MoveEnd z l) = b"
| "released b a = False"

definition waiting :: "spin_action list \<Rightarrow> bool" where
  "waiting as = foldl released False as"

lemma interacting_move:
  "spin_move opts s a s' \<Longrightarrow> sp_interacting s = (pauseOnInteraction opts \<and> b) \<Longrightarrow>
     sp_interacting s' = (pauseOnInteraction opts \<and> grabbed b a)"
  by (induction rule: spin_move.induct) (auto simp: spin_defs Let_def)

lemma interacting_run: "spin_run opts as s \<Longrightarrow> sp_interacting s = (pauseOnInteraction opts \<and> hands_on as)"
proof (induction rule: spin_run.induct)
  case begins
  then show ?case by (simp add: spin_new_def hands_on_def)
next
  case (continues as s a s')
  from interacting_move [OF continues(2,3)] show ?case by (simp add: hands_on_def)
qed

lemma timer_move:
  assumes "spin_move opts s a s'" "one_timer s"
    "map snd (sp_pending s) = (if pauseOnInteraction opts \<and> b then [resumeDelayMs opts] else [])"
  shows "map snd (sp_pending s') = (if pauseOnInteraction opts \<and> released b a then [resumeDelayMs opts] else [])"
  using assms
proof (induction rule: spin_move.induct)
  case (resumes h ms s zoom lng)
  then show ?case by (auto simp: one_timer_def resume_def)
next
  case (wheels s)
  have "one_timer (clear_resume (s\<lparr>sp_interacting := True\<rparr>))" using wheels(1) by (simp add: one_timer_clear)
  with wheels show ?case by (auto simp: wheel_def onInteractStart_def onInteractEnd_def Let_def clear_resume_pending)
qed (auto simp: spin_defs Let_def clear_resume_pending split: if_splits)

lemma timer_run:
  "spin_run opts as s \<Longrightarrow> map snd (sp_pending s) = (if pauseOnInteraction opts \<and> waiting as then [resumeDelayMs opts] else [])"
proof (induction rule: spin_run.induct)
  case begins
  then show ?case by (simp add: spin_new_def waiting_def)
next
  case (continues as s a s')
  from timer_move [OF continues(2) one_timer_run [OF continues(1)] continues(3)] show ?case by (simp add: waiting_def)
qed

lemma eases_move:
  "spin_move opts s a s' \<Longrightarrow>
     sp_eases s' = sp_eases s @ (case reading a of
         Some (z, l) \<Rightarrow> if sp_enabled s' \<and> \<not> sp_interacting s' \<and> \<not> js_le (maxSpinZoom opts) z then [l - degPerSec opts z] else []
       | None \<Rightarrow> [])"
  by (induction rule: spin_move.induct)
    (auto simp: resume_def wheel_def spin_start_def spin_stop_def spin_destroy_def spin_step_def)

text \<open>With finite options in their order the speed is positive and at most one revolution per period.\<close>

lemma degPerSec_bounds:
  assumes "secondsPerRevolution opts = Fin spr" "0 < spr" "maxSpinZoom opts = Fin mx" "slowSpinZoom opts = Fin sl"
    "sl < mx" "\<not> js_le (Fin mx) (Fin z)"
  shows "\<exists>d. degPerSec opts (Fin z) = Fin d \<and> 0 < d \<and> d \<le> 360 / spr"
proof (cases "sl < z")
  case True
  have r: "0 < (mx - z) / (mx - sl)" "(mx - z) / (mx - sl) \<le> 1" using assms True by (simp_all add: field_simps)
  have "360 / spr * ((mx - z) / (mx - sl)) \<le> 360 / spr * 1"
    using assms(2) r(2) by (intro mult_left_mono) simp_all
  moreover have "0 < 360 / spr * ((mx - z) / (mx - sl))" using assms(2) r(1) by (intro mult_pos_pos) simp_all
  ultimately show ?thesis using assms True by (simp add: degPerSec_def Let_def)
next
  case False
  then show ?thesis using assms by (simp add: degPerSec_def Let_def)
qed

section \<open>Properties\<close>

text \<open>
  C31. The spin never fights the user and stops when told to. Over any run, an action moves the map
  at most once, and it does so exactly when it reads the map's position, the last of start, stop and
  destroy was a start, the user does not have hands on the globe (unless interactions are not to
  pause it), and the zoom read is below the limit. A resume timer, one only and with the configured
  delay, is running exactly when an interaction ended since which nothing cancelled it. With finite
  options in their order, each move is to the west, by at most one second's share of a revolution.
\<close>

theorem spin_moves_when_free:
  assumes "spin_run opts as s" "spin_move opts s a s'"
  shows "sp_eases s' = sp_eases s @ (case reading a of
        Some (z, l) \<Rightarrow>
          if switched_on (as @ [a]) \<and> \<not> (pauseOnInteraction opts \<and> hands_on (as @ [a])) \<and> \<not> js_le (maxSpinZoom opts) z
          then [l - degPerSec opts z] else []
      | None \<Rightarrow> [])
    \<and> map snd (sp_pending s') = (if pauseOnInteraction opts \<and> waiting (as @ [a]) then [resumeDelayMs opts] else [])
    \<and> (case (secondsPerRevolution opts, maxSpinZoom opts, slowSpinZoom opts, reading a) of
          (Fin spr, Fin mx, Fin sl, Some (Fin z, l)) \<Rightarrow>
            if 0 < spr \<and> sl < mx \<and> z < mx then \<exists>d. degPerSec opts (Fin z) = Fin d \<and> 0 < d \<and> d \<le> 360 / spr else True
        | _ \<Rightarrow> True)"
proof -
  have run: "spin_run opts (as @ [a]) s'" using assms by (rule continues)
  have speed: "case (secondsPerRevolution opts, maxSpinZoom opts, slowSpinZoom opts, reading a) of
          (Fin spr, Fin mx, Fin sl, Some (Fin z, l)) \<Rightarrow>
            if 0 < spr \<and> sl < mx \<and> z < mx then \<exists>d. degPerSec opts (Fin z) = Fin d \<and> 0 < d \<and> d \<le> 360 / spr else True
        | _ \<Rightarrow> True"
    using degPerSec_bounds [of opts] by (auto split: jsnum.split option.split)
  show ?thesis
    using eases_move [OF assms(2)] timer_run [OF run] speed
    by (simp only: enabled_run [OF run] interacting_run [OF run] simp_thms)
qed

definition plain_spin :: SpinOptions where
  "plain_spin = \<lparr>so_secondsPerRevolution = None, so_maxSpinZoom = None, so_slowSpinZoom = None,
     so_pauseOnInteraction = None, so_resumeDelayMs = None\<rparr>"

lemma plain_spin_options [simp]:
  "secondsPerRevolution plain_spin = Fin 120" "maxSpinZoom plain_spin = Fin 5"
  "slowSpinZoom plain_spin = Fin 3" "pauseOnInteraction plain_spin"
  "resumeDelayMs plain_spin = Fin 4000"
  by (simp_all add: plain_spin_def secondsPerRevolution_def maxSpinZoom_def slowSpinZoom_def pauseOnInteraction_def
      resumeDelayMs_def)

theorem spin_moves_when_free_witness:
  "\<exists>s s'. spin_move plain_spin s InteractEnd s' \<and> sp_eases s' = [Fin 8.5] \<and> map snd (sp_pending s') = [Fin 4000]"
proof -
  let ?s1 = "spin_start plain_spin (Fin 4) (Fin 10) spin_new"
  let ?s2 = "onInteractStart plain_spin ?s1"
  let ?s3 = "onInteractEnd plain_spin ?s2"
  have l: "sp_listening ?s1" "sp_listening ?s2"
    by (simp_all add: spin_start_def spin_new_def onInteractStart_def)
  have m1: "spin_move plain_spin spin_new (Start (Fin 4) (Fin 10)) ?s1" by (rule starts)
  have m2: "spin_move plain_spin ?s1 InteractStart ?s2" by (rule grabs [OF l(1)])
  have m3: "spin_move plain_spin ?s2 InteractEnd ?s3" by (rule releases [OF l(2)])
  have r2: "spin_run plain_spin [Start (Fin 4) (Fin 10), InteractStart] ?s2"
    using continues [OF continues [OF begins m1] m2] by simp
  have "sp_eases ?s2 = [Fin 8.5]"
    by (simp add: spin_start_def spin_step_def spin_new_def degPerSec_def Let_def)
  with spin_moves_when_free [OF r2 m3]
  have "sp_eases ?s3 = [Fin 8.5] \<and> map snd (sp_pending ?s3) = [Fin 4000]"
    by (simp add: waiting_def)
  with m3 show ?thesis by (intro exI [of _ ?s2] exI [of _ ?s3]) simp
qed

section \<open>Findings\<close>

text \<open>
  Stopping cancels the resume timer but leaves the spin marked as interacting: started again, it
  stands still, and every \<open>moveend\<close> leaves it so, until the next interaction ends.
\<close>

lemma restart_stands_still:
  "\<exists>s. spin_run plain_spin [Start (Fin 2) (Fin 0), InteractStart, InteractEnd, Stop, Start (Fin 2) (Fin 0)] s
     \<and> sp_enabled s \<and> sp_interacting s \<and> sp_pending s = []
     \<and> spin_step plain_spin zoom lng s = s"
proof -
  let ?o = plain_spin
  let ?s1 = "spin_start ?o (Fin 2) (Fin 0) spin_new"
  let ?s2 = "onInteractStart ?o ?s1"
  let ?s3 = "onInteractEnd ?o ?s2"
  let ?s4 = "spin_stop ?s3"
  let ?s5 = "spin_start ?o (Fin 2) (Fin 0) ?s4"
  have l: "sp_listening ?s1" "sp_listening ?s2"
    by (simp_all add: spin_start_def spin_new_def onInteractStart_def)
  have "spin_run ?o ([] @ [Start (Fin 2) (Fin 0)]) ?s1" by (rule continues [OF begins starts])
  then have "spin_run ?o (([] @ [Start (Fin 2) (Fin 0)]) @ [InteractStart]) ?s2"
    by (rule continues) (rule grabs [OF l(1)])
  then have "spin_run ?o ((([] @ [Start (Fin 2) (Fin 0)]) @ [InteractStart]) @ [InteractEnd]) ?s3"
    by (rule continues) (rule releases [OF l(2)])
  then have "spin_run ?o (((([] @ [Start (Fin 2) (Fin 0)]) @ [InteractStart]) @ [InteractEnd]) @ [Stop]) ?s4"
    by (rule continues) (rule stops)
  then have "spin_run ?o ((((([] @ [Start (Fin 2) (Fin 0)]) @ [InteractStart]) @ [InteractEnd]) @ [Stop]) @ [Start (Fin 2) (Fin 0)]) ?s5"
    by (rule continues) (rule starts)
  then have run: "spin_run ?o [Start (Fin 2) (Fin 0), InteractStart, InteractEnd, Stop, Start (Fin 2) (Fin 0)] ?s5"
    by (simp only: append_Nil append_Cons)
  have "sp_interacting ?s5" "sp_enabled ?s5"
    by (simp_all add: spin_start_def spin_stop_def onInteractEnd_def onInteractStart_def Let_def)
  moreover have "sp_pending ?s5 = []"
  proof -
    have "one_timer ?s3"
      using \<open>spin_run ?o ((([] @ [Start (Fin 2) (Fin 0)]) @ [InteractStart]) @ [InteractEnd]) ?s3\<close> by (rule one_timer_run)
    then show ?thesis by (simp add: spin_start_def spin_stop_def clear_resume_pending)
  qed
  ultimately show ?thesis using run by (intro exI [of _ ?s5]) (simp add: spin_step_def)
qed

text \<open>
  The option's comment says to use infinity to spin at every zoom. Above the slow zoom the easing
  factor is then a quotient of infinities, and the map is eased to no longitude at all.
\<close>

lemma endless_spin_breaks:
  assumes "maxSpinZoom opts = PInf" "slowSpinZoom opts = Fin sl" "sl < z"
    "sp_enabled s" "\<not> sp_interacting s"
  shows "sp_eases (spin_step opts (Fin z) (Fin l) s) = sp_eases s @ [NaN]"
  using assms
  by (cases "js_div (Fin 360) (secondsPerRevolution opts)")
    (auto simp: spin_step_def degPerSec_def Let_def js_le_def js_eq_def minus_jsnum_def)

end
