(* ===== verification/Socket_Client.thy ===== *)
theory Socket_Client
  imports Json Bytes Contracts
begin

text \<open>
  The dashboard's reconnecting stream client (\<open>realtime/socketClient.ts\<close>) as a state machine.
  Its inputs are the calls of the application, the callbacks of the current transport and its
  timer; its outputs are recorded in a log in the order in which the code produces them.

  Transports and timers are numbered in the order of their creation. A torn-down transport has
  its callbacks removed, so only the current one calls back. A timer fires at most once, and
  not after it was cleared. Opening a transport succeeds. Listeners are named by numbers, and
  do not call the client back from within a notification.
\<close>

section \<open>Model\<close>

datatype ConnectionState = Connecting | Connected | Reconnecting | Disconnected

record SocketClientOptions =
  opt_url :: string
  opt_token :: "string option"
  opt_backoff :: "nat list option"
  opt_autoConnect :: "bool option"

definition DEFAULT_BACKOFF :: "nat list" where
  "DEFAULT_BACKOFF = [500, 1000, 2000, 5000, 10000]"

definition backoff_schedule :: "SocketClientOptions \<Rightarrow> nat list" where
  "backoff_schedule opts = or_else (opt_backoff opts) DEFAULT_BACKOFF"

text \<open>A delay of \<open>None\<close> is \<open>undefined\<close>: the entry read from an empty schedule.\<close>

datatype effect =
    OpenTransport nat string
  | SendFrame nat string
  | CloseTransport nat
  | SetTimer nat "nat option"
  | ClearTimer nat
  | NotifyState nat ConnectionState
  | Deliver nat SocketEvent jsval

record SocketState =
  sk_transport :: "nat option"
  sk_state :: ConnectionState
  sk_attempt :: nat
  sk_reconnectHandle :: "nat option"
  sk_closedByUser :: bool
  sk_subscriptions :: "(string, SubscribePayload) jsmap"
  sk_stateListeners :: "nat list"
  sk_eventListeners :: "SocketEvent \<Rightarrow> nat list"
  sk_pending :: "nat list"
  sk_made :: nat
  sk_log :: "effect list"

definition subKey :: "SubscribePayload \<Rightarrow> string" where
  "subKey p = subscription_kind_wire (sub_kind p) @ '':'' @ sub_id p"

definition emit_effect :: "effect \<Rightarrow> SocketState \<Rightarrow> SocketState" where
  "emit_effect e s = s\<lparr>sk_log := sk_log s @ [e]\<rparr>"

text \<open>\<open>JSON.stringify({ event, payload })\<close>; the payload has no numbers.\<close>

definition client_frame :: "SocketEvent \<Rightarrow> SubscribePayload \<Rightarrow> jsval" where
  "client_frame ev p = Obj [(''event'', Str (socket_event_wire ev)),
     (''payload'', Obj [(''kind'', Str (subscription_kind_wire (sub_kind p))), (''id'', Str (sub_id p))])]"

definition emit_event :: "SocketEvent \<Rightarrow> SubscribePayload \<Rightarrow> SocketState \<Rightarrow> SocketState" where
  "emit_event ev p s = (case sk_transport s of
      None \<Rightarrow> s
    | Some t \<Rightarrow> emit_effect (SendFrame t (json_text (\<lambda>_. []) (client_frame ev p))) s)"

definition setState :: "ConnectionState \<Rightarrow> SocketState \<Rightarrow> SocketState" where
  "setState c s = (if sk_state s = c then s
     else fold (\<lambda>fn. emit_effect (NotifyState fn c)) (sk_stateListeners s) (s\<lparr>sk_state := c\<rparr>))"

definition uri_unreserved :: "char \<Rightarrow> bool" where
  "uri_unreserved c \<longleftrightarrow> (let n = char_code c in
     65 \<le> n \<and> n \<le> 90 \<or> 97 \<le> n \<and> n \<le> 122 \<or> 48 \<le> n \<and> n \<le> 57 \<or> c \<in> set ''-_.!~*()'' \<or> n = 39)"

definition upper_hex :: "byte \<Rightarrow> char" where
  "upper_hex b = (let n = unat b in if n < 10 then char_of (48 + n) else char_of (55 + n))"

definition encodeURIComponent :: "string \<Rightarrow> string" where
  "encodeURIComponent s = concat (map (\<lambda>c. if uri_unreserved c then [c]
     else concat (map (\<lambda>b. [CHR ''%'', upper_hex (drop_bit 4 b), upper_hex (b AND 0x0F)]) (utf8_char c))) s)"

definition socket_url :: "SocketClientOptions \<Rightarrow> string" where
  "socket_url opts = (if truthy (opt_token opts)
     then opt_url opts @ (if str_includes (opt_url opts) ''?'' then ''&'' else ''?'') @ ''token=''
       @ encodeURIComponent (or_else (opt_token opts) [])
     else opt_url opts)"

definition connect :: "SocketClientOptions \<Rightarrow> SocketState \<Rightarrow> SocketState" where
  "connect opts s =
     (let s1 = s\<lparr>sk_closedByUser := False\<rparr>
      in if sk_transport s1 \<noteq> None then s1
         else let s2 = setState (if sk_attempt s1 = 0 then Connecting else Reconnecting) s1;
                  t = sk_made s2
              in (emit_effect (OpenTransport t (socket_url opts)) s2)\<lparr>sk_transport := Some t, sk_made := Suc t\<rparr>)"

text \<open>The callbacks of the transport.\<close>

definition on_open :: "SocketState \<Rightarrow> SocketState" where
  "on_open s = (let s1 = setState Connected (s\<lparr>sk_attempt := 0\<rparr>)
     in fold (\<lambda>sub. emit_event EvSubscribe sub) (map_values (sk_subscriptions s1)) s1)"

definition teardownTransport :: "SocketState \<Rightarrow> SocketState" where
  "teardownTransport s = (case sk_transport s of
      None \<Rightarrow> s
    | Some t \<Rightarrow> (emit_effect (CloseTransport t) s)\<lparr>sk_transport := None\<rparr>)"

definition cancelReconnect :: "SocketState \<Rightarrow> SocketState" where
  "cancelReconnect s = (case sk_reconnectHandle s of
      None \<Rightarrow> s
    | Some h \<Rightarrow> (emit_effect (ClearTimer h) s)\<lparr>sk_pending := removeAll h (sk_pending s), sk_reconnectHandle := None\<rparr>)"

definition backoff_delay :: "nat list \<Rightarrow> nat \<Rightarrow> nat option" where
  "backoff_delay schedule n = (if schedule = [] then None else Some (schedule ! min n (length schedule - 1)))"

definition handleClose :: "SocketClientOptions \<Rightarrow> SocketState \<Rightarrow> SocketState" where
  "handleClose opts s =
     (let s1 = teardownTransport s
      in if sk_closedByUser s1 then setState Disconnected s1
         else let s2 = setState Reconnecting s1;
                  delay = backoff_delay (backoff_schedule opts) (sk_attempt s2);
                  h = sk_made s2
              in (emit_effect (SetTimer h delay) s2)\<lparr>sk_attempt := Suc (sk_attempt s2), sk_made := Suc h,
                   sk_pending := sk_pending s2 @ [h], sk_reconnectHandle := Some h\<rparr>)"

definition timer_fires :: "SocketClientOptions \<Rightarrow> SocketState \<Rightarrow> SocketState" where
  "timer_fires opts s = connect opts (s\<lparr>sk_reconnectHandle := None\<rparr>)"

definition disconnect :: "SocketState \<Rightarrow> SocketState" where
  "disconnect s = setState Disconnected (teardownTransport (cancelReconnect (s\<lparr>sk_closedByUser := True\<rparr>)))"

definition subscribe :: "SubscriptionKind \<Rightarrow> string \<Rightarrow> SocketState \<Rightarrow> SocketState" where
  "subscribe kind i s =
     (let payload = \<lparr>sub_kind = kind, sub_id = i\<rparr>;
          s1 = s\<lparr>sk_subscriptions := map_set (subKey payload) payload (sk_subscriptions s)\<rparr>
      in if sk_state s1 = Connected then emit_event EvSubscribe payload s1 else s1)"

definition unsubscribe :: "SubscriptionKind \<Rightarrow> string \<Rightarrow> SocketState \<Rightarrow> SocketState" where
  "unsubscribe kind i s =
     (let payload = \<lparr>sub_kind = kind, sub_id = i\<rparr>;
          s1 = s\<lparr>sk_subscriptions := map_del (subKey payload) (sk_subscriptions s)\<rparr>
      in if sk_state s1 = Connected then emit_event EvUnsubscribe payload s1 else s1)"

definition activeSubscriptions :: "SocketState \<Rightarrow> string list" where
  "activeSubscriptions s = map_keys (sk_subscriptions s)"

definition add_listener :: "nat \<Rightarrow> nat list \<Rightarrow> nat list" where
  "add_listener fn fns = (if fn \<in> set fns then fns else fns @ [fn])"

definition onStateChange :: "nat \<Rightarrow> SocketState \<Rightarrow> SocketState" where
  "onStateChange fn s =
     emit_effect (NotifyState fn (sk_state s)) (s\<lparr>sk_stateListeners := add_listener fn (sk_stateListeners s)\<rparr>)"

definition offStateChange :: "nat \<Rightarrow> SocketState \<Rightarrow> SocketState" where
  "offStateChange fn s = s\<lparr>sk_stateListeners := removeAll fn (sk_stateListeners s)\<rparr>"

definition on_event :: "SocketEvent \<Rightarrow> nat \<Rightarrow> SocketState \<Rightarrow> SocketState" where
  "on_event ev fn s =
     s\<lparr>sk_eventListeners := (sk_eventListeners s)(ev := add_listener fn (sk_eventListeners s ev))\<rparr>"

definition off_event :: "SocketEvent \<Rightarrow> nat \<Rightarrow> SocketState \<Rightarrow> SocketState" where
  "off_event ev fn s =
     s\<lparr>sk_eventListeners := (sk_eventListeners s)(ev := removeAll fn (sk_eventListeners s ev))\<rparr>"

definition server_event :: "jsval \<Rightarrow> SocketEvent option" where
  "server_event v =
     (if v = Str (socket_event_wire EvPosition) then Some EvPosition
      else if v = Str (socket_event_wire EvZoneEvent) then Some EvZoneEvent
      else if v = Str (socket_event_wire EvAssignment) then Some EvAssignment
      else if v = Str (socket_event_wire EvRouteUpdate) then Some EvRouteUpdate else None)"

definition handleMessage :: "jsval \<Rightarrow> (SocketState, exn, unit) svc" where
  "handleMessage raw = (case raw of
      Str text \<Rightarrow> (case json_parse text of
          None \<Rightarrow> sret ()
        | Some parsed \<Rightarrow> (case (js_prop parsed ''event'', js_prop parsed ''payload'') of
            (Some event, Some payload) \<Rightarrow>
              if payload = Undefined \<or> payload = Null then sret ()
              else (case server_event event of
                  None \<Rightarrow> sret ()
                | Some ev \<Rightarrow> sbind (sget (\<lambda>s. sk_eventListeners s ev)) (\<lambda>fns.
                    smodify (\<lambda>s. fold (\<lambda>fn. emit_effect (Deliver fn ev payload)) fns s)))
          | _ \<Rightarrow> sthrow (External ''TypeError'')))
    | _ \<Rightarrow> sret ())"

definition socket_initial :: SocketState where
  "socket_initial = \<lparr>sk_transport = None, sk_state = Connecting, sk_attempt = 0, sk_reconnectHandle = None,
     sk_closedByUser = False, sk_subscriptions = [], sk_stateListeners = [], sk_eventListeners = (\<lambda>_. []),
     sk_pending = [], sk_made = 0, sk_log = []\<rparr>"

definition socket_new :: "SocketClientOptions \<Rightarrow> SocketState" where
  "socket_new opts = (if or_else (opt_autoConnect opts) True then connect opts socket_initial else socket_initial)"

section \<open>Steps\<close>

datatype action =
    UserConnect
  | UserDisconnect
  | Subscribe SubscriptionKind string
  | Unsubscribe SubscriptionKind string
  | OnStateChange nat
  | OffStateChange nat
  | On SocketEvent nat
  | Off SocketEvent nat
  | TransportOpens
  | TransportCloses
  | TransportMessage jsval
  | TimerFires nat

text \<open>
  What can happen in a state: any call; an open callback of the current transport while it is
  not open yet; a close or a message of the current transport; a pending timer.
\<close>

inductive socket_step :: "SocketClientOptions \<Rightarrow> SocketState \<Rightarrow> action \<Rightarrow> SocketState \<Rightarrow> bool" for opts where
  connects: "socket_step opts s UserConnect (connect opts s)"
| disconnects: "socket_step opts s UserDisconnect (disconnect s)"
| subscribes: "socket_step opts s (Subscribe kind i) (subscribe kind i s)"
| unsubscribes: "socket_step opts s (Unsubscribe kind i) (unsubscribe kind i s)"
| listens: "socket_step opts s (OnStateChange fn) (onStateChange fn s)"
| unlistens: "socket_step opts s (OffStateChange fn) (offStateChange fn s)"
| hears: "socket_step opts s (On ev fn) (on_event ev fn s)"
| ignores: "socket_step opts s (Off ev fn) (off_event ev fn s)"
| opens: "sk_transport s = Some t \<Longrightarrow> sk_state s \<noteq> Connected \<Longrightarrow> socket_step opts s TransportOpens (on_open s)"
| closes: "sk_transport s = Some t \<Longrightarrow> socket_step opts s TransportCloses (handleClose opts s)"
| receives: "sk_transport s = Some t \<Longrightarrow> socket_step opts s (TransportMessage raw) (snd (handleMessage raw s))"
| fires: "h \<in> set (sk_pending s) \<Longrightarrow>
     socket_step opts s (TimerFires h) (timer_fires opts (s\<lparr>sk_pending := removeAll h (sk_pending s)\<rparr>))"

inductive socket_run :: "SocketClientOptions \<Rightarrow> action list \<Rightarrow> SocketState \<Rightarrow> bool" for opts where
  start: "socket_run opts [] (socket_new opts)"
| more: "socket_run opts as s \<Longrightarrow> socket_step opts s a s' \<Longrightarrow> socket_run opts (as @ [a]) s'"

inductive_cases socket_stepE: "socket_step opts s a s'"

section \<open>Frames\<close>

text \<open>How the server reads a frame: a subscribe or unsubscribe request, or nothing.\<close>

definition kind_of :: "string \<Rightarrow> SubscriptionKind option" where
  "kind_of w = (if w = subscription_kind_wire KVehicle then Some KVehicle
     else if w = subscription_kind_wire KDelivery then Some KDelivery else None)"

definition read_frame :: "string \<Rightarrow> (bool \<times> SubscribePayload) option" where
  "read_frame text = (case json_parse text of
      Some (Obj [(a, Str ev), (b, Obj [(c, Str k), (d, Str i)])]) \<Rightarrow>
        if a = ''event'' \<and> b = ''payload'' \<and> c = ''kind'' \<and> d = ''id''
          \<and> ev \<in> {socket_event_wire EvSubscribe, socket_event_wire EvUnsubscribe}
        then map_option (\<lambda>kd. (ev = socket_event_wire EvSubscribe, \<lparr>sub_kind = kd, sub_id = i\<rparr>)) (kind_of k)
        else None
    | _ \<Rightarrow> None)"

lemma kind_of_wire [simp]: "kind_of (subscription_kind_wire k) = Some k"
  by (cases k) (simp_all add: kind_of_def)

lemma client_frame_plain: "json_plain f (client_frame ev p)"
  by (simp add: client_frame_def)

lemma read_client_frame:
  "read_frame (json_text f (client_frame EvSubscribe p)) = Some (True, p)"
  "read_frame (json_text f (client_frame EvUnsubscribe p)) = Some (False, p)"
  unfolding read_frame_def json_parse_text [OF client_frame_plain]
  by (simp_all add: client_frame_def)

text \<open>The rooms of a transport, from the frames sent on it.\<close>

fun room_step :: "nat \<Rightarrow> string set \<Rightarrow> effect \<Rightarrow> string set" where
  "room_step t R (SendFrame t' text) =
     (if t' \<noteq> t then R
      else case read_frame text of
          Some (sub, p) \<Rightarrow> if sub then insert (subKey p) R else R - {subKey p}
        | None \<Rightarrow> R)"
| "room_step t R e = R"

definition rooms :: "nat \<Rightarrow> effect list \<Rightarrow> string set" where
  "rooms t es = foldl (room_step t) {} es"

lemma rooms_snoc [simp]: "rooms t (es @ [e]) = room_step t (rooms t es) e"
  by (simp add: rooms_def)

lemma subKey_inj: "subKey p = subKey q \<Longrightarrow> p = q"
proof -
  assume "subKey p = subKey q"
  then have "sub_kind p = sub_kind q \<and> sub_id p = sub_id q"
    by (cases "sub_kind p"; cases "sub_kind q") (simp_all add: subKey_def)
  then show "p = q" by simp
qed

section \<open>What each operation changes\<close>

lemma notify_fold:
  "fold (\<lambda>fn. emit_effect (NotifyState fn c)) fns s
     = s\<lparr>sk_log := sk_log s @ map (\<lambda>fn. NotifyState fn c) fns\<rparr>"
  by (induction fns arbitrary: s) (simp_all add: emit_effect_def)

lemma deliver_fold:
  "fold (\<lambda>fn. emit_effect (Deliver fn ev p)) fns s
     = s\<lparr>sk_log := sk_log s @ map (\<lambda>fn. Deliver fn ev p) fns\<rparr>"
  by (induction fns arbitrary: s) (simp_all add: emit_effect_def)

lemma setState_eq:
  "setState c s = s\<lparr>sk_state := c,
     sk_log := sk_log s @ (if sk_state s = c then [] else map (\<lambda>fn. NotifyState fn c) (sk_stateListeners s))\<rparr>"
  by (auto simp: setState_def notify_fold)

lemma emit_event_eq:
  "emit_event ev p s = s\<lparr>sk_log := sk_log s @ (case sk_transport s of None \<Rightarrow> []
     | Some t \<Rightarrow> [SendFrame t (json_text (\<lambda>_. []) (client_frame ev p))])\<rparr>"
  by (simp add: emit_event_def emit_effect_def split: option.split)

lemma replay_fold:
  "fold (\<lambda>p. emit_event EvSubscribe p) ps s = s\<lparr>sk_log := sk_log s @ (case sk_transport s of None \<Rightarrow> []
     | Some t \<Rightarrow> map (\<lambda>p. SendFrame t (json_text (\<lambda>_. []) (client_frame EvSubscribe p))) ps)\<rparr>"
  by (induction ps arbitrary: s) (simp_all add: emit_event_eq split: option.split)

lemma rooms_quiet:
  "\<forall>e \<in> set es. (\<forall>txt. e \<noteq> SendFrame t txt) \<Longrightarrow> foldl (room_step t) R es = R"
proof (induction es arbitrary: R)
  case (Cons e es)
  then show ?case by (cases e) auto
qed simp

lemma rooms_append: "rooms t (es @ fs) = foldl (room_step t) (rooms t es) fs"
  by (simp add: rooms_def)

lemma rooms_replay:
  "foldl (room_step t) R (map (\<lambda>p. SendFrame t (json_text f (client_frame EvSubscribe p))) ps) = R \<union> subKey ` set ps"
  by (induction ps arbitrary: R) (auto simp: read_client_frame)

definition keyed_subs :: "(string, SubscribePayload) jsmap \<Rightarrow> bool" where
  "keyed_subs m \<longleftrightarrow> (\<forall>p \<in> set m. fst p = subKey (snd p))"

lemma keyed_subs_keys: "keyed_subs m \<Longrightarrow> subKey ` set (map_values m) = set (map_keys m)"
  by (force simp: keyed_subs_def)

lemma keyed_subs_set: "keyed_subs m \<Longrightarrow> keyed_subs (map_set (subKey p) p m)"
  unfolding keyed_subs_def by (induction m) auto

lemma keyed_subs_del: "keyed_subs m \<Longrightarrow> keyed_subs (map_del k m)"
  by (simp add: keyed_subs_def)

lemma keys_map_set: "set (map_keys (map_set k v m)) = insert k (set (map_keys m))"
  by (induction m) auto

lemma keys_map_del: "set (map_keys (map_del k m)) = set (map_keys m) - {k}"
  by (induction m) auto

text \<open>No frame was sent yet on a transport that is not made yet.\<close>

definition fresh_sends :: "nat \<Rightarrow> effect list \<Rightarrow> bool" where
  "fresh_sends n es \<longleftrightarrow> (\<forall>t txt. SendFrame t txt \<in> set es \<longrightarrow> t < n)"

lemma fresh_rooms: "fresh_sends t es \<Longrightarrow> rooms t es = {}"
  unfolding rooms_def by (rule rooms_quiet) (auto simp: fresh_sends_def)

section \<open>The invariant\<close>

text \<open>
  While the client is connected, the current transport has been sent exactly the frames that
  leave the server with the client's subscriptions; before it is open, none.
\<close>

definition in_sync :: "SocketState \<Rightarrow> bool" where
  "in_sync s \<longleftrightarrow> (case sk_transport s of
      None \<Rightarrow> sk_state s \<noteq> Connected
    | Some t \<Rightarrow> t < sk_made s \<and> sk_state s \<noteq> Disconnected \<and>
        rooms t (sk_log s) = (if sk_state s = Connected then set (map_keys (sk_subscriptions s)) else {}))"

definition sound :: "SocketState \<Rightarrow> bool" where
  "sound s \<longleftrightarrow> in_sync s \<and> keyed_subs (sk_subscriptions s) \<and> fresh_sends (sk_made s) (sk_log s)"

lemmas socket_defs = connect_def on_open_def handleClose_def disconnect_def cancelReconnect_def
  teardownTransport_def timer_fires_def subscribe_def unsubscribe_def onStateChange_def offStateChange_def
  on_event_def off_event_def setState_eq emit_effect_def emit_event_eq replay_fold Let_def

definition plain_options :: SocketClientOptions where
  "plain_options = \<lparr>opt_url = ''ws://h/s'', opt_token = None, opt_backoff = None, opt_autoConnect = None\<rparr>"

text \<open>The fields that matter for what can happen next.\<close>

lemma on_open_fields [simp]:
  "sk_transport (on_open s) = sk_transport s" "sk_state (on_open s) = Connected"
  "sk_pending (on_open s) = sk_pending s" "sk_made (on_open s) = sk_made s" "sk_closedByUser (on_open s) = sk_closedByUser s"
  by (simp_all add: socket_defs)

lemma subscribe_fields [simp]:
  "sk_transport (subscribe k i s) = sk_transport s" "sk_state (subscribe k i s) = sk_state s"
  "sk_pending (subscribe k i s) = sk_pending s" "sk_made (subscribe k i s) = sk_made s"
  "sk_closedByUser (subscribe k i s) = sk_closedByUser s"
  by (simp_all add: socket_defs)

lemma connect_fields [simp]:
  "sk_transport (connect opts s) = (case sk_transport s of None \<Rightarrow> Some (sk_made s) | Some t \<Rightarrow> Some t)"
  "sk_pending (connect opts s) = sk_pending s" "\<not> sk_closedByUser (connect opts s)"
  "sk_made (connect opts s) = (case sk_transport s of None \<Rightarrow> Suc (sk_made s) | Some t \<Rightarrow> sk_made s)"
  "sk_state (connect opts s) = (case sk_transport s of
     None \<Rightarrow> if sk_attempt s = 0 then Connecting else Reconnecting | Some t \<Rightarrow> sk_state s)"
  by (simp_all add: socket_defs split: option.split)

lemma handleClose_fields [simp]:
  "sk_transport (handleClose opts s) = None" "sk_attempt (handleClose opts s) = (if sk_closedByUser s then sk_attempt s else Suc (sk_attempt s))"
  "sk_pending (handleClose opts s) = (if sk_closedByUser s then sk_pending s else sk_pending s @ [sk_made s])"
  "sk_made (handleClose opts s) = (if sk_closedByUser s then sk_made s else Suc (sk_made s))"
  "sk_reconnectHandle (handleClose opts s) = (if sk_closedByUser s then sk_reconnectHandle s else Some (sk_made s))"
  by (simp_all add: socket_defs split: option.split)

lemma disconnect_fields [simp]:
  "sk_transport (disconnect s) = None" "sk_state (disconnect s) = Disconnected"
  "sk_pending (disconnect s) = (case sk_reconnectHandle s of None \<Rightarrow> sk_pending s | Some h \<Rightarrow> removeAll h (sk_pending s))"
  by (simp_all add: socket_defs split: option.split)

lemma timer_fires_fields [simp]:
  "sk_transport (timer_fires opts s) = (case sk_transport s of None \<Rightarrow> Some (sk_made s) | Some t \<Rightarrow> Some t)"
  "\<not> sk_closedByUser (timer_fires opts s)"
  "sk_state (timer_fires opts s) = (case sk_transport s of
     None \<Rightarrow> if sk_attempt s = 0 then Connecting else Reconnecting | Some t \<Rightarrow> sk_state s)"
  by (simp_all add: timer_fires_def split: option.split)

lemma socket_new_fields [simp]:
  "sk_transport (socket_new plain_options) = Some 0" "sk_state (socket_new plain_options) = Connecting"
  "sk_pending (socket_new plain_options) = []" "sk_made (socket_new plain_options) = 1"
  "\<not> sk_closedByUser (socket_new plain_options)" "sk_attempt (socket_new plain_options) = 0"
  by (simp_all add: socket_new_def plain_options_def socket_initial_def socket_defs)

lemma foldl_notes [simp]:
  "foldl (room_step t) R (map (\<lambda>fn. NotifyState fn c) fns) = R"
  "foldl (room_step t) R (map (\<lambda>fn. Deliver fn ev p) fns) = R"
  by (simp_all add: rooms_quiet)

lemma fresh_sends_append:
  "fresh_sends n (es @ fs) \<longleftrightarrow> fresh_sends n es \<and> fresh_sends n fs"
  by (auto simp: fresh_sends_def)

lemma fresh_sends_notes [simp]: "fresh_sends n (map (\<lambda>fn. NotifyState fn c) fns)"
  "fresh_sends n (map (\<lambda>fn. Deliver fn ev p) fns)" "fresh_sends n []"
  "fresh_sends n [OpenTransport t u]" "fresh_sends n [CloseTransport t]" "fresh_sends n [SetTimer t d]"
  "fresh_sends n [ClearTimer t]" "fresh_sends n [NotifyState t c]"
  "fresh_sends n [SendFrame t txt] \<longleftrightarrow> t < n"
  "t < n \<Longrightarrow> fresh_sends n (map (\<lambda>p. SendFrame t (f p)) ps)"
  by (auto simp: fresh_sends_def)

lemma fresh_sends_Suc: "fresh_sends n es \<Longrightarrow> fresh_sends (Suc n) es"
  by (auto simp: fresh_sends_def less_Suc_eq)

lemmas sync_defs = sound_def in_sync_def rooms_append fresh_sends_append fresh_sends_Suc fresh_rooms

lemma sound_connect: "sound s \<Longrightarrow> sound (connect opts s)"
  by (auto simp: sync_defs socket_defs split: option.splits)

lemma sound_disconnect: "sound s \<Longrightarrow> sound (disconnect s)"
  by (auto simp: sync_defs socket_defs split: option.splits)

lemma sound_handleClose: "sound s \<Longrightarrow> sound (handleClose opts s)"
  by (auto simp: sync_defs socket_defs split: option.splits)

lemma sound_on_open:
  "sound s \<Longrightarrow> sk_transport s = Some t \<Longrightarrow> sk_state s \<noteq> Connected \<Longrightarrow> sound (on_open s)"
  by (simp add: sync_defs socket_defs rooms_replay keyed_subs_keys del: map_map set_map)

lemma sound_subscribe: "sound s \<Longrightarrow> sound (subscribe kind i s)"
  by (auto simp: sync_defs socket_defs keyed_subs_set keys_map_set read_client_frame
      simp del: set_map split: option.splits if_splits)

lemma sound_unsubscribe: "sound s \<Longrightarrow> sound (unsubscribe kind i s)"
  by (auto simp: sync_defs socket_defs keyed_subs_del keys_map_del read_client_frame
      simp del: set_map split: option.splits if_splits)

text \<open>A message is delivered to the listeners of its event, or ignored, or throws; nothing else changes.\<close>

lemma handleMessage_effects:
  "\<exists>es. snd (handleMessage raw s) = s\<lparr>sk_log := sk_log s @ es\<rparr> \<and> (\<forall>e \<in> set es. \<exists>fn ev p. e = Deliver fn ev p)"
proof -
  have none: "\<exists>es. s = s\<lparr>sk_log := sk_log s @ es\<rparr> \<and> (\<forall>e \<in> set es. \<exists>fn ev p. e = Deliver fn ev p)"
    by (rule exI [of _ "[]"]) simp
  have some: "\<exists>es. s\<lparr>sk_log := sk_log s @ map (\<lambda>fn. Deliver fn ev p) fns\<rparr> = s\<lparr>sk_log := sk_log s @ es\<rparr>
      \<and> (\<forall>e \<in> set es. \<exists>fn ev p. e = Deliver fn ev p)" for ev p fns
    by (rule exI [of _ "map (\<lambda>fn. Deliver fn ev p) fns"]) auto
  show ?thesis
    unfolding handleMessage_def
    by (auto simp: none some deliver_fold svc split: jsval.split option.split)
qed

lemma sound_handleMessage: "sound s \<Longrightarrow> sound (snd (handleMessage raw s))"
proof -
  assume s: "sound s"
  obtain es where es: "snd (handleMessage raw s) = s\<lparr>sk_log := sk_log s @ es\<rparr>"
    "\<forall>e \<in> set es. \<exists>fn ev p. e = Deliver fn ev p"
    using handleMessage_effects by blast
  have "foldl (room_step t) R es = R" for t R
    using es(2) by (intro rooms_quiet) auto
  moreover have "fresh_sends n es" for n
    using es(2) by (auto simp: fresh_sends_def)
  ultimately show ?thesis using s by (auto simp: es(1) sync_defs split: option.splits)
qed

lemma handleMessage_fields [simp]:
  "sk_transport (snd (handleMessage raw s)) = sk_transport s"
  "sk_state (snd (handleMessage raw s)) = sk_state s"
  "sk_attempt (snd (handleMessage raw s)) = sk_attempt s"
  "sk_reconnectHandle (snd (handleMessage raw s)) = sk_reconnectHandle s"
  "sk_pending (snd (handleMessage raw s)) = sk_pending s"
  "sk_subscriptions (snd (handleMessage raw s)) = sk_subscriptions s"
  using handleMessage_effects [of raw s] by auto

lemma sound_fields [simp]:
  "sound (s\<lparr>sk_reconnectHandle := h\<rparr>) = sound s" "sound (s\<lparr>sk_pending := ps\<rparr>) = sound s"
  "sound (s\<lparr>sk_stateListeners := ls\<rparr>) = sound s" "sound (s\<lparr>sk_eventListeners := els\<rparr>) = sound s"
  by (simp_all add: sync_defs split: option.split)

lemma sound_step: "socket_step opts s a s' \<Longrightarrow> sound s \<Longrightarrow> sound s'"
proof (induction rule: socket_step.induct)
  case (listens s fn)
  then show ?case by (auto simp: sync_defs onStateChange_def emit_effect_def split: option.splits)
qed (auto simp: sound_connect sound_disconnect sound_handleClose sound_on_open sound_subscribe
    sound_unsubscribe sound_handleMessage timer_fires_def offStateChange_def on_event_def off_event_def)

lemma sound_run: "socket_run opts as s \<Longrightarrow> sound s"
proof (induction rule: socket_run.induct)
  case start
  have "sound socket_initial" by (simp add: sync_defs socket_initial_def keyed_subs_def)
  then show ?case by (simp add: socket_new_def sound_connect)
qed (rule sound_step)

section \<open>Subscriptions are the application's\<close>

text \<open>The subscriptions requested so far, whatever the connection did in between.\<close>

fun wanted_step :: "string set \<Rightarrow> action \<Rightarrow> string set" where
  "wanted_step W (Subscribe k i) = insert (subKey \<lparr>sub_kind = k, sub_id = i\<rparr>) W"
| "wanted_step W (Unsubscribe k i) = W - {subKey \<lparr>sub_kind = k, sub_id = i\<rparr>}"
| "wanted_step W a = W"

definition wanted :: "action list \<Rightarrow> string set" where
  "wanted as = foldl wanted_step {} as"

lemma wanted_one: "socket_step opts s a s' \<Longrightarrow>
    set (map_keys (sk_subscriptions s')) = wanted_step (set (map_keys (sk_subscriptions s))) a"
proof (induction rule: socket_step.induct)
  case (receives s t raw)
  then show ?case by simp
qed (simp_all add: socket_defs keys_map_set keys_map_del del: set_map split: option.split)

lemma wanted_run: "socket_run opts as s \<Longrightarrow> set (map_keys (sk_subscriptions s)) = wanted as"
proof (induction rule: socket_run.induct)
  case start
  then show ?case by (simp add: wanted_def socket_new_def socket_defs socket_initial_def)
next
  case (more as s a s')
  then show ?case using wanted_one by (simp add: wanted_def del: set_map)
qed

section \<open>Reconnecting\<close>

text \<open>The failures since the connection last opened.\<close>

fun failures_step :: "nat \<Rightarrow> action \<Rightarrow> nat" where
  "failures_step n TransportOpens = 0"
| "failures_step n TransportCloses = Suc n"
| "failures_step n a = n"

definition failures :: "action list \<Rightarrow> nat" where
  "failures as = foldl failures_step 0 as"

text \<open>
  As long as the application does not call \<open>connect\<close> itself, there is at most one pending timer, the
  one the client knows, and none while there is a transport or after a disconnect.
\<close>

definition timers_ok :: "SocketState \<Rightarrow> bool" where
  "timers_ok s \<longleftrightarrow> (case sk_reconnectHandle s of None \<Rightarrow> sk_pending s = [] | Some h \<Rightarrow> sk_pending s = [h])
     \<and> (sk_transport s \<noteq> None \<longrightarrow> sk_pending s = [])"

definition rests :: "SocketState \<Rightarrow> bool" where
  "rests s \<longleftrightarrow> sk_state s = Disconnected \<and> sk_transport s = None \<and> sk_pending s = []"

lemma timers_step:
  "socket_step opts s a s' \<Longrightarrow> a \<noteq> UserConnect \<Longrightarrow> timers_ok s \<Longrightarrow>
     timers_ok s' \<and> (a = UserDisconnect \<or> rests s \<longrightarrow> rests s')"
proof (induction rule: socket_step.induct)
  case (receives s t raw)
  then show ?case by (auto simp: timers_ok_def rests_def split: option.splits)
qed (auto simp: timers_ok_def rests_def socket_defs split: option.splits)

lemma timers_run:
  "socket_run opts as s \<Longrightarrow> UserConnect \<notin> set as \<Longrightarrow> timers_ok s \<and> (UserDisconnect \<in> set as \<longrightarrow> rests s)"
proof (induction rule: socket_run.induct)
  case start
  then show ?case by (simp add: timers_ok_def socket_new_def socket_defs socket_initial_def)
next
  case (more as s a s')
  then show ?case using timers_step [OF more.hyps(2)] by auto
qed

definition counts :: "nat \<Rightarrow> SocketState \<Rightarrow> bool" where
  "counts n s \<longleftrightarrow> sk_attempt s = n \<and> (sk_transport s \<noteq> None \<longrightarrow> \<not> sk_closedByUser s)"

lemma handleMessage_closed [simp]: "sk_closedByUser (snd (handleMessage raw s)) = sk_closedByUser s"
  using handleMessage_effects [of raw s] by auto

lemma counts_step: "socket_step opts s a s' \<Longrightarrow> counts n s \<Longrightarrow> counts (failures_step n a) s'"
  by (induction rule: socket_step.induct) (auto simp: counts_def socket_defs split: option.splits)

lemma counts_run: "socket_run opts as s \<Longrightarrow> counts (failures as) s"
proof (induction rule: socket_run.induct)
  case start
  then show ?case by (simp add: counts_def failures_def socket_new_def socket_defs socket_initial_def)
next
  case (more as s a s')
  then show ?case using counts_step by (simp add: failures_def)
qed

section \<open>Properties\<close>

text \<open>
  C25. Subscriptions survive reconnects. In every state the client's subscriptions are those the
  application asked for and has not given up, whatever the connection went through; and whenever
  the client is connected, reading the frames sent on the current connection leaves the server
  with exactly these.
\<close>

theorem subscriptions_in_sync:
  assumes "socket_run opts as s"
  shows "set (activeSubscriptions s) = wanted as
    \<and> (if sk_state s = Connected
       then \<exists>t. sk_transport s = Some t \<and> rooms t (sk_log s) = wanted as else True)"
proof -
  have keys: "set (map_keys (sk_subscriptions s)) = wanted as" by (rule wanted_run [OF assms])
  have sync: "in_sync s" using sound_run [OF assms] by (simp add: sound_def)
  show ?thesis
  proof (cases "sk_state s = Connected")
    case True
    with sync obtain t where "sk_transport s = Some t" "rooms t (sk_log s) = wanted as"
      unfolding in_sync_def keys by (auto split: option.splits)
    then show ?thesis using keys True by (simp only: activeSubscriptions_def) auto
  next
    case False
    then show ?thesis using keys by (simp only: activeSubscriptions_def if_False)
  qed
qed

lemma reopened_run:
  "\<exists>s. socket_run plain_options [TransportOpens, Subscribe KVehicle ''v'', TransportCloses, TimerFires 1, TransportOpens] s
     \<and> sk_state s = Connected"
proof -
  let ?o = plain_options
  let ?s0 = "socket_new ?o"
  let ?s1 = "on_open ?s0"
  let ?s2 = "subscribe KVehicle ''v'' ?s1"
  let ?s3 = "handleClose ?o ?s2"
  let ?s4 = "timer_fires ?o (?s3\<lparr>sk_pending := removeAll 1 (sk_pending ?s3)\<rparr>)"
  have "socket_run ?o [] ?s0" by (rule start)
  then have "socket_run ?o ([] @ [TransportOpens]) ?s1"
    by (rule more) (rule opens [where t = 0]; simp)
  then have "socket_run ?o (([] @ [TransportOpens]) @ [Subscribe KVehicle ''v'']) ?s2"
    by (rule more) (rule subscribes)
  then have "socket_run ?o ((([] @ [TransportOpens]) @ [Subscribe KVehicle ''v'']) @ [TransportCloses]) ?s3"
    by (rule more) (rule closes [where t = 0]; simp)
  then have "socket_run ?o (((([] @ [TransportOpens]) @ [Subscribe KVehicle ''v'']) @ [TransportCloses]) @ [TimerFires 1]) ?s4"
    by (rule more) (rule fires; simp)
  then have "socket_run ?o ((((([] @ [TransportOpens]) @ [Subscribe KVehicle ''v'']) @ [TransportCloses]) @ [TimerFires 1]) @ [TransportOpens]) (on_open ?s4)"
    by (rule more) (rule opens [where t = 2]; simp)
  then have "socket_run ?o [TransportOpens, Subscribe KVehicle ''v'', TransportCloses, TimerFires 1, TransportOpens] (on_open ?s4)"
    by (simp only: append_Nil append_Cons)
  then show ?thesis using on_open_fields(2) by blast
qed

theorem subscriptions_in_sync_witness:
  "\<exists>(s :: SocketState) t. sk_state s = Connected \<and> sk_transport s = Some t \<and> rooms t (sk_log s) = {''vehicle:v''}"
proof -
  obtain s where s: "socket_run plain_options
      [TransportOpens, Subscribe KVehicle ''v'', TransportCloses, TimerFires 1, TransportOpens] s" "sk_state s = Connected"
    using reopened_run by blast
  have w: "wanted [TransportOpens, Subscribe KVehicle ''v'', TransportCloses, TimerFires 1, TransportOpens] = {''vehicle:v''}"
    by (simp add: wanted_def subKey_def)
  from subscriptions_in_sync [OF s(1), THEN conjunct2]
  obtain t where t: "sk_transport s = Some t" "rooms t (sk_log s) = {''vehicle:v''}"
    unfolding w if_P [OF s(2)] by blast
  show ?thesis by (rule exI, rule exI, rule conjI, rule s(2), rule conjI, rule t(1), rule t(2))
qed

text \<open>
  A disconnect is final, as long as the application leaves reconnecting to the client (makes
  no \<open>connect\<close> call of its own): after it the client is offline, has no transport and no timer
  is pending, whatever else happens.
\<close>

theorem disconnect_final:
  assumes "socket_run opts as s" "UserConnect \<notin> set as" "UserDisconnect \<in> set as"
  shows "sk_state s = Disconnected \<and> sk_transport s = None \<and> sk_pending s = []"
  using timers_run [OF assms(1,2)] assms(3) by (simp add: rests_def)

theorem disconnect_final_witness:
  "\<exists>s. socket_run plain_options [UserDisconnect] s \<and> sk_state s = Disconnected"
proof -
  have "socket_run plain_options ([] @ [UserDisconnect]) (disconnect (socket_new plain_options))"
    by (rule more [OF start disconnects])
  then have run: "socket_run plain_options [UserDisconnect] (disconnect (socket_new plain_options))" by simp
  have "sk_state (disconnect (socket_new plain_options)) = Disconnected"
    using disconnect_final [OF run] by simp
  with run show ?thesis by blast
qed

lemma default_delay:
  "\<exists>ms. backoff_delay DEFAULT_BACKOFF n = Some ms \<and> 500 \<le> ms \<and> ms \<le> 10000"
proof -
  consider "min n 4 = 0" | "min n 4 = 1" | "min n 4 = 2" | "min n 4 = 3" | "min n 4 = 4" by linarith
  then have "500 \<le> DEFAULT_BACKOFF ! min n 4 \<and> DEFAULT_BACKOFF ! min n 4 \<le> 10000"
    by cases (simp_all only:, simp_all add: DEFAULT_BACKOFF_def)
  moreover have "backoff_delay DEFAULT_BACKOFF n = Some (DEFAULT_BACKOFF ! min n 4)"
    by (simp add: backoff_delay_def DEFAULT_BACKOFF_def eval_nat_numeral)
  ultimately show ?thesis by blast
qed

text \<open>
  Backoff. When a connection drops after \<open>n\<close> failures since it was last open, the client is
  reconnecting with a timer set to the \<open>n\<close>-th entry of the schedule (the last one repeats);
  with the default schedule the wait is between half a second and ten seconds.
\<close>

theorem backoff_follows_schedule:
  assumes "socket_run opts as s" "socket_step opts s TransportCloses s'"
  shows "\<exists>h. last (sk_log s') = SetTimer h (backoff_delay (backoff_schedule opts) (failures as))
    \<and> h \<in> set (sk_pending s') \<and> sk_state s' = Reconnecting \<and> sk_transport s' = None
    \<and> (if opt_backoff opts = None
       then \<exists>ms. backoff_delay (backoff_schedule opts) (failures as) = Some ms \<and> 500 \<le> ms \<and> ms \<le> 10000 else True)"
proof -
  from assms(2) obtain t where t: "sk_transport s = Some t" and s': "s' = handleClose opts s"
    by (auto elim: socket_stepE)
  have c: "sk_attempt s = failures as" "\<not> sk_closedByUser s"
    using counts_run [OF assms(1)] t by (auto simp: counts_def)
  show ?thesis
    using default_delay [of "failures as"]
    by (auto simp: s' socket_defs t c backoff_schedule_def)
qed

theorem backoff_follows_schedule_witness:
  "\<exists>s'. socket_step plain_options (socket_new plain_options) TransportCloses s' \<and> sk_state s' = Reconnecting"
proof -
  have st: "socket_step plain_options (socket_new plain_options) TransportCloses (handleClose plain_options (socket_new plain_options))"
    by (rule closes [where t = 0]) simp
  from backoff_follows_schedule [OF start this] st show ?thesis by blast
qed

text \<open>
  C26. Delivery. The frame the server makes of an event and a payload reaches every listener of
  that event, in the order they were added, with exactly that payload, and no one else. The payload
  is plain JSON: no \<open>undefined\<close>, \<open>NaN\<close> or infinity and no repeated key in it, strings over the code
  units 0 to 255, and every number that is not an integer below \<open>2^53\<close> printed by the server in digits
  whose nearest 64-bit number it is, as \<open>JSON.stringify\<close> prints it.
\<close>

theorem frame_delivered:
  assumes "ev \<in> {EvPosition, EvZoneEvent, EvAssignment, EvRouteUpdate}" "json_plain f payload" "payload \<noteq> Null"
  shows "handleMessage (Str (json_text f (Obj [(''event'', Str (socket_event_wire ev)), (''payload'', payload)]))) s
    = (Inr (), s\<lparr>sk_log := sk_log s @ map (\<lambda>fn. Deliver fn ev payload) (sk_eventListeners s ev)\<rparr>)"
proof -
  have plain: "json_plain f (Obj [(''event'', Str (socket_event_wire ev)), (''payload'', payload)])"
    using assms(2) by simp
  have "server_event (Str (socket_event_wire ev)) = Some ev"
    using assms(1) by (auto simp: server_event_def)
  moreover have "payload \<noteq> Undefined" using assms(2) by auto
  ultimately show ?thesis
    using assms(3) unfolding handleMessage_def jsval.case json_parse_text [OF plain] option.case
    by (simp add: js_prop_def svc deliver_fold)
qed

text \<open>A position with fractional coordinates, the latitude exact and the longitude rounded.\<close>

definition sample_lng :: real where
  "sample_lng = round_real (8 / 10)"

definition sample_digits :: "real \<Rightarrow> string" where
  "sample_digits r = (if r = 95 / 2 then ''47.5'' else ''0.8'')"

lemma sample_reads:
  "json_plain sample_digits (Obj [(''lat'', Num (Fin (95 / 2))), (''lng'', Num (Fin sample_lng))])"
proof -
  have f: "95 / 2 \<noteq> real_of_int \<lfloor>95 / 2 :: real\<rfloor>" by simp
  have "is_double (of_int 95 * 2 powi - 1)" by (rule is_double_scaled) simp_all
  then have exact: "to_double (95 / 2) = Fin (95 / 2)" by (intro to_double_exact small_number) simp_all
  have near: "to_double (8 / 10) = Fin sample_lng"
    unfolding sample_lng_def by (intro to_double_small small_number) simp
  have "\<bar>round_real (8 / 10) - 8 / 10\<bar> \<le> 1 / 2 ^ 53"
    by (rule round_real_near) simp_all
  moreover have "(1 :: real) / 2 ^ 53 < 1 / 10" by simp
  ultimately have between: "0 < sample_lng" "sample_lng < 1" unfolding sample_lng_def by linarith+
  then have other: "sample_lng \<noteq> 95 / 2" by simp
  have "jnumber ''47.5'' = Some (Num (to_double (95 / 2)), [])" "jnumber ''0.8'' = Some (Num (to_double (8 / 10)), [])"
    by (simp_all add: jnumber_def span_digits_def jfraction_def jexponent_def is_digit_def decimal_def dec_digit_def
        char_code_def power_int_minus Let_def)
  then show ?thesis
    using exact near other by (simp add: number_reads_def sample_digits_def)
qed

theorem frame_delivered_witness:
  "sk_log (snd (handleMessage (Str (json_text sample_digits (Obj [(''event'', Str (socket_event_wire EvPosition)),
     (''payload'', Obj [(''lat'', Num (Fin (95 / 2))), (''lng'', Num (Fin sample_lng))])]))) (on_event EvPosition 7 socket_initial)))
   = [Deliver 7 EvPosition (Obj [(''lat'', Num (Fin (95 / 2))), (''lng'', Num (Fin sample_lng))])]"
  by (subst frame_delivered [OF _ sample_reads]) (simp_all add: on_event_def socket_initial_def add_listener_def)

section \<open>Findings\<close>

text \<open>
  The client keeps one timer handle. When the application calls \<open>connect\<close> while a reconnect timer
  is pending and that connection drops in turn, a second timer replaces the handle; a disconnect
  clears only the second, and the first one reopens the connection afterwards.
\<close>

lemma disconnect_can_reopen:
  "\<exists>s. socket_run plain_options [TransportCloses, UserConnect, TransportCloses, UserDisconnect, TimerFires 1] s
     \<and> sk_transport s \<noteq> None \<and> \<not> sk_closedByUser s"
proof -
  let ?o = plain_options
  let ?s1 = "handleClose ?o (socket_new ?o)"
  let ?s2 = "connect ?o ?s1"
  let ?s3 = "handleClose ?o ?s2"
  let ?s4 = "disconnect ?s3"
  let ?s5 = "timer_fires ?o (?s4\<lparr>sk_pending := removeAll 1 (sk_pending ?s4)\<rparr>)"
  have "socket_run ?o [] (socket_new ?o)" by (rule start)
  then have "socket_run ?o ([] @ [TransportCloses]) ?s1"
    by (rule more) (rule closes [where t = 0]; simp)
  then have "socket_run ?o (([] @ [TransportCloses]) @ [UserConnect]) ?s2"
    by (rule more) (rule connects)
  then have "socket_run ?o ((([] @ [TransportCloses]) @ [UserConnect]) @ [TransportCloses]) ?s3"
    by (rule more) (rule closes [where t = 2]; simp)
  then have "socket_run ?o (((([] @ [TransportCloses]) @ [UserConnect]) @ [TransportCloses]) @ [UserDisconnect]) ?s4"
    by (rule more) (rule disconnects)
  then have "socket_run ?o ((((([] @ [TransportCloses]) @ [UserConnect]) @ [TransportCloses]) @ [UserDisconnect]) @ [TimerFires 1]) ?s5"
    by (rule more) (rule fires; simp)
  then have "socket_run ?o [TransportCloses, UserConnect, TransportCloses, UserDisconnect, TimerFires 1] ?s5"
    by (simp only: append_Nil append_Cons)
  moreover have "sk_transport ?s5 \<noteq> None" "\<not> sk_closedByUser ?s5" by simp_all
  ultimately show ?thesis by blast
qed

text \<open>
  Malformed frames are meant to be ignored; the frame \<open>null\<close> parses, and reading its properties
  throws out of the message handler.
\<close>

lemma null_frame_throws: "handleMessage (Str ''null'') s = (Inl (External ''TypeError''), s)"
proof -
  have "json_parse (json_text (\<lambda>_. []) Null) = Some Null" by (rule json_parse_text) simp
  then show ?thesis by (simp add: handleMessage_def js_prop_def)
qed

end
