(* ===== verification/Sim_Transport.thy ===== *)
theory Sim_Transport
  imports Fleet_Simulation Socket_Client
begin

text \<open>
  The transport behind simulation mode (\<open>sim/simulationTransport.ts\<close>): a simulation, one deferred
  opening, one interval, and the client's callbacks, which a client takes off when it tears the
  transport down. \<open>show_real\<close> is the printing of non-integer numbers.
\<close>

section \<open>Model\<close>

definition TICK_MS :: real where
  "TICK_MS = 1000"

text \<open>
  \<open>tr_opening\<close> says whether the deferred opening is still to come, \<open>tr_intervals\<close> which intervals
  run; \<open>tr_sent\<close> is what the message callback received.
\<close>

record SimTransport =
  tr_sim :: "SimVehicle list"
  tr_open :: bool
  tr_timer :: "nat option"
  tr_attached :: bool
  tr_opening :: bool
  tr_intervals :: "nat list"
  tr_made :: nat
  tr_sent :: "string list"

definition createSimulationTransport :: SimTransport where
  "createSimulationTransport =
     \<lparr>tr_sim = sim_new, tr_open = False, tr_timer = None, tr_attached = True, tr_opening = True,
      tr_intervals = [], tr_made = 0, tr_sent = []\<rparr>"

definition position_json :: "PositionEvent \<Rightarrow> jsval" where
  "position_json p =
     Obj ([(''vehicleId'', Str (pos_vehicleId p)), (''lat'', Num (pos_lat p)), (''lng'', Num (pos_lng p)),
           (''timestamp'', Str (pos_timestamp p))]
          @ (case pos_telemetry p of None \<Rightarrow> []
             | Some t \<Rightarrow> [(''telemetry'', Obj [(''heading'', of_num_opt (tel_heading t)), (''speed'', of_num_opt (tel_speed t))])]))"

definition zone_event_json :: "ZoneEventMessage \<Rightarrow> jsval" where
  "zone_event_json e =
     Obj [(''vehicleId'', Str (ze_vehicleId e)), (''zoneId'', Str (ze_zoneId e)),
          (''type'', Str (zone_event_type_wire (ze_type e))), (''label'', of_str_opt (ze_label e)),
          (''timestamp'', Str (ze_timestamp e))]"

fun sim_frame_json :: "SimFrame \<Rightarrow> jsval" where
  "sim_frame_json (PositionFrame p) =
     Obj [(''event'', Str (socket_event_wire EvPosition)), (''payload'', position_json p)]"
| "sim_frame_json (ZoneFrame e) =
     Obj [(''event'', Str (socket_event_wire EvZoneEvent)), (''payload'', zone_event_json e)]"

definition sim_emit :: "(real \<Rightarrow> string) \<Rightarrow> SimFrame list \<Rightarrow> SimTransport \<Rightarrow> SimTransport" where
  "sim_emit show_real frames t =
     (if \<not> tr_open t \<or> \<not> tr_attached t then t
      else t\<lparr>tr_sent := tr_sent t @ map (\<lambda>f. json_text show_real (sim_frame_json f)) frames\<rparr>)"

text \<open>One tick of the simulation, emitted; \<open>now\<close> is the time it stamps.\<close>

definition tick_and_emit :: "(real \<Rightarrow> string) \<Rightarrow> string \<Rightarrow> SimTransport \<Rightarrow> SimTransport option" where
  "tick_and_emit show_real now t =
     map_option (\<lambda>(vs, frames). sim_emit show_real frames (t\<lparr>tr_sim := vs\<rparr>)) (sim_tick now TICK_MS (tr_sim t))"

definition transport_opens :: "(real \<Rightarrow> string) \<Rightarrow> string \<Rightarrow> SimTransport \<Rightarrow> SimTransport option" where
  "transport_opens show_real now t =
     map_option (\<lambda>t'. t'\<lparr>tr_timer := Some (tr_made t'), tr_intervals := tr_intervals t' @ [tr_made t'],
         tr_made := Suc (tr_made t')\<rparr>)
       (tick_and_emit show_real now (t\<lparr>tr_opening := False, tr_open := True\<rparr>))"

definition transport_close :: "SimTransport \<Rightarrow> SimTransport" where
  "transport_close t =
     (let t' = t\<lparr>tr_open := False\<rparr>
      in case tr_timer t' of
          Some h \<Rightarrow> t'\<lparr>tr_intervals := removeAll h (tr_intervals t'), tr_timer := None\<rparr>
        | None \<Rightarrow> t')"

text \<open>What the client does when it gives a transport up: callbacks off, then close.\<close>

definition client_teardown :: "SimTransport \<Rightarrow> SimTransport" where
  "client_teardown t = transport_close (t\<lparr>tr_attached := False\<rparr>)"

section \<open>Facts\<close>

text \<open>Frames reach the client as they were made (those without fractions, that is the zone events).\<close>

lemma zone_frame_reaches_listeners:
  assumes "ze_label e = Some l"
  shows "handleMessage (Str (json_text show_real (sim_frame_json (ZoneFrame e)))) s =
     (Inr (), s\<lparr>sk_log := sk_log s @ map (\<lambda>fn. Deliver fn EvZoneEvent (zone_event_json e)) (sk_eventListeners s EvZoneEvent)\<rparr>)"
proof -
  let ?payload = "zone_event_json e"
  have plain: "json_plain show_real (Obj [(''event'', Str (socket_event_wire EvZoneEvent)), (''payload'', ?payload)])"
    using assms by (simp add: zone_event_json_def)
  have "server_event (Str (socket_event_wire EvZoneEvent)) = Some EvZoneEvent" by (simp add: server_event_def)
  moreover have "?payload \<noteq> Undefined" "?payload \<noteq> Null" by (simp_all add: zone_event_json_def)
  ultimately show ?thesis
    unfolding sim_frame_json.simps handleMessage_def jsval.case json_parse_text [OF plain] option.case
    by (simp add: js_prop_def svc deliver_fold)
qed

lemma closed_transport_silent: "tr_sent (sim_emit show_real frames (client_teardown t)) = tr_sent t"
  by (simp add: sim_emit_def client_teardown_def transport_close_def Let_def split: option.split)

lemma opened_then_closed_stops:
  assumes "transport_opens show_real now t = Some t'" "tr_intervals t = []"
  shows "tr_intervals (client_teardown t') = []"
  using assms by (auto simp: transport_opens_def tick_and_emit_def sim_emit_def client_teardown_def transport_close_def
      Let_def split: if_splits)

section \<open>Finding\<close>

text \<open>
  Closing does not cancel the deferred opening: a transport given up before it opened still opens,
  and starts an interval that nothing ever clears (a second close would, but the client has let
  the transport go).
\<close>

lemma early_close_leaks_interval:
  "\<exists>t. transport_opens show_real now (client_teardown createSimulationTransport) = Some t
     \<and> tr_intervals t \<noteq> [] \<and> \<not> tr_attached t"
proof -
  obtain ws fs where "sim_run [(now, TICK_MS)] sim_new = Some (ws, fs)"
    using sim_run_spec [OF sim_new_ok vehicle_ids_distinct] by blast
  then obtain vs frames where tick: "sim_tick now TICK_MS sim_new = Some (vs, frames)"
    by (auto split: option.splits)
  show ?thesis
    by (simp add: transport_opens_def tick_and_emit_def client_teardown_def transport_close_def
        createSimulationTransport_def tick sim_emit_def)
qed

end
