(* ===== verification/React_View.thy ===== *)
theory React_View
  imports JS_Values
begin

text \<open>
  What a React component of the dashboard is here: a function from its props and its state to a
  tree of elements. An element has a tag, attributes and children; an event attribute carries the
  actions its handler makes of the event's target value, and the component's state is a record
  that a function updates by an action. Children that are \<open>false\<close>, \<open>null\<close> or \<open>undefined\<close> render
  nothing, so conditional children are lists.
\<close>

section \<open>Elements\<close>

datatype css = Css string | Dim real | Unset

type_synonym style = "(string \<times> css) list"

datatype 'a attr =
    Attr string string
  | AttrNum string real
  | AttrBool string bool
  | Style style
  | Key string
  | OnEv string "string \<Rightarrow> 'a list"

datatype 'a node = Text string | Elem string "'a attr list" "'a node list"

text \<open>\<open>{...a, ...b}\<close>: a later value replaces an earlier one in its place.\<close>

definition spread_styles :: "style list \<Rightarrow> style" where
  "spread_styles ss = map_new (concat ss)"

definition only_if :: "bool \<Rightarrow> 'b list \<Rightarrow> 'b list" where
  "only_if c xs = (if c then xs else [])"

text \<open>A node that is given and is not the empty string.\<close>

definition visible_node :: "'a node list \<Rightarrow> bool" where
  "visible_node ks \<longleftrightarrow> ks \<noteq> [] \<and> ks \<noteq> [Text []]"

text \<open>\<open>x && f(x)\<close> for a string that may be absent: nothing for an absent or empty one.\<close>

definition given :: "string option \<Rightarrow> (string \<Rightarrow> 'b list) \<Rightarrow> 'b list" where
  "given x f = (case x of None \<Rightarrow> [] | Some s \<Rightarrow> if s = [] then [] else f s)"

definition underscores_to_spaces :: "string \<Rightarrow> string" where
  "underscores_to_spaces s = map (\<lambda>c. if c = CHR ''_'' then CHR '' '' else c) s"

text \<open>Characters outside the model's alphabet, in constant texts, by their bytes in UTF-8.\<close>

definition em_dash :: string where "em_dash = [CHR 0xE2, CHR 0x80, CHR 0x94]"
definition ellipsis_ch :: string where "ellipsis_ch = [CHR 0xE2, CHR 0x80, CHR 0xA6]"
definition left_quote :: string where "left_quote = [CHR 0xE2, CHR 0x80, CHR 0x9C]"
definition right_quote :: string where "right_quote = [CHR 0xE2, CHR 0x80, CHR 0x9D]"
definition right_arrow :: string where "right_arrow = [CHR 0xE2, CHR 0x86, CHR 0x92]"
definition glyph_up :: string where "glyph_up = [CHR 0xE2, CHR 0x96, CHR 0xB2]"
definition glyph_down :: string where "glyph_down = [CHR 0xE2, CHR 0x96, CHR 0xBC]"
definition glyph_updown :: string where "glyph_updown = [CHR 0xE2, CHR 0x86, CHR 0x95]"
definition glyph_diamond :: string where "glyph_diamond = [CHR 0xE2, CHR 0x97, CHR 0x88]"
definition glyph_search :: string where "glyph_search = [CHR 0xE2, CHR 0x8C, CHR 0x95]"
definition glyph_bell :: string where "glyph_bell = [CHR 0xE2, CHR 0x97, CHR 0x94]"
definition glyph_caret :: string where "glyph_caret = [CHR 0xE2, CHR 0x96, CHR 0xBE]"
definition glyph_enter :: string where "glyph_enter = [CHR 0xE2, CHR 0x86, CHR 0xB3]"
definition glyph_exit :: string where "glyph_exit = [CHR 0xE2, CHR 0x86, CHR 0xB0]"
definition glyph_map :: string where "glyph_map = [CHR 0xE2, CHR 0x97, CHR 0x8E]"
definition glyph_box :: string where "glyph_box = [CHR 0xE2, CHR 0xAC, CHR 0x9A]"
definition glyph_person :: string where "glyph_person = [CHR 0xE2, CHR 0x98, CHR 0x96]"
definition glyph_truck :: string where "glyph_truck = [CHR 0xE2, CHR 0x9B, CHR 0x9F]"
definition glyph_hexagon :: string where "glyph_hexagon = [CHR 0xE2, CHR 0xAC, CHR 0xA1]"
definition glyph_clock :: string where "glyph_clock = [CHR 0xE2, CHR 0x97, CHR 0xB7]"
definition glyph_bolt :: string where "glyph_bolt = [CHR 0xE2, CHR 0x9A, CHR 0xA1]"
definition glyph_arrows :: string where "glyph_arrows = [CHR 0xE2, CHR 0x87, CHR 0x84]"
definition glyph_pin :: string where "glyph_pin = [CHR 0xF0, CHR 0x9F, CHR 0x93, CHR 0x8D]"
definition glyph_globe :: string where "glyph_globe = [CHR 0xF0, CHR 0x9F, CHR 0x8C, CHR 0x90]"
definition copyright_sign :: string where "copyright_sign = [CHR 0xC2, CHR 0xA9]"
definition middle_dot :: string where "middle_dot = [CHR 0xC2, CHR 0xB7]"
definition degree_sign :: string where "degree_sign = [CHR 0xC2, CHR 0xB0]"
definition glyph_bullet :: string where "glyph_bullet = [CHR 0xE2, CHR 0x80, CHR 0xA2]"

text \<open>A component instance in a list: the key is an attribute of the tree it renders.\<close>

fun keyed :: "string \<Rightarrow> 'a node \<Rightarrow> 'a node" where
  "keyed k (Elem t as ks) = Elem t (Key k # as) ks"
| "keyed k (Text s) = Text s"

section \<open>Reading a tree\<close>

fun text_of :: "'a node \<Rightarrow> string" where
  "text_of (Text s) = s"
| "text_of (Elem t as ks) = concat (map text_of ks)"

fun tag_of :: "'a node \<Rightarrow> string" where
  "tag_of (Text s) = []"
| "tag_of (Elem t as ks) = t"

fun attrs_of :: "'a node \<Rightarrow> 'a attr list" where
  "attrs_of (Text s) = []"
| "attrs_of (Elem t as ks) = as"

fun kids_of :: "'a node \<Rightarrow> 'a node list" where
  "kids_of (Text s) = []"
| "kids_of (Elem t as ks) = ks"

text \<open>The elements with a tag, the tree's own root included, in document order.\<close>

fun elems :: "string \<Rightarrow> 'a node \<Rightarrow> 'a node list" where
  "elems tg (Text s) = []"
| "elems tg (Elem t as ks) = (if t = tg then [Elem t as ks] else []) @ concat (map (elems tg) ks)"

definition elems_in :: "string \<Rightarrow> 'a node list \<Rightarrow> 'a node list" where
  "elems_in tg ks = concat (map (elems tg) ks)"

text \<open>The value of an attribute, the key, and what an event does.\<close>

fun attr_of :: "string \<Rightarrow> 'a attr list \<Rightarrow> string option" where
  "attr_of n [] = None"
| "attr_of n (a # as) = (case a of Attr m v \<Rightarrow> (if m = n then Some v else attr_of n as) | _ \<Rightarrow> attr_of n as)"

fun flag_of :: "string \<Rightarrow> 'a attr list \<Rightarrow> bool option" where
  "flag_of n [] = None"
| "flag_of n (a # as) = (case a of AttrBool m v \<Rightarrow> (if m = n then Some v else flag_of n as) | _ \<Rightarrow> flag_of n as)"

fun key_of_attrs :: "'a attr list \<Rightarrow> string option" where
  "key_of_attrs [] = None"
| "key_of_attrs (a # as) = (case a of Key k \<Rightarrow> Some k | _ \<Rightarrow> key_of_attrs as)"

fun style_of :: "'a attr list \<Rightarrow> style" where
  "style_of [] = []"
| "style_of (a # as) = (case a of Style s \<Rightarrow> s | _ \<Rightarrow> style_of as)"

fun handler_of :: "string \<Rightarrow> 'a attr list \<Rightarrow> (string \<Rightarrow> 'a list) option" where
  "handler_of n [] = None"
| "handler_of n (a # as) = (case a of OnEv m f \<Rightarrow> (if m = n then Some f else handler_of n as) | _ \<Rightarrow> handler_of n as)"

definition fire :: "string \<Rightarrow> string \<Rightarrow> 'a node \<Rightarrow> 'a list" where
  "fire event target n = (case handler_of event (attrs_of n) of None \<Rightarrow> [] | Some f \<Rightarrow> f target)"

abbreviation click :: "'a node \<Rightarrow> 'a list" where
  "click \<equiv> fire ''onClick'' []"

section \<open>Facts\<close>

lemma only_if_simps [simp]: "only_if True xs = xs" "only_if False xs = []" "only_if c [] = []"
  by (simp_all add: only_if_def)

lemma given_simps [simp]: "given None f = []" "given (Some []) f = []" "s \<noteq> [] \<Longrightarrow> given (Some s) f = f s"
  by (simp_all add: given_def)

lemma elems_in_simps [simp]:
  "elems_in tg [] = []" "elems_in tg (k # ks) = elems tg k @ elems_in tg ks"
  "elems_in tg (ks @ ls) = elems_in tg ks @ elems_in tg ls"
  by (simp_all add: elems_in_def)

lemma elems_kids: "concat (map (elems tg) ks) = elems_in tg ks"
  by (simp add: elems_in_def)

lemma elems_Elem [simp]:
  "elems tg (Elem t as ks) = (if t = tg then [Elem t as ks] else []) @ elems_in tg ks"
  by (simp add: elems_kids)

declare elems.simps(2) [simp del]

lemma concat_map_nil [simp]: "concat (map (\<lambda>x. []) xs) = []"
  by (induction xs) simp_all

lemma elems_in_rows: "(\<And>x. x \<in> set xs \<Longrightarrow> elems tg (f x) = []) \<Longrightarrow> elems_in tg (map f xs) = []"
  by (simp add: elems_in_def)

lemma elems_in_singles: "(\<And>x. x \<in> set xs \<Longrightarrow> elems tg (f x) = [f x]) \<Longrightarrow> elems_in tg (map f xs) = map f xs"
  by (induction xs) simp_all

lemma elems_in_only_if [simp]: "elems_in tg (only_if c ks) = only_if c (elems_in tg ks)"
  by (simp add: only_if_def)

lemma elems_in_map: "elems_in tg (map f xs) = concat (map (\<lambda>x. elems tg (f x)) xs)"
  by (simp add: elems_in_def comp_def)

lemma elems_tag: "e \<in> set (elems tg n) \<Longrightarrow> tag_of e = tg"
  by (induction tg n rule: elems.induct) (auto simp: elems_in_def split: if_splits)

lemma spread_styles_get: "map_get (spread_styles ss) k = map_of (rev (concat ss)) k"
  by (simp add: spread_styles_def map_get_new)

lemma spread_styles_one: "distinct (map fst s) \<Longrightarrow> spread_styles [s] = s"
proof -
  have "distinct (map fst (m @ s)) \<Longrightarrow> foldl (\<lambda>m e. map_set (fst e) (snd e) m) m s = m @ s" for m
  proof (induction s arbitrary: m)
    case (Cons e s)
    have "map_of m (fst e) = None" using Cons.prems by (auto simp: map_of_eq_None_iff)
    then have "foldl (\<lambda>m e. map_set (fst e) (snd e) m) m (e # s) = foldl (\<lambda>m e. map_set (fst e) (snd e) m) (m @ [e]) s"
      by (simp add: map_set_fresh)
    with Cons show ?case by simp
  qed simp
  from this [of "[]"] show "distinct (map fst s) \<Longrightarrow> spread_styles [s] = s" by (simp add: spread_styles_def map_new_def)
qed

end
