(* ===== verification/Design_Tokens.thy ===== *)
theory Design_Tokens
  imports Json
begin

text \<open>
  The design tokens (\<open>packages/design-tokens/src\<close>): the token tables, the mapping of statuses to
  colours, and the generators of the web's stylesheet and of the app's Dart constants. Decimal
  constants (line heights, alphas) are kept in hundredths; objects are lists of entries in the
  order in which they are enumerated.
\<close>

section \<open>Model: the tables (tokens.ts, status.ts)\<close>

definition colors :: "(string \<times> string) list" where
  "colors =
    [(''bg'', ''#070A16''), (''surface'', ''#11152E''), (''surfaceAlt'', ''#1A2042''), (''border'', ''#2C3360''),
     (''text'', ''#ECEEFA''), (''textMuted'', ''#9AA2CC''), (''primary'', ''#7C84F2''),
     (''primaryHover'', ''#6A72E6''), (''accent'', ''#58D6F2''), (''success'', ''#3FE0A0''),
     (''warning'', ''#ECA64C''), (''danger'', ''#EF4757''), (''info'', ''#8FB4FB'')]"

record Typography =
  ty_fontSans :: string
  ty_fontMono :: string
  ty_fontSize :: "(string \<times> nat) list"
  ty_fontWeight :: "(string \<times> nat) list"
  ty_lineHeight :: "(string \<times> nat) list"

definition typography :: Typography where
  "typography =
    \<lparr>ty_fontSans = [QUOTE] @ ''Inter'' @ [QUOTE] @ '', system-ui, sans-serif'',
     ty_fontMono = [QUOTE] @ ''JetBrains Mono'' @ [QUOTE] @ '', monospace'',
     ty_fontSize = [(''xs'', 12), (''sm'', 14), (''base'', 16), (''lg'', 20), (''xl'', 25), (''2xl'', 31), (''3xl'', 39)],
     ty_fontWeight = [(''body'', 400), (''medium'', 500), (''semibold'', 600), (''emphasis'', 700)],
     ty_lineHeight = [(''body'', 150), (''heading'', 120)]\<rparr>"

definition spacing :: "(string \<times> nat) list" where
  "spacing = [(''1'', 4), (''2'', 8), (''3'', 12), (''4'', 16), (''5'', 24), (''6'', 32), (''7'', 48), (''8'', 64)]"

definition radius :: "(string \<times> nat) list" where
  "radius = [(''control'', 0), (''card'', 0), (''modal'', 0), (''pill'', 9999)]"

record Shadow =
  sh_x :: nat
  sh_y :: nat
  sh_blur :: nat
  sh_color :: string
  sh_alpha :: nat

definition shadows :: "(string \<times> Shadow) list" where
  "shadows =
    [(''sm'', \<lparr>sh_x = 0, sh_y = 1, sh_blur = 2, sh_color = ''#000000'', sh_alpha = 30\<rparr>),
     (''md'', \<lparr>sh_x = 0, sh_y = 4, sh_blur = 12, sh_color = ''#000000'', sh_alpha = 35\<rparr>),
     (''lg'', \<lparr>sh_x = 0, sh_y = 12, sh_blur = 32, sh_color = ''#000000'', sh_alpha = 45\<rparr>)]"

definition driverStatusColor :: "(string \<times> string) list" where
  "driverStatusColor =
    [(''Offline'', ''danger''), (''Available'', ''success''), (''On_Delivery'', ''info''), (''On_Break'', ''warning'')]"

definition deliveryStatusColor :: "(string \<times> string) list" where
  "deliveryStatusColor =
    [(''Created'', ''textMuted''), (''Assigned'', ''accent''), (''In_Transit'', ''info''), (''Arrived'', ''warning''),
     (''Completed'', ''success''), (''Failed'', ''danger''), (''Cancelled'', ''textMuted'')]"

section \<open>Model: numbers and names\<close>

text \<open>A decimal as a template literal and \<open>toFixed\<close> print it.\<close>

definition dec_str :: "nat \<Rightarrow> string" where
  "dec_str n = nat_str (n div 100) @
     (if n mod 100 = 0 then [] else if n mod 10 = 0 then ''.'' @ nat_str (n mod 100 div 10)
      else ''.'' @ nat_str (n mod 100 div 10) @ nat_str (n mod 10))"

definition to_fixed1 :: "nat \<Rightarrow> string" where
  "to_fixed1 n = nat_str n @ ''.0''"

definition to_fixed2 :: "nat \<Rightarrow> string" where
  "to_fixed2 n = nat_str (n div 100) @ ''.'' @ nat_str (n mod 100 div 10) @ nat_str (n mod 10)"

definition upper_char :: "char \<Rightarrow> char" where
  "upper_char c = (let n = char_code c in if 97 \<le> n \<and> n \<le> 122 then char_of (n - 32) else c)"

definition js_upper_ascii :: "string \<Rightarrow> string" where
  "js_upper_ascii s = map upper_char s"

definition is_upper :: "char \<Rightarrow> bool" where
  "is_upper c \<longleftrightarrow> 65 \<le> char_code c \<and> char_code c \<le> 90"

definition is_lower_or_digit :: "char \<Rightarrow> bool" where
  "is_lower_or_digit c \<longleftrightarrow> 97 \<le> char_code c \<and> char_code c \<le> 122 \<or> 48 \<le> char_code c \<and> char_code c \<le> 57"

text \<open>\<open>replace(/([a-z0-9])([A-Z])/g, '$1-$2')\<close>: a match consumes both characters.\<close>

fun split_camel :: "string \<Rightarrow> string" where
  "split_camel (a # b # cs) =
     (if is_lower_or_digit a \<and> is_upper b then a # CHR ''-'' # b # split_camel cs else a # split_camel (b # cs))"
| "split_camel cs = cs"

definition dashed :: "string \<Rightarrow> string" where
  "dashed s = map (\<lambda>c. if c = CHR ''_'' then CHR ''-'' else c) s"

definition css_kebab :: "string \<Rightarrow> string" where
  "css_kebab name = js_lower (split_camel (dashed name))"

text \<open>\<open>parseInt\<close> in base 16 of two hexadecimal digits.\<close>

definition hex_pair :: "string \<Rightarrow> nat" where
  "hex_pair s = foldl (\<lambda>n c. 16 * n + or_else (hex_val c) 0) 0 s"

definition slice :: "nat \<Rightarrow> nat \<Rightarrow> string \<Rightarrow> string" where
  "slice a b s = take (b - a) (drop a s)"

definition shadowToCss :: "Shadow \<Rightarrow> string" where
  "shadowToCss s =
     (let r = hex_pair (slice 1 3 (sh_color s)); g = hex_pair (slice 3 5 (sh_color s)); b = hex_pair (slice 5 7 (sh_color s))
      in nat_str (sh_x s) @ ''px '' @ nat_str (sh_y s) @ ''px '' @ nat_str (sh_blur s) @ ''px rgba('' @ nat_str r
         @ '', '' @ nat_str g @ '', '' @ nat_str b @ '', '' @ dec_str (sh_alpha s) @ '')'')"

section \<open>Model: the stylesheet (css.ts)\<close>

definition css_decl :: "string \<Rightarrow> string \<Rightarrow> string" where
  "css_decl name v = ''  --'' @ name @ '': '' @ v @ '';''"

definition css_var :: "string \<Rightarrow> string" where
  "css_var name = ''var(--'' @ name @ '')''"

text \<open>The declarations of the stylesheet by group: names (after the two hyphens) and values.\<close>

definition css_colors :: "(string \<times> string) list" where
  "css_colors = map (\<lambda>(n, v). (''color-'' @ css_kebab n, v)) colors"

definition css_typography :: "(string \<times> string) list" where
  "css_typography =
     [(''font-sans'', ty_fontSans typography), (''font-mono'', ty_fontMono typography)]
     @ map (\<lambda>(n, v). (''font-size-'' @ css_kebab n, nat_str v @ ''px'')) (ty_fontSize typography)
     @ map (\<lambda>(n, v). (''font-weight-'' @ css_kebab n, nat_str v)) (ty_fontWeight typography)
     @ map (\<lambda>(n, v). (''line-height-'' @ css_kebab n, dec_str v)) (ty_lineHeight typography)"

definition css_spacing :: "(string \<times> string) list" where
  "css_spacing = map (\<lambda>(n, v). (''space-'' @ n, nat_str v @ ''px'')) spacing"

definition css_radius :: "(string \<times> string) list" where
  "css_radius = map (\<lambda>(n, v). (''radius-'' @ css_kebab n, nat_str v @ ''px'')) radius"

definition css_shadows :: "(string \<times> string) list" where
  "css_shadows = map (\<lambda>(n, v). (''shadow-'' @ css_kebab n, shadowToCss v)) shadows"

definition css_statuses :: "(string \<times> string) list" where
  "css_statuses =
     map (\<lambda>(s, t). (''status-driver-'' @ css_kebab s, css_var (''color-'' @ css_kebab t))) driverStatusColor
     @ map (\<lambda>(s, t). (''status-delivery-'' @ css_kebab s, css_var (''color-'' @ css_kebab t))) deliveryStatusColor"

definition css_lines :: "string list" where
  "css_lines =
     [''''] @ ['':root {''] @ [''  /* color */''] @ map (\<lambda>(n, v). css_decl n v) css_colors
     @ [''  /* typography */''] @ map (\<lambda>(n, v). css_decl n v) css_typography
     @ [''  /* spacing */''] @ map (\<lambda>(n, v). css_decl n v) css_spacing
     @ [''  /* radius */''] @ map (\<lambda>(n, v). css_decl n v) css_radius
     @ [''  /* shadow */''] @ map (\<lambda>(n, v). css_decl n v) css_shadows
     @ [''  /* status colors (reference the semantic color tokens) */''] @ map (\<lambda>(n, v). css_decl n v) css_statuses
     @ [''}''] @ ['''']"

definition toCss :: string where
  "toCss = js_join [CHR 10] css_lines"

section \<open>Model: the Dart constants (dart.ts)\<close>

definition strip_sharp :: "string \<Rightarrow> string" where
  "strip_sharp s = remove1 (CHR ''#'') s"

definition dartColor :: "string \<Rightarrow> string" where
  "dartColor hex = ''Color(0xFF'' @ js_upper_ascii (strip_sharp hex) @ '')''"

definition statusKey :: "string \<Rightarrow> string" where
  "statusKey status = status"

definition pad2 :: "string \<Rightarrow> string" where
  "pad2 s = replicate (2 - length s) (CHR ''0'') @ s"

text \<open>\<open>Math.round(alpha * 255)\<close> for an alpha in hundredths.\<close>

definition alpha_byte :: "nat \<Rightarrow> nat" where
  "alpha_byte a = (a * 255 * 2 + 100) div 200"

definition dartShadow :: "Shadow \<Rightarrow> string" where
  "dartShadow s =
     (let rgb = js_upper_ascii (strip_sharp (sh_color s));
          alphaHex = pad2 (js_upper_ascii (to_radix 16 (alpha_byte (sh_alpha s))))
      in ''BoxShadow(color: Color(0x'' @ alphaHex @ rgb @ ''), offset: Offset('' @ nat_str (sh_x s) @ '', ''
         @ nat_str (sh_y s) @ ''), blurRadius: '' @ nat_str (sh_blur s) @ '')'')"

definition quoted :: "string \<Rightarrow> string" where
  "quoted s = [CHR 0x27] @ s @ [CHR 0x27]"

definition dart_status :: "(string \<times> string) list \<Rightarrow> string list" where
  "dart_status m = map (\<lambda>(s, t). ''  '' @ quoted (statusKey s) @ '': FleetColors.'' @ t @ '','') m"

definition dart_lines :: "string list" where
  "dart_lines =
     [''// AUTO-GENERATED from @fleet/design-tokens. Do not edit by hand.'',
      ''import '' @ quoted ''package:flutter/material.dart'' @ '';'', '''',
      ''/// Semantic color tokens.'', ''class FleetColors {'', ''  FleetColors._();'']
     @ map (\<lambda>(n, v). ''  static const Color '' @ n @ '' = '' @ dartColor v @ '';'') colors
     @ [''}'', '''',
      ''/// Typography tokens: families, 1.25 type scale, weights, line heights.'',
      ''class FleetTypography {'', ''  FleetTypography._();'',
      ''  static const String fontSans = '' @ json_quote (ty_fontSans typography) @ '';'',
      ''  static const String fontMono = '' @ json_quote (ty_fontMono typography) @ '';'',
      ''  static const Map<String, double> fontSize = {'']
     @ map (\<lambda>(n, v). ''    '' @ quoted n @ '': '' @ to_fixed1 v @ '','') (ty_fontSize typography)
     @ [''  };'', ''  static const Map<String, int> fontWeight = {'']
     @ map (\<lambda>(n, v). ''    '' @ quoted n @ '': '' @ nat_str v @ '','') (ty_fontWeight typography)
     @ [''  };'', ''  static const Map<String, double> lineHeight = {'']
     @ map (\<lambda>(n, v). ''    '' @ quoted n @ '': '' @ to_fixed2 v @ '','') (ty_lineHeight typography)
     @ [''  };'', ''}'', '''',
      ''/// Spacing scale on a 4px base grid.'', ''class FleetSpacing {'', ''  FleetSpacing._();'',
      ''  static const Map<String, double> values = {'']
     @ map (\<lambda>(n, v). ''    '' @ quoted n @ '': '' @ to_fixed1 v @ '','') spacing
     @ [''  };'', ''}'', '''',
      ''/// Border-radius tokens.'', ''class FleetRadius {'', ''  FleetRadius._();'']
     @ map (\<lambda>(n, v). ''  static const double '' @ n @ '' = '' @ to_fixed1 v @ '';'') radius
     @ [''}'', '''',
      ''/// Elevation/shadow tokens as Flutter BoxShadow lists.'', ''class FleetShadows {'', ''  FleetShadows._();'']
     @ map (\<lambda>(n, v). ''  static const List<BoxShadow> '' @ n @ '' = ['' @ dartShadow v @ ''];'') shadows
     @ [''}'', '''',
      ''/// Driver_Status -> color (mirrors web --status-driver-*).'',
      ''const Map<String, Color> driverStatusColor = {'']
     @ dart_status driverStatusColor
     @ [''};'', '''', ''/// Delivery_Status -> color (mirrors web --status-delivery-*).'',
      ''const Map<String, Color> deliveryStatusColor = {'']
     @ dart_status deliveryStatusColor
     @ [''};'', '''']"

definition toDart :: string where
  "toDart = js_join [CHR 10] dart_lines"


section \<open>Facts\<close>

text \<open>The kebab-case names, evaluated once.\<close>

lemmas kebab_defs = css_kebab_def dashed_def js_lower_def lower_char_def is_upper_def is_lower_or_digit_def
  char_code_def char_of_eq_iff Let_def

lemma kebab_colors:
  "map (css_kebab \<circ> fst) colors =
     [''bg'', ''surface'', ''surface-alt'', ''border'', ''text'', ''text-muted'', ''primary'', ''primary-hover'',
      ''accent'', ''success'', ''warning'', ''danger'', ''info'']"
  by (simp add: colors_def kebab_defs)

lemma kebab_driver_statuses:
  "map (css_kebab \<circ> fst) driverStatusColor = [''offline'', ''available'', ''on-delivery'', ''on-break'']"
  by (simp add: driverStatusColor_def kebab_defs)

lemma kebab_delivery_statuses:
  "map (css_kebab \<circ> fst) deliveryStatusColor =
     [''created'', ''assigned'', ''in-transit'', ''arrived'', ''completed'', ''failed'', ''cancelled'']"
  by (simp add: deliveryStatusColor_def kebab_defs)

lemma kebab_plain: "css_kebab ''xs'' = ''xs''" "css_kebab ''sm'' = ''sm''" "css_kebab ''base'' = ''base''"
  "css_kebab ''lg'' = ''lg''" "css_kebab ''xl'' = ''xl''" "css_kebab ''2xl'' = ''2xl''" "css_kebab ''3xl'' = ''3xl''"
  "css_kebab ''body'' = ''body''" "css_kebab ''medium'' = ''medium''" "css_kebab ''semibold'' = ''semibold''"
  "css_kebab ''emphasis'' = ''emphasis''" "css_kebab ''heading'' = ''heading''" "css_kebab ''control'' = ''control''"
  "css_kebab ''card'' = ''card''" "css_kebab ''modal'' = ''modal''" "css_kebab ''pill'' = ''pill''"
  "css_kebab ''md'' = ''md''"
  by (simp_all add: kebab_defs)

lemma status_tokens_are_colors:
  "list_all (\<lambda>(s, t). t \<in> fst ` set colors) (driverStatusColor @ deliveryStatusColor)"
  by (simp add: driverStatusColor_def deliveryStatusColor_def colors_def)

lemma status_colors:
  "(s, t) \<in> set driverStatusColor \<Longrightarrow> t \<in> fst ` set colors"
  "(s, t) \<in> set deliveryStatusColor \<Longrightarrow> t \<in> fst ` set colors"
  using status_tokens_are_colors by (fastforce simp only: list_all_iff set_append)+

definition css_all :: "(string \<times> string) list" where
  "css_all = css_colors @ css_typography @ css_spacing @ css_radius @ css_shadows @ css_statuses"

definition css_names :: "string list" where
  "css_names =
     map (\<lambda>n. ''color-'' @ n) [''bg'', ''surface'', ''surface-alt'', ''border'', ''text'', ''text-muted'', ''primary'',
       ''primary-hover'', ''accent'', ''success'', ''warning'', ''danger'', ''info'']
     @ [''font-sans'', ''font-mono'']
     @ map (\<lambda>n. ''font-size-'' @ n) [''xs'', ''sm'', ''base'', ''lg'', ''xl'', ''2xl'', ''3xl'']
     @ map (\<lambda>n. ''font-weight-'' @ n) [''body'', ''medium'', ''semibold'', ''emphasis'']
     @ map (\<lambda>n. ''line-height-'' @ n) [''body'', ''heading'']
     @ map (\<lambda>n. ''space-'' @ n) [''1'', ''2'', ''3'', ''4'', ''5'', ''6'', ''7'', ''8'']
     @ map (\<lambda>n. ''radius-'' @ n) [''control'', ''card'', ''modal'', ''pill'']
     @ map (\<lambda>n. ''shadow-'' @ n) [''sm'', ''md'', ''lg'']
     @ map (\<lambda>n. ''status-driver-'' @ n) [''offline'', ''available'', ''on-delivery'', ''on-break'']
     @ map (\<lambda>n. ''status-delivery-'' @ n) [''created'', ''assigned'', ''in-transit'', ''arrived'', ''completed'',
       ''failed'', ''cancelled'']"

lemma css_colors_names: "map fst css_colors = map (\<lambda>n. ''color-'' @ n) (map (css_kebab \<circ> fst) colors)"
  by (simp add: css_colors_def comp_def case_prod_beta)

lemma css_statuses_names: "map fst css_statuses =
    map (\<lambda>n. ''status-driver-'' @ n) (map (css_kebab \<circ> fst) driverStatusColor)
    @ map (\<lambda>n. ''status-delivery-'' @ n) (map (css_kebab \<circ> fst) deliveryStatusColor)"
  by (simp add: css_statuses_def comp_def case_prod_beta)

lemma css_all_names: "map fst css_all = css_names"
proof -
  have "map fst css_typography @ map fst css_spacing @ map fst css_radius @ map fst css_shadows =
      [''font-sans'', ''font-mono'']
      @ map (\<lambda>n. ''font-size-'' @ n) [''xs'', ''sm'', ''base'', ''lg'', ''xl'', ''2xl'', ''3xl'']
      @ map (\<lambda>n. ''font-weight-'' @ n) [''body'', ''medium'', ''semibold'', ''emphasis'']
      @ map (\<lambda>n. ''line-height-'' @ n) [''body'', ''heading'']
      @ map (\<lambda>n. ''space-'' @ n) [''1'', ''2'', ''3'', ''4'', ''5'', ''6'', ''7'', ''8'']
      @ map (\<lambda>n. ''radius-'' @ n) [''control'', ''card'', ''modal'', ''pill'']
      @ map (\<lambda>n. ''shadow-'' @ n) [''sm'', ''md'', ''lg'']"
    by (simp add: css_typography_def css_spacing_def css_radius_def css_shadows_def typography_def spacing_def
        radius_def shadows_def kebab_plain)
  then show ?thesis
    unfolding css_all_def css_names_def map_append css_colors_names css_statuses_names kebab_colors
      kebab_driver_statuses kebab_delivery_statuses by simp
qed

lemma css_names_distinct: "distinct css_names"
  by (simp add: css_names_def)

text \<open>The lines of the stylesheet, read back.\<close>

lemma js_join_split:
  "xs \<noteq> [] \<Longrightarrow> (\<And>x. x \<in> set xs \<Longrightarrow> d \<notin> set x) \<Longrightarrow> js_split d (js_join [d] xs) = xs"
proof (induction xs)
  case (Cons x xs)
  show ?case
  proof (cases xs)
    case Nil
    then show ?thesis using Cons.prems by (simp add: js_join_def js_split_no_sep)
  next
    case (Cons y ys)
    have "js_join [d] (x # xs) = x @ d # js_join [d] xs" by (simp add: js_join_def Cons)
    then show ?thesis using Cons.prems(2) Cons.IH Cons by (simp add: js_split_append)
  qed
qed simp

lemma radix_digit_printable: "d < 16 \<Longrightarrow> radix_digit d \<noteq> CHR 10"
  by (auto simp: radix_digit_def char_code_def dest!: arg_cong [where f = char_code] split: if_splits)

lemma to_radix_one_line: "2 \<le> r \<Longrightarrow> r \<le> 16 \<Longrightarrow> CHR 10 \<notin> set (to_radix r n)"
proof
  assume r: "2 \<le> r" "r \<le> 16" and "CHR 10 \<in> set (to_radix r n)"
  then obtain d where "d < r" "CHR 10 = radix_digit d" using to_radix_chars [of r "CHR 10" n] by auto
  then show False using radix_digit_printable [of d] r by simp
qed

lemma nat_str_one_line: "CHR 10 \<notin> set (nat_str n)"
  by (simp add: nat_str_def to_radix_one_line)


definition one_line :: "string \<Rightarrow> bool" where
  "one_line s \<longleftrightarrow> CHR 10 \<notin> set s"

lemma one_line_simps [simp]:
  "one_line []" "one_line (c # cs) \<longleftrightarrow> c \<noteq> CHR 10 \<and> one_line cs" "one_line (s @ t) \<longleftrightarrow> one_line s \<and> one_line t"
  "one_line (nat_str n)"
  by (auto simp: one_line_def nat_str_one_line)

lemma names_one_line: "list_all one_line css_names"
  by (simp add: css_names_def)

lemma values_one_line: "list_all one_line (map snd css_all)"
proof -
  have "one_line (css_var (''color-'' @ css_kebab t))" if "(t, hex) \<in> set colors" for t hex
  proof -
    have "css_kebab t \<in> set (map (css_kebab \<circ> fst) colors)" using that by force
    then show ?thesis unfolding kebab_colors css_var_def by auto
  qed
  then have st: "list_all one_line (map snd css_statuses)"
    unfolding css_statuses_def list_all_iff by (auto dest!: status_colors simp del: one_line_simps)
  have "list_all one_line (map snd css_colors)"
    by (simp add: css_colors_def colors_def)
  moreover have "list_all one_line (map snd (css_typography @ css_spacing @ css_radius))"
    by (simp add: css_typography_def css_spacing_def css_radius_def typography_def spacing_def radius_def dec_str_def)
  moreover have "list_all one_line (map snd css_shadows)"
    by (simp add: css_shadows_def shadows_def shadowToCss_def Let_def dec_str_def)
  ultimately show ?thesis using st by (simp add: css_all_def)
qed

lemma decls_one_line: "(n, v) \<in> set css_all \<Longrightarrow> one_line (css_decl n v)"
proof -
  assume m: "(n, v) \<in> set css_all"
  then have "n \<in> set css_names" unfolding css_all_names [symmetric] by force
  then have "one_line n" using names_one_line by (simp add: list_all_iff)
  moreover have "one_line v" using m values_one_line by (force simp: list_all_iff)
  ultimately show ?thesis by (simp add: css_decl_def)
qed

lemma decls_part: "set xs \<subseteq> set css_all \<Longrightarrow> list_all one_line (map (\<lambda>(n, v). css_decl n v) xs)"
  using decls_one_line by (fastforce simp: list_all_iff)

lemma css_lines_one_line: "list_all one_line css_lines"
proof -
  have "set css_colors \<subseteq> set css_all" "set css_typography \<subseteq> set css_all" "set css_spacing \<subseteq> set css_all"
    "set css_radius \<subseteq> set css_all" "set css_shadows \<subseteq> set css_all" "set css_statuses \<subseteq> set css_all"
    by (auto simp: css_all_def)
  note parts = this [THEN decls_part]
  show ?thesis
    unfolding css_lines_def list_all_append by (intro conjI parts) simp_all
qed

lemma decl_in_sheet: "(n, v) \<in> set css_all \<Longrightarrow> css_decl n v \<in> set css_lines"
  unfolding css_lines_def css_all_def by auto

lemma sheet_lines: "js_split (CHR 10) toCss = css_lines"
proof -
  have "css_lines \<noteq> []" unfolding css_lines_def by blast
  then show ?thesis
    unfolding toCss_def using css_lines_one_line by (intro js_join_split) (auto simp: list_all_iff one_line_def)
qed

section \<open>Properties\<close>

text \<open>
  The stylesheet is well formed. Split at its line ends it is exactly the lines that were put
  in; no custom property is declared twice; every token of every table is declared with its value;
  and every status property refers to a colour property that the same sheet declares.
\<close>

theorem stylesheet_sound:
  "js_split (CHR 10) toCss = css_lines \<and> distinct (map fst css_all)
   \<and> list_all (\<lambda>(n, v). css_decl n v \<in> set css_lines) css_all
   \<and> list_all (\<lambda>(n, v). list_ex (\<lambda>(c, hex). v = css_var c) css_colors) css_statuses"
proof (intro conjI)
  show "js_split (CHR 10) toCss = css_lines"
    by (rule sheet_lines)
  show "distinct (map fst css_all)" unfolding css_all_names by (rule css_names_distinct)
  show "list_all (\<lambda>(n, v). css_decl n v \<in> set css_lines) css_all" using decl_in_sheet by (auto simp: list_all_iff)
  have "list_ex (\<lambda>(c, hex). css_var (''color-'' @ css_kebab t) = css_var c) css_colors" if "t \<in> fst ` set colors" for t
  proof -
    from that obtain hex where "(t, hex) \<in> set colors" by auto
    then have "(''color-'' @ css_kebab t, hex) \<in> set css_colors" by (force simp: css_colors_def)
    then show ?thesis unfolding list_ex_iff by blast
  qed
  then show "list_all (\<lambda>(n, v). list_ex (\<lambda>(c, hex). v = css_var c) css_colors) css_statuses"
    unfolding css_statuses_def list_all_iff by (auto dest!: status_colors)
qed

text \<open>
  Web and app show a status alike. For every status of a driver or a delivery there is one
  colour of the table that both generated files give it: the stylesheet declares the status as that
  colour's property and the property as its value, and the Dart file maps the status to the
  constant of that name and defines the constant as the same value.
\<close>

theorem platforms_agree:
  "list_all (\<lambda>(prefix, s, t). \<exists>hex. map_of colors t = Some hex
       \<and> css_decl (prefix @ css_kebab s) (css_var (''color-'' @ css_kebab t)) \<in> set (js_split (CHR 10) toCss)
       \<and> css_decl (''color-'' @ css_kebab t) hex \<in> set (js_split (CHR 10) toCss)
       \<and> ''  '' @ quoted s @ '': FleetColors.'' @ t @ '','' \<in> set dart_lines
       \<and> ''  static const Color '' @ t @ '' = Color(0xFF'' @ js_upper_ascii (strip_sharp hex) @ '');'' \<in> set dart_lines)
     (map (Pair ''status-driver-'') driverStatusColor @ map (Pair ''status-delivery-'') deliveryStatusColor)"
proof -
  have lines: "js_split (CHR 10) toCss = css_lines"
    by (rule sheet_lines)
  have color: "\<exists>hex. map_of colors t = Some hex \<and> css_decl (''color-'' @ css_kebab t) hex \<in> set css_lines
      \<and> ''  static const Color '' @ t @ '' = Color(0xFF'' @ js_upper_ascii (strip_sharp hex) @ '');'' \<in> set dart_lines"
    if "t \<in> fst ` set colors" for t
  proof -
    from that obtain hex where hex: "map_of colors t = Some hex" by (metis map_of_eq_None_iff not_None_eq)
    then have m: "(t, hex) \<in> set colors" by (rule map_of_SomeD)
    then have "(''color-'' @ css_kebab t, hex) \<in> set css_all" by (force simp: css_all_def css_colors_def)
    moreover have "''  static const Color '' @ t @ '' = Color(0xFF'' @ js_upper_ascii (strip_sharp hex) @ '');'' \<in> set dart_lines"
      unfolding dart_lines_def dartColor_def using m by force
    ultimately show ?thesis using hex decl_in_sheet by blast
  qed
  have driver: "css_decl (''status-driver-'' @ css_kebab s) (css_var (''color-'' @ css_kebab t)) \<in> set css_lines
      \<and> ''  '' @ quoted s @ '': FleetColors.'' @ t @ '','' \<in> set dart_lines" if "(s, t) \<in> set driverStatusColor" for s t
  proof -
    have "(''status-driver-'' @ css_kebab s, css_var (''color-'' @ css_kebab t)) \<in> set css_all"
      using that by (force simp: css_all_def css_statuses_def)
    moreover have "''  '' @ quoted s @ '': FleetColors.'' @ t @ '','' \<in> set (dart_status driverStatusColor)"
      using that by (force simp: dart_status_def statusKey_def)
    then have "''  '' @ quoted s @ '': FleetColors.'' @ t @ '','' \<in> set dart_lines"
      unfolding dart_lines_def set_append by blast
    ultimately show ?thesis using decl_in_sheet by blast
  qed
  have delivery: "css_decl (''status-delivery-'' @ css_kebab s) (css_var (''color-'' @ css_kebab t)) \<in> set css_lines
      \<and> ''  '' @ quoted s @ '': FleetColors.'' @ t @ '','' \<in> set dart_lines" if "(s, t) \<in> set deliveryStatusColor" for s t
  proof -
    have "(''status-delivery-'' @ css_kebab s, css_var (''color-'' @ css_kebab t)) \<in> set css_all"
      using that by (force simp: css_all_def css_statuses_def)
    moreover have "''  '' @ quoted s @ '': FleetColors.'' @ t @ '','' \<in> set (dart_status deliveryStatusColor)"
      using that by (force simp: dart_status_def statusKey_def)
    then have "''  '' @ quoted s @ '': FleetColors.'' @ t @ '','' \<in> set dart_lines"
      unfolding dart_lines_def set_append by blast
    ultimately show ?thesis using decl_in_sheet by blast
  qed
  show ?thesis
    unfolding lines list_all_append
  proof (intro conjI)
    show "list_all (\<lambda>(prefix, s, t). \<exists>hex. map_of colors t = Some hex
       \<and> css_decl (prefix @ css_kebab s) (css_var (''color-'' @ css_kebab t)) \<in> set css_lines
       \<and> css_decl (''color-'' @ css_kebab t) hex \<in> set css_lines
       \<and> ''  '' @ quoted s @ '': FleetColors.'' @ t @ '','' \<in> set dart_lines
       \<and> ''  static const Color '' @ t @ '' = Color(0xFF'' @ js_upper_ascii (strip_sharp hex) @ '');'' \<in> set dart_lines)
     (map (Pair ''status-driver-'') driverStatusColor)"
      unfolding list_all_iff using color [OF status_colors(1)] driver by (simp del: append.simps) blast
    show "list_all (\<lambda>(prefix, s, t). \<exists>hex. map_of colors t = Some hex
       \<and> css_decl (prefix @ css_kebab s) (css_var (''color-'' @ css_kebab t)) \<in> set css_lines
       \<and> css_decl (''color-'' @ css_kebab t) hex \<in> set css_lines
       \<and> ''  '' @ quoted s @ '': FleetColors.'' @ t @ '','' \<in> set dart_lines
       \<and> ''  static const Color '' @ t @ '' = Color(0xFF'' @ js_upper_ascii (strip_sharp hex) @ '');'' \<in> set dart_lines)
     (map (Pair ''status-delivery-'') deliveryStatusColor)"
      unfolding list_all_iff using color [OF status_colors(2)] delivery by (simp del: append.simps) blast
  qed
qed

end
