(* ===== verification/Theme.thy ===== *)
theory Theme
  imports Contracts Design_Tokens
begin

text \<open>
  The dashboard's theme: contrast of the colour pairings (\<open>theme/contrast.ts\<close>), references to the
  generated custom properties (\<open>theme/tokens.ts\<close>), the operator's palette (\<open>brand/palette.ts\<close>) and
  brand slots (\<open>brand/slots.ts\<close>). The network is a parameter: the outcome of the palette's fetch.
\<close>

section \<open>Model: contrast\<close>

definition WHITE :: string where
  "WHITE = ''#FFFFFF''"

datatype ContrastLevel = NormalText | LargeText

fun AA_THRESHOLD :: "ContrastLevel \<Rightarrow> real" where
  "AA_THRESHOLD NormalText = 4.5"
| "AA_THRESHOLD LargeText = 3"

text \<open>\<open>parseInt(s, 16)\<close>: white space, a sign and a prefix are skipped, then the longest run of digits counts.\<close>

definition parseInt16 :: "string \<Rightarrow> jsnum" where
  "parseInt16 s =
     (let t = dropWhile js_space s;
          neg = (t \<noteq> [] \<and> hd t = CHR ''-'');
          u = (if t \<noteq> [] \<and> (hd t = CHR ''-'' \<or> hd t = CHR ''+'') then tl t else t);
          w = (if starts_with u ''0x'' \<or> starts_with u ''0X'' then drop 2 u else u);
          digits = takeWhile (\<lambda>c. hex_val c \<noteq> None) w
      in if digits = [] then NaN else Fin ((if neg then - 1 else 1) * real (hex_pair digits)))"

definition hexToRgb :: "string \<Rightarrow> jsnum \<times> jsnum \<times> jsnum" where
  "hexToRgb hex =
     (let h0 = js_trim hex;
          h = (if h0 \<noteq> [] \<and> hd h0 = CHR ''#'' then tl h0 else h0);
          full = (if length h = 3 then concat (map (\<lambda>c. [c, c]) h) else h)
      in (parseInt16 (slice 0 2 full), parseInt16 (slice 2 4 full), parseInt16 (slice 4 6 full)))"

definition linear :: "real \<Rightarrow> real" where
  "linear channel8 =
     (let c = channel8 / 255
      in if c \<le> 0.03928 then c / 12.92 else ((c + 0.055) / 1.055) powr 2.4)"

fun linearize :: "jsnum \<Rightarrow> jsnum" where
  "linearize (Fin x) = Fin (linear x)"
| "linearize a = a"

definition relativeLuminance :: "string \<Rightarrow> jsnum" where
  "relativeLuminance hex = (case hexToRgb hex of (r, g, b) \<Rightarrow>
     Fin 0.2126 * linearize r + Fin 0.7152 * linearize g + Fin 0.0722 * linearize b)"

definition contrastRatio :: "string \<Rightarrow> string \<Rightarrow> jsnum" where
  "contrastRatio fg bg =
     (let l1 = relativeLuminance fg; l2 = relativeLuminance bg;
          lighter = js_max l1 l2; darker = js_min l1 l2
      in js_div (lighter + Fin 0.05) (darker + Fin 0.05))"

record ColorPair =
  cp_fg :: string
  cp_bg :: string
  cp_name :: string
  cp_level :: ContrastLevel

definition token_hex :: "string \<Rightarrow> string" where
  "token_hex t = or_else (map_of colors t) []"

definition color_pair :: "string \<Rightarrow> string \<Rightarrow> ContrastLevel \<Rightarrow> ColorPair" where
  "color_pair fg bg level =
     (let fgHex = (if fg = WHITE then WHITE else token_hex fg); fgName = (if fg = WHITE then ''white'' else fg)
      in \<lparr>cp_fg = fgHex, cp_bg = token_hex bg, cp_name = fgName @ '' on '' @ bg, cp_level = level\<rparr>)"

definition SURFACES :: "string list" where
  "SURFACES = [''bg'', ''surface'', ''surfaceAlt'']"

definition PILL_BACKGROUNDS :: "string list" where
  "PILL_BACKGROUNDS = [''primary'', ''accent'', ''success'', ''warning'', ''danger'', ''info'', ''textMuted'']"

definition FOREGROUND_ACCENTS :: "string list" where
  "FOREGROUND_ACCENTS = [''primary'', ''accent'', ''success'', ''warning'', ''danger'', ''info'']"

definition CONTRAST_PAIRS :: "ColorPair list" where
  "CONTRAST_PAIRS =
     map (\<lambda>s. color_pair ''text'' s NormalText) SURFACES
     @ map (\<lambda>s. color_pair ''textMuted'' s NormalText) SURFACES
     @ map (\<lambda>bg. color_pair ''bg'' bg NormalText) PILL_BACKGROUNDS
     @ concat (map (\<lambda>fg. map (\<lambda>s. color_pair fg s LargeText) SURFACES) FOREGROUND_ACCENTS)
     @ [color_pair WHITE ''primary'' LargeText, color_pair WHITE ''primaryHover'' LargeText,
        color_pair WHITE ''danger'' LargeText]"

section \<open>Model: references to the custom properties\<close>

definition theme_kebab :: "string \<Rightarrow> string" where
  "theme_kebab name = js_lower (split_camel name)"

definition color_ref :: "string \<Rightarrow> string" where
  "color_ref token = ''var(--color-'' @ theme_kebab token @ '')''"

definition space_ref :: "nat \<Rightarrow> string" where
  "space_ref step = ''var(--space-'' @ nat_str step @ '')''"

definition radiusVar :: "string \<Rightarrow> string" where
  "radiusVar name = ''var(--radius-'' @ name @ '')''"

definition shadow_ref :: "string \<Rightarrow> string" where
  "shadow_ref name = ''var(--shadow-'' @ name @ '')''"

definition fontSize_ref :: "string \<Rightarrow> string" where
  "fontSize_ref name = ''var(--font-size-'' @ name @ '')''"

definition driverStatusVar :: "string \<Rightarrow> string" where
  "driverStatusVar status = ''var(--status-driver-'' @ theme_kebab (dashed status) @ '')''"

definition deliveryStatusVar :: "string \<Rightarrow> string" where
  "deliveryStatusVar status = ''var(--status-delivery-'' @ theme_kebab (dashed status) @ '')''"

section \<open>Model: the operator's palette and brand slots\<close>

text \<open>A partial palette is whatever object was loaded, a resolved one has every token.\<close>

definition HEX_COLOR :: "string \<Rightarrow> bool" where
  "HEX_COLOR s \<longleftrightarrow> (case s of
      c # ds \<Rightarrow> c = CHR ''#'' \<and> length ds \<in> {3, 6, 8} \<and> list_all (\<lambda>d. hex_val d \<noteq> None) ds
    | [] \<Rightarrow> False)"

fun isHexColor :: "jsval \<Rightarrow> bool" where
  "isHexColor (Str s) = HEX_COLOR (js_trim s)"
| "isHexColor v = False"

definition override_value :: "jsval \<Rightarrow> string \<Rightarrow> string \<Rightarrow> string" where
  "override_value overrides t v = (case js_prop overrides t of
       Some (Str s) \<Rightarrow> if isHexColor (Str s) then js_trim s else v
     | _ \<Rightarrow> v)"

definition mergePalette :: "jsval \<Rightarrow> (string \<times> string) list" where
  "mergePalette overrides = map (\<lambda>(t, v). (t, override_value overrides t v)) colors"

definition colorVarName :: "string \<Rightarrow> string" where
  "colorVarName token = ''--color-'' @ theme_kebab token"

text \<open>The properties set on the root element, in order.\<close>

definition applyPaletteToDocument :: "(string \<times> string) list \<Rightarrow> (string \<times> string) list" where
  "applyPaletteToDocument resolved = map (\<lambda>(t, v). (colorVarName t, v)) resolved"

datatype FetchOutcome = FetchFails | FetchResponse bool string

definition loadPalette :: "FetchOutcome \<Rightarrow> jsval" where
  "loadPalette res = (case res of
      FetchFails \<Rightarrow> Obj []
    | FetchResponse ok body \<Rightarrow>
        if \<not> ok then Obj []
        else (case json_parse body of
            Some (Obj ps) \<Rightarrow> Obj ps
          | Some (Arr vs) \<Rightarrow> Arr vs
          | _ \<Rightarrow> Obj []))"

datatype SlotResolution = Asset string | Placeholder

definition resolveBrandSlot :: "string option \<Rightarrow> SlotResolution" where
  "resolveBrandSlot url = (case url of
      Some s \<Rightarrow> if js_trim s \<noteq> [] then Asset (js_trim s) else Placeholder
    | None \<Rightarrow> Placeholder)"

section \<open>Luminance of the tokens\<close>

text \<open>A power 2.4 is bounded by comparing fifth and twelfth powers.\<close>

lemma powr_twelve_fifths: "0 < x \<Longrightarrow> (x powr 2.4) ^ 5 = (x :: real) ^ 12"
proof -
  assume x: "0 < x"
  have "(x powr 2.4) ^ 5 = (x powr 2.4) powr real 5"
    using x by (intro powr_realpow [symmetric]) simp
  also have "\<dots> = x powr (2.4 * real 5)" by (rule powr_powr)
  also have "2.4 * real 5 = real 12" by simp
  also have "x powr real 12 = x ^ 12" using x by (rule powr_realpow)
  finally show ?thesis .
qed

lemma linear_between:
  assumes "0.03928 < v / 255" "0 \<le> lo" "lo ^ 5 \<le> ((v / 255 + 0.055) / 1.055) ^ 12"
    "((v / 255 + 0.055) / 1.055) ^ 12 \<le> hi ^ 5" "0 \<le> hi"
  shows "linear v \<in> {lo .. hi}"
proof -
  define x where "x = (v / 255 + 0.055) / 1.055"
  have "0 < v / 255" by (rule less_trans [OF _ assms(1)]) simp
  then have x: "0 < x" by (simp add: x_def add_pos_pos)
  have eq: "linear v = x powr 2.4" using assms(1) by (simp add: linear_def x_def Let_def)
  have "lo ^ 5 \<le> (x powr 2.4) ^ 5" "(x powr 2.4) ^ 5 \<le> hi ^ 5"
    unfolding powr_twelve_fifths [OF x] using assms(3,4) by (simp_all only: x_def)
  then have "lo \<le> x powr 2.4" "x powr 2.4 \<le> hi"
    using assms(2,5) by (auto intro: power_le_imp_le_base [of _ 4])
  then show ?thesis by (simp add: eq)
qed

lemma linear_7: "linear 7 = 35 / 16473"
  by (simp add: linear_def)

lemma linear_10: "linear 10 = 50 / 16473"
  by (simp add: linear_def)

lemma linear_bounds:
  "linear 17 \<in> {5 / 1000 .. 6 / 1000}"
  "linear 21 \<in> {7 / 1000 .. 8 / 1000}"
  "linear 22 \<in> {8 / 1000 .. 9 / 1000}"
  "linear 26 \<in> {10 / 1000 .. 11 / 1000}"
  "linear 32 \<in> {14 / 1000 .. 15 / 1000}"
  "linear 46 \<in> {27 / 1000 .. 28 / 1000}"
  "linear 63 \<in> {49 / 1000 .. 50 / 1000}"
  "linear 66 \<in> {54 / 1000 .. 55 / 1000}"
  "linear 71 \<in> {63 / 1000 .. 64 / 1000}"
  "linear 76 \<in> {72 / 1000 .. 73 / 1000}"
  "linear 87 \<in> {95 / 1000 .. 96 / 1000}"
  "linear 88 \<in> {97 / 1000 .. 98 / 1000}"
  "linear 106 \<in> {144 / 1000 .. 145 / 1000}"
  "linear 114 \<in> {168 / 1000 .. 169 / 1000}"
  "linear 124 \<in> {201 / 1000 .. 202 / 1000}"
  "linear 132 \<in> {230 / 1000 .. 231 / 1000}"
  "linear 143 \<in> {274 / 1000 .. 275 / 1000}"
  "linear 154 \<in> {323 / 1000 .. 324 / 1000}"
  "linear 160 \<in> {351 / 1000 .. 352 / 1000}"
  "linear 162 \<in> {361 / 1000 .. 362 / 1000}"
  "linear 166 \<in> {381 / 1000 .. 382 / 1000}"
  "linear 180 \<in> {456 / 1000 .. 457 / 1000}"
  "linear 204 \<in> {603 / 1000 .. 604 / 1000}"
  "linear 214 \<in> {672 / 1000 .. 673 / 1000}"
  "linear 224 \<in> {745 / 1000 .. 746 / 1000}"
  "linear 230 \<in> {791 / 1000 .. 792 / 1000}"
  "linear 236 \<in> {838 / 1000 .. 839 / 1000}"
  "linear 238 \<in> {854 / 1000 .. 855 / 1000}"
  "linear 239 \<in> {863 / 1000 .. 864 / 1000}"
  "linear 242 \<in> {887 / 1000 .. 888 / 1000}"
  "linear 250 \<in> {955 / 1000 .. 956 / 1000}"
  "linear 251 \<in> {964 / 1000 .. 965 / 1000}"
  by (rule linear_between; simp add: power_divide)+

lemma hexToRgb_tokens [simp]:
  "hexToRgb ''#070A16'' = (Fin 7, Fin 10, Fin 22)"
  "hexToRgb ''#11152E'' = (Fin 17, Fin 21, Fin 46)"
  "hexToRgb ''#1A2042'' = (Fin 26, Fin 32, Fin 66)"
  "hexToRgb ''#ECEEFA'' = (Fin 236, Fin 238, Fin 250)"
  "hexToRgb ''#9AA2CC'' = (Fin 154, Fin 162, Fin 204)"
  "hexToRgb ''#7C84F2'' = (Fin 124, Fin 132, Fin 242)"
  "hexToRgb ''#6A72E6'' = (Fin 106, Fin 114, Fin 230)"
  "hexToRgb ''#58D6F2'' = (Fin 88, Fin 214, Fin 242)"
  "hexToRgb ''#3FE0A0'' = (Fin 63, Fin 224, Fin 160)"
  "hexToRgb ''#ECA64C'' = (Fin 236, Fin 166, Fin 76)"
  "hexToRgb ''#EF4757'' = (Fin 239, Fin 71, Fin 87)"
  "hexToRgb ''#8FB4FB'' = (Fin 143, Fin 180, Fin 251)"
  "hexToRgb ''#FFFFFF'' = (Fin 255, Fin 255, Fin 255)"
  by (simp_all add: hexToRgb_def parseInt16_def slice_def hex_pair_def hex_val_def js_trim_def js_space_def
      char_code_def Let_def)

lemma luminance_between:
  assumes "hexToRgb h = (Fin r, Fin g, Fin b)" "linear r \<in> {r1 .. r2}" "linear g \<in> {g1 .. g2}" "linear b \<in> {b1 .. b2}"
    "lo \<le> 0.2126 * r1 + 0.7152 * g1 + 0.0722 * b1" "0.2126 * r2 + 0.7152 * g2 + 0.0722 * b2 \<le> hi"
  shows "\<exists>l. relativeLuminance h = Fin l \<and> lo \<le> l \<and> l \<le> hi"
  using assms by (simp add: relativeLuminance_def)

lemma linear_low:
  "linear 7 \<in> {35 / 16473 .. 35 / 16473}" "linear 10 \<in> {50 / 16473 .. 50 / 16473}" "linear 255 \<in> {1 .. 1}"
  by (simp_all add: linear_7 linear_10) (simp add: linear_def)

lemma token_luminances:
  "\<exists>l. relativeLuminance ''#070A16'' = Fin l \<and> 3 / 1000 \<le> l \<and> l \<le> 4 / 1000"
  "\<exists>l. relativeLuminance ''#11152E'' = Fin l \<and> 8 / 1000 \<le> l \<and> l \<le> 10 / 1000"
  "\<exists>l. relativeLuminance ''#1A2042'' = Fin l \<and> 16 / 1000 \<le> l \<and> l \<le> 18 / 1000"
  "\<exists>l. relativeLuminance ''#ECEEFA'' = Fin l \<and> 857 / 1000 \<le> l \<and> l \<le> 859 / 1000"
  "\<exists>l. relativeLuminance ''#9AA2CC'' = Fin l \<and> 370 / 1000 \<le> l \<and> l \<le> 372 / 1000"
  "\<exists>l. relativeLuminance ''#7C84F2'' = Fin l \<and> 271 / 1000 \<le> l \<and> l \<le> 273 / 1000"
  "\<exists>l. relativeLuminance ''#6A72E6'' = Fin l \<and> 207 / 1000 \<le> l \<and> l \<le> 209 / 1000"
  "\<exists>l. relativeLuminance ''#58D6F2'' = Fin l \<and> 565 / 1000 \<le> l \<and> l \<le> 567 / 1000"
  "\<exists>l. relativeLuminance ''#3FE0A0'' = Fin l \<and> 568 / 1000 \<le> l \<and> l \<le> 570 / 1000"
  "\<exists>l. relativeLuminance ''#ECA64C'' = Fin l \<and> 455 / 1000 \<le> l \<and> l \<le> 457 / 1000"
  "\<exists>l. relativeLuminance ''#EF4757'' = Fin l \<and> 235 / 1000 \<le> l \<and> l \<le> 237 / 1000"
  "\<exists>l. relativeLuminance ''#8FB4FB'' = Fin l \<and> 453 / 1000 \<le> l \<and> l \<le> 455 / 1000"
  "\<exists>l. relativeLuminance ''#FFFFFF'' = Fin l \<and> 1000 / 1000 \<le> l \<and> l \<le> 1000 / 1000"
  subgoal by (rule luminance_between [OF hexToRgb_tokens(1) linear_low(1) linear_low(2) linear_bounds(3)]; simp)
  subgoal by (rule luminance_between [OF hexToRgb_tokens(2) linear_bounds(1) linear_bounds(2) linear_bounds(6)]; simp)
  subgoal by (rule luminance_between [OF hexToRgb_tokens(3) linear_bounds(4) linear_bounds(5) linear_bounds(8)]; simp)
  subgoal by (rule luminance_between [OF hexToRgb_tokens(4) linear_bounds(27) linear_bounds(28) linear_bounds(31)]; simp)
  subgoal by (rule luminance_between [OF hexToRgb_tokens(5) linear_bounds(18) linear_bounds(20) linear_bounds(23)]; simp)
  subgoal by (rule luminance_between [OF hexToRgb_tokens(6) linear_bounds(15) linear_bounds(16) linear_bounds(30)]; simp)
  subgoal by (rule luminance_between [OF hexToRgb_tokens(7) linear_bounds(13) linear_bounds(14) linear_bounds(26)]; simp)
  subgoal by (rule luminance_between [OF hexToRgb_tokens(8) linear_bounds(12) linear_bounds(24) linear_bounds(30)]; simp)
  subgoal by (rule luminance_between [OF hexToRgb_tokens(9) linear_bounds(7) linear_bounds(25) linear_bounds(19)]; simp)
  subgoal by (rule luminance_between [OF hexToRgb_tokens(10) linear_bounds(27) linear_bounds(21) linear_bounds(10)]; simp)
  subgoal by (rule luminance_between [OF hexToRgb_tokens(11) linear_bounds(29) linear_bounds(9) linear_bounds(11)]; simp)
  subgoal by (rule luminance_between [OF hexToRgb_tokens(12) linear_bounds(17) linear_bounds(22) linear_bounds(32)]; simp)
  subgoal by (rule luminance_between [OF hexToRgb_tokens(13) linear_low(3) linear_low(3) linear_low(3)]; simp)
  done

text \<open>A pairing is readable when its ratio is a number not below the threshold of its level.\<close>

definition readable :: "string \<Rightarrow> string \<Rightarrow> ContrastLevel \<Rightarrow> bool" where
  "readable fg bg level \<longleftrightarrow> (case contrastRatio fg bg of Fin r \<Rightarrow> AA_THRESHOLD level \<le> r | _ \<Rightarrow> False)"

lemma lighter_readable:
  assumes "\<exists>a. relativeLuminance f = Fin a \<and> flo \<le> a \<and> a \<le> fhi"
    "\<exists>c. relativeLuminance b = Fin c \<and> blo \<le> c \<and> c \<le> bhi"
    "0 \<le> blo" "bhi \<le> flo" "AA_THRESHOLD level * (bhi + 0.05) \<le> flo + 0.05"
  shows "readable f b level"
proof -
  from assms obtain a c where a: "relativeLuminance f = Fin a" "flo \<le> a"
    and c: "relativeLuminance b = Fin c" "blo \<le> c" "c \<le> bhi" by blast
  have "AA_THRESHOLD level * (c + 0.05) \<le> AA_THRESHOLD level * (bhi + 0.05)"
    using c by (intro mult_left_mono) (cases level; simp)+
  then have "AA_THRESHOLD level * (c + 0.05) \<le> a + 0.05" using assms(5) a by linarith
  moreover have "0 < c + 0.05" using c assms(3) by simp
  moreover have "c \<le> a" using assms(4) a c by linarith
  ultimately show ?thesis
    by (simp add: readable_def contrastRatio_def a c Let_def max_absorb1 min_absorb2 le_divide_eq)
qed

lemma contrastRatio_sym: "contrastRatio f b = contrastRatio b f"
proof -
  have "js_lt x y \<Longrightarrow> \<not> js_lt y x" for x y by (cases x; cases y) auto
  moreover have "x \<noteq> NaN \<Longrightarrow> y \<noteq> NaN \<Longrightarrow> js_lt x y \<or> x = y \<or> js_lt y x" for x y by (cases x; cases y) auto
  ultimately have "js_max x y = js_max y x" "js_min x y = js_min y x" for x y
    by (auto simp: js_max_def js_min_def is_nan_def)
  then show ?thesis by (simp add: contrastRatio_def Let_def)
qed

lemma darker_readable:
  assumes "\<exists>a. relativeLuminance f = Fin a \<and> flo \<le> a \<and> a \<le> fhi"
    "\<exists>c. relativeLuminance b = Fin c \<and> blo \<le> c \<and> c \<le> bhi"
    "0 \<le> flo" "fhi \<le> blo" "AA_THRESHOLD level * (fhi + 0.05) \<le> blo + 0.05"
  shows "readable f b level"
  using lighter_readable [OF assms(2,1,3,4,5)] by (simp add: readable_def contrastRatio_sym [of f])

lemma contrast_pairs_eq:
  "map (\<lambda>p. (cp_fg p, cp_bg p, cp_level p)) CONTRAST_PAIRS =
    [(''#ECEEFA'', ''#070A16'', NormalText),
     (''#ECEEFA'', ''#11152E'', NormalText),
     (''#ECEEFA'', ''#1A2042'', NormalText),
     (''#9AA2CC'', ''#070A16'', NormalText),
     (''#9AA2CC'', ''#11152E'', NormalText),
     (''#9AA2CC'', ''#1A2042'', NormalText),
     (''#070A16'', ''#7C84F2'', NormalText),
     (''#070A16'', ''#58D6F2'', NormalText),
     (''#070A16'', ''#3FE0A0'', NormalText),
     (''#070A16'', ''#ECA64C'', NormalText),
     (''#070A16'', ''#EF4757'', NormalText),
     (''#070A16'', ''#8FB4FB'', NormalText),
     (''#070A16'', ''#9AA2CC'', NormalText),
     (''#7C84F2'', ''#070A16'', LargeText),
     (''#7C84F2'', ''#11152E'', LargeText),
     (''#7C84F2'', ''#1A2042'', LargeText),
     (''#58D6F2'', ''#070A16'', LargeText),
     (''#58D6F2'', ''#11152E'', LargeText),
     (''#58D6F2'', ''#1A2042'', LargeText),
     (''#3FE0A0'', ''#070A16'', LargeText),
     (''#3FE0A0'', ''#11152E'', LargeText),
     (''#3FE0A0'', ''#1A2042'', LargeText),
     (''#ECA64C'', ''#070A16'', LargeText),
     (''#ECA64C'', ''#11152E'', LargeText),
     (''#ECA64C'', ''#1A2042'', LargeText),
     (''#EF4757'', ''#070A16'', LargeText),
     (''#EF4757'', ''#11152E'', LargeText),
     (''#EF4757'', ''#1A2042'', LargeText),
     (''#8FB4FB'', ''#070A16'', LargeText),
     (''#8FB4FB'', ''#11152E'', LargeText),
     (''#8FB4FB'', ''#1A2042'', LargeText),
     (''#FFFFFF'', ''#7C84F2'', LargeText),
     (''#FFFFFF'', ''#6A72E6'', LargeText),
     (''#FFFFFF'', ''#EF4757'', LargeText)]"
  by (simp add: CONTRAST_PAIRS_def SURFACES_def PILL_BACKGROUNDS_def FOREGROUND_ACCENTS_def color_pair_def
      token_hex_def colors_def WHITE_def)

lemma pairs_readable:
  "readable ''#ECEEFA'' ''#070A16'' NormalText"
  "readable ''#ECEEFA'' ''#11152E'' NormalText"
  "readable ''#ECEEFA'' ''#1A2042'' NormalText"
  "readable ''#9AA2CC'' ''#070A16'' NormalText"
  "readable ''#9AA2CC'' ''#11152E'' NormalText"
  "readable ''#9AA2CC'' ''#1A2042'' NormalText"
  "readable ''#070A16'' ''#7C84F2'' NormalText"
  "readable ''#070A16'' ''#58D6F2'' NormalText"
  "readable ''#070A16'' ''#3FE0A0'' NormalText"
  "readable ''#070A16'' ''#ECA64C'' NormalText"
  "readable ''#070A16'' ''#EF4757'' NormalText"
  "readable ''#070A16'' ''#8FB4FB'' NormalText"
  "readable ''#070A16'' ''#9AA2CC'' NormalText"
  "readable ''#7C84F2'' ''#070A16'' LargeText"
  "readable ''#7C84F2'' ''#11152E'' LargeText"
  "readable ''#7C84F2'' ''#1A2042'' LargeText"
  "readable ''#58D6F2'' ''#070A16'' LargeText"
  "readable ''#58D6F2'' ''#11152E'' LargeText"
  "readable ''#58D6F2'' ''#1A2042'' LargeText"
  "readable ''#3FE0A0'' ''#070A16'' LargeText"
  "readable ''#3FE0A0'' ''#11152E'' LargeText"
  "readable ''#3FE0A0'' ''#1A2042'' LargeText"
  "readable ''#ECA64C'' ''#070A16'' LargeText"
  "readable ''#ECA64C'' ''#11152E'' LargeText"
  "readable ''#ECA64C'' ''#1A2042'' LargeText"
  "readable ''#EF4757'' ''#070A16'' LargeText"
  "readable ''#EF4757'' ''#11152E'' LargeText"
  "readable ''#EF4757'' ''#1A2042'' LargeText"
  "readable ''#8FB4FB'' ''#070A16'' LargeText"
  "readable ''#8FB4FB'' ''#11152E'' LargeText"
  "readable ''#8FB4FB'' ''#1A2042'' LargeText"
  "readable ''#FFFFFF'' ''#7C84F2'' LargeText"
  "readable ''#FFFFFF'' ''#6A72E6'' LargeText"
  "readable ''#FFFFFF'' ''#EF4757'' LargeText"
  subgoal by (rule lighter_readable [OF token_luminances(4) token_luminances(1)]; simp)
  subgoal by (rule lighter_readable [OF token_luminances(4) token_luminances(2)]; simp)
  subgoal by (rule lighter_readable [OF token_luminances(4) token_luminances(3)]; simp)
  subgoal by (rule lighter_readable [OF token_luminances(5) token_luminances(1)]; simp)
  subgoal by (rule lighter_readable [OF token_luminances(5) token_luminances(2)]; simp)
  subgoal by (rule lighter_readable [OF token_luminances(5) token_luminances(3)]; simp)
  subgoal by (rule darker_readable [OF token_luminances(1) token_luminances(6)]; simp)
  subgoal by (rule darker_readable [OF token_luminances(1) token_luminances(8)]; simp)
  subgoal by (rule darker_readable [OF token_luminances(1) token_luminances(9)]; simp)
  subgoal by (rule darker_readable [OF token_luminances(1) token_luminances(10)]; simp)
  subgoal by (rule darker_readable [OF token_luminances(1) token_luminances(11)]; simp)
  subgoal by (rule darker_readable [OF token_luminances(1) token_luminances(12)]; simp)
  subgoal by (rule darker_readable [OF token_luminances(1) token_luminances(5)]; simp)
  subgoal by (rule lighter_readable [OF token_luminances(6) token_luminances(1)]; simp)
  subgoal by (rule lighter_readable [OF token_luminances(6) token_luminances(2)]; simp)
  subgoal by (rule lighter_readable [OF token_luminances(6) token_luminances(3)]; simp)
  subgoal by (rule lighter_readable [OF token_luminances(8) token_luminances(1)]; simp)
  subgoal by (rule lighter_readable [OF token_luminances(8) token_luminances(2)]; simp)
  subgoal by (rule lighter_readable [OF token_luminances(8) token_luminances(3)]; simp)
  subgoal by (rule lighter_readable [OF token_luminances(9) token_luminances(1)]; simp)
  subgoal by (rule lighter_readable [OF token_luminances(9) token_luminances(2)]; simp)
  subgoal by (rule lighter_readable [OF token_luminances(9) token_luminances(3)]; simp)
  subgoal by (rule lighter_readable [OF token_luminances(10) token_luminances(1)]; simp)
  subgoal by (rule lighter_readable [OF token_luminances(10) token_luminances(2)]; simp)
  subgoal by (rule lighter_readable [OF token_luminances(10) token_luminances(3)]; simp)
  subgoal by (rule lighter_readable [OF token_luminances(11) token_luminances(1)]; simp)
  subgoal by (rule lighter_readable [OF token_luminances(11) token_luminances(2)]; simp)
  subgoal by (rule lighter_readable [OF token_luminances(11) token_luminances(3)]; simp)
  subgoal by (rule lighter_readable [OF token_luminances(12) token_luminances(1)]; simp)
  subgoal by (rule lighter_readable [OF token_luminances(12) token_luminances(2)]; simp)
  subgoal by (rule lighter_readable [OF token_luminances(12) token_luminances(3)]; simp)
  subgoal by (rule lighter_readable [OF token_luminances(13) token_luminances(6)]; simp)
  subgoal by (rule lighter_readable [OF token_luminances(13) token_luminances(7)]; simp)
  subgoal by (rule lighter_readable [OF token_luminances(13) token_luminances(11)]; simp)
  done


section \<open>Palettes\<close>

lemma theme_kebab_colors: "map (theme_kebab \<circ> fst) colors = map (css_kebab \<circ> fst) colors"
  by (simp add: colors_def theme_kebab_def kebab_defs)

lemma default_colors_hex: "list_all (\<lambda>(t, v). HEX_COLOR v \<and> js_trim v = v) colors"
  by (simp add: colors_def HEX_COLOR_def hex_val_def js_trim_def js_space_def char_code_def Let_def)

lemma merged_names: "map fst (mergePalette overrides) = map fst colors"
  by (simp add: mergePalette_def comp_def case_prod_beta)

lemma applied_names:
  "map fst (applyPaletteToDocument resolved) = map (\<lambda>t. ''--color-'' @ theme_kebab t) (map fst resolved)"
  by (simp add: applyPaletteToDocument_def colorVarName_def comp_def case_prod_beta)

lemma merged_values: "list_all HEX_COLOR (map snd (mergePalette overrides))"
proof -
  have "HEX_COLOR (override_value overrides t v)" if "HEX_COLOR v" for t v
    using that by (auto simp: override_value_def split: option.split jsval.split)
  then show ?thesis using default_colors_hex by (auto simp: mergePalette_def list_all_iff)
qed

lemma loadPalette_object: "js_prop (loadPalette res) t \<noteq> None"
  by (auto simp: loadPalette_def js_prop_def split: FetchOutcome.split option.split jsval.split)

section \<open>Properties\<close>

text \<open>
  C34. Accessible colours. Every pairing the dashboard declares reaches the contrast ratio of its
  level: 4.5 for normal text, 3 for large text and graphical marks.
\<close>

theorem contrast_pairs_AA:
  "list_all (\<lambda>p. case contrastRatio (cp_fg p) (cp_bg p) of
      Fin r \<Rightarrow> AA_THRESHOLD (cp_level p) \<le> r | _ \<Rightarrow> False) CONTRAST_PAIRS"
proof -
  have "list_all (\<lambda>(f, b, l). readable f b l) (map (\<lambda>p. (cp_fg p, cp_bg p, cp_level p)) CONTRAST_PAIRS)"
    unfolding contrast_pairs_eq by (simp add: pairs_readable)
  then show ?thesis by (simp add: list_all_iff readable_def)
qed

text \<open>
  C35. A palette never breaks the page. Whatever the fetch of the operator's palette comes to (an
  error, a failing status, a body that is no JSON or of any other shape), exactly the colour
  properties of the generated stylesheet are set, in its order, each to a hex colour; a token is
  overridden exactly when the loaded object has a hex colour for it.
\<close>

theorem palette_never_breaks:
  "map fst (applyPaletteToDocument (mergePalette (loadPalette res))) = map (\<lambda>(n, v). ''--'' @ n) css_colors
   \<and> list_all HEX_COLOR (map snd (applyPaletteToDocument (mergePalette (loadPalette res))))
   \<and> list_all (\<lambda>(t, v). map_of (mergePalette (loadPalette res)) t =
        Some (case js_prop (loadPalette res) t of
            Some (Str s) \<Rightarrow> if HEX_COLOR (js_trim s) then js_trim s else v | _ \<Rightarrow> v)) colors"
proof (intro conjI)
  have "map (\<lambda>t. ''--color-'' @ theme_kebab t) (map fst colors) = map (\<lambda>n. ''--color-'' @ n) (map (theme_kebab \<circ> fst) colors)"
    by (simp add: comp_def)
  also have "\<dots> = map (\<lambda>(n, v). ''--'' @ n) css_colors"
    unfolding theme_kebab_colors by (simp add: css_colors_def comp_def case_prod_beta)
  finally show "map fst (applyPaletteToDocument (mergePalette (loadPalette res))) = map (\<lambda>(n, v). ''--'' @ n) css_colors"
    unfolding applied_names merged_names .
  show "list_all HEX_COLOR (map snd (applyPaletteToDocument (mergePalette (loadPalette res))))"
    using merged_values [of "loadPalette res"] by (simp add: applyPaletteToDocument_def comp_def case_prod_beta)
  have "distinct (map fst colors)" by (simp add: colors_def)
  moreover have "map fst (mergePalette (loadPalette res)) = map fst colors" by (rule merged_names)
  ultimately have "distinct (map fst (mergePalette (loadPalette res)))" by simp
  then have "map_of (mergePalette (loadPalette res)) t = Some (override_value (loadPalette res) t v)"
    if "(t, v) \<in> set colors" for t v
    using that by (intro map_of_is_SomeI) (force simp: mergePalette_def)+
  then show "list_all (\<lambda>(t, v). map_of (mergePalette (loadPalette res)) t =
        Some (case js_prop (loadPalette res) t of
            Some (Str s) \<Rightarrow> if HEX_COLOR (js_trim s) then js_trim s else v | _ \<Rightarrow> v)) colors"
    unfolding list_all_iff override_value_def isHexColor.simps by blast
qed

text \<open>
  Every reference of the theme resolves. Each colour token, spacing step, radius, shadow and font
  size, and each status of the wire contracts, is referenced by a custom property that the
  generated stylesheet declares.
\<close>

theorem theme_references_declared:
  "list_all (\<lambda>ref. ref \<in> css_var ` set (map fst css_all))
     (map (color_ref \<circ> fst) colors @ map space_ref [1..<9] @ map (radiusVar \<circ> fst) radius
      @ map (shadow_ref \<circ> fst) shadows @ map (fontSize_ref \<circ> fst) (ty_fontSize typography)
      @ map (driverStatusVar \<circ> driver_status_wire) all_driver_statuses
      @ map (deliveryStatusVar \<circ> delivery_status_wire) all_delivery_statuses)"
proof -
  define names where "names =
     map (\<lambda>n. ''color-'' @ n) (map (theme_kebab \<circ> fst) colors) @ map (\<lambda>n. ''space-'' @ n) (map nat_str [1..<9])
     @ map (\<lambda>n. ''radius-'' @ n) (map fst radius) @ map (\<lambda>n. ''shadow-'' @ n) (map fst shadows)
     @ map (\<lambda>n. ''font-size-'' @ n) (map fst (ty_fontSize typography))
     @ map (\<lambda>n. ''status-driver-'' @ n) (map (css_kebab \<circ> fst) driverStatusColor)
     @ map (\<lambda>n. ''status-delivery-'' @ n) (map (css_kebab \<circ> fst) deliveryStatusColor)"
  have wires: "map driver_status_wire all_driver_statuses = map fst driverStatusColor"
    "map delivery_status_wire all_delivery_statuses = map fst deliveryStatusColor"
    by (simp_all add: all_driver_statuses_def driverStatusColor_def all_delivery_statuses_def deliveryStatusColor_def)
  have statuses: "map (driverStatusVar \<circ> driver_status_wire) all_driver_statuses =
        map (css_var \<circ> (@) ''status-driver-'') (map (css_kebab \<circ> fst) driverStatusColor)"
    "map (deliveryStatusVar \<circ> delivery_status_wire) all_delivery_statuses =
        map (css_var \<circ> (@) ''status-delivery-'') (map (css_kebab \<circ> fst) deliveryStatusColor)"
    unfolding map_map [symmetric] wires
    by (simp_all add: driverStatusVar_def deliveryStatusVar_def css_var_def css_kebab_def theme_kebab_def)
  have "map (color_ref \<circ> fst) colors @ map space_ref [1..<9] @ map (radiusVar \<circ> fst) radius
      @ map (shadow_ref \<circ> fst) shadows @ map (fontSize_ref \<circ> fst) (ty_fontSize typography)
      @ map (driverStatusVar \<circ> driver_status_wire) all_driver_statuses
      @ map (deliveryStatusVar \<circ> delivery_status_wire) all_delivery_statuses = map css_var names"
    unfolding names_def statuses
    by (simp add: color_ref_def space_ref_def radiusVar_def shadow_ref_def fontSize_ref_def css_var_def del: upt_conv_Cons upt_rec_numeral)
  moreover have "set names \<subseteq> set css_names"
  proof -
    have "map nat_str [1..<9] = [''1'', ''2'', ''3'', ''4'', ''5'', ''6'', ''7'', ''8'']"
      by (simp add: upt_rec nat_str_def to_radix.simps radix_digit_def char_of_eq_iff)
    moreover have "map fst radius = [''control'', ''card'', ''modal'', ''pill'']" by (simp add: radius_def)
    moreover have "map fst shadows = [''sm'', ''md'', ''lg'']" by (simp add: shadows_def)
    moreover have "map fst (ty_fontSize typography) = [''xs'', ''sm'', ''base'', ''lg'', ''xl'', ''2xl'', ''3xl'']"
      by (simp add: typography_def)
    ultimately have names: "names =
       map (\<lambda>n. ''color-'' @ n) (map (css_kebab \<circ> fst) colors)
       @ map (\<lambda>n. ''space-'' @ n) [''1'', ''2'', ''3'', ''4'', ''5'', ''6'', ''7'', ''8'']
       @ map (\<lambda>n. ''radius-'' @ n) [''control'', ''card'', ''modal'', ''pill'']
       @ map (\<lambda>n. ''shadow-'' @ n) [''sm'', ''md'', ''lg'']
       @ map (\<lambda>n. ''font-size-'' @ n) [''xs'', ''sm'', ''base'', ''lg'', ''xl'', ''2xl'', ''3xl'']
       @ map (\<lambda>n. ''status-driver-'' @ n) (map (css_kebab \<circ> fst) driverStatusColor)
       @ map (\<lambda>n. ''status-delivery-'' @ n) (map (css_kebab \<circ> fst) deliveryStatusColor)"
      unfolding names_def theme_kebab_colors by simp
    show ?thesis
      unfolding names kebab_colors kebab_driver_statuses kebab_delivery_statuses css_names_def set_append by blast
  qed
  ultimately show ?thesis
    unfolding css_all_names by (auto simp: list_all_iff)
qed

end
