(* ===== verification/Components.thy ===== *)
theory Components
  imports React_View Theme Socket_Client
begin

text \<open>
  The building blocks of the dashboard (\<open>components/*.tsx\<close> but the table and the toasts). A
  component with state takes the state and its setters, which make actions; the properties it does
  not name itself (\<open>...rest\<close>) are an attribute list. Number printing and the local time are
  parameters.
\<close>

section \<open>Badge\<close>

datatype BadgeTone = ToneNeutral | TonePrimary | ToneAccent | ToneSuccess | ToneWarning | ToneDanger | ToneInfo

fun TONE_VAR :: "BadgeTone \<Rightarrow> string" where
  "TONE_VAR ToneNeutral = ''var(--color-text-muted)''"
| "TONE_VAR TonePrimary = ''var(--color-primary)''"
| "TONE_VAR ToneAccent = ''var(--color-accent)''"
| "TONE_VAR ToneSuccess = ''var(--color-success)''"
| "TONE_VAR ToneWarning = ''var(--color-warning)''"
| "TONE_VAR ToneDanger = ''var(--color-danger)''"
| "TONE_VAR ToneInfo = ''var(--color-info)''"

record BadgeProps =
  bp_tone :: "BadgeTone option"
  bp_driverStatus :: "string option"
  bp_deliveryStatus :: "string option"
  bp_subtle :: bool
  bp_style :: style

definition resolveColor :: "BadgeProps \<Rightarrow> string" where
  "resolveColor props =
     (if truthy (bp_driverStatus props) then driverStatusVar (the (bp_driverStatus props))
      else if truthy (bp_deliveryStatus props) then deliveryStatusVar (the (bp_deliveryStatus props))
      else TONE_VAR (or_else (bp_tone props) ToneNeutral))"

definition badge_base :: style where
  "badge_base =
    [(''display'', Css ''inline-flex''), (''alignItems'', Css ''center''), (''gap'', Css ''var(--space-1)''),
     (''height'', Dim 22), (''padding'', Css ''0 var(--space-2)''), (''borderRadius'', Css ''var(--radius-pill)''),
     (''fontFamily'', Css ''var(--font-sans)''), (''fontSize'', Css ''var(--font-size-xs)''), (''fontWeight'', Dim 600),
     (''lineHeight'', Dim 1), (''whiteSpace'', Css ''nowrap'')]"

definition badge_skin :: "bool \<Rightarrow> string \<Rightarrow> style" where
  "badge_skin subtle c =
     (if subtle
      then [(''background'', Css (''color-mix(in srgb, '' @ c @ '' 18%, transparent)'')), (''color'', Css c),
            (''border'', Css (''1px solid color-mix(in srgb, '' @ c @ '' 40%, transparent)''))]
      else [(''background'', Css c), (''color'', Css ''var(--color-bg)'')])"

definition Badge :: "BadgeProps \<Rightarrow> 'a node list \<Rightarrow> 'a node" where
  "Badge props children =
     Elem ''span'' [Style (spread_styles [badge_base, badge_skin (bp_subtle props) (resolveColor props), bp_style props])] children"

text \<open>The two uses the console makes of it.\<close>

definition driver_badge :: "string \<Rightarrow> 'a node" where
  "driver_badge status = Badge \<lparr>bp_tone = None, bp_driverStatus = Some status, bp_deliveryStatus = None,
     bp_subtle = True, bp_style = []\<rparr> [Text (underscores_to_spaces status)]"

definition delivery_badge :: "string \<Rightarrow> 'a node" where
  "delivery_badge status = Badge \<lparr>bp_tone = None, bp_driverStatus = None, bp_deliveryStatus = Some status,
     bp_subtle = True, bp_style = []\<rparr> [Text (underscores_to_spaces status)]"

section \<open>Button\<close>

datatype ButtonVariant = VPrimary | VSecondary | VGhost | VDanger

datatype ButtonSize = SizeSm | SizeMd

fun variantStyle :: "ButtonVariant \<Rightarrow> style" where
  "variantStyle VPrimary = [(''background'', Css ''var(--color-primary)''), (''color'', Css ''#FFFFFF''),
     (''border'', Css ''1px solid transparent'')]"
| "variantStyle VDanger = [(''background'', Css ''var(--color-danger)''), (''color'', Css ''#FFFFFF''),
     (''border'', Css ''1px solid transparent'')]"
| "variantStyle VSecondary = [(''background'', Css ''var(--color-surface-alt)''), (''color'', Css ''var(--color-text)''),
     (''border'', Css ''1px solid var(--color-border)'')]"
| "variantStyle VGhost = [(''background'', Css ''transparent''), (''color'', Css ''var(--color-text)''),
     (''border'', Css ''1px solid transparent'')]"

fun button_SIZE :: "ButtonSize \<Rightarrow> style" where
  "button_SIZE SizeSm = [(''height'', Dim 32), (''padding'', Css ''0 var(--space-3)''), (''fontSize'', Css ''var(--font-size-sm)'')]"
| "button_SIZE SizeMd = [(''height'', Dim 40), (''padding'', Css ''0 var(--space-4)''), (''fontSize'', Css ''var(--font-size-sm)'')]"

record 'a ButtonProps =
  bu_variant :: "ButtonVariant option"
  bu_size :: "ButtonSize option"
  bu_loading :: bool
  bu_icon :: "'a node list"
  bu_block :: bool
  bu_disabled :: bool
  bu_style :: style
  bu_onMouseEnter :: "'a list"
  bu_onMouseLeave :: "'a list"
  bu_rest :: "'a attr list"

definition hoverOverlay :: "bool \<Rightarrow> bool \<Rightarrow> ButtonVariant \<Rightarrow> style" where
  "hoverOverlay hover isDisabled variant =
     (if hover \<and> \<not> isDisabled
      then (if variant = VPrimary then [(''background'', Css ''var(--color-primary-hover)'')]
            else if variant = VGhost then [(''background'', Css ''var(--color-surface-alt)'')]
            else [(''filter'', Css ''brightness(1.08)'')])
      else [])"

definition button_spinner :: "'a node" where
  "button_spinner = Elem ''span'' [Attr ''aria-hidden'' ''true'',
     Style [(''width'', Dim 14), (''height'', Dim 14), (''borderRadius'', Css ''50%''),
       (''border'', Css ''2px solid currentColor''), (''borderTopColor'', Css ''transparent''),
       (''animation'', Css ''fcc-spin 0.7s linear infinite'')]] []"

definition Button :: "bool \<Rightarrow> (bool \<Rightarrow> 'a) \<Rightarrow> 'a ButtonProps \<Rightarrow> 'a node list \<Rightarrow> 'a node" where
  "Button hover setHover props children =
     (let variant = or_else (bu_variant props) VPrimary; loading = bu_loading props;
          isDisabled = (bu_disabled props \<or> loading)
      in Elem ''button''
        ([AttrBool ''disabled'' isDisabled] @ only_if loading [AttrBool ''aria-busy'' True] @
         [OnEv ''onMouseEnter'' (\<lambda>e. setHover True # bu_onMouseEnter props),
          OnEv ''onMouseLeave'' (\<lambda>e. setHover False # bu_onMouseLeave props),
          Style (spread_styles
            [[(''display'', Css ''inline-flex''), (''alignItems'', Css ''center''), (''justifyContent'', Css ''center''),
              (''gap'', Css ''var(--space-2)''), (''width'', if bu_block props then Css ''100%'' else Unset),
              (''borderRadius'', Css ''var(--radius-control)''), (''fontFamily'', Css ''var(--font-sans)''),
              (''fontWeight'', Dim 600), (''cursor'', Css (if isDisabled then ''not-allowed'' else ''pointer'')),
              (''opacity'', Dim (if isDisabled \<and> \<not> loading then 0.5 else 1)),
              (''transition'', Css ''background 120ms ease, filter 120ms ease, opacity 120ms ease''),
              (''whiteSpace'', Css ''nowrap'')],
             button_SIZE (or_else (bu_size props) SizeMd), variantStyle variant, hoverOverlay hover isDisabled variant,
             bu_style props])] @ bu_rest props)
        (only_if loading [button_spinner] @ only_if (\<not> loading) (bu_icon props) @ children))"


section \<open>Card and Panel\<close>

definition Card :: "string option \<Rightarrow> nat option \<Rightarrow> style \<Rightarrow> 'a attr list \<Rightarrow> 'a node list \<Rightarrow> 'a node" where
  "Card elevation padding style rest children =
     Elem ''div''
       ([Style (spread_styles
          [[(''background'', Css ''var(--glass-bg)''), (''backdropFilter'', Css ''var(--glass-blur)''),
            (''WebkitBackdropFilter'', Css ''var(--glass-blur)''), (''border'', Css ''1px solid var(--glass-border)''),
            (''borderRadius'', Css ''var(--radius-card)''),
            (''boxShadow'', Css (if or_else elevation ''sm'' = ''none'' then ''none'' else ''var(--glass-shadow)'')),
            (''padding'', Css (''var(--space-'' @ nat_str (or_else padding 4) @ '')''))],
           style])] @ rest)
       children"

definition Panel :: "'a node list \<Rightarrow> 'a node list \<Rightarrow> bool \<Rightarrow> style \<Rightarrow> 'a attr list \<Rightarrow> 'a node list \<Rightarrow> 'a node" where
  "Panel title actions flush style rest children =
     Elem ''section''
       ([Style (spread_styles
          [[(''display'', Css ''flex''), (''flexDirection'', Css ''column''), (''minHeight'', Dim 0),
            (''background'', Css ''var(--glass-bg)''), (''backdropFilter'', Css ''var(--glass-blur)''),
            (''WebkitBackdropFilter'', Css ''var(--glass-blur)''), (''border'', Css ''1px solid var(--glass-border)''),
            (''borderRadius'', Css ''var(--radius-card)''), (''boxShadow'', Css ''var(--glass-shadow)''),
            (''overflow'', Css ''hidden'')],
           style])] @ rest)
       (only_if (visible_node title \<or> visible_node actions)
         [Elem ''header''
           [Style [(''display'', Css ''flex''), (''alignItems'', Css ''center''), (''justifyContent'', Css ''space-between''),
             (''gap'', Css ''var(--space-3)''), (''padding'', Css ''var(--space-3) var(--space-4)''),
             (''borderBottom'', Css ''1px solid var(--color-border)'')]]
           ([Elem ''div''
              [Style [(''fontSize'', Css ''var(--font-size-sm)''), (''fontWeight'', Dim 600), (''letterSpacing'', Dim 0.2),
                (''textTransform'', Css ''uppercase''), (''color'', Css ''var(--color-text-muted)'')]]
              title] @
            only_if (visible_node actions)
              [Elem ''div'' [Style [(''display'', Css ''flex''), (''gap'', Css ''var(--space-2)'')]] actions])] @
        [Elem ''div''
          [Style [(''flex'', Dim 1), (''minHeight'', Dim 0), (''overflow'', Css ''auto''),
            (''padding'', if flush then Dim 0 else Css ''var(--space-4)'')]]
          children])"

section \<open>StatCard\<close>

definition StatCard :: "'a node list \<Rightarrow> string \<Rightarrow> string option \<Rightarrow> 'a list option \<Rightarrow> bool \<Rightarrow> 'a node" where
  "StatCard label value accent0 onClick active =
     (let accent = or_else accent0 ''var(--color-primary)''; interactive = (onClick \<noteq> None)
      in Elem ''button''
        (only_if interactive [Attr ''type'' ''button''] @
         (case onClick of None \<Rightarrow> [] | Some acts \<Rightarrow> [OnEv ''onClick'' (\<lambda>e. acts)]) @
         only_if interactive [AttrBool ''aria-pressed'' active] @
         [AttrBool ''disabled'' (\<not> interactive),
          Style
            [(''display'', Css ''flex''), (''flexDirection'', Css ''column''), (''gap'', Css ''var(--space-1)''),
             (''padding'', Css ''var(--space-3)''), (''textAlign'', Css ''left''),
             (''background'', Css (if active then ''var(--color-surface-alt)'' else ''var(--color-surface)'')),
             (''border'', Css (''1px solid '' @ (if active then accent else ''var(--color-border)''))),
             (''borderRadius'', Css ''var(--radius-card)''),
             (''cursor'', Css (if interactive then ''pointer'' else ''default'')),
             (''transition'', Css ''border-color 120ms ease, background 120ms ease''), (''minWidth'', Dim 0)]])
        [Elem ''span''
          [Style
            [(''display'', Css ''inline-flex''), (''alignItems'', Css ''center''), (''gap'', Css ''var(--space-2)''),
             (''fontSize'', Css ''var(--font-size-xs)''), (''color'', Css ''var(--color-text-muted)''),
             (''textTransform'', Css ''uppercase''), (''letterSpacing'', Dim 0.3), (''whiteSpace'', Css ''nowrap''),
             (''overflow'', Css ''hidden''), (''textOverflow'', Css ''ellipsis'')]]
          ([Elem ''span''
             [Attr ''aria-hidden'' ''true'',
              Style [(''width'', Dim 8), (''height'', Dim 8), (''borderRadius'', Css ''50%''), (''background'', Css accent),
                (''flex'', Css ''0 0 auto'')]]
             []] @ label),
         Elem ''span''
          [Style [(''fontSize'', Css ''var(--font-size-xl)''), (''fontWeight'', Dim 700),
             (''fontVariantNumeric'', Css ''tabular-nums''), (''color'', Css ''var(--color-text)'')]]
          [Text value]])"

section \<open>Tooltip\<close>

text \<open>The module's counter and the id made of it; \<open>React.cloneElement\<close> sets an attribute of the child.\<close>

definition next_tip :: "nat \<Rightarrow> string \<times> nat" where
  "next_tip tipSeq = (''tip-'' @ nat_str (tipSeq + 1), tipSeq + 1)"

fun clone_with :: "string \<Rightarrow> string \<Rightarrow> 'a node \<Rightarrow> 'a node" where
  "clone_with n v (Elem t as ks) =
     Elem t (filter (\<lambda>a. case a of Attr m w \<Rightarrow> m \<noteq> n | _ \<Rightarrow> True) as @ [Attr n v]) ks"
| "clone_with n v (Text s) = Text s"

definition Tooltip :: "bool \<Rightarrow> (bool \<Rightarrow> 'a) \<Rightarrow> string \<Rightarrow> 'a node list \<Rightarrow> string option \<Rightarrow> 'a node \<Rightarrow> 'a node" where
  "Tooltip isOpen setOpen ident label placement child =
     Elem ''span''
       [Style [(''position'', Css ''relative''), (''display'', Css ''inline-flex'')],
        OnEv ''onMouseEnter'' (\<lambda>e. [setOpen True]), OnEv ''onMouseLeave'' (\<lambda>e. [setOpen False]),
        OnEv ''onFocus'' (\<lambda>e. [setOpen True]), OnEv ''onBlur'' (\<lambda>e. [setOpen False])]
       [clone_with ''aria-describedby'' ident child,
        Elem ''span''
          [Attr ''role'' ''tooltip'', Attr ''id'' ident,
           Style
            [(''position'', Css ''absolute''), (''left'', Css ''50%''), (''transform'', Css ''translateX(-50%)''),
             (if or_else placement ''top'' = ''top'' then ''bottom'' else ''top'', Css ''calc(100% + 6px)''),
             (''padding'', Css ''var(--space-1) var(--space-2)''), (''background'', Css ''var(--color-surface-alt)''),
             (''color'', Css ''var(--color-text)''), (''border'', Css ''1px solid var(--color-border)''),
             (''borderRadius'', Css ''var(--radius-control)''), (''boxShadow'', Css ''var(--shadow-md)''),
             (''fontSize'', Css ''var(--font-size-xs)''), (''whiteSpace'', Css ''nowrap''), (''pointerEvents'', Css ''none''),
             (''opacity'', Dim (if isOpen then 1 else 0)), (''transition'', Css ''opacity 120ms ease''), (''zIndex'', Dim 1200)]]
          label]"

section \<open>Tabs\<close>

record 'a TabItem =
  ti_id :: string
  ti_label :: "'a node list"
  ti_count :: "nat option"

definition tabs_initial :: "string option \<Rightarrow> 'a TabItem list \<Rightarrow> string option" where
  "tabs_initial defaultValue items =
     nullish defaultValue (case items of [] \<Rightarrow> None | i # _ \<Rightarrow> Some (ti_id i))"

definition tabs_select :: "(string \<Rightarrow> 'a) \<Rightarrow> string option \<Rightarrow> (string \<Rightarrow> 'a list) \<Rightarrow> string \<Rightarrow> 'a list" where
  "tabs_select setInternal value onChange i = (if value = None then [setInternal i] else []) @ onChange i"

definition tab_button :: "(string \<Rightarrow> 'a list) \<Rightarrow> string option \<Rightarrow> 'a TabItem \<Rightarrow> 'a node" where
  "tab_button select active item =
     (let isActive = (Some (ti_id item) = active)
      in Elem ''button''
        [Key (ti_id item), Attr ''role'' ''tab'', AttrBool ''aria-selected'' isActive,
         OnEv ''onClick'' (\<lambda>e. select (ti_id item)),
         Style
          [(''position'', Css ''relative''), (''display'', Css ''inline-flex''), (''alignItems'', Css ''center''),
           (''gap'', Css ''var(--space-2)''), (''padding'', Css ''var(--space-3) var(--space-4)''),
           (''background'', Css ''transparent''), (''border'', Css ''none''), (''cursor'', Css ''pointer''),
           (''fontFamily'', Css ''var(--font-sans)''), (''fontSize'', Css ''var(--font-size-sm)''),
           (''fontWeight'', Dim (if isActive then 600 else 500)),
           (''color'', Css (if isActive then ''var(--color-text)'' else ''var(--color-text-muted)'')),
           (''transition'', Css ''color 120ms ease'')]]
        (ti_label item @
         (case ti_count item of None \<Rightarrow> []
          | Some n \<Rightarrow> [Elem ''span''
              [Style [(''fontSize'', Css ''var(--font-size-xs)''), (''fontVariantNumeric'', Css ''tabular-nums''),
                (''color'', Css ''var(--color-text-muted)'')]]
              [Text (nat_str n)]]) @
         [Elem ''span''
           [Attr ''aria-hidden'' ''true'',
            Style
             [(''position'', Css ''absolute''), (''left'', Css ''var(--space-3)''), (''right'', Css ''var(--space-3)''),
              (''bottom'', Dim (- 1)), (''height'', Dim 2), (''borderRadius'', Dim 2),
              (''background'', Css (if isActive then ''var(--color-primary)'' else ''transparent'')),
              (''transition'', Css ''background 120ms ease'')]]
           []]))"

definition Tabs :: "string option \<Rightarrow> (string \<Rightarrow> 'a) \<Rightarrow> 'a TabItem list \<Rightarrow> string option \<Rightarrow> (string \<Rightarrow> 'a list) \<Rightarrow> 'a node" where
  "Tabs internal setInternal items value onChange =
     Elem ''div''
       [Attr ''role'' ''tablist'',
        Style [(''display'', Css ''flex''), (''gap'', Css ''var(--space-1)''),
          (''borderBottom'', Css ''1px solid var(--color-border)'')]]
       (map (tab_button (tabs_select setInternal value onChange) (nullish value internal)) items)"


section \<open>Modal\<close>

text \<open>
  The key listener is on the document exactly while the dialog is open. For \<open>onMouseDown\<close> the
  handler's argument is \<open>self\<close> when the event's target is the backdrop itself.
\<close>

definition modal_keydown :: "bool \<Rightarrow> 'a list \<Rightarrow> string \<Rightarrow> 'a list" where
  "modal_keydown isOpen onClose key = (if isOpen then (if key = ''Escape'' then onClose else []) else [])"

definition Modal :: "bool \<Rightarrow> 'a list \<Rightarrow> 'a node list \<Rightarrow> 'a node list \<Rightarrow> real option \<Rightarrow> 'a node list \<Rightarrow> 'a node list" where
  "Modal isOpen onClose title footer width children =
     (if \<not> isOpen then []
      else [Elem ''div''
        [Attr ''role'' ''presentation'', OnEv ''onMouseDown'' (\<lambda>target. if target = ''self'' then onClose else []),
         Style
          [(''position'', Css ''fixed''), (''inset'', Dim 0), (''zIndex'', Dim 1000), (''display'', Css ''grid''),
           (''placeItems'', Css ''center''), (''padding'', Css ''var(--space-5)''),
           (''background'', Css ''rgba(5, 9, 15, 0.6)''), (''backdropFilter'', Css ''blur(2px)''),
           (''animation'', Css ''fcc-fade-in 120ms ease'')]]
        [Elem ''div''
          ([Attr ''role'' ''dialog'', Attr ''aria-modal'' ''true''] @
           (case title of [Text s] \<Rightarrow> [Attr ''aria-label'' s] | _ \<Rightarrow> []) @
           [AttrNum ''tabIndex'' (- 1),
            Style
             [(''width'', Css ''100%''), (''maxWidth'', Dim (or_else width 520)), (''maxHeight'', Css ''85vh''),
              (''display'', Css ''flex''), (''flexDirection'', Css ''column''), (''background'', Css ''var(--color-surface)''),
              (''border'', Css ''1px solid var(--color-border)''), (''borderRadius'', Css ''var(--radius-modal)''),
              (''boxShadow'', Css ''var(--shadow-lg)''), (''outline'', Css ''none'')]])
          (only_if (visible_node title)
             [Elem ''header''
               [Style [(''padding'', Css ''var(--space-4) var(--space-5)''),
                 (''borderBottom'', Css ''1px solid var(--color-border)''), (''fontSize'', Css ''var(--font-size-lg)''),
                 (''fontWeight'', Dim 600)]]
               title] @
           [Elem ''div'' [Style [(''padding'', Css ''var(--space-5)''), (''overflow'', Css ''auto'')]] children] @
           only_if (visible_node footer)
             [Elem ''footer''
               [Style [(''display'', Css ''flex''), (''justifyContent'', Css ''flex-end''), (''gap'', Css ''var(--space-2)''),
                 (''padding'', Css ''var(--space-4) var(--space-5)''), (''borderTop'', Css ''1px solid var(--color-border)'')]]
               footer])]])"

section \<open>Inputs and form fields\<close>

definition CONTROL_BASE :: style where
  "CONTROL_BASE =
    [(''width'', Css ''100%''), (''height'', Dim 40), (''padding'', Css ''0 var(--space-3)''),
     (''background'', Css ''var(--color-bg)''), (''color'', Css ''var(--color-text)''),
     (''border'', Css ''1px solid var(--color-border)''), (''borderRadius'', Css ''var(--radius-control)''),
     (''fontFamily'', Css ''var(--font-sans)''), (''fontSize'', Css ''var(--font-size-sm)''), (''outline'', Css ''none''),
     (''transition'', Css ''border-color 120ms ease, box-shadow 120ms ease'')]"

definition invalidStyle :: "bool \<Rightarrow> style" where
  "invalidStyle invalid =
     (if invalid
      then [(''borderColor'', Css ''var(--color-danger)''), (''boxShadow'', Css ''0 0 0 1px var(--color-danger)'')]
      else [])"

definition Input :: "bool \<Rightarrow> style \<Rightarrow> 'a attr list \<Rightarrow> 'a node" where
  "Input invalid style rest =
     Elem ''input''
       (only_if invalid [AttrBool ''aria-invalid'' True] @
        [Style (spread_styles [CONTROL_BASE, invalidStyle invalid, style])] @ rest)
       []"

definition chevron_image :: string where
  "chevron_image =
     ''url('' @ [CHR 0x22] @ ''data:image/svg+xml,%3Csvg xmlns='' @ [CHR 0x27] @ ''http://www.w3.org/2000/svg'' @ [CHR 0x27]
       @ '' width='' @ [CHR 0x27] @ ''12'' @ [CHR 0x27] @ '' height='' @ [CHR 0x27] @ ''12'' @ [CHR 0x27]
       @ '' viewBox='' @ [CHR 0x27] @ ''0 0 12 12'' @ [CHR 0x27] @ ''%3E%3Cpath fill='' @ [CHR 0x27] @ ''%239AA7B8'' @ [CHR 0x27]
       @ '' d='' @ [CHR 0x27] @ ''M2 4l4 4 4-4'' @ [CHR 0x27] @ ''/%3E%3C/svg%3E'' @ [CHR 0x22] @ '')''"

definition Select :: "bool \<Rightarrow> style \<Rightarrow> 'a attr list \<Rightarrow> 'a node list \<Rightarrow> 'a node" where
  "Select invalid style rest children =
     Elem ''select''
       (only_if invalid [AttrBool ''aria-invalid'' True] @
        [Style (spread_styles
          [CONTROL_BASE,
           [(''appearance'', Css ''none''), (''backgroundImage'', Css chevron_image),
            (''backgroundRepeat'', Css ''no-repeat''), (''backgroundPosition'', Css ''right var(--space-3) center''),
            (''paddingRight'', Css ''var(--space-6)''), (''cursor'', Css ''pointer'')],
           invalidStyle invalid, style])] @ rest)
       children"

text \<open>\<open>useFieldId\<close>: the id provided, or the next of the module's counter.\<close>

definition useFieldId :: "string option \<Rightarrow> nat \<Rightarrow> string \<times> nat" where
  "useFieldId provided fieldSeq =
     (case provided of Some i \<Rightarrow> (i, fieldSeq) | None \<Rightarrow> (''field-'' @ nat_str (fieldSeq + 1), fieldSeq + 1))"

text \<open>\<open>error || hint\<close> is the text that decides whether there is a message, \<open>error ?? hint\<close> the one it shows.\<close>

definition FormField ::
    "string \<Rightarrow> string \<Rightarrow> string option \<Rightarrow> string option \<Rightarrow> bool
     \<Rightarrow> (string \<Rightarrow> bool \<Rightarrow> string option \<Rightarrow> 'a node list) \<Rightarrow> 'a node" where
  "FormField ident label err hint required children =
     (let msgId = ident @ ''-msg''; invalid = truthy err; message = (truthy err \<or> truthy hint)
      in Elem ''div''
        [Style [(''display'', Css ''grid''), (''gap'', Css ''var(--space-1)''), (''marginBottom'', Css ''var(--space-4)'')]]
        ([Elem ''label''
           [Attr ''htmlFor'' ident,
            Style [(''fontSize'', Css ''var(--font-size-sm)''), (''fontWeight'', Dim 500), (''color'', Css ''var(--color-text)'')]]
           ([Text label] @
            only_if required [Elem ''span'' [Style [(''color'', Css ''var(--color-danger)'')]] [Text '' *'']])] @
         children ident invalid (if message then Some msgId else None) @
         only_if message
           [Elem ''span''
             ([Attr ''id'' msgId] @ only_if (truthy err) [Attr ''role'' ''alert''] @
              [Style [(''fontSize'', Css ''var(--font-size-xs)''),
                (''color'', Css (if truthy err then ''var(--color-danger)'' else ''var(--color-text-muted)''))]])
             (case nullish err hint of None \<Rightarrow> [] | Some s \<Rightarrow> [Text s])]))"

section \<open>Map marker and path trace\<close>

definition markerColor :: "string option \<Rightarrow> string option \<Rightarrow> string" where
  "markerColor status color =
     (if truthy color then the color
      else if truthy status then driverStatusVar (the status) else ''var(--color-primary)'')"

definition MapMarker ::
    "(real \<Rightarrow> string) \<Rightarrow> string option \<Rightarrow> string option \<Rightarrow> jsnum option \<Rightarrow> real option \<Rightarrow> bool \<Rightarrow> string option
     \<Rightarrow> 'a list option \<Rightarrow> 'a node" where
  "MapMarker show_real status color heading markerSize selected label onClick =
     (let fill = markerColor status color; sz = or_else markerSize 26;
          hasHeading = (case heading of Some (Fin h) \<Rightarrow> True | _ \<Rightarrow> False)
      in Elem ''div''
        ((case onClick of None \<Rightarrow> [] | Some acts \<Rightarrow> [OnEv ''onClick'' (\<lambda>e. acts)]) @
         [Style
           [(''display'', Css ''inline-flex''), (''alignItems'', Css ''center''), (''gap'', Css ''var(--space-1)''),
            (''cursor'', Css (if onClick \<noteq> None then ''pointer'' else ''default'')),
            (''transform'', Css ''translate(-50%, -50%)''),
            (''filter'', Css (if selected then ''drop-shadow(0 0 6px '' @ ''rgba(56,189,248,0.9))'' else ''none''))]])
        ([Elem ''svg''
           [AttrNum ''width'' sz, AttrNum ''height'' sz, Attr ''viewBox'' ''0 0 24 24'', Attr ''role'' ''img'',
            Attr ''aria-label'' (''Vehicle'' @ (if truthy label then '' '' @ the label else [])
              @ (if truthy status then '', '' @ the status else [])),
            Style [(''transition'', Css ''transform 600ms ease''),
              (''transform'', Css (case heading of Some (Fin h) \<Rightarrow> ''rotate('' @ show_real h @ ''deg)'' | _ \<Rightarrow> ''none''))]]
           (only_if selected
              [Elem ''circle''
                [Attr ''cx'' ''12'', Attr ''cy'' ''12'', Attr ''r'' ''11'', Attr ''fill'' ''none'', Attr ''stroke'' fill,
                 Attr ''strokeOpacity'' ''0.35'', Attr ''strokeWidth'' ''2''] []] @
            (if hasHeading
             then [Elem ''path''
               [Attr ''d'' ''M12 2 L19 20 L12 16 L5 20 Z'', Attr ''fill'' fill, Attr ''stroke'' ''var(--color-bg)'',
                Attr ''strokeWidth'' ''1.25'', Attr ''strokeLinejoin'' ''round''] []]
             else [Elem ''circle''
               [Attr ''cx'' ''12'', Attr ''cy'' ''12'', Attr ''r'' ''6'', Attr ''fill'' fill, Attr ''stroke'' ''var(--color-bg)'',
                Attr ''strokeWidth'' ''2''] []]))] @
         given label (\<lambda>l.
           [Elem ''span''
             [Attr ''className'' ''mono'',
              Style
               [(''fontSize'', Css ''var(--font-size-xs)''), (''fontWeight'', Dim 600), (''color'', Css ''var(--color-text)''),
                (''background'', Css ''color-mix(in srgb, var(--color-bg) 70%, transparent)''),
                (''padding'', Css ''1px var(--space-1)''), (''borderRadius'', Css ''var(--radius-control)''),
                (''whiteSpace'', Css ''nowrap'')]]
             [Text l]])))"

definition segmentOpacities :: "int \<Rightarrow> real \<Rightarrow> real \<Rightarrow> real list" where
  "segmentOpacities segmentCount mn mx =
     (if segmentCount \<le> 0 then []
      else if segmentCount = 1 then [mx]
      else map (\<lambda>i. mn + ((mx - mn) * real i) / (of_int segmentCount - 1)) [0..<nat segmentCount])"

fun size_attr :: "string \<Rightarrow> css \<Rightarrow> 'a attr list" where
  "size_attr n (Css s) = [Attr n s]"
| "size_attr n (Dim x) = [AttrNum n x]"
| "size_attr n Unset = []"

definition MapPathTrace ::
    "(real \<times> real) list \<Rightarrow> string option \<Rightarrow> real option \<Rightarrow> css option \<Rightarrow> css option \<Rightarrow> 'a node list" where
  "MapPathTrace points color strokeWidth0 width height =
     (if length points < 2 then []
      else (let opacities = segmentOpacities (int (length points) - 1) 0.15 0.9; head = points ! (length points - 1);
                c = or_else color ''var(--color-info)''; strokeWidth = or_else strokeWidth0 3
        in [Elem ''svg''
          (size_attr ''width'' (or_else width (Css ''100%'')) @ size_attr ''height'' (or_else height (Css ''100%'')) @
           [Style [(''position'', Css ''absolute''), (''inset'', Dim 0), (''pointerEvents'', Css ''none''),
              (''overflow'', Css ''visible'')],
            Attr ''aria-hidden'' ''true''])
          (map (\<lambda>(i, p). let prev = points ! i in
              Elem ''line''
                [Key (nat_str i), AttrNum ''x1'' (fst prev), AttrNum ''y1'' (snd prev), AttrNum ''x2'' (fst p),
                 AttrNum ''y2'' (snd p), Attr ''stroke'' c, AttrNum ''strokeOpacity'' (opacities ! i),
                 AttrNum ''strokeWidth'' strokeWidth, Attr ''strokeLinecap'' ''round''] [])
             (enumerate 0 (drop 1 points)) @
           [Elem ''circle'' [AttrNum ''cx'' (fst head), AttrNum ''cy'' (snd head), AttrNum ''r'' (strokeWidth + 1),
              Attr ''fill'' c] []])]))"

section \<open>Activity feed item and connection indicator\<close>

datatype ActivityTone = ToneEnter | ToneExit | ToneNote

fun activity_TONE :: "ActivityTone \<Rightarrow> string \<times> string" where
  "activity_TONE ToneEnter = (''var(--color-info)'', glyph_enter)"
| "activity_TONE ToneExit = (''var(--color-text-muted)'', glyph_exit)"
| "activity_TONE ToneNote = (''var(--color-accent)'', glyph_bullet)"

definition formatTime :: "(string \<Rightarrow> int option) \<Rightarrow> (int \<Rightarrow> string) \<Rightarrow> string option \<Rightarrow> string" where
  "formatTime parse show_time ts =
     (if \<not> truthy ts then []
      else case parse (the ts) of None \<Rightarrow> the ts | Some t \<Rightarrow> show_time t)"

definition ActivityFeedItem ::
    "(string \<Rightarrow> int option) \<Rightarrow> (int \<Rightarrow> string) \<Rightarrow> ActivityTone option \<Rightarrow> 'a node list \<Rightarrow> 'a node list
     \<Rightarrow> string option \<Rightarrow> bool \<Rightarrow> 'a node" where
  "ActivityFeedItem parse show_time tone title detail timestamp fresh =
     (case activity_TONE (or_else tone ToneNote) of (color, glyph) \<Rightarrow>
      Elem ''div''
        [Style
           [(''display'', Css ''flex''), (''alignItems'', Css ''flex-start''), (''gap'', Css ''var(--space-3)''),
            (''padding'', Css ''var(--space-2) var(--space-3)''), (''borderBottom'', Css ''1px solid var(--color-border)''),
            (''animation'', if fresh then Css ''fcc-fade-in 200ms ease'' else Unset)]]
        ([Elem ''span''
           [Attr ''aria-hidden'' ''true'',
            Style
             [(''flex'', Css ''0 0 auto''), (''width'', Dim 22), (''height'', Dim 22), (''display'', Css ''grid''),
              (''placeItems'', Css ''center''), (''borderRadius'', Css ''50%''),
              (''background'', Css (''color-mix(in srgb, '' @ color @ '' 18%, transparent)'')), (''color'', Css color),
              (''fontSize'', Css ''var(--font-size-sm)''), (''fontWeight'', Dim 700)]]
           [Text glyph],
          Elem ''div''
           [Style [(''minWidth'', Dim 0), (''flex'', Dim 1)]]
           ([Elem ''div''
              [Style [(''fontSize'', Css ''var(--font-size-sm)''), (''color'', Css ''var(--color-text)''),
                (''overflow'', Css ''hidden''), (''textOverflow'', Css ''ellipsis'')]]
              title] @
            only_if (visible_node detail)
              [Elem ''div'' [Style [(''fontSize'', Css ''var(--font-size-xs)''), (''color'', Css ''var(--color-text-muted)'')]]
                detail])] @
         given timestamp (\<lambda>ts.
           [Elem ''time''
             [Attr ''className'' ''mono'', Attr ''dateTime'' ts,
              Style [(''fontSize'', Css ''var(--font-size-xs)''), (''color'', Css ''var(--color-text-muted)''),
                (''flex'', Css ''0 0 auto'')]]
             [Text (formatTime parse show_time timestamp)]])))"

text \<open>Label, colour and pulse of a connection state.\<close>

fun PRESENTATION :: "ConnectionState \<Rightarrow> string \<times> string \<times> bool" where
  "PRESENTATION Connected = (''Live'', ''var(--color-success)'', False)"
| "PRESENTATION Connecting = (''Connecting'', ''var(--color-info)'', True)"
| "PRESENTATION Reconnecting = (''Reconnecting'', ''var(--color-warning)'', True)"
| "PRESENTATION Disconnected = (''Offline'', ''var(--color-danger)'', False)"

definition ConnectionIndicator :: "ConnectionState \<Rightarrow> 'a node" where
  "ConnectionIndicator state =
     (case PRESENTATION state of (label, color, pulse) \<Rightarrow>
      Elem ''div''
        [Attr ''role'' ''status'', Attr ''aria-live'' ''polite'', Attr ''aria-label'' (''Connection: '' @ label),
         Style
          [(''display'', Css ''inline-flex''), (''alignItems'', Css ''center''), (''gap'', Css ''var(--space-2)''),
           (''height'', Dim 28), (''padding'', Css ''0 var(--space-3)''), (''borderRadius'', Css ''var(--radius-pill)''),
           (''background'', Css ''var(--color-surface-alt)''), (''border'', Css ''1px solid var(--color-border)''),
           (''fontSize'', Css ''var(--font-size-xs)''), (''fontWeight'', Dim 600), (''color'', Css ''var(--color-text)'')]]
        [Elem ''span''
          [Attr ''aria-hidden'' ''true'',
           Style
            [(''width'', Dim 8), (''height'', Dim 8), (''borderRadius'', Css ''50%''), (''background'', Css color),
             (''boxShadow'', Css (''0 0 0 3px color-mix(in srgb, '' @ color @ '' 25%, transparent)'')),
             (''animation'', if pulse then Css ''fcc-pulse 1.1s ease-in-out infinite'' else Unset)]]
          [],
         Text label])"

section \<open>Facts\<close>

text \<open>The trace fades in evenly: from the smallest opacity at the tail to the largest at the head.\<close>

lemma segmentOpacities_ramp:
  assumes "1 < n" "mn \<le> mx"
  shows "length (segmentOpacities n mn mx) = nat n" "hd (segmentOpacities n mn mx) = mn"
    "last (segmentOpacities n mn mx) = mx" "sorted (segmentOpacities n mn mx)"
    "x \<in> set (segmentOpacities n mn mx) \<Longrightarrow> mn \<le> x \<and> x \<le> mx"
proof -
  define f where "f = (\<lambda>i. mn + ((mx - mn) * real i) / (of_int n - 1))"
  have eq: "segmentOpacities n mn mx = map f [0..<nat n]" using assms(1) by (simp add: segmentOpacities_def f_def)
  have n: "0 < nat n" "real (nat n - 1) = of_int n - 1" using assms(1) by (auto simp: of_nat_diff)
  have mono: "i \<le> j \<Longrightarrow> f i \<le> f j" for i j
    using assms by (simp add: f_def divide_right_mono mult_left_mono)
  have ends: "f 0 = mn" "f (nat n - 1) = mx" using n assms(1) by (simp_all add: f_def)
  show "length (segmentOpacities n mn mx) = nat n" by (simp add: eq)
  show "hd (segmentOpacities n mn mx) = mn" using n ends by (simp add: eq hd_map)
  show "last (segmentOpacities n mn mx) = mx" using n ends by (simp add: eq last_map)
  show "sorted (segmentOpacities n mn mx)" unfolding eq using mono by (simp add: sorted_iff_nth_mono)
  show "x \<in> set (segmentOpacities n mn mx) \<Longrightarrow> mn \<le> x \<and> x \<le> mx"
    unfolding eq using mono [of 0] mono [of _ "nat n - 1"] ends n by fastforce
qed

text \<open>A dialog that is closed renders nothing and ignores the keyboard; an open one is closed by Escape only.\<close>

lemma modal_closed: "Modal False onClose title footer width children = []" "modal_keydown False onClose k = []"
  by (simp_all add: Modal_def modal_keydown_def)

lemma modal_escape: "modal_keydown True onClose k = (if k = ''Escape'' then onClose else [])"
  by (simp add: modal_keydown_def)

lemma modal_backdrop:
  "map (fire ''onMouseDown'' target) (Modal True onClose title footer width children)
    = [if target = ''self'' then onClose else []]"
  by (simp add: Modal_def fire_def)

text \<open>A field's message carries the id that the control is described by; the text it shows.\<close>

lemma field_message:
  "truthy err \<or> truthy hint \<Longrightarrow>
     \<exists>m. last (kids_of (FormField i label err hint req children)) = m \<and> attr_of ''id'' (attrs_of m) = Some (i @ ''-msg'')
       \<and> text_of m = or_else (nullish err hint) [] \<and> attr_of ''role'' (attrs_of m) = (if truthy err then Some ''alert'' else None)"
  by (cases err; cases hint) (auto simp: FormField_def Let_def truthy_def or_else_def nullish_def only_if_def)

text \<open>An empty error takes the place of the hint,
  which it was not meant to hide: the message is then blank.\<close>

lemma empty_error_hides_hint:
  "h \<noteq> [] \<Longrightarrow> text_of (last (kids_of (FormField i label (Some []) (Some h) req children))) = []"
  by (simp add: FormField_def Let_def truthy_def nullish_def)

lemma button_disabled: "flag_of ''disabled'' (attrs_of (Button hov set_hover props ks)) = Some (bu_disabled props \<or> bu_loading props)"
  by (simp add: Button_def Let_def)

lemma filter_single: "distinct xs \<Longrightarrow> i \<in> set xs \<Longrightarrow> filter (\<lambda>x. x = i) xs = [i]"
  by (induction xs) (auto simp: filter_empty_conv)

text \<open>One tab is selected, if the ids of the items are distinct and the active one is among them.\<close>

lemma one_tab_selected:
  assumes "distinct (map ti_id items)" "nullish value internal = Some i" "i \<in> ti_id ` set items"
  shows "List.map_filter (\<lambda>t. if flag_of ''aria-selected'' (attrs_of t) = Some True then key_of_attrs (attrs_of t) else None)
    (kids_of (Tabs internal setInternal items value onChange)) = [i]"
proof -
  have tab: "flag_of ''aria-selected'' (attrs_of (tab_button sel act t)) = Some (Some (ti_id t) = act)"
    "key_of_attrs (attrs_of (tab_button sel act t)) = Some (ti_id t)" for sel act and t :: "'a TabItem"
    by (simp_all add: tab_button_def Let_def)
  have "List.map_filter (\<lambda>t. if flag_of ''aria-selected'' (attrs_of t) = Some True then key_of_attrs (attrs_of t) else None)
      (kids_of (Tabs internal setInternal items value onChange)) = filter (\<lambda>x. x = i) (map ti_id items)"
    by (simp add: Tabs_def assms(2) map_filter_def filter_map comp_def tab)
  also have "\<dots> = [i]" using assms by (intro filter_single) auto
  finally show ?thesis .
qed

end
