(* ===== verification/Connection_Hook.thy ===== *)
theory Connection_Hook
  imports Components
begin

text \<open>
  The hooks over the socket client (\<open>realtime/useConnection.ts\<close>) and the connection indicator: a hook
  registers one listener when it is mounted; what it holds is what that listener was told last.
  A hook without a client holds \<open>Connecting\<close>.
\<close>

section \<open>Model\<close>

definition connection_initial :: "SocketState option \<Rightarrow> ConnectionState" where
  "connection_initial client = or_else (map_option sk_state client) Connecting"

text \<open>What listener \<open>fn\<close> makes of the client's effects: the state of the hook.\<close>

fun told_step :: "nat \<Rightarrow> ConnectionState \<Rightarrow> effect \<Rightarrow> ConnectionState" where
  "told_step fn d (NotifyState f c) = (if f = fn then c else d)"
| "told_step fn d e = d"

definition useConnectionState :: "nat \<Rightarrow> SocketState option \<Rightarrow> effect list \<Rightarrow> ConnectionState" where
  "useConnectionState fn client effects = foldl (told_step fn) (connection_initial client) effects"

text \<open>
  \<open>useSocketEvent\<close>: the subscription follows the event it is for; a payload goes to the handler of
  the last render, whichever it was subscribed with.
\<close>

definition socket_event_effect :: "nat \<Rightarrow> SocketEvent option \<Rightarrow> SocketEvent \<Rightarrow> SocketState \<Rightarrow> SocketState" where
  "socket_event_effect fn previous event s =
     (if previous = Some event then s
      else on_event event fn (case previous of Some e \<Rightarrow> off_event e fn s | None \<Rightarrow> s))"

definition socket_event_cleanup :: "nat \<Rightarrow> SocketEvent \<Rightarrow> SocketState \<Rightarrow> SocketState" where
  "socket_event_cleanup fn event s = off_event event fn s"

definition hook_deliver :: "(jsval \<Rightarrow> 'c \<Rightarrow> 'c) list \<Rightarrow> jsval \<Rightarrow> 'c \<Rightarrow> 'c" where
  "hook_deliver renders payload c = (if renders = [] then c else last renders payload c)"

section \<open>Facts\<close>

definition told :: "nat \<Rightarrow> ConnectionState \<Rightarrow> effect list \<Rightarrow> ConnectionState" where
  "told fn d es = foldl (told_step fn) d es"

lemma told_simps [simp]:
  "told fn d [] = d" "told fn d (es @ fs) = told fn (told fn d es) fs" "told fn d (e # es) = told fn (told_step fn d e) es"
  by (simp_all add: told_def)

lemma told_notify [simp]: "told fn d (map (\<lambda>f. NotifyState f c) fns) = (if fn \<in> set fns then c else d)"
  by (induction fns arbitrary: d) auto

lemma told_sends [simp]: "told fn d (map ((\<lambda>p. SendFrame t (f p)) \<circ> g) xs) = d"
  by (induction xs arbitrary: d) auto

definition informed :: "nat \<Rightarrow> ConnectionState \<Rightarrow> SocketState \<Rightarrow> bool" where
  "informed fn d s \<longleftrightarrow> (fn \<in> set (sk_stateListeners s) \<longrightarrow> told fn d (sk_log s) = sk_state s)"

lemma informed_step:
  assumes "socket_step opts s a s'" "informed fn d s"
  shows "informed fn d s'"
  using assms(1)
proof (cases rule: socket_step.cases)
  case (receives t raw)
  obtain es where es: "snd (handleMessage raw s) = s\<lparr>sk_log := sk_log s @ es\<rparr>"
      "\<forall>e \<in> set es. \<exists>fn ev p. e = Deliver fn ev p"
    using handleMessage_effects by blast
  have quiet: "told fn x es = x" for x using es(2) by (induction es arbitrary: x) fastforce+
  from assms(2) show ?thesis unfolding receives es(1) by (simp add: informed_def quiet)
qed (use assms(2) in \<open>auto simp: informed_def socket_defs add_listener_def split: option.split if_splits\<close>)

lemma informed_run: "socket_run opts as s \<Longrightarrow> informed fn d s"
proof (induction rule: socket_run.induct)
  case start
  show ?case by (auto simp: informed_def socket_new_def socket_initial_def socket_defs)
qed (rule informed_step)

section \<open>Properties\<close>

text \<open>
  C39. The indicator tells the truth. In every run of the client, as long as the hook's listener is
  registered, the connection indicator names the client's current state, whatever the client's
  state was when the hook was made.
\<close>

theorem indicator_follows_client:
  assumes "socket_run opts as s" "fn \<in> set (sk_stateListeners s)"
  shows "attr_of ''aria-label'' (attrs_of (ConnectionIndicator (useConnectionState fn client (sk_log s))))
    = Some (''Connection: '' @ (case sk_state s of Connected \<Rightarrow> ''Live'' | Connecting \<Rightarrow> ''Connecting''
        | Reconnecting \<Rightarrow> ''Reconnecting'' | Disconnected \<Rightarrow> ''Offline''))"
proof -
  have "useConnectionState fn client (sk_log s) = told fn (connection_initial client) (sk_log s)"
    by (simp add: useConnectionState_def told_def)
  also have "\<dots> = sk_state s"
    using informed_run [OF assms(1), of fn "connection_initial client"] assms(2) by (simp add: informed_def)
  finally show ?thesis by (cases "sk_state s") (simp_all add: ConnectionIndicator_def)
qed

theorem indicator_follows_client_witness:
  "attr_of ''aria-label'' (attrs_of (ConnectionIndicator
      (useConnectionState 4 None (sk_log (onStateChange 4 (socket_new plain_options))))))
    = Some ''Connection: Connecting''"
proof -
  have run: "socket_run plain_options ([] @ [OnStateChange 4]) (onStateChange 4 (socket_new plain_options))"
    by (rule more [OF start]) (rule listens)
  have "4 \<in> set (sk_stateListeners (onStateChange 4 (socket_new plain_options)))"
    "sk_state (onStateChange 4 (socket_new plain_options)) = Connecting"
    by (auto simp: socket_defs socket_new_def socket_initial_def plain_options_def add_listener_def or_else_def)
  from indicator_follows_client [OF run this(1), of None] this(2) show ?thesis by simp
qed

end
