(* ===== verification/Brand_View.thy ===== *)
theory Brand_View
  imports React_View Theme
begin

text \<open>
  The operator's brand in the dashboard (\<open>brand/BrandProvider.tsx\<close>, \<open>brand/BrandLogo.tsx\<close>,
  \<open>brand/BrandHero.tsx\<close>): the palette fetched once per address, with the request of an address
  given up when it changes, the assets with their defaults, and the logo and the hero that fall
  back to a placeholder when an image fails.
\<close>

section \<open>The provider\<close>

record BrandAssets =
  ba_logoUrl :: "string option"
  ba_heroUrl :: "string option"
  ba_wordmark :: "string option"

text \<open>The assets of the context: the wordmark is always there.\<close>

record BrandContextValue =
  bc_logoUrl :: "string option"
  bc_heroUrl :: "string option"
  bc_wordmark :: string
  bc_colors :: "(string \<times> string) list"

definition DEFAULT_WORDMARK :: string where
  "DEFAULT_WORDMARK = ''Fleet Command Center''"

text \<open>
  The provider's state: the palette loaded last, the request whose answer still counts, and the
  number of requests made; \<open>br_url\<close> is the address the effect ran with last.
\<close>

record BrandState =
  br_loaded :: jsval
  br_url :: "string option option"
  br_live :: "nat option"
  br_made :: nat

definition brand_new :: BrandState where
  "brand_new = \<lparr>br_loaded = Obj [], br_url = None, br_live = None, br_made = 0\<rparr>"

definition fetch_effect :: "string option \<Rightarrow> BrandState \<Rightarrow> BrandState" where
  "fetch_effect paletteUrl s =
     (if br_url s = Some paletteUrl then s
      else (let s' = s\<lparr>br_url := Some paletteUrl, br_live := None\<rparr>
        in if truthy paletteUrl then s'\<lparr>br_live := Some (br_made s'), br_made := Suc (br_made s')\<rparr> else s'))"

definition palette_arrives :: "nat \<Rightarrow> FetchOutcome \<Rightarrow> BrandState \<Rightarrow> BrandState" where
  "palette_arrives i res s = (if br_live s = Some i then s\<lparr>br_loaded := loadPalette res\<rparr> else s)"

definition brand_unmount :: "BrandState \<Rightarrow> BrandState" where
  "brand_unmount s = s\<lparr>br_live := None\<rparr>"

text \<open>\<open>{ ...loaded, ...palette }\<close>: the own properties of both, an array's under its indices.\<close>

fun own_members :: "jsval \<Rightarrow> (string \<times> jsval) list" where
  "own_members (Obj ps) = ps"
| "own_members (Arr vs) = map (\<lambda>(i, v). (nat_str i, v)) (enumerate 0 vs)"
| "own_members v = []"

definition brand_colors :: "jsval option \<Rightarrow> BrandState \<Rightarrow> (string \<times> string) list" where
  "brand_colors palette s =
     mergePalette (Obj (map_new (own_members (br_loaded s) @ own_members (or_else palette Undefined))))"

definition brand_value :: "jsval option \<Rightarrow> BrandAssets option \<Rightarrow> BrandState \<Rightarrow> BrandContextValue" where
  "brand_value palette assets s =
     \<lparr>bc_logoUrl = Option.bind assets ba_logoUrl, bc_heroUrl = Option.bind assets ba_heroUrl,
      bc_wordmark = or_else (Option.bind assets ba_wordmark) DEFAULT_WORDMARK, bc_colors = brand_colors palette s\<rparr>"

definition useBrand :: "BrandContextValue option \<Rightarrow> string + BrandContextValue" where
  "useBrand ctx = (case ctx of None \<Rightarrow> Inl ''useBrand must be used within a BrandProvider'' | Some v \<Rightarrow> Inr v)"

section \<open>Logo and hero\<close>

text \<open>The state of either is whether an image has failed; the argument of an action is its new value.\<close>

definition Wordmark :: "string \<Rightarrow> 'a node" where
  "Wordmark s =
     Elem ''div''
       [Attr ''data-testid'' ''brand-logo-placeholder'', Attr ''role'' ''img'', Attr ''aria-label'' s,
        Style
         [(''display'', Css ''inline-flex''), (''alignItems'', Css ''center''),
          (''padding'', Css ''var(--space-2, 8px) var(--space-3, 12px)''), (''borderRadius'', Css ''var(--radius-control, 6px)''),
          (''background'', Css ''var(--color-surface-alt, #232E40)''), (''color'', Css ''var(--color-text, #E8EDF4)''),
          (''fontFamily'', Css ''var(--font-sans, sans-serif)''), (''fontWeight'', Dim 600),
          (''fontSize'', Css ''var(--font-size-lg, 20px)''), (''lineHeight'', Css ''var(--line-height-heading, 1.2)''),
          (''whiteSpace'', Css ''nowrap'')]]
       [Text s]"

definition class_attr :: "string option \<Rightarrow> 'a attr list" where
  "class_attr className = (case className of None \<Rightarrow> [] | Some c \<Rightarrow> [Attr ''className'' c])"

definition BrandLogo :: "BrandContextValue \<Rightarrow> bool \<Rightarrow> (bool \<Rightarrow> 'a) \<Rightarrow> string option \<Rightarrow> string option \<Rightarrow> 'a node" where
  "BrandLogo ctx failed setFailed alt className =
     (case resolveBrandSlot (bc_logoUrl ctx) of
        Placeholder \<Rightarrow> Wordmark (bc_wordmark ctx)
      | Asset src \<Rightarrow>
          if failed then Wordmark (bc_wordmark ctx)
          else Elem ''img''
            ([Attr ''data-testid'' ''brand-logo-image''] @ class_attr className @
             [Attr ''src'' src, Attr ''alt'' (or_else alt (bc_wordmark ctx)), OnEv ''onError'' (\<lambda>e. [setFailed True]),
              Style [(''height'', Css ''var(--space-6, 32px)''), (''width'', Css ''auto''), (''display'', Css ''block'')]])
            [])"

definition HERO_BASE_STYLE :: style where
  "HERO_BASE_STYLE =
    [(''position'', Css ''relative''), (''width'', Css ''100%''), (''minHeight'', Css ''var(--space-8, 64px)''),
     (''borderRadius'', Css ''var(--radius-card, 10px)''), (''overflow'', Css ''hidden'')]"

definition GRADIENT_PLACEHOLDER :: string where
  "GRADIENT_PLACEHOLDER = ''linear-gradient(135deg, var(--color-primary, #3B82F6), var(--color-accent, #14B8A6))''"

definition hero_asset :: "BrandContextValue \<Rightarrow> bool \<Rightarrow> string option" where
  "hero_asset ctx failed = (case resolveBrandSlot (bc_heroUrl ctx) of
      Asset src \<Rightarrow> if failed then None else Some src | Placeholder \<Rightarrow> None)"

definition BrandHero ::
    "BrandContextValue \<Rightarrow> bool \<Rightarrow> (bool \<Rightarrow> 'a) \<Rightarrow> string option \<Rightarrow> 'a node list \<Rightarrow> 'a node" where
  "BrandHero ctx failed setFailed className children =
     (let shown = hero_asset ctx failed
      in Elem ''div''
        ([Attr ''data-testid'' (if shown \<noteq> None then ''brand-hero-image'' else ''brand-hero-placeholder'')] @
         class_attr className @
         [Attr ''role'' ''img'', Attr ''aria-label'' ''Hero'',
          Style (spread_styles [HERO_BASE_STYLE,
            [(''background'', Css (case shown of Some src \<Rightarrow> ''center / cover no-repeat url('' @ src @ '')''
               | None \<Rightarrow> GRADIENT_PLACEHOLDER))]])])
        ((case shown of None \<Rightarrow> []
          | Some src \<Rightarrow>
              [Elem ''img''
                [Attr ''src'' src, Attr ''alt'' [], Attr ''aria-hidden'' ''true'', OnEv ''onError'' (\<lambda>e. [setFailed True]),
                 Style [(''display'', Css ''none'')]] []]) @
         children))"

section \<open>Only the current palette counts\<close>

datatype BrandEvent = AddressIs "string option" | Arrives nat FetchOutcome | BrandUnmounts

fun brand_event :: "BrandEvent \<Rightarrow> BrandState \<Rightarrow> BrandState" where
  "brand_event (AddressIs url) s = fetch_effect url s"
| "brand_event (Arrives i res) s = palette_arrives i res s"
| "brand_event BrandUnmounts s = brand_unmount s"

definition brand_run :: "BrandEvent list \<Rightarrow> BrandState" where
  "brand_run evs = fold brand_event evs brand_new"

lemma live_is_latest: "br_live s = Some i \<Longrightarrow> Suc i = br_made s \<Longrightarrow> br_live (brand_event ev s) = Some j \<Longrightarrow> Suc j = br_made (brand_event ev s)"
  by (cases ev) (auto simp: fetch_effect_def palette_arrives_def brand_unmount_def Let_def split: if_splits)

lemma brand_latest: "br_live (brand_run evs) = Some i \<Longrightarrow> Suc i = br_made (brand_run evs)"
proof (induction evs arbitrary: i rule: rev_induct)
  case Nil
  then show ?case by (simp add: brand_run_def brand_new_def)
next
  case (snoc ev evs)
  then show ?case
    by (cases ev) (auto simp: brand_run_def fetch_effect_def palette_arrives_def brand_unmount_def Let_def split: if_splits)
qed

text \<open>An answer to any request but the latest, or after the address was taken away,
  changes nothing.\<close>

lemma stale_palette_ignored:
  "Suc i \<noteq> br_made (brand_run evs) \<or> br_live (brand_run evs) = None \<Longrightarrow> palette_arrives i res (brand_run evs) = brand_run evs"
  using brand_latest [of evs i] by (auto simp: palette_arrives_def)

lemma current_palette_counts:
  "br_live (brand_run evs) = Some i \<Longrightarrow> br_loaded (brand_run (evs @
    [Arrives i res])) = loadPalette res"
  by (simp add: brand_run_def palette_arrives_def)

text \<open>Whatever was fetched and given, every colour of the context is a token of the palette.\<close>

lemma brand_tokens: "map fst (brand_colors palette s) = map fst colors"
  by (simp add: brand_colors_def mergePalette_def comp_def split_beta)

lemma brand_wordmark: "bc_wordmark (brand_value palette None s) = ''Fleet Command Center''"
  by (simp add: brand_value_def DEFAULT_WORDMARK_def or_else_def)

text \<open>A failed image is replaced, and stays replaced when the address of the image changes.\<close>

lemma failed_image_replaced: "attr_of ''data-testid'' (attrs_of (BrandLogo ctx True f alt cl)) = Some ''brand-logo-placeholder''"
  by (simp add: BrandLogo_def Wordmark_def split: SlotResolution.split)

lemma new_address_after_failure:
  "BrandLogo (ctx\<lparr>bc_logoUrl := Some url\<rparr>) True f alt cl = Wordmark (bc_wordmark ctx)"
  "hero_asset (ctx\<lparr>bc_heroUrl := Some url\<rparr>) True = None"
  by (simp_all add: BrandLogo_def hero_asset_def split: SlotResolution.split)

end
