(* ===== verification/Operations.thy ===== *)
theory Operations
  imports Fleet_Map "HOL-Library.List_Lexorder" "HOL-Library.Char_ord"
begin

text \<open>
  The operations console (\<open>operations/*.ts\<close>, the pure parts of \<open>views/*.tsx\<close> and of
  \<open>components/Table.tsx\<close>, \<open>components/Toast.tsx\<close>): counts, search, the detail of a driver, the
  activity feed, the seeded population, sortable tables and toasts. As in the live map, statuses
  are taken not to be names of inherited properties of objects.
\<close>

section \<open>Model: records\<close>

record DriverRecord =
  or_driverId :: string
  or_name :: string
  or_status :: string
  or_vehicleId :: "string option"
  or_contact :: "string option"

record DeliveryRecord =
  od_deliveryId :: string
  od_recipientName :: string
  od_recipientContact :: "string option"
  od_destinationAddress :: string
  od_status :: string
  od_assignmentId :: "string option"

record AssignmentRecord =
  oa_assignmentId :: string
  oa_driverId :: string
  oa_vehicleId :: string
  oa_deliveryIds :: "string list"
  oa_status :: string

record RouteRecord =
  ot_assignmentId :: string
  ot_stops :: "RouteStop list"
  ot_optimized :: bool

record VehiclePosition =
  op_vehicleId :: string
  op_lat :: jsnum
  op_lng :: jsnum
  op_timestamp :: "Timestamp option"

section \<open>Model: counts and search\<close>

record StatusCounts =
  sc_byStatus :: "(string, nat) jsmap"
  sc_total :: nat

definition bump :: "string \<Rightarrow> (string, nat) jsmap \<Rightarrow> (string, nat) jsmap" where
  "bump s byStatus = map_set s (or_else (map_get byStatus s) 0 + 1) byStatus"

definition countByStatus :: "'a list \<Rightarrow> ('a \<Rightarrow> string) \<Rightarrow> string list \<Rightarrow> StatusCounts" where
  "countByStatus items statusOf statuses =
     (let zeros = foldl (\<lambda>m s. map_set s 0 m) [] statuses;
          byStatus = foldl (\<lambda>m item. bump (statusOf item) m) zeros items
      in \<lparr>sc_byStatus = byStatus, sc_total = length items\<rparr>)"

definition DRIVER_STATUS_ORDER :: "string list" where
  "DRIVER_STATUS_ORDER = map driver_status_wire all_driver_statuses"

definition DELIVERY_STATUS_ORDER :: "string list" where
  "DELIVERY_STATUS_ORDER = map delivery_status_wire all_delivery_statuses"

definition searchDeliveries :: "DeliveryRecord list \<Rightarrow> string \<Rightarrow> DeliveryRecord list" where
  "searchDeliveries deliveries query =
     (let q = js_lower (js_trim query)
      in if q = [] then []
         else filter (\<lambda>d. str_includes (js_lower (od_deliveryId d)) q
                \<or> str_includes (js_lower (od_recipientName d)) q) deliveries)"

text \<open>The rows of the deliveries console for a query and a status filter.\<close>

definition visible_deliveries :: "DeliveryRecord list \<Rightarrow> string \<Rightarrow> string option \<Rightarrow> DeliveryRecord list" where
  "visible_deliveries deliveries localQuery flt =
     (let q = js_trim localQuery;
          base = (if q \<noteq> [] then searchDeliveries deliveries q else deliveries)
      in if truthy flt then filter (\<lambda>d. Some (od_status d) = flt) base else base)"

section \<open>Model: the detail of a driver\<close>

record DriverDetail =
  dd_driver :: DriverRecord
  dd_assignment :: "AssignmentRecord option"
  dd_route :: "RouteRecord option"
  dd_deliveries :: "DeliveryRecord list"
  dd_position :: "VehiclePosition option"

definition buildDriverDetail ::
    "string \<Rightarrow> DriverRecord list \<Rightarrow> AssignmentRecord list \<Rightarrow> RouteRecord list \<Rightarrow> DeliveryRecord list
     \<Rightarrow> VehiclePosition list \<Rightarrow> DriverDetail option" where
  "buildDriverDetail driverId drivers assignments routes deliveries positions =
     (case List.find (\<lambda>d. or_driverId d = driverId) drivers of
        None \<Rightarrow> None
      | Some driver \<Rightarrow>
          (let assignment = List.find (\<lambda>a. oa_driverId a = driverId
                 \<and> oa_status a \<noteq> assignment_status_wire Complete) assignments;
               route = (case assignment of
                   Some a \<Rightarrow> List.find (\<lambda>r. ot_assignmentId r = oa_assignmentId a) routes | None \<Rightarrow> None);
               byId = map_new (map (\<lambda>d. (od_deliveryId d, d)) deliveries);
               assignedDeliveries = (case assignment of
                   Some a \<Rightarrow> List.map_filter (map_get byId) (oa_deliveryIds a) | None \<Rightarrow> []);
               vehicleId = nullish (map_option oa_vehicleId assignment) (or_vehicleId driver);
               position = (if truthy vehicleId
                   then List.find (\<lambda>p. Some (op_vehicleId p) = vehicleId) positions else None)
           in Some \<lparr>dd_driver = driver, dd_assignment = assignment, dd_route = route,
                dd_deliveries = assignedDeliveries, dd_position = position\<rparr>))"

section \<open>Model: the activity feed\<close>

record ActivityEntry =
  ac_key :: string
  ac_vehicleId :: string
  ac_zoneId :: string
  ac_type :: ZoneEventType
  ac_label :: "string option"
  ac_timestamp :: string
  ac_receivedAt :: int

definition DEFAULT_FEED_LIMIT :: nat where
  "DEFAULT_FEED_LIMIT = 50"

text \<open>The state is the module's counter and the hook's entries.\<close>

definition feed_key :: "ZoneEventMessage \<Rightarrow> nat \<Rightarrow> string" where
  "feed_key e n = ze_vehicleId e @ '':'' @ ze_zoneId e @ '':'' @ ze_timestamp e @ '':'' @ nat_str n"

definition on_zone_event :: "nat \<Rightarrow> int \<Rightarrow> ZoneEventMessage \<Rightarrow> nat \<times> ActivityEntry list \<Rightarrow> nat \<times> ActivityEntry list" where
  "on_zone_event limit now e st = (case st of (n, prev) \<Rightarrow>
     (let n' = n + 1;
          entry = \<lparr>ac_key = feed_key e n', ac_vehicleId = ze_vehicleId e, ac_zoneId = ze_zoneId e,
            ac_type = ze_type e, ac_label = ze_label e, ac_timestamp = ze_timestamp e, ac_receivedAt = now\<rparr>
      in (n', take limit (entry # prev))))"

section \<open>Model: sortable tables\<close>

datatype Cell = CellStr string | CellNum jsnum | CellNull

datatype SortDir = Asc | Desc

text \<open>
  Strings compare by code units; in a mixed comparison the string is converted to a number,
  which is the parameter \<open>num_of\<close>.
\<close>

fun str_less :: "string \<Rightarrow> string \<Rightarrow> bool" where
  "str_less _ [] = False"
| "str_less [] (d # ds) = True"
| "str_less (c # cs) (d # ds) = (char_code c < char_code d \<or> c = d \<and> str_less cs ds)"

fun cell_num :: "(string \<Rightarrow> jsnum) \<Rightarrow> Cell \<Rightarrow> jsnum" where
  "cell_num num_of (CellStr s) = num_of s"
| "cell_num num_of (CellNum x) = x"
| "cell_num num_of CellNull = Fin 0"

fun cell_less :: "(string \<Rightarrow> jsnum) \<Rightarrow> Cell \<Rightarrow> Cell \<Rightarrow> bool" where
  "cell_less num_of (CellStr s) (CellStr t) = str_less s t"
| "cell_less num_of a b = js_lt (cell_num num_of a) (cell_num num_of b)"

text \<open>Whether the comparator answers a positive number.\<close>

definition row_after ::
    "(string \<Rightarrow> jsnum) \<Rightarrow> ('r \<Rightarrow> Cell) \<Rightarrow> SortDir \<Rightarrow> 'r \<times> nat \<Rightarrow> 'r \<times> nat \<Rightarrow> bool" where
  "row_after num_of accessor dir a b =
     (let av = accessor (fst a); bv = accessor (fst b)
      in if av = CellNull \<and> bv = CellNull then snd a > snd b
         else if av = CellNull then True
         else if bv = CellNull then False
         else if cell_less num_of av bv then dir = Desc
         else if cell_less num_of bv av then dir = Asc
         else snd a > snd b)"

definition sortRows :: "(string \<Rightarrow> jsnum) \<Rightarrow> 'r list \<Rightarrow> ('r \<Rightarrow> Cell) \<Rightarrow> SortDir \<Rightarrow> 'r list" where
  "sortRows num_of rows accessor dir =
     map fst (js_sort (row_after num_of accessor dir) (zip rows [0..<length rows]))"

type_synonym Sort = "(string \<times> SortDir) option"

definition toggleSort :: "string \<Rightarrow> Sort \<Rightarrow> Sort" where
  "toggleSort key s =
     (if map_option fst s = Some key
      then Some (key, if map_option snd s = Some Asc then Desc else Asc) else Some (key, Asc))"

definition sorted_rows ::
    "(string \<Rightarrow> jsnum) \<Rightarrow> (string \<times> ('r \<Rightarrow> Cell)) list \<Rightarrow> 'r list \<Rightarrow> Sort \<Rightarrow> 'r list" where
  "sorted_rows num_of columns rows s = (case s of
      None \<Rightarrow> rows
    | Some (key, dir) \<Rightarrow> (case List.find (\<lambda>c. fst c = key) columns of
          None \<Rightarrow> rows
        | Some col \<Rightarrow> sortRows num_of rows (snd col) dir))"

section \<open>Model: toasts\<close>

record Toast =
  to_id :: nat
  to_tone :: string
  to_message :: string

text \<open>The module's counter, the toasts shown and the pending timers (id and delay).\<close>

record ToastState =
  tt_seq :: nat
  tt_toasts :: "Toast list"
  tt_timers :: "(nat \<times> int) list"

definition toast_dismiss :: "nat \<Rightarrow> ToastState \<Rightarrow> ToastState" where
  "toast_dismiss i s = s\<lparr>tt_toasts := filter (\<lambda>x. to_id x \<noteq> i) (tt_toasts s)\<rparr>"

definition toast_push :: "string \<Rightarrow> string option \<Rightarrow> int option \<Rightarrow> ToastState \<Rightarrow> nat \<times> ToastState" where
  "toast_push message tone ttlMs s =
     (let i = tt_seq s + 1; ttl = or_else ttlMs 5000;
          t = \<lparr>to_id = i, to_tone = or_else tone ''info'', to_message = message\<rparr>
      in (i, s\<lparr>tt_seq := i, tt_toasts := tt_toasts s @ [t],
               tt_timers := (if ttl > 0 then tt_timers s @ [(i, ttl)] else tt_timers s)\<rparr>))"

definition toast_expires :: "nat \<Rightarrow> ToastState \<Rightarrow> ToastState" where
  "toast_expires i s = toast_dismiss i (s\<lparr>tt_timers := filter (\<lambda>e. fst e \<noteq> i) (tt_timers s)\<rparr>)"


section \<open>Model: the vehicle roster and the reports\<close>

record VehicleRow =
  vr_vehicleId :: string
  vr_driver :: string
  vr_status :: string
  vr_heading :: "jsnum option"
  vr_lat :: jsnum
  vr_lng :: jsnum

definition driver_by_vehicle :: "DriverRecord list \<Rightarrow> (string, string) jsmap" where
  "driver_by_vehicle drivers =
     foldl (\<lambda>m d. case or_vehicleId d of Some v \<Rightarrow> (if v \<noteq> [] then map_set v (or_name d) m else m) | None \<Rightarrow> m) [] drivers"

definition vehicle_rows :: "VehicleState list \<Rightarrow> DriverRecord list \<Rightarrow> VehicleRow list" where
  "vehicle_rows vehicles drivers =
     map (\<lambda>v. \<lparr>vr_vehicleId = vs_vehicleId v,
        vr_driver = or_else (map_get (driver_by_vehicle drivers) (vs_vehicleId v)) ''Unassigned'',
        vr_status = vs_driverStatus v, vr_heading = vs_heading v, vr_lat = vs_lat v, vr_lng = vs_lng v\<rparr>) vehicles"

definition VEHICLE_STATUSES :: "string list" where
  "VEHICLE_STATUSES = [''Available'', ''On_Delivery'', ''On_Break'', ''Offline'']"

definition vehicle_counts :: "VehicleState list \<Rightarrow> (string \<times> nat) list" where
  "vehicle_counts vehicles = map (\<lambda>s. (s, length (filter (\<lambda>v. vs_driverStatus v = s) vehicles))) VEHICLE_STATUSES"

record ReportMetrics =
  rm_total :: nat
  rm_completed :: nat
  rm_active :: nat
  rm_failed :: nat
  rm_onDuty :: nat
  rm_completionRate :: int

definition report_metrics :: "DriverRecord list \<Rightarrow> DeliveryRecord list \<Rightarrow> ReportMetrics" where
  "report_metrics drivers deliveries =
     (let total = length deliveries;
          completed = length (filter (\<lambda>d. od_status d = ''Completed'') deliveries)
      in \<lparr>rm_total = total, rm_completed = completed,
          rm_active = length (filter (\<lambda>d. od_status d \<in> set [''Assigned'', ''In_Transit'', ''Arrived'']) deliveries),
          rm_failed = length (filter (\<lambda>d. od_status d = ''Failed'') deliveries),
          rm_onDuty = length (filter (\<lambda>d. or_status d = ''Available'' \<or> or_status d = ''On_Delivery'') drivers),
          rm_completionRate = (if total \<noteq> 0 then \<lfloor>(real completed / real total) * 100 + 1 / 2\<rfloor> else 0)\<rparr>)"

section \<open>Model: the seeded population\<close>

record OperationsState =
  os_drivers :: "DriverRecord list"
  os_deliveries :: "DeliveryRecord list"
  os_assignments :: "AssignmentRecord list"
  os_routes :: "RouteRecord list"

definition SEED_DRIVERS :: "DriverRecord list" where
  "SEED_DRIVERS =
    [\<lparr>or_driverId = ''DRV-1'', or_name = ''Maya Chen'', or_status = driver_status_wire OnDelivery,
      or_vehicleId = Some ''VAN-014'', or_contact = Some ''+1 206 555 0142''\<rparr>,
     \<lparr>or_driverId = ''DRV-2'', or_name = ''Liam Patel'', or_status = driver_status_wire Available,
      or_vehicleId = Some ''VAN-022'', or_contact = Some ''+1 206 555 0228''\<rparr>,
     \<lparr>or_driverId = ''DRV-3'', or_name = ''Sofia Rossi'', or_status = driver_status_wire OnBreak,
      or_vehicleId = Some ''TRK-003'', or_contact = Some ''+1 206 555 0303''\<rparr>,
     \<lparr>or_driverId = ''DRV-4'', or_name = ''Noah Kim'', or_status = driver_status_wire OnDelivery,
      or_vehicleId = Some ''VAN-031'', or_contact = Some ''+1 206 555 0319''\<rparr>,
     \<lparr>or_driverId = ''DRV-5'', or_name = ''Ava Nguyen'', or_status = driver_status_wire Offline,
      or_vehicleId = None, or_contact = Some ''+1 206 555 0500''\<rparr>]"

definition seed_delivery :: "string \<Rightarrow> string \<Rightarrow> string \<Rightarrow> string \<Rightarrow> DeliveryStatus \<Rightarrow> string option \<Rightarrow> DeliveryRecord" where
  "seed_delivery i name contact addr st asn =
     \<lparr>od_deliveryId = i, od_recipientName = name, od_recipientContact = Some contact,
      od_destinationAddress = addr, od_status = delivery_status_wire st, od_assignmentId = asn\<rparr>"

definition SEED_DELIVERIES :: "DeliveryRecord list" where
  "SEED_DELIVERIES =
    [seed_delivery ''DLV-1001'' ''Grace Holloway'' ''+1 206 555 1101'' ''1201 3rd Ave, Seattle, WA'' InTransit (Some ''ASN-1''),
     seed_delivery ''DLV-1002'' ''Marcus Webb'' ''+1 206 555 1102'' ''400 Pine St, Seattle, WA'' Assigned (Some ''ASN-1''),
     seed_delivery ''DLV-1003'' ''Priya Nair'' ''+1 206 555 1103'' ''2100 Western Ave, Seattle, WA'' Arrived (Some ''ASN-2''),
     seed_delivery ''DLV-1004'' ''Daniel Okafor'' ''+1 206 555 1104'' ''1730 Minor Ave, Seattle, WA'' Assigned (Some ''ASN-2''),
     seed_delivery ''DLV-1005'' ''Elena Vasquez'' ''+1 206 555 1105'' ''500 Mercer St, Seattle, WA'' Created None,
     seed_delivery ''DLV-1006'' ''Tomas Berg'' ''+1 206 555 1106'' ''88 Spring St, Seattle, WA'' Completed None,
     seed_delivery ''DLV-1007'' ''Hannah Lee'' ''+1 206 555 1107'' ''2200 1st Ave, Seattle, WA'' Cancelled None,
     seed_delivery ''DLV-1008'' ''Grace Park'' ''+1 206 555 1108'' ''305 Harrison St, Seattle, WA'' Failed None]"

definition SEED_ASSIGNMENTS :: "AssignmentRecord list" where
  "SEED_ASSIGNMENTS =
    [\<lparr>oa_assignmentId = ''ASN-1'', oa_driverId = ''DRV-1'', oa_vehicleId = ''VAN-014'',
      oa_deliveryIds = [''DLV-1001'', ''DLV-1002''], oa_status = assignment_status_wire Accepted\<rparr>,
     \<lparr>oa_assignmentId = ''ASN-2'', oa_driverId = ''DRV-4'', oa_vehicleId = ''VAN-031'',
      oa_deliveryIds = [''DLV-1003'', ''DLV-1004''], oa_status = assignment_status_wire Accepted\<rparr>]"

definition SEED_ROUTES :: "RouteRecord list" where
  "SEED_ROUTES =
    [\<lparr>ot_assignmentId = ''ASN-1'',
      ot_stops = [\<lparr>stop_index = 0, stop_deliveryIds = [''DLV-1001''], stop_lat = Fin 47.6062, stop_lng = Fin (- 122.3321)\<rparr>,
        \<lparr>stop_index = 1, stop_deliveryIds = [''DLV-1002''], stop_lat = Fin 47.6131, stop_lng = Fin (- 122.3367)\<rparr>],
      ot_optimized = True\<rparr>,
     \<lparr>ot_assignmentId = ''ASN-2'',
      ot_stops = [\<lparr>stop_index = 0, stop_deliveryIds = [''DLV-1003''], stop_lat = Fin 47.6113, stop_lng = Fin (- 122.3458)\<rparr>,
        \<lparr>stop_index = 1, stop_deliveryIds = [''DLV-1004''], stop_lat = Fin 47.6175, stop_lng = Fin (- 122.3289)\<rparr>],
      ot_optimized = True\<rparr>]"

definition useOperationsState :: OperationsState where
  "useOperationsState = \<lparr>os_drivers = SEED_DRIVERS, os_deliveries = SEED_DELIVERIES,
     os_assignments = SEED_ASSIGNMENTS, os_routes = SEED_ROUTES\<rparr>"

section \<open>Counts\<close>

lemma bump_get: "map_get (bump k m) s = (if s = k then Some (or_else (map_get m s) 0 + 1) else map_get m s)"
  by (simp add: bump_def)

lemma counts_fold:
  "map_get (foldl (\<lambda>m x. bump (f x) m) m xs) s =
     (if s \<in> f ` set xs then Some (or_else (map_get m s) 0 + length (filter (\<lambda>x. f x = s) xs)) else map_get m s)"
proof (induction xs arbitrary: m)
  case (Cons x xs)
  have "filter (\<lambda>y. f y = f x) xs = []" if "f x \<notin> f ` set xs"
    using that by (simp add: filter_empty_conv) (metis image_eqI)
  then show ?case by (auto simp: Cons.IH bump_get)
qed simp

lemma zeros_fold: "map_get (foldl (\<lambda>m s. map_set s (0 :: nat) m) m ss) s = (if s \<in> set ss then Some 0 else map_get m s)"
  by (induction ss arbitrary: m) auto

lemma countByStatus_get:
  "map_get (sc_byStatus (countByStatus items f statuses)) s =
     (if s \<in> set statuses \<union> f ` set items then Some (length (filter (\<lambda>x. f x = s) items)) else None)"
proof -
  have "filter (\<lambda>x. f x = s) items = []" if "s \<notin> f ` set items"
    using that by (auto simp: filter_empty_conv)
  then show ?thesis by (auto simp: countByStatus_def Let_def counts_fold zeros_fold)
qed

text \<open>The counts of all statuses add up to the population.\<close>

lemma bump_sum: "sum_list (map_values (bump k m)) = Suc (sum_list (map_values m))"
proof -
  have "sum_list (map_values (map_set k (or_else (map_get m k) 0 + n) m)) = sum_list (map_values m) + n" for n
    by (induction m) auto
  from this [of 1] show ?thesis by (simp add: bump_def)
qed

lemma countByStatus_total:
  "sum_list (map_values (sc_byStatus (countByStatus items f statuses))) = length items"
proof -
  have zero: "sum_list (map_values (map_set s (0 :: nat) m)) = 0" if "sum_list (map_values m) = 0"
    for s :: string and m
    using that by (induction m) auto
  have "sum_list (map_values (foldl (\<lambda>m s. map_set s (0 :: nat) m) [] statuses)) = 0"
    by (induction statuses rule: rev_induct) (simp_all add: zero del: map_map sum_list_eq_0_iff)
  moreover have "sum_list (map_values (foldl (\<lambda>m x. bump (f x) m) m items)) = sum_list (map_values m) + length items" for m
    by (induction items arbitrary: m) (simp_all add: bump_sum)
  ultimately show ?thesis by (simp add: countByStatus_def Let_def)
qed

section \<open>Activity feed\<close>

definition feed_run :: "nat \<Rightarrow> (int \<times> ZoneEventMessage) list \<Rightarrow> nat \<times> ActivityEntry list \<Rightarrow> nat \<times> ActivityEntry list" where
  "feed_run limit es st = foldl (\<lambda>st (now, e). on_zone_event limit now e st) st es"

definition entry_of :: "nat \<Rightarrow> int \<times> ZoneEventMessage \<Rightarrow> ActivityEntry" where
  "entry_of n ne = (case ne of (now, e) \<Rightarrow>
     \<lparr>ac_key = feed_key e n, ac_vehicleId = ze_vehicleId e, ac_zoneId = ze_zoneId e,
      ac_type = ze_type e, ac_label = ze_label e, ac_timestamp = ze_timestamp e, ac_receivedAt = now\<rparr>)"

lemma feed_run_spec:
  "feed_run limit es (n, []) =
     (n + length es, take limit (rev (map (\<lambda>k. entry_of (n + k + 1) (es ! k)) [0..<length es])))"
proof (induction es rule: rev_induct)
  case (snoc e es)
  obtain now z where e: "e = (now, z)" by (cases e)
  have same: "map (\<lambda>k. entry_of (n + k + 1) ((es @ [e]) ! k)) [0..<length es]
      = map (\<lambda>k. entry_of (n + k + 1) (es ! k)) [0..<length es]"
    by (rule map_cong) (simp_all add: nth_append)
  have "feed_run limit (es @ [e]) (n, []) = on_zone_event limit now z (feed_run limit es (n, []))"
    by (simp add: feed_run_def e)
  also have "\<dots> = (n + length es + 1, take limit (entry_of (n + length es + 1) e
      # rev (map (\<lambda>k. entry_of (n + k + 1) (es ! k)) [0..<length es])))"
    unfolding snoc.IH on_zone_event_def Let_def prod.case
    by (cases limit) (simp_all add: entry_of_def e take_Cons' min_def)
  finally show ?case
    unfolding length_append_singleton upt_Suc_append [OF le0] map_append same by (simp add: nth_append)
qed (simp add: feed_run_def)

lemma feed_key_inj:
  assumes "feed_key e m = feed_key f n"
  shows "m = n"
proof -
  have digits: "CHR '':'' \<notin> set (nat_str k)" for k
  proof
    assume "CHR '':'' \<in> set (nat_str k)"
    then obtain d where "d < 10" "CHR '':'' = radix_digit d"
      using to_radix_chars [of 10 "CHR '':''" k] by (auto simp: nat_str_def)
    then have "char_code (CHR '':'') = char_code (radix_digit d)" by simp
    then show False using \<open>d < 10\<close> by (simp add: char_code_radix_digit) (simp add: char_code_def)
  qed
  have last: "takeWhile (\<lambda>c. c \<noteq> CHR '':'') (rev (feed_key e k)) = rev (nat_str k)" for e k
    using digits [of k] by (auto simp: feed_key_def takeWhile_append takeWhile_eq_all_conv)
  have "rev (nat_str m) = rev (nat_str n)" using last [of e m] last [of f n] assms by simp
  then show ?thesis by (simp add: nat_str_inj)
qed


section \<open>Sortable tables\<close>

text \<open>Code-unit order is the library's lexicographic order on strings.\<close>

lemma str_less_iff: "str_less s t \<longleftrightarrow> s < t"
proof (induction s t rule: str_less.induct)
  case (3 c cs d ds)
  then show ?case by (auto simp: char_code_def less_char_def)
qed simp_all

text \<open>Cells of a column that the code compares consistently: strings only, or numbers only.\<close>

definition uniform :: "Cell list \<Rightarrow> bool" where
  "uniform cs \<longleftrightarrow> list_all (\<lambda>c. case c of CellNum _ \<Rightarrow> False | _ \<Rightarrow> True) cs
     \<or> list_all (\<lambda>c. case c of CellStr _ \<Rightarrow> False | CellNum x \<Rightarrow> x \<noteq> NaN | CellNull \<Rightarrow> True) cs"

lemma uniformD:
  assumes "uniform cs"
  shows "(\<forall>d \<in> set cs - {CellNull}. \<exists>s. d = CellStr s)
    \<or> (\<forall>d \<in> set cs - {CellNull}. \<exists>x. d = CellNum x \<and> x \<noteq> NaN)"
  using assms unfolding uniform_def list_all_iff
proof (elim disjE)
  assume a: "\<forall>c \<in> set cs. case c of CellNum _ \<Rightarrow> False | _ \<Rightarrow> True"
  have "\<exists>s. d = CellStr s" if "d \<in> set cs - {CellNull}" for d
    using a that by (cases d) auto
  then show ?thesis by blast
next
  assume a: "\<forall>c \<in> set cs. case c of CellStr _ \<Rightarrow> False | CellNum x \<Rightarrow> x \<noteq> NaN | CellNull \<Rightarrow> True"
  have "\<exists>x. d = CellNum x \<and> x \<noteq> NaN" if "d \<in> set cs - {CellNull}" for d
    using a that by (cases d) auto
  then show ?thesis by blast
qed

definition comes_after :: "(string \<Rightarrow> jsnum) \<Rightarrow> SortDir \<Rightarrow> Cell \<Rightarrow> Cell \<Rightarrow> bool" where
  "comes_after num_of dir a b \<longleftrightarrow>
     (if b = CellNull then False else if a = CellNull then True
      else if dir = Asc then cell_less num_of b a else cell_less num_of a b)"

lemma js_lt_total: "a \<noteq> NaN \<Longrightarrow> b \<noteq> NaN \<Longrightarrow> js_lt a b \<or> a = b \<or> js_lt b a"
  by (cases a; cases b) auto

lemma js_lt_asym: "js_lt a b \<Longrightarrow> \<not> js_lt b a"
  using js_lt_trans js_lt_irrefl by blast

lemma cell_less_asym: "cell_less num_of a b \<Longrightarrow> \<not> cell_less num_of b a"
  by (cases a; cases b) (auto simp: str_less_iff dest: js_lt_asym)

text \<open>
  A sort whose comparator is asymmetric and negatively transitive on the elements: the result is a
  permutation in order, and elements none of which comes after another keep their order.
\<close>

definition weak_order_on :: "'a set \<Rightarrow> ('a \<Rightarrow> 'a \<Rightarrow> bool) \<Rightarrow> bool" where
  "weak_order_on A gt \<longleftrightarrow> (\<forall>x \<in> A. \<forall>y \<in> A. gt x y \<longrightarrow> \<not> gt y x)
     \<and> (\<forall>x \<in> A. \<forall>y \<in> A. \<forall>z \<in> A. \<not> gt x y \<longrightarrow> \<not> gt y z \<longrightarrow> \<not> gt x z)"

lemma weak_order_on_mono: "weak_order_on A gt \<Longrightarrow> B \<subseteq> A \<Longrightarrow> weak_order_on B gt"
  unfolding weak_order_on_def by blast

lemma set_insort_by: "set (insort_by gt x ys) = insert x (set ys)"
  by (induction ys) auto

lemma insort_by_sorted:
  "weak_order_on (insert x (set ys)) gt \<Longrightarrow> sorted_wrt (\<lambda>a b. \<not> gt a b) ys
   \<Longrightarrow> sorted_wrt (\<lambda>a b. \<not> gt a b) (insort_by gt x ys)"
proof (induction ys)
  case (Cons y ys)
  have w: "weak_order_on (insert x (set ys)) gt" by (rule weak_order_on_mono [OF Cons.prems(1)]) auto
  show ?case
  proof (cases "gt x y")
    case True
    then have "\<not> gt y x" using Cons.prems(1) by (simp add: weak_order_on_def)
    then show ?thesis using True Cons.IH [OF w] Cons.prems(2) by (auto simp: set_insort_by)
  next
    case False
    have "\<not> gt x z" if "z \<in> set ys" for z
    proof -
      have "\<not> gt y z" using Cons.prems(2) that by simp
      with False that Cons.prems(1) show ?thesis unfolding weak_order_on_def by (meson insertCI list.set_intros)
    qed
    then show ?thesis using False Cons.prems(2) by simp
  qed
qed simp

lemma js_sort_sorted: "weak_order_on (set xs) gt \<Longrightarrow> sorted_wrt (\<lambda>a b. \<not> gt a b) (js_sort gt xs)"
proof (induction xs)
  case (Cons x xs)
  then have "weak_order_on (set xs) gt" using weak_order_on_mono by (metis set_subset_Cons)
  with Cons show ?case by (simp add: insort_by_sorted)
qed simp

lemma insort_by_stable:
  "(\<And>y. y \<in> set ys \<Longrightarrow> P x \<Longrightarrow> P y \<Longrightarrow> \<not> gt x y) \<Longrightarrow>
   filter P (insort_by gt x ys) = (if P x then x # filter P ys else filter P ys)"
  by (induction ys) auto

lemma js_sort_stable:
  "(\<And>x y. x \<in> set xs \<Longrightarrow> y \<in> set xs \<Longrightarrow> P x \<Longrightarrow> P y \<Longrightarrow> \<not> gt x y) \<Longrightarrow>
   filter P (js_sort gt xs) = filter P xs"
proof (induction xs)
  case (Cons x xs)
  have "filter P (insort_by gt x (js_sort gt xs)) = (if P x then x # filter P (js_sort gt xs) else filter P (js_sort gt xs))"
    by (rule insort_by_stable) (use Cons.prems in auto)
  with Cons show ?case by simp
qed simp

lemma comes_after_weak_order:
  assumes "uniform (map accessor rows)"
  shows "weak_order_on (set rows) (\<lambda>a b. comes_after num_of dir (accessor a) (accessor b))"
proof -
  have str: "\<not> str_less s t \<Longrightarrow> \<not> str_less t u \<Longrightarrow> \<not> str_less s u" for s t u
    unfolding str_less_iff by (metis le_less_trans not_less)
  have num: "\<not> js_lt a b \<Longrightarrow> \<not> js_lt b c \<Longrightarrow> \<not> js_lt a c" if "a \<noteq> NaN" "b \<noteq> NaN" "c \<noteq> NaN" for a b c
    using js_lt_total [of a b] js_lt_total [of b c] js_lt_trans js_lt_asym that by metis
  have cell: "\<not> cell_less num_of a b \<Longrightarrow> \<not> cell_less num_of b c \<Longrightarrow> \<not> cell_less num_of a c"
    if m: "a \<in> accessor ` set rows - {CellNull}" "b \<in> accessor ` set rows - {CellNull}"
      "c \<in> accessor ` set rows - {CellNull}" for a b c
  proof -
    have "(\<forall>d \<in> accessor ` set rows - {CellNull}. \<exists>s. d = CellStr s)
        \<or> (\<forall>d \<in> accessor ` set rows - {CellNull}. \<exists>x. d = CellNum x \<and> x \<noteq> NaN)"
      using uniformD [OF assms] by simp
    then have "\<not> cell_less num_of a b \<longrightarrow> \<not> cell_less num_of b c \<longrightarrow> \<not> cell_less num_of a c"
    proof (elim disjE)
      assume A: "\<forall>d \<in> accessor ` set rows - {CellNull}. \<exists>s. d = CellStr s"
      obtain s t u where "a = CellStr s" "b = CellStr t" "c = CellStr u"
        using bspec [OF A m(1)] bspec [OF A m(2)] bspec [OF A m(3)] by (elim exE) simp
      then show ?thesis using str [of s t u] by simp
    next
      assume A: "\<forall>d \<in> accessor ` set rows - {CellNull}. \<exists>x. d = CellNum x \<and> x \<noteq> NaN"
      obtain x y z where "a = CellNum x" "b = CellNum y" "c = CellNum z" "x \<noteq> NaN" "y \<noteq> NaN" "z \<noteq> NaN"
        using bspec [OF A m(1)] bspec [OF A m(2)] bspec [OF A m(3)] by (elim exE conjE) simp
      then show ?thesis using num [of x y z] by simp
    qed
    then show "\<not> cell_less num_of a b \<Longrightarrow> \<not> cell_less num_of b c \<Longrightarrow> \<not> cell_less num_of a c" by blast
  qed
  show ?thesis
    unfolding weak_order_on_def
  proof (intro conjI ballI impI)
    fix x y assume "comes_after num_of dir (accessor x) (accessor y)"
    then show "\<not> comes_after num_of dir (accessor y) (accessor x)"
      using cell_less_asym by (auto simp: comes_after_def split: if_splits)
  next
    fix x y z assume m: "x \<in> set rows" "y \<in> set rows" "z \<in> set rows"
      and n: "\<not> comes_after num_of dir (accessor x) (accessor y)" "\<not> comes_after num_of dir (accessor y) (accessor z)"
    show "\<not> comes_after num_of dir (accessor x) (accessor z)"
      using n cell [of "accessor x" "accessor y" "accessor z"] cell [of "accessor z" "accessor y" "accessor x"] m
      unfolding comes_after_def by (auto split: if_splits)
  qed
qed

text \<open>Positions only ever decide in favour of the order the rows came in.\<close>

lemma insort_by_cong:
  "(\<And>y. y \<in> set ys \<Longrightarrow> gt x y = gt' x y) \<Longrightarrow> insort_by gt x ys = insort_by gt' x ys"
  by (induction ys) auto

lemma sort_by_position:
  assumes "\<And>a b. a \<in> set xs \<Longrightarrow> b \<in> set xs \<Longrightarrow> snd a < snd b \<Longrightarrow> gt a b = gt' a b"
    and "sorted_wrt (<) (map snd (xs :: ('r \<times> nat) list))"
  shows "js_sort gt xs = js_sort gt' xs"
  using assms
proof (induction xs)
  case (Cons x xs)
  have "js_sort gt xs = js_sort gt' xs" using Cons by auto
  moreover have "insort_by gt x (js_sort gt' xs) = insort_by gt' x (js_sort gt' xs)"
    using Cons.prems by (intro insort_by_cong) auto
  ultimately show ?case by simp
qed simp

lemma sortRows_alt: "sortRows num_of rows accessor dir =
    js_sort (\<lambda>a b. comes_after num_of dir (accessor a) (accessor b)) rows"
proof -
  let ?xs = "zip rows [0..<length rows]"
  have "js_sort (row_after num_of accessor dir) ?xs
      = js_sort (\<lambda>a b. comes_after num_of dir (accessor (fst a)) (accessor (fst b))) ?xs"
  proof (rule sort_by_position)
    show "sorted_wrt (<) (map snd ?xs)" by (simp add: sorted_wrt_upt)
  next
    fix a b :: "'a \<times> nat" assume "snd a < snd b"
    then show "row_after num_of accessor dir a b = comes_after num_of dir (accessor (fst a)) (accessor (fst b))"
      using cell_less_asym by (cases dir) (auto simp: row_after_def comes_after_def Let_def)
  qed
  moreover have "js_sort (\<lambda>a b. comes_after num_of dir (accessor a) (accessor b)) (map fst ?xs)
      = map fst (js_sort (\<lambda>a b. comes_after num_of dir (accessor (fst a)) (accessor (fst b))) ?xs)"
    by (rule js_sort_map) simp
  ultimately show ?thesis by (simp add: sortRows_def)
qed

text \<open>
  With the positions, the comparator orders the rows of a consistent column totally: every sorting
  procedure gives the same result.
\<close>

lemma row_after_cases: "row_after num_of accessor dir a b \<longleftrightarrow>
    comes_after num_of dir (accessor (fst a)) (accessor (fst b))
    \<or> \<not> comes_after num_of dir (accessor (fst b)) (accessor (fst a)) \<and> snd b < snd a"
  using cell_less_asym [of num_of "accessor (fst a)" "accessor (fst b)"]
  by (cases dir) (auto simp: row_after_def comes_after_def Let_def)

lemma row_after_weak_order:
  assumes "uniform (map accessor rows)"
  shows "weak_order_on (set (zip rows [0..<length rows])) (row_after num_of accessor dir)"
proof -
  let ?after = "\<lambda>a b. comes_after num_of dir (accessor (fst a)) (accessor (fst b))"
  have m: "p \<in> set (zip rows [0..<length rows]) \<Longrightarrow> fst p \<in> set rows" for p
    by (cases p) (auto dest: set_zip_leftD)
  have asym: "?after a b \<Longrightarrow> \<not> ?after b a" if "fst a \<in> set rows" "fst b \<in> set rows" for a b :: "'a \<times> nat"
    using comes_after_weak_order [OF assms, of num_of dir] that unfolding weak_order_on_def by blast
  have neg: "\<not> ?after a b \<Longrightarrow> \<not> ?after b c \<Longrightarrow> \<not> ?after a c"
    if "fst a \<in> set rows" "fst b \<in> set rows" "fst c \<in> set rows" for a b c :: "'a \<times> nat"
    using comes_after_weak_order [OF assms, of num_of dir] that unfolding weak_order_on_def by blast
  show ?thesis
    unfolding weak_order_on_def row_after_cases
  proof (intro conjI ballI impI)
    fix a b assume e: "a \<in> set (zip rows [0..<length rows])" "b \<in> set (zip rows [0..<length rows])"
      and "?after a b \<or> \<not> ?after b a \<and> snd b < snd a"
    then show "\<not> (?after b a \<or> \<not> ?after a b \<and> snd a < snd b)" using asym [OF m m, OF e] by auto
  next
    fix a b c assume e: "a \<in> set (zip rows [0..<length rows])" "b \<in> set (zip rows [0..<length rows])"
        "c \<in> set (zip rows [0..<length rows])"
      and n: "\<not> (?after a b \<or> \<not> ?after b a \<and> snd b < snd a)" "\<not> (?after b c \<or> \<not> ?after c b \<and> snd c < snd b)"
    note f = m [OF e(1)] m [OF e(2)] m [OF e(3)]
    show "\<not> (?after a c \<or> \<not> ?after c a \<and> snd c < snd a)"
      using n neg [OF f(1,2,3)] neg [OF f(2,3,1)] neg [OF f(3,1,2)] by (cases "snd c < snd a") auto
  qed
qed

lemma sorted_lists_agree:
  "mset xs = mset ys \<Longrightarrow> sorted_wrt R xs \<Longrightarrow> sorted_wrt R ys
     \<Longrightarrow> (\<And>x y. x \<in> set xs \<Longrightarrow> y \<in> set xs \<Longrightarrow> R x y \<Longrightarrow> R y x \<Longrightarrow> x = y) \<Longrightarrow> xs = ys"
proof (induction xs arbitrary: ys)
  case (Cons x xs)
  then obtain y ys' where ys: "ys = y # ys'" by (cases ys) auto
  have sets: "set (x # xs) = set (y # ys')" using Cons.prems(1) ys by (metis set_mset_mset)
  have "x = y"
  proof (rule ccontr)
    assume "x \<noteq> y"
    with sets have "y \<in> set xs" "x \<in> set ys'" by auto
    with Cons.prems(2,3) ys have "R x y" "R y x" by auto
    with Cons.prems(4) [of x y] \<open>y \<in> set xs\<close> \<open>x \<noteq> y\<close> show False by simp
  qed
  moreover have "xs = ys'" using Cons.prems ys \<open>x = y\<close> by (intro Cons.IH) auto
  ultimately show ?case by (simp add: ys)
qed simp

lemma position_unique:
  "p \<in> set (zip rows [0..<length rows]) \<Longrightarrow> q \<in> set (zip rows [0..<length rows]) \<Longrightarrow> snd p = snd q \<Longrightarrow> p = q"
  by (auto simp: in_set_zip prod_eq_iff)

lemma any_sort_gives_sortRows:
  assumes "uniform (map accessor rows)" "mset ys = mset (zip rows [0..<length rows])"
    "sorted_wrt (\<lambda>p q. \<not> row_after num_of accessor dir p q) ys"
  shows "map fst ys = sortRows num_of rows accessor dir"
proof -
  let ?xs = "zip rows [0..<length rows]"
  have "ys = js_sort (row_after num_of accessor dir) ?xs"
  proof (rule sorted_lists_agree [OF _ assms(3) js_sort_sorted [OF row_after_weak_order [OF assms(1)]]])
    show "mset ys = mset (js_sort (row_after num_of accessor dir) ?xs)" using assms(2) by simp
  next
    fix p q assume "p \<in> set ys" "q \<in> set ys" "\<not> row_after num_of accessor dir p q" "\<not> row_after num_of accessor dir q p"
    moreover have "set ys = set ?xs" using assms(2) by (metis set_mset_mset)
    moreover have "snd p = snd q" using calculation by (auto simp: row_after_cases)
    ultimately show "p = q" using position_unique by metis
  qed
  then show ?thesis by (simp add: sortRows_def)
qed

section \<open>Search, rosters and toasts\<close>

lemma searchDeliveries_mem:
  "d \<in> set (searchDeliveries ds query) \<longleftrightarrow> d \<in> set ds \<and> \<not> list_all js_space query
     \<and> (\<exists>a b. js_lower (od_deliveryId d) = a @ js_lower (js_trim query) @ b
          \<or> js_lower (od_recipientName d) = a @ js_lower (js_trim query) @ b)"
proof -
  have "js_lower (js_trim query) = [] \<longleftrightarrow> list_all js_space query"
    by (simp add: js_lower_def js_trim_empty_iff)
  then show ?thesis by (auto simp: searchDeliveries_def Let_def str_includes_iff)
qed

lemma completion_rate_bounds: "0 \<le> rm_completionRate (report_metrics ds es) \<and> rm_completionRate (report_metrics ds es) \<le> 100"
proof -
  define c where "c = length (filter (\<lambda>d. od_status d = ''Completed'') es)"
  have "c \<le> length es" by (simp add: c_def)
  then have "real c / real (length es) \<le> 1" by (cases es) simp_all
  then have "0 \<le> real c / real (length es) * 100 + 1 / 2" "real c / real (length es) * 100 + 1 / 2 < 101" by simp_all
  then have "0 \<le> \<lfloor>real c / real (length es) * 100 + 1 / 2\<rfloor>" "\<lfloor>real c / real (length es) * 100 + 1 / 2\<rfloor> \<le> 100"
    by linarith+
  then show ?thesis by (simp add: report_metrics_def Let_def c_def)
qed

lemma toggleSort_cycle:
  "toggleSort k (toggleSort k None) = Some (k, Desc)" "toggleSort k (Some (k, Desc)) = Some (k, Asc)"
  "k \<noteq> k' \<Longrightarrow> toggleSort k (Some (k', d)) = Some (k, Asc)"
  by (simp_all add: toggleSort_def)

definition toasts_ok :: "ToastState \<Rightarrow> bool" where
  "toasts_ok s \<longleftrightarrow> distinct (map to_id (tt_toasts s)) \<and> (\<forall>t \<in> set (tt_toasts s). to_id t \<le> tt_seq s)"

lemma toasts_ok_steps:
  "toasts_ok s \<Longrightarrow> toasts_ok (toast_dismiss i s)"
  "toasts_ok s \<Longrightarrow> toasts_ok (snd (toast_push m tone ttl s))"
  "toasts_ok s \<Longrightarrow> toasts_ok (toast_expires i s)"
  by (fastforce simp: toasts_ok_def toast_dismiss_def toast_push_def toast_expires_def Let_def
      intro: distinct_map_filter)+

section \<open>The detail of a driver\<close>

lemma map_filter_ids:
  "map od_deliveryId (List.map_filter (map_get (map_new (map (\<lambda>d. (od_deliveryId d, d)) ds))) ids)
     = filter (\<lambda>i. i \<in> od_deliveryId ` set ds) ids"
proof -
  define m where "m = map_new (map (\<lambda>d. (od_deliveryId d, d)) ds)"
  have get: "map_get m i = map_of (rev (map (\<lambda>d. (od_deliveryId d, d)) ds)) i" for i
    by (simp add: m_def map_get_new)
  have known: "map_get m i = None \<longleftrightarrow> i \<notin> od_deliveryId ` set ds" for i
    unfolding get by (force simp: map_of_eq_None_iff)
  have own: "map_get m i = Some d \<Longrightarrow> od_deliveryId d = i" for i d
    unfolding get by (auto dest!: map_of_SomeD)
  have "map od_deliveryId (List.map_filter (map_get m) ids) = filter (\<lambda>i. map_get m i \<noteq> None) ids"
    by (induction ids) (auto simp: map_filter_simps own split: option.split)
  then show ?thesis unfolding m_def [symmetric] by (simp add: known)
qed

section \<open>Properties\<close>

text \<open>
  C32. Sorting a table. The sorted rows are a permutation of the rows. If the column holds strings
  only or numbers other than \<open>NaN\<close> only (empty cells aside), rows with equal cells keep their order
  and no row comes after one it precedes, empty cells last, the others ascending or descending; and
  whatever procedure the language sorts with, a list of the rows with their positions that is in
  order by the code's comparator lists the rows in this order. (The comparator is inconsistent on
  other columns, where the language leaves the order open.)
\<close>

theorem sortRows_spec:
  "mset (sortRows num_of rows accessor dir) = mset rows
   \<and> (if uniform (map accessor rows)
      then filter (\<lambda>r. accessor r = c) (sortRows num_of rows accessor dir) = filter (\<lambda>r. accessor r = c) rows
        \<and> sorted_wrt (\<lambda>a b. \<not> comes_after num_of dir (accessor a) (accessor b)) (sortRows num_of rows accessor dir)
        \<and> (\<forall>ys. mset ys = mset (zip rows [0..<length rows])
             \<longrightarrow> sorted_wrt (\<lambda>p q. \<not> row_after num_of accessor dir p q) ys
             \<longrightarrow> map fst ys = sortRows num_of rows accessor dir)
      else True)"
proof -
  have "\<not> comes_after num_of dir c c"
    using cell_less_asym [of num_of c c] by (auto simp: comes_after_def)
  moreover note any_sort_gives_sortRows [where num_of = num_of and rows = rows and accessor = accessor and dir = dir]
  ultimately show ?thesis
    unfolding sortRows_alt
    by (auto intro!: js_sort_stable js_sort_sorted comes_after_weak_order)
qed

theorem sortRows_spec_witness:
  "sortRows (\<lambda>_. NaN) [20, 10, 20] (\<lambda>r :: nat. CellNum (Fin (of_nat r))) Asc = [10, 20, 20]"
proof -
  let ?accessor = "\<lambda>r :: nat. CellNum (Fin (of_nat r))" and ?ys = "[(10 :: nat, 1), (20, 0), (20, 2 :: nat)]"
  have "uniform (map ?accessor [20, 10, 20])" by (simp add: uniform_def)
  moreover have "mset ?ys = mset (zip [20, 10, 20] [0..<length [20 :: nat, 10, 20]])" by (simp add: upt_rec)
  moreover have "sorted_wrt (\<lambda>p q. \<not> row_after (\<lambda>_. NaN) ?accessor Asc p q) ?ys" by (simp add: row_after_def)
  ultimately have "map fst ?ys = sortRows (\<lambda>_. NaN) [20, 10, 20] ?accessor Asc"
    using sortRows_spec [where num_of = "\<lambda>_. NaN" and rows = "[20, 10, 20]" and accessor = ?accessor and dir = Asc] by presburger
  then show ?thesis by simp
qed

text \<open>
  Counts are exact: every listed status is present, a status has as many as there are items
  with it (unlisted ones too), nothing else is present, and the counts add up to the total.
\<close>

theorem countByStatus_exact:
  "map_get (sc_byStatus (countByStatus items statusOf statuses)) s =
      (if s \<in> set statuses \<union> statusOf ` set items then Some (length (filter (\<lambda>x. statusOf x = s) items)) else None)
   \<and> sum_list (map_values (sc_byStatus (countByStatus items statusOf statuses)))
       = sc_total (countByStatus items statusOf statuses)
   \<and> sc_total (countByStatus items statusOf statuses) = length items"
proof -
  have "sc_total (countByStatus items statusOf statuses) = length items" by (simp add: countByStatus_def Let_def)
  then show ?thesis using countByStatus_get countByStatus_total by metis
qed

text \<open>
  C27. The activity feed. After any sequence of zone events the feed holds the latest ones, at most
  the limit, newest first, with their data unchanged; and no two entries have the same key, even
  for the same event delivered twice.
\<close>

theorem activity_feed_latest:
  "let feed = snd (feed_run limit es (n, [])) in
     length feed = min limit (length es) \<and> distinct (map ac_key feed)
     \<and> map (\<lambda>a. (ac_vehicleId a, ac_zoneId a, ac_type a, ac_label a, ac_timestamp a, ac_receivedAt a)) feed
       = take limit (rev (map (\<lambda>(now, e). (ze_vehicleId e, ze_zoneId e, ze_type e, ze_label e, ze_timestamp e, now)) es))"
proof -
  let ?all = "map (\<lambda>k. entry_of (n + k + 1) (es ! k)) [0..<length es]"
  let ?data = "\<lambda>a. (ac_vehicleId a, ac_zoneId a, ac_type a, ac_label a, ac_timestamp a, ac_receivedAt a)"
  have feed: "snd (feed_run limit es (n, [])) = take limit (rev ?all)" by (simp add: feed_run_spec)
  have "distinct (map ac_key ?all)"
  proof -
    have "inj_on (\<lambda>k. ac_key (entry_of (n + k + 1) (es ! k))) {..<length es}"
      by (rule inj_onI) (auto simp: entry_of_def split: prod.splits dest!: feed_key_inj)
    then show ?thesis by (simp add: distinct_map comp_def atLeast0LessThan)
  qed
  then have "distinct (map ac_key (take limit (rev ?all)))"
    by (simp add: take_map [symmetric] rev_map [symmetric] del: map_map)
  moreover have "map ?data (take limit (rev ?all)) = take limit (rev (map (\<lambda>(now, e).
      (ze_vehicleId e, ze_zoneId e, ze_type e, ze_label e, ze_timestamp e, now)) es))"
  proof -
    have "map ?data ?all = map (\<lambda>(now, e). (ze_vehicleId e, ze_zoneId e, ze_type e, ze_label e, ze_timestamp e, now)) es"
      by (rule nth_equalityI) (simp_all add: entry_of_def split: prod.split)
    then show ?thesis by (simp only: take_map [symmetric] rev_map [symmetric])
  qed
  ultimately show ?thesis by (simp add: feed Let_def del: map_map)
qed

text \<open>
  The detail of a driver. It exists exactly for known drivers; its assignment is an active one
  of that driver, missing only if there is none; its deliveries are the assignment's, in the
  assignment's order, without those that are not known; its route is the assignment's; its
  position is one of the vehicle of the assignment, or without an assignment of the driver.
\<close>

theorem buildDriverDetail_spec:
  "case buildDriverDetail i drivers assignments routes deliveries positions of
     None \<Rightarrow> i \<notin> or_driverId ` set drivers
   | Some d \<Rightarrow> dd_driver d \<in> set drivers \<and> or_driverId (dd_driver d) = i
       \<and> (case dd_assignment d of
            None \<Rightarrow> \<not> (\<exists>a \<in> set assignments. oa_driverId a = i \<and> oa_status a \<noteq> ''Complete'')
              \<and> dd_deliveries d = [] \<and> dd_route d = None
          | Some a \<Rightarrow> a \<in> set assignments \<and> oa_driverId a = i \<and> oa_status a \<noteq> ''Complete''
              \<and> map od_deliveryId (dd_deliveries d)
                  = filter (\<lambda>k. k \<in> od_deliveryId ` set deliveries) (oa_deliveryIds a)
              \<and> (case dd_route d of None \<Rightarrow> oa_assignmentId a \<notin> ot_assignmentId ` set routes
                 | Some r \<Rightarrow> r \<in> set routes \<and> ot_assignmentId r = oa_assignmentId a))
       \<and> (case dd_position d of None \<Rightarrow> True
          | Some p \<Rightarrow> p \<in> set positions \<and> Some (op_vehicleId p) =
              (case dd_assignment d of Some a \<Rightarrow> Some (oa_vehicleId a) | None \<Rightarrow> or_vehicleId (dd_driver d)))"
proof (cases "List.find (\<lambda>d. or_driverId d = i) drivers")
  case None
  then have "i \<notin> or_driverId ` set drivers" by (auto simp: find_None_iff)
  moreover have "buildDriverDetail i drivers assignments routes deliveries positions = None"
    by (simp add: buildDriverDetail_def None)
  ultimately show ?thesis by simp
next
  case known: (Some driver)
  let ?active = "\<lambda>a. oa_driverId a = i \<and> oa_status a \<noteq> assignment_status_wire Complete"
  let ?at = "\<lambda>v. List.find (\<lambda>p. Some (op_vehicleId p) = v) positions"
  have dr: "driver \<in> set drivers" "or_driverId driver = i" using find_SomeD [OF known] by auto
  have pos: "case (if truthy v then ?at v else None) of None \<Rightarrow> True
      | Some p \<Rightarrow> p \<in> set positions \<and> Some (op_vehicleId p) = v" for v
    by (auto dest: find_SomeD split: option.split)
  show ?thesis
  proof (cases "List.find ?active assignments")
    case none: None
    have "\<not> (\<exists>a \<in> set assignments. oa_driverId a = i \<and> oa_status a \<noteq> ''Complete'')"
      using none by (auto simp: find_None_iff)
    moreover have "buildDriverDetail i drivers assignments routes deliveries positions = Some
        \<lparr>dd_driver = driver, dd_assignment = None, dd_route = None, dd_deliveries = [],
         dd_position = (if truthy (or_vehicleId driver) then ?at (or_vehicleId driver) else None)\<rparr>"
      unfolding buildDriverDetail_def known option.case Let_def none by (simp add: nullish_def)
    ultimately show ?thesis using dr pos [of "or_vehicleId driver"] by (simp cong: option.case_cong)
  next
    case active: (Some a)
    let ?route = "List.find (\<lambda>r. ot_assignmentId r = oa_assignmentId a) routes"
    have a: "a \<in> set assignments" "oa_driverId a = i" "oa_status a \<noteq> ''Complete''"
      using find_SomeD [OF active] by auto
    have route: "case ?route of None \<Rightarrow> oa_assignmentId a \<notin> ot_assignmentId ` set routes
      | Some r \<Rightarrow> r \<in> set routes \<and> ot_assignmentId r = oa_assignmentId a"
      by (auto simp: find_None_iff dest: find_SomeD split: option.split)
    have "buildDriverDetail i drivers assignments routes deliveries positions = Some
        \<lparr>dd_driver = driver, dd_assignment = Some a, dd_route = ?route,
         dd_deliveries = List.map_filter (map_get (map_new (map (\<lambda>d. (od_deliveryId d, d)) deliveries))) (oa_deliveryIds a),
         dd_position = (if truthy (Some (oa_vehicleId a)) then ?at (Some (oa_vehicleId a)) else None)\<rparr>"
      unfolding buildDriverDetail_def known option.case Let_def active by (simp add: nullish_def)
    then show ?thesis using dr a route pos [of "Some (oa_vehicleId a)"] by (simp add: map_filter_ids cong: option.case_cong)
  qed
qed


text \<open>The population that is shown before live data flows: references resolve both ways.\<close>

definition sound_population :: "OperationsState \<Rightarrow> bool" where
  "sound_population s \<longleftrightarrow>
     distinct (map or_driverId (os_drivers s)) \<and> distinct (map od_deliveryId (os_deliveries s))
     \<and> distinct (map oa_assignmentId (os_assignments s)) \<and> distinct (map ot_assignmentId (os_routes s))
     \<and> list_all (\<lambda>d. or_status d \<in> set DRIVER_STATUS_ORDER) (os_drivers s)
     \<and> list_all (\<lambda>d. od_status d \<in> set DELIVERY_STATUS_ORDER) (os_deliveries s)
     \<and> list_all (\<lambda>a. list_ex (\<lambda>d. or_driverId d = oa_driverId a \<and> or_vehicleId d = Some (oa_vehicleId a)) (os_drivers s)
         \<and> list_all (\<lambda>i. list_ex (\<lambda>d. od_deliveryId d = i \<and> od_assignmentId d = Some (oa_assignmentId a)) (os_deliveries s))
             (oa_deliveryIds a)
         \<and> list_ex (\<lambda>r. ot_assignmentId r = oa_assignmentId a
             \<and> concat (map stop_deliveryIds (ot_stops r)) = oa_deliveryIds a
             \<and> map stop_index (ot_stops r) = [0..<length (ot_stops r)]) (os_routes s)) (os_assignments s)
     \<and> list_all (\<lambda>d. case od_assignmentId d of None \<Rightarrow> True
         | Some k \<Rightarrow> list_ex (\<lambda>a. oa_assignmentId a = k \<and> od_deliveryId d \<in> set (oa_deliveryIds a)) (os_assignments s))
         (os_deliveries s)"

text \<open>
  The seeded population is well formed: ids are unique, every status is one of the wire's, each
  assignment names a driver with that vehicle and deliveries that name it back, and has a route
  whose numbered stops serve exactly its deliveries in order.
\<close>

theorem seed_population_sound: "sound_population useOperationsState"
  by (simp add: sound_population_def useOperationsState_def SEED_DRIVERS_def SEED_DELIVERIES_def
      seed_delivery_def SEED_ASSIGNMENTS_def SEED_ROUTES_def DRIVER_STATUS_ORDER_def DELIVERY_STATUS_ORDER_def
      all_driver_statuses_def all_delivery_statuses_def)

end
