(* ===== verification/Data_Table.thy ===== *)
theory Data_Table
  imports Components Operations
begin

text \<open>
  The rendering half of \<open>components/Table.tsx\<close> and \<open>components/Toast.tsx\<close>: the table and the stack of
  toasts, on the sorting and the toast state of Operations. \<open>show_num\<close> prints a number.
\<close>

section \<open>The table\<close>

record ('r, 'a) Column =
  co_key :: string
  co_header :: "'a node list"
  co_accessor :: "'r \<Rightarrow> Cell"
  co_render :: "('r \<Rightarrow> 'a node list) option"
  co_sortable :: bool
  co_width :: css
  co_align :: "string option"

fun show_cell :: "(jsnum \<Rightarrow> string) \<Rightarrow> Cell \<Rightarrow> 'a node list" where
  "show_cell show_num (CellStr s) = [Text s]"
| "show_cell show_num (CellNum x) = [Text (show_num x)]"
| "show_cell show_num CellNull = []"

definition sort_dir_of :: "Sort \<Rightarrow> string \<Rightarrow> SortDir option" where
  "sort_dir_of s key = (case s of None \<Rightarrow> None | Some (k, dir) \<Rightarrow> if k = key then Some dir else None)"

definition table_header :: "Sort \<Rightarrow> (string \<Rightarrow> 'a) \<Rightarrow> ('r, 'a) Column \<Rightarrow> 'a node" where
  "table_header sorting toggle col =
     Elem ''th''
       ([Key (co_key col)] @ only_if (co_sortable col) [OnEv ''onClick'' (\<lambda>e. [toggle (co_key col)])] @
        (case sort_dir_of sorting (co_key col) of None \<Rightarrow> []
         | Some dir \<Rightarrow> [Attr ''aria-sort'' (if dir = Asc then ''ascending'' else ''descending'')]) @
        [Style
          [(''position'', Css ''sticky''), (''top'', Dim 0), (''zIndex'', Dim 1),
           (''textAlign'', Css (or_else (co_align col) ''left'')), (''width'', co_width col),
           (''padding'', Css ''var(--space-2) var(--space-3)''), (''background'', Css ''var(--color-surface-alt)''),
           (''color'', Css ''var(--color-text-muted)''), (''fontWeight'', Dim 600), (''fontSize'', Css ''var(--font-size-xs)''),
           (''textTransform'', Css ''uppercase''), (''letterSpacing'', Dim 0.3),
           (''borderBottom'', Css ''1px solid var(--color-border)''),
           (''cursor'', Css (if co_sortable col then ''pointer'' else ''default'')), (''userSelect'', Css ''none''),
           (''whiteSpace'', Css ''nowrap'')]])
       (co_header col @
        only_if (co_sortable col)
          [Elem ''span''
            [Attr ''aria-hidden'' ''true'',
             Style [(''marginLeft'', Dim 6), (''opacity'', Dim (if sort_dir_of sorting (co_key col) \<noteq> None then 1 else 0.3))]]
            [Text (case sort_dir_of sorting (co_key col) of None \<Rightarrow> glyph_updown
               | Some dir \<Rightarrow> if dir = Asc then glyph_up else glyph_down)]])"

definition table_cell :: "(jsnum \<Rightarrow> string) \<Rightarrow> 'r \<Rightarrow> ('r, 'a) Column \<Rightarrow> 'a node" where
  "table_cell show_num row col =
     Elem ''td''
       [Key (co_key col),
        Style
          [(''padding'', Css ''var(--space-2) var(--space-3)''), (''textAlign'', Css (or_else (co_align col) ''left'')),
           (''borderBottom'', Css ''1px solid var(--color-border)''), (''color'', Css ''var(--color-text)''),
           (''whiteSpace'', Css ''nowrap'')]]
       (case co_render col of Some f \<Rightarrow> f row | None \<Rightarrow> show_cell show_num (co_accessor col row))"

definition table_row ::
    "(jsnum \<Rightarrow> string) \<Rightarrow> ('r, 'a) Column list \<Rightarrow> ('r \<Rightarrow> string) \<Rightarrow> ('r \<Rightarrow> 'a list) option \<Rightarrow> string option \<Rightarrow> 'r \<Rightarrow> 'a node" where
  "table_row show_num columns rowKey onRowClick selectedKey row =
     (let key = rowKey row; selected = (Some key = selectedKey)
      in Elem ''tr''
        ([Key key] @
         (case onRowClick of None \<Rightarrow> [] | Some f \<Rightarrow> [OnEv ''onClick'' (\<lambda>e. f row)]) @
         [Style [(''background'', Css (if selected then ''var(--color-surface-alt)'' else ''transparent'')),
            (''cursor'', Css (if onRowClick \<noteq> None then ''pointer'' else ''default''))]])
        (map (table_cell show_num row) columns))"

definition empty_row :: "('r, 'a) Column list \<Rightarrow> 'a node list \<Rightarrow> 'a node" where
  "empty_row columns message =
     Elem ''tr'' []
       [Elem ''td''
         [AttrNum ''colSpan'' (real (length columns)),
          Style [(''padding'', Css ''var(--space-6)''), (''textAlign'', Css ''center''), (''color'', Css ''var(--color-text-muted)'')]]
         message]"

definition Table ::
    "(string \<Rightarrow> jsnum) \<Rightarrow> (jsnum \<Rightarrow> string) \<Rightarrow> Sort \<Rightarrow> (string \<Rightarrow> 'a) \<Rightarrow> ('r, 'a) Column list \<Rightarrow> 'r list
     \<Rightarrow> ('r \<Rightarrow> string) \<Rightarrow> ('r \<Rightarrow> 'a list) option \<Rightarrow> string option \<Rightarrow> 'a node list option \<Rightarrow> 'a node" where
  "Table num_of show_num sorting toggle columns rows rowKey onRowClick selectedKey emptyMessage =
     (let ordered = sorted_rows num_of (map (\<lambda>c. (co_key c, co_accessor c)) columns) rows sorting
      in Elem ''table''
        [Style [(''width'', Css ''100%''), (''borderCollapse'', Css ''collapse''), (''fontSize'', Css ''var(--font-size-sm)'')]]
        [Elem ''thead'' [] [Elem ''tr'' [] (map (table_header sorting toggle) columns)],
         Elem ''tbody'' []
           (if ordered = [] then [empty_row columns (or_else emptyMessage [Text ''No records''])]
            else map (table_row show_num columns rowKey onRowClick selectedKey) ordered)])"

section \<open>The stack of toasts\<close>

definition TONE_COLOR :: "(string, string) jsmap" where
  "TONE_COLOR =
    [(''info'', ''var(--color-info)''), (''success'', ''var(--color-success)''), (''warning'', ''var(--color-warning)''),
     (''danger'', ''var(--color-danger)'')]"

definition toast_item :: "(nat \<Rightarrow> 'a) \<Rightarrow> Toast \<Rightarrow> 'a node" where
  "toast_item dismiss t =
     Elem ''div''
       [Key (nat_str (to_id t)), Attr ''role'' ''status'', OnEv ''onClick'' (\<lambda>e. [dismiss (to_id t)]),
        Style
         [(''display'', Css ''flex''), (''alignItems'', Css ''flex-start''), (''gap'', Css ''var(--space-3)''),
          (''padding'', Css ''var(--space-3) var(--space-4)''), (''background'', Css ''var(--color-surface-alt)''),
          (''color'', Css ''var(--color-text)''), (''border'', Css ''1px solid var(--color-border)''),
          (''borderLeft'', Css (''3px solid '' @ or_else (map_get TONE_COLOR (to_tone t)) ''undefined'')),
          (''borderRadius'', Css ''var(--radius-control)''), (''boxShadow'', Css ''var(--shadow-md)''),
          (''fontSize'', Css ''var(--font-size-sm)''), (''cursor'', Css ''pointer''),
          (''animation'', Css ''fcc-fade-in 140ms ease'')]]
       [Elem ''span''
         [Attr ''aria-hidden'' ''true'',
          Style [(''marginTop'', Dim 5), (''width'', Dim 8), (''height'', Dim 8), (''borderRadius'', Css ''50%''),
            (''background'', (case map_get TONE_COLOR (to_tone t) of Some c \<Rightarrow> Css c | None \<Rightarrow> Unset)),
            (''flex'', Css ''0 0 auto'')]]
         [],
        Elem ''span'' [] [Text (to_message t)]]"

definition ToastProvider :: "(nat \<Rightarrow> 'a) \<Rightarrow> ToastState \<Rightarrow> 'a node list \<Rightarrow> 'a node list" where
  "ToastProvider dismiss st children =
     children @
     [Elem ''div''
       [Attr ''aria-live'' ''polite'', Attr ''aria-atomic'' ''false'',
        Style
         [(''position'', Css ''fixed''), (''right'', Css ''var(--space-5)''), (''bottom'', Css ''var(--space-5)''),
          (''zIndex'', Dim 1100), (''display'', Css ''flex''), (''flexDirection'', Css ''column''),
          (''gap'', Css ''var(--space-2)''), (''maxWidth'', Dim 380)]]
       (map (toast_item dismiss) (tt_toasts st))]"

definition useToast :: "'b option \<Rightarrow> string + 'b" where
  "useToast ctx = (case ctx of None \<Rightarrow> Inl ''useToast must be used within a ToastProvider'' | Some api \<Rightarrow> Inr api)"

section \<open>What a table shows\<close>

text \<open>The rows of the body that stand for a record, and the headers.\<close>

definition body_rows :: "'a node \<Rightarrow> 'a node list" where
  "body_rows t = filter (\<lambda>n. key_of_attrs (attrs_of n) \<noteq> None) (concat (map kids_of (filter (\<lambda>n. tag_of n = ''tbody'') (kids_of t))))"

definition shown_keys :: "'a node \<Rightarrow> string list" where
  "shown_keys t = List.map_filter (\<lambda>n. key_of_attrs (attrs_of n)) (body_rows t)"

definition header_cells :: "'a node \<Rightarrow> 'a node list" where
  "header_cells t = concat (map kids_of (concat (map kids_of (filter (\<lambda>n. tag_of n = ''thead'') (kids_of t)))))"

lemma table_row_key [simp]: "key_of_attrs (attrs_of (table_row sn cs rk oc sk row)) = Some (rk row)"
  by (simp add: table_row_def Let_def)

lemma empty_row_key [simp]: "key_of_attrs (attrs_of (empty_row cs m)) = None"
  by (simp add: empty_row_def)

lemma table_row_click [simp]: "click (table_row sn cs rk oc sk row) = (case oc of None \<Rightarrow> [] | Some f \<Rightarrow> f row)"
  by (simp add: table_row_def Let_def fire_def split: option.split)

lemma body_rows_table:
  "body_rows (Table num_of sn s tg cs rows rk oc sk em)
   = map (table_row sn cs rk oc sk) (sorted_rows num_of (map (\<lambda>c. (co_key c, co_accessor c)) cs) rows s)"
  by (simp add: body_rows_def Table_def Let_def filter_map comp_def)

lemma shown_keys_table:
  "shown_keys (Table num_of sn s tg cs rows rk oc sk em)
   = map rk (sorted_rows num_of (map (\<lambda>c. (co_key c, co_accessor c)) cs) rows s)"
  by (simp add: shown_keys_def body_rows_table map_filter_def comp_def)

lemma header_cells_table:
  "header_cells (Table num_of sn s tg cs rows rk oc sk em) = map (table_header s tg) cs"
  by (simp add: header_cells_def Table_def Let_def)


lemma sorted_rows_mset [simp]: "mset (sorted_rows num_of cs rows s) = mset rows"
  by (auto simp: sorted_rows_def sortRows_alt split: option.split)

lemma sorted_rows_set [simp]: "set (sorted_rows num_of cs rows s) = set rows"
  by (metis sorted_rows_mset set_mset_mset)

lemma sorted_rows_length [simp]: "length (sorted_rows num_of cs rows s) = length rows"
  by (metis sorted_rows_mset size_mset)

end
