(* ===== verification/Console_Views.thy ===== *)
theory Console_Views
  imports Data_Table Fleet_Simulation
begin

text \<open>
  The pages of the console (\<open>operations/*View.tsx\<close>, \<open>operations/StatusCounts.tsx\<close>,
  \<open>operations/ActivityFeed.tsx\<close>, \<open>views/*.tsx\<close>): what each renders from its data and its state, and
  what its buttons, rows and fields do to that state. Number printing (\<open>show_num\<close>, \<open>show_real\<close>,
  \<open>show_fixed\<close> for \<open>toFixed\<close>), date parsing and the local time are parameters.
\<close>

section \<open>Status tiles\<close>

datatype CountKind = KindDriver | KindDelivery

definition status_tile ::
    "('t \<Rightarrow> string) \<Rightarrow> 't list \<Rightarrow> string list \<Rightarrow> CountKind \<Rightarrow> string option \<Rightarrow> (string option \<Rightarrow> 'a list) option
     \<Rightarrow> string \<Rightarrow> 'a node" where
  "status_tile statusOf items order kind selected onSelect status =
     keyed status
       (StatCard [Text (underscores_to_spaces status)]
          (nat_str (or_else (map_get (sc_byStatus (countByStatus items statusOf order)) status) 0))
          (Some (if kind = KindDriver then driverStatusVar status else deliveryStatusVar status))
          (map_option (\<lambda>f. f (if selected = Some status then None else Some status)) onSelect)
          (selected = Some status))"

definition StatusCounts_render ::
    "'t list \<Rightarrow> ('t \<Rightarrow> string) \<Rightarrow> string list \<Rightarrow> CountKind \<Rightarrow> string option \<Rightarrow> (string option \<Rightarrow> 'a list) option \<Rightarrow> 'a node" where
  "StatusCounts_render items statusOf order kind selected onSelect =
     Elem ''div''
       [Style [(''display'', Css ''grid''), (''gridTemplateColumns'', Css ''repeat(auto-fit, minmax(120px, 1fr))''),
          (''gap'', Css ''var(--space-2)'')]]
       (map (status_tile statusOf items order kind selected onSelect) order)"

section \<open>The drivers console\<close>

record DriversState =
  dw_filter :: "string option"
  dw_selectedId :: "string option"
  dw_sort :: Sort

datatype DriversAction = DriversFilter "string option" | DriversSelect string | DriversSort string

definition drivers_view_new :: DriversState where
  "drivers_view_new = \<lparr>dw_filter = None, dw_selectedId = None, dw_sort = None\<rparr>"

fun drivers_act :: "DriversAction \<Rightarrow> DriversState \<Rightarrow> DriversState" where
  "drivers_act (DriversFilter f) s = s\<lparr>dw_filter := f\<rparr>"
| "drivers_act (DriversSelect i) s = s\<lparr>dw_selectedId := Some i\<rparr>"
| "drivers_act (DriversSort k) s = s\<lparr>dw_sort := toggleSort k (dw_sort s)\<rparr>"

definition visible_drivers :: "DriverRecord list \<Rightarrow> string option \<Rightarrow> DriverRecord list" where
  "visible_drivers drivers flt = (if truthy flt then filter (\<lambda>d. Some (or_status d) = flt) drivers else drivers)"

definition mono_span :: "string \<Rightarrow> 'a node" where
  "mono_span s = Elem ''span'' [Attr ''className'' ''mono''] [Text s]"

definition driver_columns :: "(DriverRecord, 'a) Column list" where
  "driver_columns =
    [\<lparr>co_key = ''name'', co_header = [Text ''Driver''], co_accessor = (\<lambda>d. CellStr (or_name d)), co_render = None,
      co_sortable = True, co_width = Unset, co_align = None\<rparr>,
     \<lparr>co_key = ''status'', co_header = [Text ''Status''], co_accessor = (\<lambda>d. CellStr (or_status d)),
      co_render = Some (\<lambda>d. [driver_badge (or_status d)]), co_sortable = True, co_width = Unset, co_align = None\<rparr>,
     \<lparr>co_key = ''vehicle'', co_header = [Text ''Vehicle''],
      co_accessor = (\<lambda>d. CellStr (or_else (or_vehicleId d) em_dash)),
      co_render = Some (\<lambda>d. [mono_span (or_else (or_vehicleId d) em_dash)]), co_sortable = False, co_width = Unset,
      co_align = None\<rparr>,
     \<lparr>co_key = ''contact'', co_header = [Text ''Contact''], co_accessor = (\<lambda>d. CellStr (or_else (or_contact d) em_dash)),
      co_render = None, co_sortable = False, co_width = Unset, co_align = None\<rparr>]"

definition Section_render :: "string \<Rightarrow> 'a node list \<Rightarrow> 'a node" where
  "Section_render title children =
     Elem ''div'' []
       ([Elem ''div''
          [Style [(''fontSize'', Css ''var(--font-size-xs)''), (''textTransform'', Css ''uppercase''),
             (''letterSpacing'', Dim 0.3), (''color'', Css ''var(--color-text-muted)''),
             (''marginBottom'', Css ''var(--space-2)'')]]
          [Text title]] @ children)"

definition DetailRow :: "string \<Rightarrow> string \<Rightarrow> bool \<Rightarrow> 'a node" where
  "DetailRow label value isMono =
     Elem ''div''
       [Style [(''display'', Css ''flex''), (''justifyContent'', Css ''space-between''), (''gap'', Css ''var(--space-3)''),
          (''fontSize'', Css ''var(--font-size-sm)'')]]
       [Elem ''span'' [Style [(''color'', Css ''var(--color-text-muted)'')]] [Text label],
        Elem ''span'' (only_if isMono [Attr ''className'' ''mono''] @ [Style [(''color'', Css ''var(--color-text)'')]])
          [Text value]]"

definition muted_paragraph :: "string \<Rightarrow> 'a node" where
  "muted_paragraph s =
     Elem ''p'' [Style [(''color'', Css ''var(--color-text-muted)''), (''fontSize'', Css ''var(--font-size-sm)'')]] [Text s]"

definition route_summary :: "RouteRecord option \<Rightarrow> string" where
  "route_summary route = (case route of None \<Rightarrow> em_dash
     | Some r \<Rightarrow> nat_str (length (ot_stops r)) @ '' stop'' @ (if length (ot_stops r) = 1 then [] else ''s'')
         @ (if ot_optimized r then '' '' @ middle_dot @ '' optimized'' else '' '' @ middle_dot @ '' unoptimized''))"

definition detail_delivery :: "DeliveryRecord \<Rightarrow> 'a node" where
  "detail_delivery d =
     Elem ''div''
       [Key (od_deliveryId d),
        Style [(''display'', Css ''flex''), (''alignItems'', Css ''center''), (''justifyContent'', Css ''space-between''),
          (''gap'', Css ''var(--space-2)''), (''fontSize'', Css ''var(--font-size-sm)'')]]
       [Elem ''span'' [Attr ''className'' ''mono'', Style [(''color'', Css ''var(--color-text-muted)'')]]
          [Text (od_deliveryId d)],
        delivery_badge (od_status d)]"

definition assignment_section :: "DriverDetail \<Rightarrow> 'a node list" where
  "assignment_section detail = (case dd_assignment detail of
      Some a \<Rightarrow>
        [DetailRow ''Assignment'' (oa_assignmentId a) True,
         DetailRow ''Route'' (route_summary (dd_route detail)) False,
         Elem ''div''
           [Style [(''display'', Css ''flex''), (''flexDirection'', Css ''column''), (''gap'', Css ''var(--space-1)''),
              (''marginTop'', Css ''var(--space-2)'')]]
           (map detail_delivery (dd_deliveries detail))]
    | None \<Rightarrow> [muted_paragraph ''No active assignment.''])"

definition position_section :: "(nat \<Rightarrow> jsnum \<Rightarrow> string) \<Rightarrow> DriverDetail \<Rightarrow> 'a node list" where
  "position_section show_fixed detail = (case dd_position detail of
      Some p \<Rightarrow>
        [Elem ''span''
          [Attr ''className'' ''mono'', Style [(''fontSize'', Css ''var(--font-size-sm)''), (''color'', Css ''var(--color-text)'')]]
          [Text (show_fixed 5 (op_lat p)), Text '', '', Text (show_fixed 5 (op_lng p))]]
    | None \<Rightarrow>
        [Elem ''span'' [Style [(''color'', Css ''var(--color-text-muted)''), (''fontSize'', Css ''var(--font-size-sm)'')]]
          [Text ''No live position'']])"

definition DriverDetailPanel :: "(nat \<Rightarrow> jsnum \<Rightarrow> string) \<Rightarrow> DriverDetail option \<Rightarrow> 'a node" where
  "DriverDetailPanel show_fixed detail = (case detail of
      None \<Rightarrow> Panel [Text ''Driver detail''] [] False [] []
        [muted_paragraph ''Select a driver to see their active assignment, route, and live position.'']
    | Some d \<Rightarrow> Panel [Text ''Driver detail''] [] False [] []
        [Elem ''div''
          [Style [(''display'', Css ''flex''), (''flexDirection'', Css ''column''), (''gap'', Css ''var(--space-4)'')]]
          [Elem ''div'' []
            [Elem ''div''
              [Style [(''fontSize'', Css ''var(--font-size-lg)''), (''fontWeight'', Dim 600), (''color'', Css ''var(--color-text)'')]]
              [Text (or_name (dd_driver d))],
             Elem ''div'' [Style [(''marginTop'', Css ''var(--space-1)'')]] [driver_badge (or_status (dd_driver d))]],
           DetailRow ''Vehicle'' (or_else (or_vehicleId (dd_driver d)) em_dash) True,
           DetailRow ''Contact'' (or_else (or_contact (dd_driver d)) em_dash) False,
           Section_render ''Active assignment'' (assignment_section d),
           Section_render ''Live position'' (position_section show_fixed d)]])"

definition driver_status_tiles :: "DriverRecord list \<Rightarrow> string option \<Rightarrow> DriversAction node" where
  "driver_status_tiles drivers flt =
     StatusCounts_render drivers or_status DRIVER_STATUS_ORDER KindDriver flt (Some (\<lambda>s. [DriversFilter s]))"

definition driver_table ::
    "(string \<Rightarrow> jsnum) \<Rightarrow> (jsnum \<Rightarrow> string) \<Rightarrow> DriversState \<Rightarrow> DriverRecord list \<Rightarrow> DriversAction node" where
  "driver_table num_of show_num st drivers =
     Table num_of show_num (dw_sort st) DriversSort driver_columns (visible_drivers drivers (dw_filter st)) or_driverId
       (Some (\<lambda>d. [DriversSelect (or_driverId d)])) (dw_selectedId st) (Some [Text ''No drivers match this filter''])"

definition driver_detail ::
    "DriversState \<Rightarrow> DriverRecord list \<Rightarrow> DeliveryRecord list \<Rightarrow> AssignmentRecord list \<Rightarrow> RouteRecord list
     \<Rightarrow> VehiclePosition list \<Rightarrow> DriverDetail option" where
  "driver_detail st drivers deliveries assignments routes positions =
     (if truthy (dw_selectedId st)
      then buildDriverDetail (the (dw_selectedId st)) drivers assignments routes deliveries positions else None)"

definition DriversView_render ::
    "(string \<Rightarrow> jsnum) \<Rightarrow> (jsnum \<Rightarrow> string) \<Rightarrow> (nat \<Rightarrow> jsnum \<Rightarrow> string) \<Rightarrow> DriversState \<Rightarrow> DriverRecord list
     \<Rightarrow> DeliveryRecord list \<Rightarrow> AssignmentRecord list \<Rightarrow> RouteRecord list \<Rightarrow> VehiclePosition list \<Rightarrow> DriversAction node" where
  "DriversView_render num_of show_num show_fixed st drivers deliveries assignments routes positions =
     Elem ''div''
       [Style [(''display'', Css ''grid''), (''gridTemplateColumns'', Css ''minmax(0, 1fr) 360px''),
          (''gap'', Css ''var(--space-4)''), (''padding'', Css ''var(--space-4)''), (''height'', Css ''100%''),
          (''boxSizing'', Css ''border-box'')]]
       [Elem ''div''
         [Style [(''display'', Css ''flex''), (''flexDirection'', Css ''column''), (''gap'', Css ''var(--space-4)''),
            (''minHeight'', Dim 0)]]
         [driver_status_tiles drivers (dw_filter st),
          Panel [Text ''Driver roster''] [] True [(''flex'', Dim 1), (''minHeight'', Dim 0)] []
            [driver_table num_of show_num st drivers]],
        DriverDetailPanel show_fixed (driver_detail st drivers deliveries assignments routes positions)]"

section \<open>The deliveries console\<close>

text \<open>
  The local query, the filter, the table's sorting and the query the effect ran with last. The
  parent's state is whatever \<open>onQueryChange\<close> updates.
\<close>

record DeliveriesState =
  ew_local :: string
  ew_filter :: "string option"
  ew_sort :: Sort
  ew_synced :: "string option"

datatype DeliveriesAction = DeliveriesQuery string | DeliveriesFilter "string option" | DeliveriesSort string

definition deliveries_view_new :: "string \<Rightarrow> DeliveriesState" where
  "deliveries_view_new query = \<lparr>ew_local = query, ew_filter = None, ew_sort = None, ew_synced = None\<rparr>"

definition deliveries_effect :: "string \<Rightarrow> DeliveriesState \<Rightarrow> DeliveriesState" where
  "deliveries_effect query s = (if ew_synced s = Some query then s else s\<lparr>ew_local := query, ew_synced := Some query\<rparr>)"

fun deliveries_act :: "(string \<Rightarrow> 'p \<Rightarrow> 'p) option \<Rightarrow> DeliveriesAction \<Rightarrow> DeliveriesState \<times> 'p \<Rightarrow> DeliveriesState \<times> 'p" where
  "deliveries_act onQueryChange (DeliveriesQuery v) (s, p) =
     (s\<lparr>ew_local := v\<rparr>, case onQueryChange of Some f \<Rightarrow> f v p | None \<Rightarrow> p)"
| "deliveries_act onQueryChange (DeliveriesFilter f) (s, p) = (s\<lparr>ew_filter := f\<rparr>, p)"
| "deliveries_act onQueryChange (DeliveriesSort k) (s, p) = (s\<lparr>ew_sort := toggleSort k (ew_sort s)\<rparr>, p)"

definition delivery_columns :: "(DeliveryRecord, 'a) Column list" where
  "delivery_columns =
    [\<lparr>co_key = ''deliveryId'', co_header = [Text ''Delivery''], co_accessor = (\<lambda>d. CellStr (od_deliveryId d)),
      co_render = Some (\<lambda>d. [mono_span (od_deliveryId d)]), co_sortable = True, co_width = Unset, co_align = None\<rparr>,
     \<lparr>co_key = ''recipient'', co_header = [Text ''Recipient''], co_accessor = (\<lambda>d. CellStr (od_recipientName d)),
      co_render = None, co_sortable = True, co_width = Unset, co_align = None\<rparr>,
     \<lparr>co_key = ''address'', co_header = [Text ''Destination''], co_accessor = (\<lambda>d. CellStr (od_destinationAddress d)),
      co_render = None, co_sortable = False, co_width = Unset, co_align = None\<rparr>,
     \<lparr>co_key = ''status'', co_header = [Text ''Status''], co_accessor = (\<lambda>d. CellStr (od_status d)),
      co_render = Some (\<lambda>d. [delivery_badge (od_status d)]), co_sortable = True, co_width = Unset, co_align = None\<rparr>,
     \<lparr>co_key = ''assignment'', co_header = [Text ''Assignment''],
      co_accessor = (\<lambda>d. CellStr (or_else (od_assignmentId d) em_dash)),
      co_render = Some (\<lambda>d. [mono_span (or_else (od_assignmentId d) em_dash)]), co_sortable = False, co_width = Unset,
      co_align = None\<rparr>]"

definition delivery_status_tiles :: "DeliveryRecord list \<Rightarrow> string option \<Rightarrow> DeliveriesAction node" where
  "delivery_status_tiles deliveries flt =
     StatusCounts_render deliveries od_status DELIVERY_STATUS_ORDER KindDelivery flt (Some (\<lambda>s. [DeliveriesFilter s]))"

definition delivery_table ::
    "(string \<Rightarrow> jsnum) \<Rightarrow> (jsnum \<Rightarrow> string) \<Rightarrow> DeliveriesState \<Rightarrow> DeliveryRecord list \<Rightarrow> DeliveriesAction node" where
  "delivery_table num_of show_num st deliveries =
     Table num_of show_num (ew_sort st) DeliveriesSort delivery_columns
       (visible_deliveries deliveries (ew_local st) (ew_filter st)) od_deliveryId None None
       (Some [Text (if js_trim (ew_local st) \<noteq> []
          then ''No deliveries match '' @ left_quote @ js_trim (ew_local st) @ right_quote else ''No deliveries'')])"

definition search_box :: "string \<Rightarrow> DeliveriesAction node" where
  "search_box localQuery =
     Elem ''div'' [Style [(''width'', Dim 260)]]
       [Input False []
         [Attr ''placeholder'' (''Search by ID or recipient'' @ ellipsis_ch), Attr ''value'' localQuery,
          OnEv ''onChange'' (\<lambda>v. [DeliveriesQuery v]), Attr ''aria-label'' ''Search deliveries'']]"

definition DeliveriesView_render ::
    "(string \<Rightarrow> jsnum) \<Rightarrow> (jsnum \<Rightarrow> string) \<Rightarrow> DeliveriesState \<Rightarrow> DeliveryRecord list \<Rightarrow> DeliveriesAction node" where
  "DeliveriesView_render num_of show_num st deliveries =
     Elem ''div''
       [Style [(''display'', Css ''flex''), (''flexDirection'', Css ''column''), (''gap'', Css ''var(--space-4)''),
          (''padding'', Css ''var(--space-4)''), (''height'', Css ''100%''), (''boxSizing'', Css ''border-box'')]]
       [delivery_status_tiles deliveries (ew_filter st),
        Panel [Text ''Deliveries''] [search_box (ew_local st)] True [(''flex'', Dim 1), (''minHeight'', Dim 0)] []
          [delivery_table num_of show_num st deliveries]]"

section \<open>The vehicle roster\<close>

text \<open>Its only state is the sorting of the table, which its actions toggle.\<close>

definition vehicle_columns :: "(jsnum \<Rightarrow> string) \<Rightarrow> (nat \<Rightarrow> jsnum \<Rightarrow> string) \<Rightarrow> (VehicleRow, 'a) Column list" where
  "vehicle_columns show_num show_fixed =
    [\<lparr>co_key = ''vehicleId'', co_header = [Text ''Vehicle''],
      co_accessor = (\<lambda>r. CellStr (vr_vehicleId r)),
      co_render = Some (\<lambda>r. [mono_span (vr_vehicleId r)]), co_sortable = True, co_width = Unset,
        co_align = None\<rparr>,
     \<lparr>co_key = ''driver'', co_header = [Text ''Driver''],
       co_accessor = (\<lambda>r. CellStr (vr_driver r)),
      co_render = None, co_sortable = True, co_width = Unset, co_align = None\<rparr>,
     \<lparr>co_key = ''status'', co_header = [Text ''Status''],
       co_accessor = (\<lambda>r. CellStr (vr_status r)),
      co_render = Some (\<lambda>r. [driver_badge (vr_status r)]), co_sortable = True, co_width = Unset,
        co_align = None\<rparr>,
     \<lparr>co_key = ''heading'', co_header = [Text ''Heading''],
      co_accessor = (\<lambda>r. CellNum (or_else (vr_heading r) (Fin (- 1)))),
      co_render = Some (\<lambda>r. case vr_heading r of None \<Rightarrow> [Text em_dash]
        | Some h \<Rightarrow> [Elem ''span'' [Attr ''className'' ''mono''] [Text (show_num h),
          Text degree_sign]]),
      co_sortable = False, co_width = Unset, co_align = None\<rparr>,
     \<lparr>co_key = ''position'', co_header = [Text ''Position''],
       co_accessor = (\<lambda>r. CellNum (vr_lat r)),
      co_render = Some (\<lambda>r.
        [Elem ''span'' [Attr ''className'' ''mono'', Style [(''color'', Css ''var(--color-text-muted)'')]]
          [Text (show_fixed 4 (vr_lat r)), Text '', '', Text (show_fixed 4 (vr_lng r))]]),
      co_sortable = False, co_width = Unset, co_align = None\<rparr>]"

definition vehicle_tiles :: "VehicleState list \<Rightarrow> 'a node list" where
  "vehicle_tiles vehicles =
     StatCard [Text ''Total vehicles''] (nat_str (length vehicles)) None None False #
     map (\<lambda>(s,
       n). keyed s (StatCard [Text (underscores_to_spaces s)] (nat_str n) (Some (driverStatusVar s)) None False))
       (vehicle_counts vehicles)"

definition vehicle_table ::
    "(string \<Rightarrow> jsnum) \<Rightarrow> (jsnum \<Rightarrow> string) \<Rightarrow> (nat \<Rightarrow> jsnum \<Rightarrow> string) \<Rightarrow> Sort \<Rightarrow> VehicleState list
     \<Rightarrow> DriverRecord list \<Rightarrow> string node" where
  "vehicle_table num_of show_num show_fixed sorting vehicles drivers =
     Table num_of show_num sorting (\<lambda>k. k) (vehicle_columns show_num show_fixed) (vehicle_rows vehicles drivers)
       vr_vehicleId None None (Some [Text ''No vehicles reporting''])"

definition VehiclesView_render ::
    "(string \<Rightarrow> jsnum) \<Rightarrow> (jsnum \<Rightarrow> string) \<Rightarrow> (nat \<Rightarrow> jsnum \<Rightarrow> string) \<Rightarrow> Sort \<Rightarrow> VehicleState list
     \<Rightarrow> DriverRecord list \<Rightarrow> string node" where
  "VehiclesView_render num_of show_num show_fixed sorting vehicles drivers =
     Elem ''div''
       [Style [(''display'', Css ''flex''), (''flexDirection'', Css ''column''),
         (''gap'', Css ''var(--space-4)''),
          (''padding'', Css ''var(--space-4)''), (''height'', Css ''100%''),
            (''boxSizing'', Css ''border-box'')]]
       [Elem ''div''
         [Style [(''display'', Css ''grid''),
           (''gridTemplateColumns'', Css ''repeat(auto-fit, minmax(150px, 1fr))''),
            (''gap'', Css ''var(--space-2)'')]]
         (vehicle_tiles vehicles),
        Panel [Text (''Fleet roster '' @ middle_dot @ '' live'')] [] True [(''flex'', Dim 1),
          (''minHeight'', Dim 0)] []
          [vehicle_table num_of show_num show_fixed sorting vehicles drivers]]"

section \<open>The reports\<close>

definition Metric :: "string \<Rightarrow> string \<Rightarrow> string option \<Rightarrow> 'a node" where
  "Metric label value sub =
     Card None (Some 4) [] []
       ([Elem ''div''
          [Style [(''fontSize'', Css ''var(--font-size-xs)''), (''textTransform'', Css ''uppercase''),
             (''letterSpacing'', Dim 0.3), (''color'', Css ''var(--color-text-muted)'')]]
          [Text label],
         Elem ''div'' [Style [(''fontSize'', Css ''var(--font-size-2xl)''), (''fontWeight'', Dim 700),
           (''marginTop'', Dim 4)]]
          [Text value]] @
        given sub (\<lambda>s.
          [Elem ''div'' [Style [(''fontSize'', Css ''var(--font-size-xs)''),
            (''color'', Css ''var(--color-text-muted)'')]]
            [Text s]]))"

definition delivery_segments :: "DeliveryRecord list \<Rightarrow> (string \<times> nat) list" where
  "delivery_segments deliveries =
     filter (\<lambda>s. snd s > 0) (map (\<lambda>s. (s,
       length (filter (\<lambda>d. od_status d = s) deliveries))) DELIVERY_STATUS_ORDER)"

definition segment_percent :: "DeliveryRecord list \<Rightarrow> nat \<Rightarrow> real" where
  "segment_percent deliveries n =
     (let total = (if length deliveries = 0 then 1 else length deliveries) in (real n / real total) * 100)"

definition DeliveryBar :: "(real \<Rightarrow> string) \<Rightarrow> DeliveryRecord list \<Rightarrow> 'a node" where
  "DeliveryBar show_real deliveries =
     Elem ''div''
       [Style [(''display'', Css ''flex''), (''height'', Dim 12),
         (''borderRadius'', Css ''var(--radius-pill)''),
          (''overflow'', Css ''hidden''), (''border'', Css ''1px solid var(--color-border)'')]]
       (map (\<lambda>(s, n).
          Elem ''div''
            [Key s, Attr ''title'' (underscores_to_spaces s @ '': '' @ nat_str n),
             Style [(''width'', Css (show_real (segment_percent deliveries n) @ ''%'')),
               (''background'', Css (deliveryStatusVar s))]] [])
          (delivery_segments deliveries))"

definition ReportsView_render :: "(real \<Rightarrow> string) \<Rightarrow> DriverRecord list \<Rightarrow> DeliveryRecord list \<Rightarrow> 'a node" where
  "ReportsView_render show_real drivers deliveries =
     (let m = report_metrics drivers deliveries
      in Elem ''div''
        [Style [(''padding'', Css ''var(--space-4)''), (''height'', Css ''100%''),
          (''boxSizing'', Css ''border-box''),
           (''overflow'', Css ''auto''), (''display'', Css ''flex''), (''flexDirection'', Css ''column''),
           (''gap'', Css ''var(--space-4)'')]]
        [Elem ''div''
          [Style [(''display'', Css ''grid''),
            (''gridTemplateColumns'', Css ''repeat(auto-fit, minmax(180px, 1fr))''),
             (''gap'', Css ''var(--space-3)'')]]
          [Metric ''Completion rate'' (nat_str (nat (rm_completionRate m)) @ ''%'')
             (Some (nat_str (rm_completed m) @ '' of '' @ nat_str (rm_total m) @ '' deliveries'')),
           Metric ''Active deliveries'' (nat_str (rm_active m))
             (Some (''assigned '' @ middle_dot @ '' in transit '' @ middle_dot @ '' arrived'')),
           Metric ''Drivers on duty'' (nat_str (rm_onDuty m)) (Some (nat_str (length drivers) @ '' total'')),
           Metric ''Failed'' (nat_str (rm_failed m)) (Some ''requires follow-up'')],
         Panel [Text ''Deliveries by status''] [] False [] []
           [Elem ''div'' [Style [(''marginBottom'', Css ''var(--space-4)'')]]
             [StatusCounts_render deliveries od_status DELIVERY_STATUS_ORDER KindDelivery None None],
            DeliveryBar show_real deliveries],
         Panel [Text ''Drivers by status''] [] False [] []
           [StatusCounts_render drivers or_status DRIVER_STATUS_ORDER KindDriver None None]])"

section \<open>The zones\<close>

text \<open>The module's own test of containment, on a vehicle's numbers.\<close>

definition zone_edge :: "jsnum \<Rightarrow> jsnum \<Rightarrow> real \<times> real \<Rightarrow> real \<times> real \<Rightarrow> bool" where
  "zone_edge lng lat p q \<longleftrightarrow>
     js_lt lat (Fin (snd p)) \<noteq> js_lt lat (Fin (snd q)) \<and>
     js_lt lng (js_div (Fin (fst q - fst p) * (lat - Fin (snd p))) (Fin (snd q - snd p)) + Fin (fst p))"

definition ZonesView_pointInRing :: "jsnum \<Rightarrow> jsnum \<Rightarrow> (real \<times> real) list \<Rightarrow> bool" where
  "ZonesView_pointInRing lng lat ring =
     (let n = length ring - 1
      in fold (\<lambda>i inside. if zone_edge lng lat (ring ! i) (ring ! (if i = 0 then n - 1 else i - 1))
           then \<not> inside else inside) [0..<n] False)"

text \<open>The points of an outline, scaled to its bounds; an empty ring has none to scale.\<close>

definition glyph_points :: "(real \<times> real) list \<Rightarrow> (real \<times> real) list" where
  "glyph_points ring =
     (let xs = map fst ring; ys = map snd ring;
          minX = foldr min xs (hd xs); maxX = foldr max xs (hd xs);
          minY = foldr min ys (hd ys); maxY = foldr max ys (hd ys);
          w = (if maxX - minX = 0 then 1 else maxX - minX);
          h = (if maxY - minY = 0 then 1 else maxY - minY)
      in map (\<lambda>p. (((fst p - minX) / w) * 100, (1 - (snd p - minY) / h) * 60 + 4)) ring)"

definition ZoneGlyph :: "(real \<Rightarrow> string) \<Rightarrow> (real \<times> real) list \<Rightarrow> 'a node" where
  "ZoneGlyph show_real ring =
     Elem ''svg''
       [Attr ''width'' ''100%'', Attr ''height'' ''72'', Attr ''viewBox'' ''0 0 100 68'',
         Attr ''preserveAspectRatio'' ''none'']
       [Elem ''polygon''
         [Attr ''points'' (js_join '' '' (map (\<lambda>p. show_real (fst p) @ '','' @
           show_real (snd p)) (glyph_points ring))),
          Attr ''fill'' ''color-mix(in srgb, var(--color-accent) 16%, transparent)'',
          Attr ''stroke'' ''var(--color-accent)'', Attr ''strokeWidth'' ''1''] []]"

definition vehicles_inside :: "VehicleState list \<Rightarrow> ZonePolygon \<Rightarrow> VehicleState list" where
  "vehicles_inside vehicles z = filter (\<lambda>v. ZonesView_pointInRing (vs_lng v) (vs_lat v) (zp_ring z)) vehicles"

definition inside_count :: "nat \<Rightarrow> 'a node" where
  "inside_count n =
     Elem ''div''
       [Style [(''display'', Css ''inline-flex''), (''alignItems'', Css ''baseline''), (''gap'', Dim 4),
          (''padding'', Css ''2px 10px''), (''borderRadius'', Css ''var(--radius-pill)''),
          (''background'', Css ''color-mix(in srgb, var(--color-accent) 16%, transparent)''),
          (''color'', Css ''var(--color-accent)'')]]
       [Elem ''span'' [Style [(''fontWeight'', Dim 700),
         (''fontSize'', Css ''var(--font-size-lg)'')]] [Text (nat_str n)],
        Elem ''span'' [Style [(''fontSize'', Css ''var(--font-size-xs)'')]] [Text ''inside'']]"

definition vehicle_chip :: "VehicleState \<Rightarrow> 'a node" where
  "vehicle_chip v =
     Elem ''span''
       [Key (vs_vehicleId v), Attr ''className'' ''mono'',
        Style [(''fontSize'', Css ''var(--font-size-xs)''), (''padding'', Css ''2px 6px''),
          (''borderRadius'', Css ''var(--radius-control)''), (''background'', Css ''var(--color-surface-alt)''),
          (''color'', Css ''var(--color-text)'')]]
       [Text (vs_vehicleId v)]"

definition zone_card :: "(real \<Rightarrow> string) \<Rightarrow> VehicleState list \<Rightarrow> ZonePolygon \<Rightarrow> 'a node" where
  "zone_card show_real vehicles z =
     (let inside = vehicles_inside vehicles z
      in keyed (zp_id z)
        (Card None (Some 4) [] []
          [Elem ''div''
            [Style [(''display'', Css ''flex''), (''justifyContent'', Css ''space-between''),
              (''alignItems'', Css ''flex-start'')]]
            [Elem ''div'' []
              [Elem ''div'' [Style [(''fontWeight'', Dim 600),
                (''fontSize'', Css ''var(--font-size-base)'')]] [Text (zp_name z)],
               Elem ''div''
                [Attr ''className'' ''mono'',
                 Style [(''fontSize'', Css ''var(--font-size-xs)''),
                   (''color'', Css ''var(--color-text-muted)'')]]
                [Text (zp_id z)]],
             inside_count (length inside)],
           Elem ''div'' [Style [(''margin'', Css ''var(--space-3) 0'')]] [ZoneGlyph show_real (zp_ring z)],
           Elem ''div'' [Style [(''display'', Css ''flex''), (''flexWrap'', Css ''wrap''), (''gap'', Dim 6)]]
             (if length inside = 0
              then [Elem ''span'' [Style [(''fontSize'', Css ''var(--font-size-xs)''),
                (''color'', Css ''var(--color-text-muted)'')]]
                [Text ''No vehicles in this zone'']]
              else map vehicle_chip inside)]))"

definition ZonesView_render :: "(real \<Rightarrow> string) \<Rightarrow> ZonePolygon list \<Rightarrow> VehicleState list \<Rightarrow> 'a node" where
  "ZonesView_render show_real zones vehicles =
     Elem ''div''
       [Style [(''padding'', Css ''var(--space-4)''), (''height'', Css ''100%''),
         (''boxSizing'', Css ''border-box''),
          (''overflow'', Css ''auto'')]]
       [Elem ''div''
         [Style [(''display'', Css ''grid''),
           (''gridTemplateColumns'', Css ''repeat(auto-fill, minmax(280px, 1fr))''),
            (''gap'', Css ''var(--space-4)'')]]
         (map (zone_card show_real vehicles) zones)]"

section \<open>The activity feed\<close>

fun toneFor :: "ZoneEventType \<Rightarrow> ActivityTone" where
  "toneFor Enter = ToneEnter"
| "toneFor Exit = ToneExit"

definition feed_item :: "(string \<Rightarrow> int option) \<Rightarrow> (int \<Rightarrow> string) \<Rightarrow> int \<Rightarrow> ActivityEntry \<Rightarrow> 'a node" where
  "feed_item parse show_time now e =
     keyed (ac_key e) (ActivityFeedItem parse show_time (Some (toneFor (ac_type e)))
       [Elem ''strong'' [] [Text (ac_vehicleId e)], Text '' '',
        Text (if ac_type e = Enter then ''entered'' else ''exited''), Text '' '',
          Text (or_else (ac_label e) (ac_zoneId e))]
       (only_if (truthy (ac_label e)) [Text (ac_zoneId e)])
       (Some (ac_timestamp e)) (now - ac_receivedAt e < 1500))"

definition ActivityFeed_render ::
    "(string \<Rightarrow> int option) \<Rightarrow> (int \<Rightarrow> string) \<Rightarrow> int \<Rightarrow> ActivityEntry list \<Rightarrow> css option \<Rightarrow> 'a node" where
  "ActivityFeed_render parse show_time now entries height =
     Panel [Text (''Activity '' @ middle_dot @
       '' Live zone events'')] [] True [(''height'', or_else height (Css ''100%''))] []
       (if length entries = 0
        then [Elem ''div''
          [Style [(''padding'', Css ''var(--space-5)''), (''textAlign'', Css ''center''),
             (''color'', Css ''var(--color-text-muted)''), (''fontSize'', Css ''var(--font-size-sm)'')]]
          [Text (''Waiting for zone activity'' @ ellipsis_ch)]]
        else map (feed_item parse show_time now) entries)"

section \<open>Looking into the pages\<close>

text \<open>What the pages are searched for: buttons, tables and fields.\<close>

definition searched :: "string \<Rightarrow> bool" where
  "searched tg \<longleftrightarrow> tg \<in> {''button'', ''table'', ''input''}"

lemma searched_tags [simp]: "searched ''button''" "searched ''table''" "searched ''input''"
  by (simp_all add: searched_def)

lemma searchedE: "searched tg \<Longrightarrow> (tg = ''button'' \<Longrightarrow> P) \<Longrightarrow> (tg = ''table'' \<Longrightarrow> P) \<Longrightarrow> (tg = ''input'' \<Longrightarrow> P) \<Longrightarrow> P"
  by (auto simp: searched_def)

lemma searched_not:
  "searched tg \<Longrightarrow> ''td'' \<noteq> tg \<and> ''th'' \<noteq> tg \<and> ''tr'' \<noteq> tg \<and> ''span'' \<noteq> tg \<and> ''thead'' \<noteq> tg \<and> ''tbody'' \<noteq> tg \<and> ''div'' \<noteq> tg
     \<and> ''p'' \<noteq> tg \<and> ''header'' \<noteq> tg \<and> ''section'' \<noteq> tg"
  by (auto simp: searched_def)

lemma Panel_elems [simp]:
  "searched tg \<Longrightarrow> elems tg (Panel [Text t] actions flush st rest body) = elems_in tg actions @
    elems_in tg body"
  by (erule searchedE; cases t; simp add: Panel_def visible_node_def only_if_def elems_in_def; cases actions rule: list.exhaust)

lemma badge_elems [simp]:
  "searched tg \<Longrightarrow> elems tg (driver_badge s) = []" "searched tg \<Longrightarrow> elems tg (delivery_badge s) = []"
  by (erule searchedE; simp add: driver_badge_def delivery_badge_def Badge_def)+

lemma mono_span_elems [simp]: "searched tg \<Longrightarrow> elems tg (mono_span s) = []"
  by (erule searchedE; simp add: mono_span_def)

definition plain_column :: "string \<Rightarrow> ('r, 'a) Column \<Rightarrow> bool" where
  "plain_column tg c \<longleftrightarrow> elems_in tg (co_header c) = [] \<and>
     (case co_render c of None \<Rightarrow> True | Some f \<Rightarrow> (\<forall>r. elems_in tg (f r) = []))"

lemma show_cell_elems [simp]: "elems_in tg (show_cell sn v) = []"
  by (cases v) simp_all

lemma table_elems:
  assumes "searched tg" "\<And>c. c \<in> set cs \<Longrightarrow> plain_column tg c" "elems_in tg (or_else em []) = []"
  shows "elems tg (Table num_of sn s tog cs rows rk oc sk em)
    = (if tg = ''table'' then [Table num_of sn s tog cs rows rk oc sk em] else [])"
proof -
  note tags = searched_not [OF assms(1)]
  have heads: "elems_in tg (map (table_header s tog) cs) = []"
    using assms(2) by (intro elems_in_rows) (auto simp: table_header_def plain_column_def tags)
  have cells: "elems_in tg (map (table_cell sn r) cs) = []" for r
    using assms(2) by (intro elems_in_rows) (force simp: table_cell_def plain_column_def tags split: option.splits)
  have rows': "elems_in tg (map (table_row sn cs rk oc sk) xs) = []" for xs
    by (intro elems_in_rows) (simp add: table_row_def Let_def cells tags)
  have none: "elems tg (empty_row cs (or_else em [Text ''No records''])) = []"
    using assms(3) by (cases em) (simp_all add: empty_row_def or_else_def tags)
  show ?thesis
    using heads rows' none by (cases "tg = ''table''") (simp_all add: Table_def Let_def tags)
qed

lemma tile_elems [simp]:
  "searched tg \<Longrightarrow> elems tg (status_tile so items ord kind sel os s)
    = (if tg = ''button'' then [status_tile so items ord kind sel os s] else [])"
  by (erule searchedE; simp add: status_tile_def StatCard_def Let_def)

lemma StatusCounts_elems:
  "searched tg \<Longrightarrow> elems tg (StatusCounts_render items so ord kind sel os)
    = (if tg = ''button'' then map (status_tile so items ord kind sel os) ord else [])"
  by (erule searchedE; simp add: StatusCounts_render_def elems_in_rows elems_in_singles)

lemma tile_facts [simp]:
  "key_of_attrs (attrs_of (status_tile so items ord kind sel os s)) = Some s"
  "click (status_tile so items ord kind sel (Some f) s) = f (if sel = Some s then None else Some s)"
  "flag_of ''aria-pressed'' (attrs_of (status_tile so items ord kind sel (Some f) s)) = Some (sel = Some s)"
  "map text_of (kids_of (status_tile so items ord kind sel os s)) = [underscores_to_spaces s,
     nat_str (or_else (map_get (sc_byStatus (countByStatus items so ord)) s) 0)]"
  by (simp_all add: status_tile_def StatCard_def Let_def fire_def)

lemma driver_table_elems [simp]:
  "searched tg \<Longrightarrow> elems tg (driver_table num_of sn st ds) = (if tg = ''table'' then [driver_table num_of sn st ds] else [])"
  unfolding driver_table_def
  by (subst table_elems) (auto simp: driver_columns_def plain_column_def searched_def or_else_def)

lemma delivery_table_elems [simp]:
  "searched tg \<Longrightarrow> elems tg (delivery_table num_of sn st ds) = (if tg = ''table'' then [delivery_table num_of sn st ds] else [])"
  unfolding delivery_table_def
  by (subst table_elems) (auto simp: delivery_columns_def plain_column_def searched_def or_else_def)

lemma search_box_elems [simp]:
  "searched tg \<Longrightarrow> elems tg (search_box q) = (if tg = ''input'' then kids_of (search_box q) else [])"
  by (erule searchedE; simp add: search_box_def Input_def)

lemma assignment_section_elems [simp]: "searched tg \<Longrightarrow> elems_in tg (assignment_section x) = []"
  by (simp add: assignment_section_def DetailRow_def muted_paragraph_def detail_delivery_def elems_in_rows searched_not
      split: option.split)

lemma position_section_elems [simp]: "searched tg \<Longrightarrow> elems_in tg (position_section sf x) = []"
  by (simp add: position_section_def searched_not split: option.split)

lemma detail_elems [simp]: "searched tg \<Longrightarrow> elems tg (DriverDetailPanel sf d) = []"
  by (simp add: DriverDetailPanel_def Section_render_def DetailRow_def muted_paragraph_def searched_not split: option.split)

lemma drivers_page_elems:
  "elems ''button'' (DriversView_render n sn sf st ds es as rs ps) = kids_of (driver_status_tiles ds (dw_filter st))"
  "elems ''table'' (DriversView_render n sn sf st ds es as rs ps) = [driver_table n sn st ds]"
  by (simp_all add: DriversView_render_def driver_status_tiles_def StatusCounts_elems) (simp add: StatusCounts_render_def)

lemma deliveries_page_elems:
  "elems ''button'' (DeliveriesView_render n sn st es) = kids_of (delivery_status_tiles es (ew_filter st))"
  "elems ''table'' (DeliveriesView_render n sn st es) = [delivery_table n sn st es]"
  "elems ''input'' (DeliveriesView_render n sn st es) = kids_of (search_box (ew_local st))"
  by (simp_all add: DeliveriesView_render_def delivery_status_tiles_def StatusCounts_elems) (simp add: StatusCounts_render_def)

text \<open>A tile counts the items with its status, listed or not.\<close>

lemma tile_count:
  "s \<in> set ord \<Longrightarrow> or_else (map_get (sc_byStatus (countByStatus items so ord)) s) 0 = length (filter (\<lambda>x. so x = s) items)"
  by (simp add: countByStatus_get or_else_def)

lemma sorted_length_filter:
  "length (sorted_rows n cs (filter P xs) s) = length (filter P xs)"
  by simp

lemma driver_rows:
  "body_rows (driver_table n sn st ds)
    = map (table_row sn driver_columns or_driverId (Some (\<lambda>d. [DriversSelect (or_driverId d)])) (dw_selectedId st))
        (sorted_rows n (map (\<lambda>c. (co_key c, co_accessor c)) (driver_columns :: (DriverRecord,
          DriversAction) Column list))
          (visible_drivers ds (dw_filter st)) (dw_sort st))"
  by (simp add: driver_table_def body_rows_table)

lemma driver_keys: "mset (shown_keys (driver_table n sn st ds)) = mset (map or_driverId (visible_drivers ds (dw_filter st)))"
  by (simp add: driver_table_def shown_keys_table)

lemma delivery_keys:
  "mset (shown_keys (delivery_table n sn st es)) = mset (map od_deliveryId (visible_deliveries es (ew_local st) (ew_filter st)))"
  by (simp add: delivery_table_def shown_keys_table)

lemma driver_keys_length: "length (shown_keys (driver_table n sn st ds)) = length (visible_drivers ds (dw_filter st))"
  by (simp add: driver_table_def shown_keys_table)

lemma status_order_truthy: "s \<in> set DRIVER_STATUS_ORDER \<union> set DELIVERY_STATUS_ORDER \<Longrightarrow> truthy (Some s)"
  by (auto simp: DRIVER_STATUS_ORDER_def DELIVERY_STATUS_ORDER_def all_driver_statuses_def all_delivery_statuses_def truthy_def)

text \<open>Whether a delivery is found by a query and a status filter.\<close>

definition finds :: "string \<Rightarrow> string option \<Rightarrow> DeliveryRecord \<Rightarrow> bool" where
  "finds query flt d \<longleftrightarrow>
     (js_trim query = [] \<or> str_includes (js_lower (od_deliveryId d)) (js_lower (js_trim query))
        \<or> str_includes (js_lower (od_recipientName d)) (js_lower (js_trim query))) \<and>
     (if truthy flt then Some (od_status d) = flt else True)"

lemma trim_trim [simp]: "js_trim (js_trim s) = js_trim s"
proof (cases "js_trim s")
  case Nil
  have "js_trim [] = []" by (simp add: js_trim_def)
  with Nil show ?thesis by simp
next
  case (Cons c cs)
  let ?t = "dropWhile js_space s"
  have "rev ?t = takeWhile js_space (rev ?t) @ rev (js_trim s)" by (simp add: js_trim_def)
  then have "rev (rev ?t) = js_trim s @ rev (takeWhile js_space (rev ?t))" by (metis rev_append rev_rev_ident)
  then have t: "?t = js_trim s @ rev (takeWhile js_space (rev ?t))" by simp
  have "?t \<noteq> []" using t Cons by (metis append_is_Nil_conv list.distinct(1))
  then have "\<not> js_space (hd ?t)" by (rule hd_dropWhile)
  moreover have "hd ?t = c" using t Cons by (metis append_Cons list.sel(1))
  ultimately have "\<not> js_space c" by simp
  then have "dropWhile js_space (js_trim s) = js_trim s" by (simp add: Cons)
  moreover have "dropWhile js_space (rev (js_trim s)) = rev (js_trim s)" by (simp add: js_trim_def dropWhile_idem)
  ultimately show ?thesis by (simp add: js_trim_def [of "js_trim s"])
qed

lemma visible_finds: "visible_deliveries es query flt = filter (finds query flt) es"
  by (auto simp: visible_deliveries_def finds_def searchDeliveries_def Let_def js_lower_def intro!: filter_cong)

abbreviation driver_tile :: "DriverRecord list \<Rightarrow> string option \<Rightarrow> string \<Rightarrow> DriversAction node" where
  "driver_tile ds flt \<equiv> status_tile or_status ds DRIVER_STATUS_ORDER KindDriver flt (Some (\<lambda>s. [DriversFilter s]))"

lemma driver_tiles: "kids_of (driver_status_tiles ds flt) = map (driver_tile ds flt) DRIVER_STATUS_ORDER"
  by (simp add: driver_status_tiles_def StatusCounts_render_def)

lemma driver_tile_effect:
  fixes st :: DriversState and ds :: "DriverRecord list" and n sn
  assumes "s \<in> set DRIVER_STATUS_ORDER"
  defines "b \<equiv> driver_tile ds (dw_filter st) s"
  defines "after \<equiv> driver_table n sn (fold drivers_act (click b) st) ds"
  shows "if dw_filter st = Some s then mset (shown_keys after) = mset (map or_driverId ds)
    else mset (shown_keys after) = mset (map or_driverId (filter (\<lambda>d. or_status d = s) ds))
      \<and> map text_of (kids_of b) = [underscores_to_spaces s, nat_str (length (shown_keys after))]"
  using assms(1) status_order_truthy [of s] unfolding b_def after_def
  by (auto simp: driver_keys driver_keys_length visible_drivers_def truthy_def tile_count)

lemma driver_row_effect:
  fixes d :: DriverRecord and st :: DriversState and sn sel
  defines "r \<equiv> table_row sn driver_columns or_driverId (Some (\<lambda>d. [DriversSelect (or_driverId d)])) sel d"
  defines "after \<equiv> fold drivers_act (click r) st"
  shows "kids_of (DriversView_render n sn sf after ds es as rs ps) ! 1
      = DriverDetailPanel sf (if or_driverId d = [] then None else buildDriverDetail (or_driverId d) ds as rs es ps)
    \<and> list_all (\<lambda>r'. (map_of (style_of (attrs_of r')) ''background'' = Some (Css ''var(--color-surface-alt)''))
          \<longleftrightarrow> key_of_attrs (attrs_of r') = Some (or_driverId d)) (body_rows (driver_table n sn after ds))"
proof -
  have after: "after = st\<lparr>dw_selectedId := Some (or_driverId d)\<rparr>" by (simp add: after_def r_def)
  show ?thesis unfolding after
    by (simp add: DriversView_render_def driver_detail_def driver_rows list_all_iff truthy_def) (simp add: table_row_def Let_def)
qed

lemma visible_driver_known: "d \<in> set (visible_drivers ds flt) \<Longrightarrow> or_driverId d \<in> or_driverId ` set ds"
  by (auto simp: visible_drivers_def split: if_splits)

section \<open>Properties\<close>

text \<open>
  C37. The drivers console. Whatever its state, it has one tile per status; clicking a tile shows
  exactly the drivers with that status, as many as the tile says, and clicking the selected one
  shows all drivers again. Clicking a row selects its driver: the panel beside the table then shows
  the detail of that driver, and in the table exactly the rows of that driver are highlighted.
\<close>

theorem drivers_console:
  "let render = (\<lambda>s. DriversView_render n sn sf s ds es as rs ps);
       table = (\<lambda>s. hd (elems ''table'' (render s)));
       after = (\<lambda>e. fold drivers_act (click e) st)
   in map (\<lambda>b. key_of_attrs (attrs_of b)) (elems ''button'' (render st)) = map Some DRIVER_STATUS_ORDER
     \<and> list_all (\<lambda>b. let s = the (key_of_attrs (attrs_of b))
         in if dw_filter st = Some s then mset (shown_keys (table (after b))) = mset (map or_driverId ds)
            else mset (shown_keys (table (after b))) = mset (map or_driverId (filter (\<lambda>d. or_status d = s) ds))
              \<and> map text_of (kids_of b) = [underscores_to_spaces s,
                nat_str (length (shown_keys (table (after b))))])
         (elems ''button'' (render st))
     \<and> list_all (\<lambda>r. let i = the (key_of_attrs (attrs_of r))
         in i \<in> or_driverId ` set ds
          \<and> kids_of (render (after r)) ! 1
              = DriverDetailPanel sf (if i = [] then None else buildDriverDetail i ds as rs es ps)
          \<and> list_all (\<lambda>r'. (map_of (style_of (attrs_of r')) ''background'' = Some (Css ''var(--color-surface-alt)''))
                \<longleftrightarrow> key_of_attrs (attrs_of r') = Some i) (body_rows (table (after r))))
         (body_rows (table st))"
proof -
  have known: "\<And>d. d \<in> set (visible_drivers ds (dw_filter st)) \<Longrightarrow> or_driverId d \<in> or_driverId ` set ds"
    by (rule visible_driver_known)
  show ?thesis
    unfolding Let_def drivers_page_elems list.sel(1) driver_tiles
    apply (intro conjI)
    subgoal by simp
    subgoal using driver_tile_effect [where ds = ds and st = st and n = n and sn = sn]
      unfolding list_all_iff set_map ball_simps tile_facts(1) option.sel by blast
    subgoal using driver_row_effect [where sn = sn and sel = "dw_selectedId st" and st = st and n = n and sf = sf and ds = ds
        and es = es and as = as and rs = rs and ps = ps] known
      unfolding driver_rows [of _ _ st] list_all_iff set_map ball_simps table_row_key option.sel sorted_rows_set by blast
    done
qed

abbreviation delivery_tile :: "DeliveryRecord list \<Rightarrow> string option \<Rightarrow> string \<Rightarrow> DeliveriesAction node" where
  "delivery_tile es flt \<equiv> status_tile od_status es DELIVERY_STATUS_ORDER KindDelivery flt (Some (\<lambda>s. [DeliveriesFilter s]))"

lemma delivery_tiles: "kids_of (delivery_status_tiles es flt) = map (delivery_tile es flt) DELIVERY_STATUS_ORDER"
  by (simp add: delivery_status_tiles_def StatusCounts_render_def)

lemma search_field: "kids_of (search_box q) = [Input False []
    [Attr ''placeholder'' (''Search by ID or recipient'' @ ellipsis_ch), Attr ''value'' q,
     OnEv ''onChange'' (\<lambda>v. [DeliveriesQuery v]), Attr ''aria-label'' ''Search deliveries'']]"
  by (simp add: search_box_def)

text \<open>
  C38. The deliveries console. Whatever its state, typing a text in the search field leaves that text in
  the field, tells the owner of the text, and shows exactly the deliveries whose id or recipient
  contains the trimmed text in any case, all of them for a blank one, within the status filter. It
  has one tile per status with the number of all deliveries of that status; clicking a tile keeps,
  of what the text finds, the deliveries of that status, and clicking the selected one shows all
  that the text finds.
\<close>

theorem deliveries_console:
  "let render = (\<lambda>s. DeliveriesView_render n sn s es);
       table = (\<lambda>s. hd (elems ''table'' (render s)));
       field = (\<lambda>s. hd (elems ''input'' (render s)));
       typed = fold (deliveries_act onQueryChange) (fire ''onChange'' v (field st)) (st, owner)
   in mset (shown_keys (table (fst typed))) = mset (map od_deliveryId (filter (finds v (ew_filter st)) es))
     \<and> attr_of ''value'' (attrs_of (field (fst typed))) = Some v
     \<and> snd typed = (case onQueryChange of Some f \<Rightarrow> f v owner | None \<Rightarrow> owner)
     \<and> map (\<lambda>b. key_of_attrs (attrs_of b)) (elems ''button'' (render st)) = map Some DELIVERY_STATUS_ORDER
     \<and> list_all (\<lambda>b. let s = the (key_of_attrs (attrs_of b)); after = fst (fold (deliveries_act onQueryChange) (click b) (st, owner))
         in map text_of (kids_of b) = [underscores_to_spaces s,
           nat_str (length (filter (\<lambda>d. od_status d = s) es))]
          \<and> mset (shown_keys (table after)) = mset (map od_deliveryId
              (filter (finds (ew_local st) (if ew_filter st = Some s then None else Some s)) es)))
         (elems ''button'' (render st))"
proof -
  have field: "fire ''onChange'' v (hd (kids_of (search_box q))) = [DeliveriesQuery v]"
      "attr_of ''value'' (attrs_of (hd (kids_of (search_box q)))) = Some q" for q
    by (simp_all add: search_field fire_def Input_def)
  show ?thesis
    unfolding Let_def deliveries_page_elems list.sel(1) delivery_tiles
    by (auto simp: field delivery_keys visible_finds list_all_iff tile_count Let_def)
qed

section \<open>The zones page and the simulation\<close>

lemma zone_edge_Fin: "zone_edge (Fin lng) (Fin lat) p q = edge_crosses lng lat p q"
  by (auto simp: zone_edge_def edge_crosses_def)

lemma page_contains_Fin: "ZonesView_pointInRing (Fin lng) (Fin lat) ring = pointInRing lng lat ring"
  by (simp add: ZonesView_pointInRing_def pointInRing_def zone_edge_Fin)

lemma vehicles_inside_Fin:
  assumes "list_all (\<lambda>v. is_finite_num (vs_lng v) \<and> is_finite_num (vs_lat v)) vs"
  shows "vehicles_inside vs z
    = filter (\<lambda>v. case (vs_lng v, vs_lat v) of (Fin x,
      Fin y) \<Rightarrow> pointInRing x y (zp_ring z) | _ \<Rightarrow> False) vs"
  unfolding vehicles_inside_def
proof (rule filter_cong [OF refl])
  fix v assume "v \<in> set vs"
  with assms have "is_finite_num (vs_lng v)" "is_finite_num (vs_lat v)" by (auto simp: list_all_iff)
  then obtain x y where "vs_lng v = Fin x" "vs_lat v = Fin y"
    by (metis is_finite_num.elims(2))
  then show "ZonesView_pointInRing (vs_lng v) (vs_lat v) (zp_ring z)
      \<longleftrightarrow> (case (vs_lng v, vs_lat v) of (Fin x,
        Fin y) \<Rightarrow> pointInRing x y (zp_ring z) | _ \<Rightarrow> False)"
    by (simp add: page_contains_Fin)
qed

lemma zone_card_facts:
  "key_of_attrs (attrs_of (zone_card sr vs z)) = Some (zp_id z)"
  "text_of (hd (kids_of (kids_of (kids_of (zone_card sr vs z) ! 0) ! 1))) = nat_str (length (vehicles_inside vs z))"
  "List.map_filter (\<lambda>n. key_of_attrs (attrs_of n)) (kids_of (kids_of (zone_card sr vs z) ! 2)) = map vs_vehicleId (vehicles_inside vs z)"
  by (simp_all add: zone_card_def Card_def Let_def inside_count_def map_filter_def vehicle_chip_def comp_def)

text \<open>
  The zones page agrees with the simulation. The page has its own copy of the test whether a point
  is inside a ring. For vehicles at proper coordinates it shows, for every zone in order, the number
  and the names of exactly the vehicles that the simulation's test puts inside that zone.
\<close>

theorem zones_page_agrees:
  "let cards = kids_of (hd (kids_of (ZonesView_render sr zones vs)));
       inside = (\<lambda>z. filter (\<lambda>v. case (vs_lng v, vs_lat v) of (Fin x,
         Fin y) \<Rightarrow> pointInRing x y (zp_ring z) | _ \<Rightarrow> False) vs)
   in if list_all (\<lambda>v. is_finite_num (vs_lng v) \<and> is_finite_num (vs_lat v)) vs
      then map (\<lambda>c. (key_of_attrs (attrs_of c), text_of (hd (kids_of (kids_of (kids_of c ! 0) ! 1))),
             List.map_filter (\<lambda>n. key_of_attrs (attrs_of n)) (kids_of (kids_of c ! 2)))) cards
         = map (\<lambda>z. (Some (zp_id z), nat_str (length (inside z)), map vs_vehicleId (inside z))) zones
      else True"
  by (simp add: Let_def ZonesView_render_def comp_def zone_card_facts vehicles_inside_Fin del: One_nat_def)

section \<open>Reports\<close>

text \<open>The bar of the reports shows the shares of the statuses,
  which make up the whole when all statuses are known.\<close>

lemma delivery_bar_whole:
  assumes "es \<noteq> []" "\<And>d. d \<in> set es \<Longrightarrow> od_status d \<in> set DELIVERY_STATUS_ORDER"
  shows "sum_list (map (\<lambda>(s, n). segment_percent es n) (delivery_segments es)) = 100"
proof -
  have "distinct DELIVERY_STATUS_ORDER" by (simp add: DELIVERY_STATUS_ORDER_def all_delivery_statuses_def)
  have count: "sum_list (map (\<lambda>s. length (filter (\<lambda>d. od_status d = s) es)) ss)
      = length (filter (\<lambda>d. od_status d \<in> set ss) es)" if "distinct ss" for ss
    using that
  proof (induction ss)
    case (Cons s ss)
    have "length (filter (\<lambda>d. od_status d = s) es) + length (filter (\<lambda>d. od_status d \<in> set ss) es)
        = length (filter (\<lambda>d. od_status d = s \<or> od_status d \<in> set ss) es)"
      using Cons.prems by (induction es) auto
    with Cons show ?case by simp
  qed simp
  have "filter (\<lambda>d. od_status d \<in> set DELIVERY_STATUS_ORDER) es = es" using assms(2) by (simp add: filter_id_conv)
  then have total: "sum_list (map (\<lambda>s. length (filter (\<lambda>d. od_status d = s) es)) DELIVERY_STATUS_ORDER) = length es"
    using count [OF \<open>distinct DELIVERY_STATUS_ORDER\<close>] by simp
  have part: "sum_list (map (\<lambda>(s,
    n). segment_percent es n) (filter (\<lambda>s. snd s > 0) (map (\<lambda>s. (s, f s)) ss)))
      = real (sum_list (map f ss)) / real (length es) * 100" for ss and f :: "string \<Rightarrow> nat"
    using assms(1) by (induction ss) (auto simp: segment_percent_def Let_def add_divide_distrib distrib_right)
  show ?thesis unfolding delivery_segments_def part total using assms(1) by simp
qed

end
