(* ===== verification/Map_View.thy ===== *)
theory Map_View
  imports Components Live_Map
begin

text \<open>
  The map component around the markers (\<open>map/LiveMap.tsx\<close>, \<open>map/MapView.tsx\<close>, \<open>map/mapStyle.ts\<close>):
  the life of the map library's instance with the sources, layers and camera moves it is given, the
  element of a marker, the base map's style, and the filterable view that renders it all. The
  library is external: it is the list of commands it received and the data of its sources.
  Numbers in marker styles are printed by \<open>show_num\<close>; computed style values are a function.
\<close>

section \<open>Markers and the base map\<close>

fun marker_ICON :: "VehicleKind \<Rightarrow> string" where
  "marker_ICON KindAir =
     ''M12 2c.5 0 .9.8 .9 1.9V9l8 4.6v1.9l-8-2.3v4.4l2.1 1.7v1.5L12 20.8 9 21.7v-1.5l2.1-1.7v-4.4l-8 2.3v-1.9L11.1 9V3.9C11.1 2.8 11.5 2 12 2z''"
| "marker_ICON KindSea =
     ''M3.5 13h17l-2.2 5.2a1 1 0 0 1-.92.6H6.62a1 1 0 0 1-.92-.6L3.5 13zm2-5.5h6.5v4H4l1.5-4zM13 5h3.2c.4 0 .76.24.92.6L18.6 11.5H13V5z''"
| "marker_ICON KindGround =
     ''M2.5 6.5h11v8h-11zM13.5 9h3.6l3.4 3.3v2.2h-7zM7 18.2a2.1 2.1 0 1 0 0-4.2 2.1 2.1 0 0 0 0 4.2zm10 0a2.1 2.1 0 1 0 0-4.2 2.1 2.1 0 0 0 0 4.2z''"

text \<open>A double-quoted attribute inside markup.\<close>

definition dq :: "string \<Rightarrow> string" where
  "dq s = [CHR 0x22] @ s @ [CHR 0x22]"

definition marker_halo :: "string \<Rightarrow> string" where
  "marker_halo statusVar =
     ''<circle cx='' @ dq ''12'' @ '' cy='' @ dq ''12'' @ '' r='' @ dq ''11'' @ '' fill='' @ dq ''none'' @ '' stroke='' @ dq statusVar
     @ '' stroke-opacity='' @ dq ''0.5'' @ '' stroke-width='' @ dq ''1.5'' @ ''/>'' @ [CHR 10]
     @ ''       <circle cx='' @ dq ''12'' @ '' cy='' @ dq ''12'' @ '' r='' @ dq ''7'' @ '' fill='' @ dq ''none'' @ '' stroke=''
     @ dq statusVar @ '' stroke-opacity='' @ dq ''0.8'' @ '' stroke-width='' @ dq ''1.5'' @ ''/>''"

definition marker_markup :: "string \<Rightarrow> VehicleKind \<Rightarrow> bool \<Rightarrow> string" where
  "marker_markup statusVar kind selected =
     ''<svg width='' @ dq ''24'' @ '' height='' @ dq ''24'' @ '' viewBox='' @ dq ''0 0 24 24'' @ ''>''
     @ (if selected then marker_halo statusVar else [])
     @ ''<path d='' @ dq (marker_ICON kind) @ '' fill='' @ dq statusVar @ '' stroke='' @ dq ''#070A16''
     @ '' stroke-width='' @ dq ''0.8'' @ '' stroke-linejoin='' @ dq ''round'' @ ''/></svg>''"

definition buildVehicleMarkerEl ::
    "(jsnum \<Rightarrow> string) \<Rightarrow> string \<Rightarrow> VehicleKind \<Rightarrow> jsnum option \<Rightarrow> bool \<Rightarrow> string option \<Rightarrow> 'a node" where
  "buildVehicleMarkerEl show_num statusVar kind heading selected label =
     Elem ''div''
       [Style [(''display'', Css ''inline-flex''), (''alignItems'', Css ''center''), (''gap'', Css ''5px''),
          (''cursor'', Css ''pointer'')]]
       ([Elem ''span''
          [Attr ''className'' ''fcc-marker-icon'',
           Style [(''display'', Css ''inline-flex''), (''willChange'', Css ''transform''),
             (''transform'', Css (''rotate('' @ show_num (marker_angle kind heading) @ ''deg)'')),
             (''filter'', Css (if selected then ''drop-shadow(0 0 6px '' @ statusVar @ '')''
                else ''drop-shadow(0 1px 2px rgba(0,0,0,0.6))''))],
           Attr ''innerHTML'' (marker_markup statusVar kind selected)] []] @
        given label (\<lambda>l.
          [Elem ''span''
            [Attr ''cssText''
              (''font-family:var(--font-mono);font-size:11px;font-weight:600;color:var(--color-text);background:color-mix(in srgb,''
               @ ''var(--color-bg) 66%,transparent);padding:1px 5px;border-radius:6px;white-space:nowrap;backdrop-filter:blur(2px)'')]
            [Text l]]))"

definition interpolate_zoom :: "(real \<times> real) list \<Rightarrow> jsval" where
  "interpolate_zoom stops = Arr ([Str ''interpolate'', Arr [Str ''linear''], Arr [Str ''zoom'']]
     @ concat (map (\<lambda>(z, v). [Num (Fin z), Num (Fin v)]) stops))"

definition street_tiles :: "string \<Rightarrow> jsval" where
  "street_tiles host = Str (''https://'' @ host @ ''.basemaps.cartocdn.com/dark_all/{z}/{x}/{y}.png'')"

definition link_markup :: "string \<Rightarrow> string \<Rightarrow> string" where
  "link_markup url label = ''<a href='' @ dq url @ ''>'' @ label @ ''</a>''"

definition darkBasemapStyle :: jsval where
  "darkBasemapStyle = Obj
    [(''version'', Num (Fin 8)), (''name'', Str ''fleet-night-earth''), (''projection'', Obj [(''type'', Str ''globe'')]),
     (''sky'', Obj
       [(''sky-color'', Str ''#0a1230''), (''sky-horizon-blend'', Num (Fin 0.7)), (''horizon-color'', Str ''#5b6bd6''),
        (''horizon-fog-blend'', Num (Fin 0.6)), (''fog-color'', Str ''#10122e''), (''fog-ground-blend'', Num (Fin 0.5)),
        (''atmosphere-blend'', interpolate_zoom [(0, 1), (7, 0.5), (11, 0)])]),
     (''sources'', Obj
       [(''streets'', Obj
          [(''type'', Str ''raster''),
           (''tiles'', Arr [street_tiles ''a'', street_tiles ''b'', street_tiles ''c'', street_tiles ''d'']),
           (''tileSize'', Num (Fin 256)),
           (''attribution'', Str (copyright_sign @ '' '' @ link_markup ''https://www.openstreetmap.org/copyright'' ''OpenStreetMap''
              @ '' '' @ copyright_sign @ '' '' @ link_markup ''https://carto.com/attributions'' ''CARTO''))]),
        (''nightlights'', Obj
          [(''type'', Str ''raster''),
           (''tiles'', Arr [Str (''https://gibs.earthdata.nasa.gov/wmts/epsg3857/best/VIIRS_Black_Marble/default/2016-01-01/''
              @ ''GoogleMapsCompatible_Level8/{z}/{y}/{x}.png'')]),
           (''tileSize'', Num (Fin 256)), (''maxzoom'', Num (Fin 5)),
           (''attribution'', Str (copyright_sign @ '' NASA Earth Observatory (Black Marble)''))])]),
     (''layers'', Arr
       [Obj [(''id'', Str ''streets''), (''type'', Str ''raster''), (''source'', Str ''streets''),
          (''paint'', Obj [(''raster-opacity'', Num (Fin 0.95)), (''raster-brightness-max'', Num (Fin 0.85)),
             (''raster-fade-duration'', Num (Fin 0))])],
        Obj [(''id'', Str ''nightlights''), (''type'', Str ''raster''), (''source'', Str ''nightlights''),
          (''paint'', Obj [(''raster-opacity'', interpolate_zoom [(3, 1), (5, 0.85), (7, 0)]),
             (''raster-saturation'', Num (Fin (- 0.15))), (''raster-contrast'', Num (Fin 0.12)),
             (''raster-hue-rotate'', Num (Fin (- 12))), (''raster-fade-duration'', Num (Fin 0))])]])]"

text \<open>The argument is the build's \<open>VITE_MAP_STYLE_URL\<close>.\<close>

definition resolveMapStyle :: "string option \<Rightarrow> jsval" where
  "resolveMapStyle url = (case url of Some u \<Rightarrow> if u \<noteq> [] then Str u else darkBasemapStyle | None \<Rightarrow> darkBasemapStyle)"

section \<open>The life of the map\<close>

datatype MapCommand =
    AddSource string jsval
  | AddLayer jsval
  | SetData string jsval
  | FlyTo jsval
  | FitBounds Box jsval
  | StartSpin
  | DestroySpin
  | RemoveMap

text \<open>
  \<open>lm_map\<close> says whether the instance is held, \<open>lm_options\<close> what it was made with, \<open>lm_raf\<close> whether a
  frame is requested, \<open>lm_flight\<close> whether the delayed flight is still to come; \<open>lm_shown\<close>, \<open>lm_zones\<close> and
  \<open>lm_trace\<close> are the properties of the last render on which the three effects depend: the vehicles with
  the selection, the zones, and the pings with the selection.
\<close>

record LiveMapState =
  lm_map :: bool
  lm_ready :: bool
  lm_failed :: bool
  lm_options :: "jsval option"
  lm_raf :: bool
  lm_flight :: bool
  lm_entries :: "(string, MarkerEntry) jsmap"
  lm_framed :: "string option"
  lm_sources :: "(string, jsval) jsmap"
  lm_log :: "MapCommand list"
  lm_shown :: "VehicleState list \<times> string option"
  lm_zones :: "ZonePolygon list"
  lm_trace :: "TracePing list \<times> string option"

definition live_map_new :: LiveMapState where
  "live_map_new = \<lparr>lm_map = False, lm_ready = False, lm_failed = False, lm_options = None, lm_raf = False,
     lm_flight = False, lm_entries = [], lm_framed = None, lm_sources = [], lm_log = [],
     lm_shown = ([], None), lm_zones = [], lm_trace = ([], None)\<rparr>"

definition TRACE_SOURCE :: string where "TRACE_SOURCE = ''selected-trace''"
definition ZONE_SOURCE :: string where "ZONE_SOURCE = ''zones''"

definition FLEET_CENTER :: jsval where
  "FLEET_CENTER = Arr [Num (Fin (- 122.3321)), Num (Fin 47.6062)]"

definition readCssVar :: "(string \<Rightarrow> string) \<Rightarrow> string \<Rightarrow> string \<Rightarrow> string" where
  "readCssVar computed name fallback = (let v = js_trim (computed name) in if v = [] then fallback else v)"

definition pixel_ratio :: "jsnum option \<Rightarrow> jsnum" where
  "pixel_ratio dpr =
     (let d = (case dpr of Some x \<Rightarrow> if x = NaN \<or> x = Fin 0 then Fin 1 else x | None \<Rightarrow> Fin 1) in js_min d (Fin 1.5))"

definition map_options :: "string option \<Rightarrow> jsnum option \<Rightarrow> jsval" where
  "map_options styleUrl dpr = Obj
    [(''style'', resolveMapStyle styleUrl), (''center'', FLEET_CENTER), (''zoom'', Num (Fin 2.2)), (''bearing'', Num (Fin (- 16))),
     (''attributionControl'', Bool False), (''maxPitch'', Num (Fin 70)), (''fadeDuration'', Num (Fin 0)),
     (''maxTileCacheSize'', Num (Fin 2048)), (''refreshExpiredTiles'', Bool False), (''renderWorldCopies'', Bool False),
     (''pixelRatio'', Num (pixel_ratio dpr))]"

definition map_do :: "MapCommand list \<Rightarrow> LiveMapState \<Rightarrow> LiveMapState" where
  "map_do cs s = s\<lparr>lm_log := lm_log s @ cs\<rparr>"

definition set_source :: "string \<Rightarrow> jsval \<Rightarrow> LiveMapState \<Rightarrow> LiveMapState" where
  "set_source i d s = s\<lparr>lm_sources := map_set i d (lm_sources s)\<rparr>"

text \<open>Mounting: the library's constructor succeeds or throws.\<close>

definition live_map_mount :: "bool \<Rightarrow> string option \<Rightarrow> jsnum option \<Rightarrow> LiveMapState \<Rightarrow> LiveMapState" where
  "live_map_mount constructs styleUrl dpr s =
     (if constructs then s\<lparr>lm_map := True, lm_options := Some (map_options styleUrl dpr), lm_raf := True\<rparr>
      else s\<lparr>lm_failed := True\<rparr>)"

definition empty_collection :: jsval where
  "empty_collection = Obj [(''type'', Str ''FeatureCollection''), (''features'', Arr [])]"

definition trace_feature :: "(jsnum \<times> jsnum) list \<Rightarrow> jsval" where
  "trace_feature coordinates =
     Obj [(''type'', Str ''Feature''),
       (''geometry'', Obj [(''type'', Str ''LineString''),
          (''coordinates'', Arr (map (\<lambda>(x, y). Arr [Num x, Num y]) coordinates))]),
       (''properties'', Obj [])]"

definition zone_layers :: "string \<Rightarrow> jsval list" where
  "zone_layers accent =
    [Obj [(''id'', Str ''zone-fill''), (''type'', Str ''fill''), (''source'', Str ZONE_SOURCE),
       (''paint'', Obj [(''fill-color'', Str accent), (''fill-opacity'', Num (Fin 0.12))])],
     Obj [(''id'', Str ''zone-outline''), (''type'', Str ''line''), (''source'', Str ZONE_SOURCE),
       (''paint'', Obj [(''line-color'', Str accent), (''line-opacity'', Num (Fin 0.65)), (''line-width'', Num (Fin 1.5))])]]"

definition trace_layer :: "string \<Rightarrow> jsval" where
  "trace_layer info =
     Obj [(''id'', Str ''trace-line''), (''type'', Str ''line''), (''source'', Str TRACE_SOURCE),
       (''layout'', Obj [(''line-cap'', Str ''round''), (''line-join'', Str ''round'')]),
       (''paint'', Obj [(''line-width'', Num (Fin 3)),
          (''line-gradient'', Arr [Str ''interpolate'', Arr [Str ''linear''], Arr [Str ''line-progress''], Num (Fin 0),
             Str ''rgba(143,180,251,0.04)'', Num (Fin 1), Str info])])]"

definition on_load :: "(string \<Rightarrow> string) \<Rightarrow> LiveMapState \<Rightarrow> LiveMapState" where
  "on_load computed s =
     (let accent = readCssVar computed ''--color-accent'' ''#58D6F2'';
          info = readCssVar computed ''--color-info'' ''#8FB4FB'';
          s1 = map_do ([AddSource ZONE_SOURCE (Obj [(''type'', Str ''geojson''), (''data'', empty_collection)])]
                 @ map AddLayer (zone_layers accent)) (set_source ZONE_SOURCE empty_collection s);
          s2 = map_do [AddSource TRACE_SOURCE (Obj [(''type'', Str ''geojson''), (''lineMetrics'', Bool True),
                   (''data'', trace_feature [])]), AddLayer (trace_layer info)] (set_source TRACE_SOURCE (trace_feature []) s1)
      in (map_do [StartSpin] s2)\<lparr>lm_ready := True, lm_flight := True\<rparr>)"

definition camera :: "real \<Rightarrow> real \<Rightarrow> (string \<times> jsval) list \<Rightarrow> jsval" where
  "camera zoom turn extra = Obj ([(''center'', FLEET_CENTER), (''zoom'', Num (Fin zoom)), (''bearing'', Num (Fin turn))] @ extra)"

definition flight_fires :: "LiveMapState \<Rightarrow> LiveMapState" where
  "flight_fires s = (map_do [FlyTo (camera 10.2 0 [(''duration'', Num (Fin 5200)), (''curve'', Num (Fin 1.7)),
      (''essential'', Bool True)])] s)\<lparr>lm_flight := False\<rparr>"

definition frame :: "LiveMapState \<Rightarrow> LiveMapState" where
  "frame s = (if lm_raf s then s\<lparr>lm_entries := animate (lm_entries s)\<rparr> else s)"

definition live_map_unmount :: "LiveMapState \<Rightarrow> LiveMapState" where
  "live_map_unmount s =
     (if lm_map s then (map_do [DestroySpin, RemoveMap] s)\<lparr>lm_raf := False, lm_entries := [], lm_map := False\<rparr> else s)"

text \<open>The three effects that follow the data; each does nothing before the map is there and loaded.\<close>

definition markers_effect :: "VehicleState list \<Rightarrow> string option \<Rightarrow> LiveMapState \<Rightarrow> LiveMapState" where
  "markers_effect vehicles selectedVehicleId s =
     (if \<not> lm_map s \<or> \<not> lm_ready s then s
      else s\<lparr>lm_entries := reconcile vehicles selectedVehicleId (lm_entries s)\<rparr>)"

definition zone_features :: "ZonePolygon list \<Rightarrow> jsval" where
  "zone_features zones =
     Obj [(''type'', Str ''FeatureCollection''),
       (''features'', Arr (map (\<lambda>z. Obj
          [(''type'', Str ''Feature''), (''properties'', Obj [(''id'', Str (zp_id z)), (''name'', Str (zp_name z))]),
           (''geometry'', Obj [(''type'', Str ''Polygon''),
              (''coordinates'', Arr [Arr (map (\<lambda>(x, y). Arr [Num (Fin x), Num (Fin y)]) (zp_ring z))])])]) zones))]"

definition set_data :: "string \<Rightarrow> jsval \<Rightarrow> LiveMapState \<Rightarrow> LiveMapState" where
  "set_data i d s =
     (if map_get (lm_sources s) i = None then s else map_do [SetData i d] (set_source i d s))"

definition zones_effect :: "ZonePolygon list \<Rightarrow> LiveMapState \<Rightarrow> LiveMapState" where
  "zones_effect zones s = (if \<not> lm_map s \<or> \<not> lm_ready s then s else set_data ZONE_SOURCE (zone_features zones) s)"

definition fit_options :: jsval where
  "fit_options = Obj [(''padding'', Num (Fin 90)), (''maxZoom'', Num (Fin 13)), (''duration'', Num (Fin 800))]"

definition traces_effect ::
    "(string \<Rightarrow> int option) \<Rightarrow> TracePing list \<Rightarrow> string option \<Rightarrow> jsnum \<Rightarrow> LiveMapState \<Rightarrow> LiveMapState" where
  "traces_effect parse tracePings selectedVehicleId now s =
     (if \<not> lm_map s \<or> \<not> lm_ready s \<or> map_get (lm_sources s) TRACE_SOURCE = None then s
      else (case trace_effect parse tracePings selectedVehicleId now (lm_framed s) of (coordinates, framed, box) \<Rightarrow>
        (map_do (case box of Some b \<Rightarrow> [FitBounds b fit_options] | None \<Rightarrow> []) (set_data TRACE_SOURCE (trace_feature coordinates) s))
          \<lparr>lm_framed := framed\<rparr>))"

text \<open>
  A render with new properties: React keeps them and runs the effect that depends on them. When the
  map has loaded, \<open>ready\<close> is set and all three effects run on the properties of the last render.
\<close>

definition new_markers :: "VehicleState list \<Rightarrow> string option \<Rightarrow> LiveMapState \<Rightarrow> LiveMapState" where
  "new_markers vehicles selectedVehicleId s =
     markers_effect vehicles selectedVehicleId (if lm_map s then s\<lparr>lm_shown := (vehicles, selectedVehicleId)\<rparr> else s)"

definition new_zones :: "ZonePolygon list \<Rightarrow> LiveMapState \<Rightarrow> LiveMapState" where
  "new_zones zones s = zones_effect zones (if lm_map s then s\<lparr>lm_zones := zones\<rparr> else s)"

definition new_trace ::
    "(string \<Rightarrow> int option) \<Rightarrow> TracePing list \<Rightarrow> string option \<Rightarrow> jsnum \<Rightarrow> LiveMapState \<Rightarrow> LiveMapState" where
  "new_trace parse tracePings selectedVehicleId now s =
     traces_effect parse tracePings selectedVehicleId now
       (if lm_map s then s\<lparr>lm_trace := (tracePings, selectedVehicleId)\<rparr> else s)"

definition ready_effects :: "(string \<Rightarrow> int option) \<Rightarrow> jsnum \<Rightarrow> LiveMapState \<Rightarrow> LiveMapState" where
  "ready_effects parse now s =
     traces_effect parse (fst (lm_trace s)) (snd (lm_trace s)) now
       (zones_effect (lm_zones s) (markers_effect (fst (lm_shown s)) (snd (lm_shown s)) s))"

definition viewGlobe :: "LiveMapState \<Rightarrow> LiveMapState" where
  "viewGlobe s = (if lm_map s then map_do [FlyTo (camera 2.4 (- 16) [(''duration'', Num (Fin 2600)), (''essential'', Bool True)])] s else s)"

definition viewFleet :: "LiveMapState \<Rightarrow> LiveMapState" where
  "viewFleet s = (if lm_map s then map_do [FlyTo (camera 10.2 0 [(''duration'', Num (Fin 2600)), (''essential'', Bool True)])] s else s)"

section \<open>What is rendered\<close>

datatype MapAction = ChooseStatus string | ChooseZone string | SelectVehicle string | ViewGlobe | ViewFleet

definition MapPill :: "'a list \<Rightarrow> string \<Rightarrow> 'a node" where
  "MapPill onClick label =
     Elem ''button''
       [Attr ''type'' ''button'', OnEv ''onClick'' (\<lambda>e. onClick), Attr ''className'' ''glass'',
        Style [(''height'', Dim 32), (''padding'', Css ''0 var(--space-3)''), (''color'', Css ''var(--color-text)''),
          (''fontSize'', Css ''var(--font-size-xs)''), (''fontWeight'', Dim 600), (''cursor'', Css ''pointer'')]]
       [Text label]"

definition LiveMap_render :: "bool \<Rightarrow> MapAction node list" where
  "LiveMap_render failed =
     (if failed
      then [Elem ''div''
        [Attr ''className'' ''fcc-starfield'', Attr ''role'' ''img'', Attr ''aria-label'' ''Map unavailable'',
         Style [(''height'', Css ''100%''), (''display'', Css ''grid''), (''placeItems'', Css ''center''),
           (''color'', Css ''var(--color-text-muted)''), (''fontSize'', Css ''var(--font-size-sm)'')]]
        [Text ''Live map could not initialize in this environment.'']]
      else
        [Elem ''div'' [Attr ''className'' ''fcc-starfield'', Attr ''aria-hidden'' ''true'',
            Style [(''position'', Css ''absolute''), (''inset'', Dim 0)]] [],
         Elem ''div'' [Attr ''ref'' ''container'',
            Style [(''position'', Css ''absolute''), (''inset'', Dim 0), (''background'', Css ''transparent'')]] [],
         Elem ''div'' [Attr ''className'' ''fcc-globe-tint'', Attr ''aria-hidden'' ''true'',
            Style [(''position'', Css ''absolute''), (''inset'', Dim 0), (''pointerEvents'', Css ''none'')]] [],
         Elem ''div''
           [Style
             [(''position'', Css ''absolute''), (''bottom'', Css ''var(--space-4)''), (''left'', Css ''50%''),
              (''transform'', Css ''translateX(-50%)''), (''zIndex'', Dim 2), (''display'', Css ''flex''),
              (''alignItems'', Css ''center''), (''gap'', Css ''var(--space-2)'')]]
           [MapPill [ViewGlobe] (glyph_globe @ '' Globe''), MapPill [ViewFleet] (glyph_pin @ '' Fleet''),
            Elem ''span''
              [Style [(''fontSize'', Dim 10), (''color'', Css ''var(--color-text-muted)''), (''opacity'', Dim 0.7),
                 (''whiteSpace'', Css ''nowrap''), (''marginLeft'', Css ''var(--space-2)'')]]
              [Text (copyright_sign @ '' OSM '' @ middle_dot @ '' CARTO '' @ middle_dot @ '' NASA'')]]])"

definition DRIVER_STATUSES :: "string list" where
  "DRIVER_STATUSES = map driver_status_wire all_driver_statuses"

definition map_option_el :: "string \<Rightarrow> string \<Rightarrow> 'a node" where
  "map_option_el value label = Elem ''option'' [Key value, Attr ''value'' value] [Text label]"

definition filter_select :: "string \<Rightarrow> string option \<Rightarrow> (string \<Rightarrow> 'a list) \<Rightarrow> string \<Rightarrow> string \<Rightarrow> 'a node list \<Rightarrow> 'a node" where
  "filter_select caption value onChange aria all options =
     Elem ''label'' [Style [(''display'', Css ''grid''), (''gap'', Dim 4)]]
       [Elem ''span'' [Style [(''fontSize'', Css ''var(--font-size-xs)''), (''color'', Css ''var(--color-text-muted)'')]]
          [Text caption],
        Select False [(''width'', Dim 180), (''height'', Dim 34)]
          [Attr ''value'' (or_else value []), OnEv ''onChange'' onChange, Attr ''aria-label'' aria]
          (Elem ''option'' [Attr ''value'' []] [Text all] # options)]"

definition map_filters :: "MapViewState \<Rightarrow> ZonePolygon list \<Rightarrow> MapAction node" where
  "map_filters st zones =
     Elem ''div''
       [Attr ''className'' ''glass'',
        Style [(''position'', Css ''absolute''), (''top'', Css ''var(--space-4)''), (''left'', Css ''var(--space-4)''),
          (''zIndex'', Dim 2), (''display'', Css ''flex''), (''gap'', Css ''var(--space-2)''),
          (''padding'', Css ''var(--space-3)'')]]
       [filter_select ''Driver status'' (mv_driverStatus st) (\<lambda>v. [ChooseStatus v]) ''Filter by driver status''
          ''All statuses'' (map (\<lambda>s. map_option_el s (underscores_to_spaces s)) DRIVER_STATUSES),
        filter_select ''Zone'' (mv_zoneId st) (\<lambda>v. [ChooseZone v]) ''Filter by zone'' ''All zones''
          (map (\<lambda>z. map_option_el (zp_id z) (zp_name z)) zones)]"

definition status_legend :: "'a node" where
  "status_legend =
     Elem ''div''
       [Attr ''className'' ''glass'',
        Style [(''position'', Css ''absolute''), (''bottom'', Css ''var(--space-4)''), (''left'', Css ''var(--space-4)''),
          (''zIndex'', Dim 2), (''display'', Css ''flex''), (''flexWrap'', Css ''wrap''), (''gap'', Css ''var(--space-2)''),
          (''maxWidth'', Dim 360), (''padding'', Css ''var(--space-2) var(--space-3)'')]]
       (map (\<lambda>s. keyed s (Badge \<lparr>bp_tone = None, bp_driverStatus = Some s, bp_deliveryStatus = None, bp_subtle = False,
            bp_style = []\<rparr> [Text (underscores_to_spaces s)])) DRIVER_STATUSES)"

definition MapView_render :: "bool \<Rightarrow> MapViewState \<Rightarrow> ZonePolygon list \<Rightarrow> MapAction node" where
  "MapView_render failed st zones =
     Elem ''div'' [Style [(''position'', Css ''relative''), (''height'', Css ''100%''), (''width'', Css ''100%'')]]
       (LiveMap_render failed @ [map_filters st zones, status_legend])"

text \<open>
  One map view: the filters and the selection, and the map below. A marker's click selects its
  vehicle. After a change the map's effects run on what is shown, then the view's own effect, which
  may clear the selection; the map's effects that depend on it then run again.
\<close>

fun map_view_act :: "MapAction \<Rightarrow> MapViewState \<times> LiveMapState \<Rightarrow> MapViewState \<times> LiveMapState" where
  "map_view_act (ChooseStatus v) (s, m) = (choose_status v s, m)"
| "map_view_act (ChooseZone v) (s, m) = (choose_zone v s, m)"
| "map_view_act (SelectVehicle i) (s, m) = (select_vehicle i s, m)"
| "map_view_act ViewGlobe (s, m) = (s, viewGlobe m)"
| "map_view_act ViewFleet (s, m) = (s, viewFleet m)"

definition selection_effects ::
    "(string \<Rightarrow> int option) \<Rightarrow> jsnum \<Rightarrow> VehicleState list \<Rightarrow> (string, TracePing list) jsmap \<Rightarrow> MapViewState
     \<Rightarrow> LiveMapState \<Rightarrow> LiveMapState" where
  "selection_effects parse now vehicles tracesByVehicle s m =
     new_trace parse (view_trace tracesByVehicle s) (mv_selected s) now
       (new_markers (shown vehicles s) (mv_selected s) m)"

definition map_view_effects ::
    "(string \<Rightarrow> int option) \<Rightarrow> jsnum \<Rightarrow> VehicleState list \<Rightarrow> ZonePolygon list \<Rightarrow> (string, TracePing list) jsmap
     \<Rightarrow> MapViewState \<times> LiveMapState \<Rightarrow> MapViewState \<times> LiveMapState" where
  "map_view_effects parse now vehicles zones tracesByVehicle = (\<lambda>(s, m).
     let m1 = new_trace parse (view_trace tracesByVehicle s) (mv_selected s) now
            (new_zones zones (new_markers (shown vehicles s) (mv_selected s) m));
         s1 = clear_hidden_selection vehicles s
     in (s1, if s1 = s then m1 else selection_effects parse now vehicles tracesByVehicle s1 m1))"

section \<open>Runs of the map\<close>

text \<open>
  The events of a mounted map: the library announces loading once, while it has the map, and the
  effects run at some reading of the clock; the delayed flight fires once; frames, renders with new
  data, the two pills and the unmounting.
\<close>

datatype MapEvent =
    MapLoads "string \<Rightarrow> string" jsnum
  | FlightDue
  | FrameDue
  | NewMarkers "VehicleState list" "string option"
  | NewZones "ZonePolygon list"
  | NewTraces "TracePing list" "string option" jsnum
  | GlobePill
  | FleetPill
  | Unmounts

fun map_event :: "(string \<Rightarrow> int option) \<Rightarrow> MapEvent \<Rightarrow> LiveMapState \<Rightarrow> LiveMapState" where
  "map_event parse (MapLoads computed now) s =
     (if lm_map s \<and> \<not> lm_ready s then ready_effects parse now (on_load computed s) else s)"
| "map_event parse FlightDue s = (if lm_flight s then flight_fires s else s)"
| "map_event parse FrameDue s = frame s"
| "map_event parse (NewMarkers vs sel) s = new_markers vs sel s"
| "map_event parse (NewZones zones) s = new_zones zones s"
| "map_event parse (NewTraces pings sel now) s = new_trace parse pings sel now s"
| "map_event parse GlobePill s = viewGlobe s"
| "map_event parse FleetPill s = viewFleet s"
| "map_event parse Unmounts s = live_map_unmount s"

definition map_events :: "(string \<Rightarrow> int option) \<Rightarrow> MapEvent list \<Rightarrow> LiveMapState \<Rightarrow> LiveMapState" where
  "map_events parse evs s = fold (map_event parse) evs s"

text \<open>The sources a sequence of commands leaves, if data is only ever set on sources added before.\<close>

fun feed :: "string set option \<Rightarrow> MapCommand \<Rightarrow> string set option" where
  "feed S (AddSource i d) = map_option (insert i) S"
| "feed S (SetData i d) = Option.bind S (\<lambda>A. if i \<in> A then Some A else None)"
| "feed S c = S"

definition feeds :: "MapCommand list \<Rightarrow> string set option" where
  "feeds cs = foldl feed (Some {}) cs"

lemma feeds_append [simp]: "feeds (cs @ ds) = foldl feed (feeds cs) ds"
  by (simp add: feeds_def)

lemma feeds_Nil [simp]: "feeds [] = Some {}"
  by (simp add: feeds_def)

lemma feed_layers [simp]: "foldl feed S (map AddLayer ls) = S"
  by (induction ls) simp_all


definition map_sound :: "LiveMapState \<Rightarrow> bool" where
  "map_sound s \<longleftrightarrow> feeds (lm_log s) = Some {i. map_get (lm_sources s) i \<noteq> None}
     \<and> (lm_ready s \<longrightarrow> map_get (lm_sources s) ZONE_SOURCE \<noteq> None \<and> map_get (lm_sources s) TRACE_SOURCE \<noteq> None)
     \<and> (lm_entries s \<noteq> [] \<longrightarrow> lm_map s \<and> lm_ready s)"




lemma map_sound_given [simp]:
  "map_sound (s\<lparr>lm_shown := a\<rparr>) = map_sound s" "map_sound (s\<lparr>lm_zones := b\<rparr>) = map_sound s"
  "map_sound (s\<lparr>lm_trace := c\<rparr>) = map_sound s"
  by (simp_all add: map_sound_def)












text \<open>What each effect leaves alone.\<close>

lemma effects_keep:
  "lm_map (markers_effect vs sel s) = lm_map s" "lm_map (zones_effect zones s) = lm_map s"
  "lm_map (traces_effect parse pings sel now s) = lm_map s"
  "lm_ready (markers_effect vs sel s) = lm_ready s" "lm_ready (zones_effect zones s) = lm_ready s"
  "lm_ready (traces_effect parse pings sel now s) = lm_ready s"
  "lm_flight (markers_effect vs sel s) = lm_flight s" "lm_flight (zones_effect zones s) = lm_flight s"
  "lm_flight (traces_effect parse pings sel now s) = lm_flight s"
  "lm_shown (markers_effect vs sel s) = lm_shown s" "lm_shown (zones_effect zones s) = lm_shown s"
  "lm_shown (traces_effect parse pings sel now s) = lm_shown s"
  "lm_zones (markers_effect vs sel s) = lm_zones s" "lm_zones (zones_effect zones s) = lm_zones s"
  "lm_zones (traces_effect parse pings sel now s) = lm_zones s"
  "lm_trace (markers_effect vs sel s) = lm_trace s" "lm_trace (zones_effect zones s) = lm_trace s"
  "lm_trace (traces_effect parse pings sel now s) = lm_trace s"
  "lm_entries (zones_effect zones s) = lm_entries s" "lm_entries (traces_effect parse pings sel now s) = lm_entries s"
  "lm_sources (markers_effect vs sel s) = lm_sources s"
  "map_get (lm_sources (zones_effect zones s)) TRACE_SOURCE = map_get (lm_sources s) TRACE_SOURCE"
  "map_get (lm_sources (traces_effect parse pings sel now s)) ZONE_SOURCE = map_get (lm_sources s) ZONE_SOURCE"
  by (simp_all add: markers_effect_def zones_effect_def traces_effect_def set_data_def map_do_def set_source_def
      ZONE_SOURCE_def TRACE_SOURCE_def split: prod.split)

lemma delayed_flight_outlives_map:
  "lm_log (map_events parse [MapLoads css now, Unmounts, FlightDue] (live_map_mount True u d live_map_new))
    = lm_log (map_event parse (MapLoads css now) (live_map_mount True u d live_map_new)) @ [DestroySpin, RemoveMap,
        FlyTo (camera 10.2 0 [(''duration'', Num (Fin 5200)), (''curve'', Num (Fin 1.7)), (''essential'', Bool True)])]"
proof -
  let ?start = "live_map_mount True u d live_map_new"
  let ?loaded = "ready_effects parse now (on_load css ?start)"
  have start: "lm_map ?start" "\<not> lm_ready ?start" by (simp_all add: live_map_mount_def live_map_new_def)
  have "lm_map ?loaded" "lm_flight ?loaded"
    using start by (simp_all add: ready_effects_def effects_keep) (simp_all add: on_load_def Let_def map_do_def set_source_def)
  then show ?thesis using start by (simp add: map_events_def live_map_unmount_def flight_fires_def map_do_def)
qed

section \<open>What was given last\<close>
















section \<open>Property\<close>


end
