(* ===== verification/Console_Access.thy ===== *)
theory Console_Access
  imports Rbac
begin

text \<open>
  Access control and routing of the dashboard (\<open>auth/rbac.ts\<close>, \<open>shell/routing.tsx\<close>, the routing
  part of \<open>shell/AppShell.tsx\<close>). The roles are those of the server. The browser is the location's
  hash, whose change is announced by an event; an effect runs after a render in which its
  dependency, the resolved route, changed.
\<close>

section \<open>Model: the permission matrix\<close>

datatype RouteId = PMap | PDeliveries | PDrivers | PVehicles | PZones | PReports

fun route_wire :: "RouteId \<Rightarrow> string" where
  "route_wire PMap = ''map''"
| "route_wire PDeliveries = ''deliveries''"
| "route_wire PDrivers = ''drivers''"
| "route_wire PVehicles = ''vehicles''"
| "route_wire PZones = ''zones''"
| "route_wire PReports = ''reports''"

definition ROUTE_PERMISSIONS :: "(RouteId, Role list) jsmap" where
  "ROUTE_PERMISSIONS =
    [(PMap, [Administrator, Dispatcher]),
     (PDeliveries, [Administrator, Dispatcher]),
     (PDrivers, [Administrator]),
     (PVehicles, [Administrator]),
     (PZones, [Administrator]),
     (PReports, [Administrator, Dispatcher])]"

definition canAccess :: "Role \<Rightarrow> RouteId \<Rightarrow> bool" where
  "canAccess role route \<longleftrightarrow> role \<in> set (or_else (map_get ROUTE_PERMISSIONS route) [])"

definition routesForRole :: "Role \<Rightarrow> RouteId list" where
  "routesForRole role = filter (canAccess role) (map_keys ROUTE_PERMISSIONS)"

definition defaultRouteForRole :: "Role \<Rightarrow> RouteId option" where
  "defaultRouteForRole role = (case routesForRole role of [] \<Rightarrow> None | r # _ \<Rightarrow> Some r)"

section \<open>Model: routing\<close>

definition ALL_ROUTES :: "RouteId list" where
  "ALL_ROUTES = [PMap, PDeliveries, PDrivers, PVehicles, PZones, PReports]"

text \<open>\<open>replace(/^#\/?/, '')\<close>, then the part before the first question mark.\<close>

definition strip_hash :: "string \<Rightarrow> string" where
  "strip_hash h = (case h of
      c # cs \<Rightarrow> if c = CHR ''#'' then (case cs of d # ds \<Rightarrow> if d = CHR ''/'' then ds else cs | [] \<Rightarrow> []) else h
    | [] \<Rightarrow> [])"

definition parseHash :: "string \<Rightarrow> RouteId option" where
  "parseHash h = (let raw = hd (js_split (CHR ''?'') (strip_hash h))
     in List.find (\<lambda>r. route_wire r = raw) ALL_ROUTES)"

definition resolveRoute :: "RouteId option \<Rightarrow> Role \<Rightarrow> RouteId option" where
  "resolveRoute requested role = (case requested of
      Some r \<Rightarrow> if canAccess role r then Some r else defaultRouteForRole role
    | None \<Rightarrow> defaultRouteForRole role)"

text \<open>
  The hook's state: the location's hash, the requested route, and the dependency with which the
  effect ran last.
\<close>

record Router =
  ro_hash :: string
  ro_requested :: "RouteId option"
  ro_synced :: "RouteId option option"

definition router_new :: "string \<Rightarrow> Router" where
  "router_new h = \<lparr>ro_hash = h, ro_requested = parseHash h, ro_synced = None\<rparr>"

definition hash_for :: "RouteId \<Rightarrow> string" where
  "hash_for r = ''#/'' @ route_wire r"

definition router_route :: "Role \<Rightarrow> Router \<Rightarrow> RouteId option" where
  "router_route role s = resolveRoute (ro_requested s) role"

definition sync_effect :: "Role \<Rightarrow> Router \<Rightarrow> Router" where
  "sync_effect role s =
     (let route = router_route role s
      in if ro_synced s = Some route then s
         else (let s' = s\<lparr>ro_synced := Some route\<rparr>
           in case route of
               Some r \<Rightarrow> if parseHash (ro_hash s') \<noteq> Some r then s'\<lparr>ro_hash := hash_for r\<rparr> else s'
             | None \<Rightarrow> s'))"

definition onHash :: "Router \<Rightarrow> Router" where
  "onHash s = s\<lparr>ro_requested := parseHash (ro_hash s)\<rparr>"

definition navigate :: "Role \<Rightarrow> RouteId \<Rightarrow> Router \<Rightarrow> Router" where
  "navigate role r s = (if canAccess role r then s\<lparr>ro_hash := hash_for r\<rparr> else s)"

text \<open>What the shell renders for a route.\<close>

datatype View = MapWithFeed | DeliveriesView | DriversView | VehiclesView | ZonesView | ReportsView | MapOnly

fun renderRoute :: "RouteId option \<Rightarrow> View" where
  "renderRoute (Some PMap) = MapWithFeed"
| "renderRoute (Some PDeliveries) = DeliveriesView"
| "renderRoute (Some PDrivers) = DriversView"
| "renderRoute (Some PVehicles) = VehiclesView"
| "renderRoute (Some PZones) = ZonesView"
| "renderRoute (Some PReports) = ReportsView"
| "renderRoute None = MapOnly"

section \<open>Steps\<close>

text \<open>
  A browser and a user: the address bar is edited, a link navigates, the change of the hash is
  announced, the effect runs.
\<close>

datatype router_action = TypeHash string | Navigate RouteId | HashChange | Effect

fun router_step :: "Role \<Rightarrow> router_action \<Rightarrow> Router \<Rightarrow> Router" where
  "router_step role (TypeHash h) s = s\<lparr>ro_hash := h\<rparr>"
| "router_step role (Navigate r) s = navigate role r s"
| "router_step role HashChange s = onHash s"
| "router_step role Effect s = sync_effect role s"

definition router_run :: "Role \<Rightarrow> router_action list \<Rightarrow> Router \<Rightarrow> Router" where
  "router_run role as s = fold (router_step role) as s"

section \<open>Facts\<close>

lemma canAccess_iff:
  "canAccess role r \<longleftrightarrow> role = Administrator \<or> role = Dispatcher \<and> r \<in> {PMap, PDeliveries, PReports}"
  by (cases role; cases r) (simp_all add: canAccess_def ROUTE_PERMISSIONS_def)

lemma routesForRole_eq:
  "routesForRole role = (case role of Administrator \<Rightarrow> ALL_ROUTES
     | Dispatcher \<Rightarrow> [PMap, PDeliveries, PReports] | _ \<Rightarrow> [])"
  by (cases role) (simp_all add: routesForRole_def ROUTE_PERMISSIONS_def ALL_ROUTES_def canAccess_iff)

lemma defaultRoute_eq:
  "defaultRouteForRole role = (if role = Administrator \<or> role = Dispatcher then Some PMap else None)"
  by (cases role) (simp_all add: defaultRouteForRole_def routesForRole_eq ALL_ROUTES_def)

lemma route_wire_inj: "route_wire a = route_wire b \<longleftrightarrow> a = b"
  by (cases a; cases b) simp_all

lemma parse_hash_for [simp]: "parseHash (hash_for r) = Some r"
  by (cases r) (simp_all add: parseHash_def hash_for_def strip_hash_def ALL_ROUTES_def)

lemma resolveRoute_allowed: "resolveRoute q role = Some r \<Longrightarrow> canAccess role r"
  by (auto simp: resolveRoute_def defaultRoute_eq canAccess_iff split: option.splits if_splits)

lemma resolveRoute_idem: "resolveRoute (resolveRoute q role) role = resolveRoute q role"
  using resolveRoute_allowed [of q role]
  by (cases "resolveRoute q role") (auto simp: resolveRoute_def split: option.splits if_splits)

text \<open>Whatever the effect wrote last names the route it was written for.\<close>

definition settled :: "Role \<Rightarrow> Router \<Rightarrow> bool" where
  "settled role s \<longleftrightarrow> (case router_route role s of
      Some r \<Rightarrow> parseHash (ro_hash s) = Some r \<and> ro_requested s = Some r | None \<Rightarrow> True)"

lemma sync_effect_fields [simp]:
  "ro_requested (sync_effect role s) = ro_requested s" "ro_synced (sync_effect role s) = Some (router_route role s)"
  by (auto simp: sync_effect_def Let_def split: option.split)

lemma sync_effect_writes:
  "ro_synced s \<noteq> Some (Some r) \<Longrightarrow> router_route role s = Some r \<Longrightarrow> parseHash (ro_hash (sync_effect role s)) = Some r"
  by (auto simp: sync_effect_def Let_def)

section \<open>Properties\<close>

text \<open>
  Routing respects the matrix and loads settle. For every initial hash and every sequence of
  edits, links, announcements and effects, the resolved route is one the role may access, and a
  role that may access any is shown one; and a fresh load settles in one round: after the effect
  and the announcement of its change, the address names the route that is shown.
\<close>

theorem routing_authorized:
  "(case router_route role (router_run role as (router_new h)) of
      Some r \<Rightarrow> canAccess role r | None \<Rightarrow> routesForRole role = [])
   \<and> settled role (onHash (sync_effect role (router_new h)))"
proof
  show "case router_route role (router_run role as (router_new h)) of
      Some r \<Rightarrow> canAccess role r | None \<Rightarrow> routesForRole role = []"
    unfolding router_route_def
    by (auto simp: resolveRoute_def defaultRoute_eq routesForRole_eq canAccess_iff
        split: option.split if_splits Role.split)
  show "settled role (onHash (sync_effect role (router_new h)))"
  proof (cases "router_route role (router_new h)")
    case None
    then have "role \<noteq> Administrator" "role \<noteq> Dispatcher"
      by (auto simp: router_route_def resolveRoute_def defaultRoute_eq split: option.splits if_splits)
    then show ?thesis
      by (auto simp: settled_def router_route_def resolveRoute_def defaultRoute_eq canAccess_iff split: option.split)
  next
    case (Some r)
    have "parseHash (ro_hash (sync_effect role (router_new h))) = Some r"
      using Some by (intro sync_effect_writes) (simp_all add: router_new_def)
    moreover have "canAccess role r" using Some resolveRoute_allowed by (simp add: router_route_def)
    ultimately show ?thesis by (simp add: settled_def router_route_def onHash_def resolveRoute_def)
  qed
qed

section \<open>Findings\<close>

text \<open>
  Drivers and customers have no page, and their route is none; the shell then renders the map of the
  whole fleet, which the matrix does not grant them.
\<close>

lemma unauthorized_roles_see_map:
  "\<not> canAccess CustomerRole PMap \<and> \<not> canAccess DriverRole PMap
   \<and> renderRoute (router_route CustomerRole (router_new h)) = MapOnly
   \<and> renderRoute (router_route DriverRole (router_new h)) = MapOnly"
  by (auto simp: canAccess_iff router_route_def resolveRoute_def defaultRoute_eq split: option.split)

text \<open>
  The effect is meant to keep the address in sync after a redirect. It runs when the resolved route
  changes: a dispatcher on the map who edits the address to a forbidden page stays on the map, and
  the address keeps naming the forbidden page.
\<close>

lemma redirect_not_synced:
  "let s = router_run Dispatcher [Effect, TypeHash ''#/drivers'', HashChange, Effect] (router_new ''#/map'')
   in router_route Dispatcher s = Some PMap \<and> ro_hash s = ''#/drivers''"
  by (simp add: router_run_def router_new_def onHash_def sync_effect_def router_route_def resolveRoute_def
      canAccess_iff defaultRoute_eq parseHash_def strip_hash_def ALL_ROUTES_def Let_def)

end
