(* ===== verification/Landing_Page.thy ===== *)
theory Landing_Page
  imports React_View
begin

text \<open>
  The landing page (\<open>landing/LandingPage.tsx\<close>): its contents and its tree. Its only behaviour is the
  three buttons that enter the console and the links that leave for the repository.
\<close>

record Feature =
  fe_title :: string
  fe_body :: string
  fe_icon :: string

definition FEATURES :: "Feature list" where
  "FEATURES =
    [\<lparr>fe_title = ''Live fleet tracking'',
      fe_body = ''Vehicles stream onto a real map as status-coloured, heading-aware markers with a rolling ''
        @ ''60-minute path trace.'', fe_icon = glyph_pin\<rparr>,
     \<lparr>fe_title = ''Geo-fencing'',
      fe_body = ''Server-side zone containment fires Enter/Exit events the moment a driver reaches a warehouse ''
        @ ''or delivery area.'', fe_icon = glyph_hexagon\<rparr>,
     \<lparr>fe_title = ''Route optimization'',
      fe_body = ''An OR-Tools microservice solves multi-stop routes, clusters co-located drops, and falls back ''
        @ ''gracefully.'', fe_icon = glyph_bolt\<rparr>,
     \<lparr>fe_title = ''Real-time streaming'',
      fe_body = ''Room-keyed WebSocket fan-out with auto-reconnect keeps every dispatcher, driver, and customer ''
        @ ''in sync.'', fe_icon = glyph_arrows\<rparr>]"

definition STACK :: "string list" where
  "STACK = [''Go'', ''Node '' @ middle_dot @ '' NestJS'', ''Python '' @ middle_dot @ '' OR-Tools'',
     ''React '' @ middle_dot @ '' TypeScript'', ''Flutter'', ''PostGIS'', ''Redis'', ''MapLibre'']"

definition primaryBtn :: style where
  "primaryBtn =
    [(''padding'', Css ''10px 18px''), (''borderRadius'', Css ''var(--radius-control)''),
      (''background'', Css ''var(--color-primary)''), (''color'', Css ''var(--color-bg)''),
      (''border'', Css ''none''), (''fontWeight'', Dim 600), (''fontSize'', Css ''var(--font-size-sm)''),
      (''cursor'', Css ''pointer'')]"

definition outlineBtn :: style where
  "outlineBtn =
    [(''padding'', Css ''10px 18px''), (''borderRadius'', Css ''var(--radius-control)''),
      (''background'', Css ''color-mix(in srgb, var(--color-surface) 60%, transparent)''),
      (''color'', Css ''var(--color-text)''), (''border'', Css ''1px solid var(--color-border)''),
      (''fontWeight'', Dim 600), (''fontSize'', Css ''var(--font-size-sm)''), (''cursor'', Css ''pointer''),
      (''textDecoration'', Css ''none''), (''backdropFilter'', Css ''blur(4px)'')]"

definition ghostLink :: style where
  "ghostLink =
    [(''color'', Css ''var(--color-text)''), (''textDecoration'', Css ''none''),
      (''fontSize'', Css ''var(--font-size-sm)''), (''fontWeight'', Dim 500)]"

definition Logo :: "real option \<Rightarrow> 'a node" where
  "Logo logoSize =
    (let s = or_else logoSize 34
     in Elem ''span''
      [Attr ''aria-hidden'' ''true'',
        Style [(''width'', Dim s), (''height'', Dim s), (''display'', Css ''grid''), (''placeItems'', Css ''center''),
          (''borderRadius'', Css ''var(--radius-control)''), (''background'', Css ''var(--color-primary)''),
          (''color'', Css ''var(--color-bg)''), (''fontWeight'', Dim 800), (''fontSize'', Dim (s * 0.55))]]
      [Text ''F''])"

definition landing_nav :: "'a list \<Rightarrow> string \<Rightarrow> 'a node" where
  "landing_nav onEnter githubUrl =
    Elem ''nav''
      [Style [(''position'', Css ''relative''), (''zIndex'', Dim 1), (''display'', Css ''flex''),
        (''alignItems'', Css ''center''), (''justifyContent'', Css ''space-between''),
        (''padding'', Css ''var(--space-4) clamp(20px, 6vw, 80px)''),
        (''background'', Css ''var(--glass-bg)''), (''backdropFilter'', Css ''var(--glass-blur)''),
        (''WebkitBackdropFilter'', Css ''var(--glass-blur)''),
        (''borderBottom'', Css ''1px solid var(--glass-border)'')]]
      [Elem ''div''
        [Style [(''display'', Css ''flex''), (''alignItems'', Css ''center''), (''gap'', Dim 12)]]
        [Logo None,
        Elem ''span''
          [Style [(''fontWeight'', Dim 700), (''fontSize'', Css ''var(--font-size-lg)''),
            (''letterSpacing'', Dim 0.2)]]
          [Text ''Fleet Command Center'']],
      Elem ''div''
        [Style [(''display'', Css ''flex''), (''alignItems'', Css ''center''),
          (''gap'', Css ''var(--space-3)'')]]
        [Elem ''a''
          [Attr ''href'' githubUrl,
           Attr ''target'' ''_blank'',
           Attr ''rel'' ''noreferrer'',
           Style ghostLink]
          [Text ''GitHub''],
        Elem ''button''
          [Attr ''type'' ''button'',
           OnEv ''onClick'' (\<lambda>e. onEnter),
           Style primaryBtn]
          [Text ''Launch dashboard'']]]"

definition landing_copy :: "'a list \<Rightarrow> string \<Rightarrow> 'a node" where
  "landing_copy onEnter githubUrl =
    Elem ''div''
      [Style [(''position'', Css ''relative''), (''zIndex'', Dim 1), (''flex'', Dim 1),
        (''display'', Css ''flex''), (''flexDirection'', Css ''column''),
        (''justifyContent'', Css ''center''), (''padding'', Css ''0 clamp(20px, 6vw, 80px)''),
        (''maxWidth'', Dim 920)]]
      [Elem ''span''
        [Style [(''display'', Css ''inline-flex''), (''alignItems'', Css ''center''), (''gap'', Dim 8),
          (''alignSelf'', Css ''flex-start''), (''padding'', Css ''6px 14px''),
          (''borderRadius'', Css ''var(--radius-pill)''),
          (''background'', Css ''color-mix(in srgb, var(--color-accent) 18%, transparent)''),
          (''border'', Css ''1px solid color-mix(in srgb, var(--color-accent) 40%, transparent)''),
          (''color'', Css ''var(--color-accent)''), (''fontSize'', Css ''var(--font-size-xs)''),
          (''fontWeight'', Dim 600), (''letterSpacing'', Dim 0.4)]]
        [Text (glyph_diamond @ '' Real-time logistics platform'')],
      Elem ''h1''
        [Style [(''fontSize'', Css ''clamp(2.4rem, 5.5vw, 4.2rem)''), (''lineHeight'', Dim 1.05),
          (''fontWeight'', Dim 700), (''margin'', Css ''var(--space-4) 0 var(--space-3)''),
          (''letterSpacing'', Dim (- 1))]]
        [Text ''Command your fleet'',
        Elem ''br''
          []
          [],
        Text ''in real time.''],
      Elem ''p''
        [Style [(''fontSize'', Css ''clamp(1rem, 1.6vw, 1.25rem)''),
          (''color'', Css ''var(--color-text-muted)''), (''maxWidth'', Dim 640), (''lineHeight'', Dim 1.6),
          (''margin'', Dim 0)]]
        [Text (''Track vehicles live, trigger zone events with geo-fencing, optimize multi-stop routes, '' @
          ''and keep drivers and customers in sync '' @ em_dash @ '' on a map that actually moves.'')],
      Elem ''div''
        [Style [(''display'', Css ''flex''), (''gap'', Css ''var(--space-3)''),
          (''marginTop'', Css ''var(--space-5)''), (''flexWrap'', Css ''wrap'')]]
        [Elem ''button''
          [Attr ''type'' ''button'',
           OnEv ''onClick'' (\<lambda>e. onEnter),
           Style (spread_styles [primaryBtn, [(''padding'', Css ''14px 28px''),
             (''fontSize'', Css ''var(--font-size-base)'')]])]
          [Text (''Launch live demo '' @ right_arrow)],
        Elem ''a''
          [Attr ''href'' githubUrl,
           Attr ''target'' ''_blank'',
           Attr ''rel'' ''noreferrer'',
           Style (spread_styles [outlineBtn, [(''padding'', Css ''14px 28px''),
             (''fontSize'', Css ''var(--font-size-base)'')]])]
          [Text ''View source'']],
      Elem ''div''
        [Style [(''display'', Css ''flex''), (''alignItems'', Css ''center''), (''gap'', Dim 8),
          (''marginTop'', Css ''var(--space-4)''), (''color'', Css ''var(--color-text-muted)''),
          (''fontSize'', Css ''var(--font-size-sm)'')]]
        [Elem ''span''
          [Style [(''width'', Dim 8), (''height'', Dim 8), (''borderRadius'', Css ''50%''),
            (''background'', Css ''var(--color-success)''),
            (''boxShadow'', Css ''0 0 0 3px color-mix(in srgb, var(--color-success) 25%, transparent)'')]]
          [],
        Text (''Demo runs on an in-browser fleet simulation '' @ em_dash @ '' no backend required.'')]]"

definition landing_hero :: "'a list \<Rightarrow> string \<Rightarrow> string option \<Rightarrow> 'a node" where
  "landing_hero onEnter githubUrl heroSrc =
    Elem ''section''
      [Style [(''position'', Css ''relative''), (''minHeight'', Css ''100vh''), (''display'', Css ''flex''),
        (''flexDirection'', Css ''column''), (''overflow'', Css ''hidden'')]]
      [Elem ''img''
        [Attr ''src'' (or_else heroSrc ''/hero.png''),
         Attr ''alt'' [],
         Attr ''aria-hidden'' ''true'',
         Style [(''position'', Css ''absolute''), (''inset'', Dim 0), (''width'', Css ''100%''),
           (''height'', Css ''100%''), (''objectFit'', Css ''cover'')]]
        [],
      Elem ''div''
        [Attr ''aria-hidden'' ''true'',
         Style [(''position'', Css ''absolute''), (''inset'', Dim 0),
           (''background'', Css (''linear-gradient(90deg, '' @
           ''rgba(7,10,22,0.94) 0%, rgba(7,10,22,0.7) 40%, rgba(7,10,22,0.25) 70%, rgba(7,10,22,0.55) 100%), '' @ ''linear-gradient(180deg, rgba(7,10,22,0.3) 0%, rgba(7,10,22,0) 35%, rgba(7,10,22,0) 60%, rgba(7,10,22,0.98) 100%)''))]]
        [],
      landing_nav onEnter githubUrl,
      landing_copy onEnter githubUrl]"

definition feature_card :: "Feature \<Rightarrow> 'a node" where
  "feature_card f =
    Elem ''div''
     [Key (fe_title f),
      Style [(''padding'', Css ''var(--space-5)''), (''background'', Css ''var(--glass-bg)''),
        (''backdropFilter'', Css ''var(--glass-blur)''),
        (''WebkitBackdropFilter'', Css ''var(--glass-blur)''),
        (''border'', Css ''1px solid var(--glass-border)''), (''borderRadius'', Css ''var(--radius-card)''),
        (''boxShadow'', Css ''var(--glass-shadow)'')]]
     [Elem ''div''
       [Style [(''width'', Dim 44), (''height'', Dim 44), (''display'', Css ''grid''),
         (''placeItems'', Css ''center''), (''borderRadius'', Css ''var(--radius-control)''),
         (''background'', Css ''color-mix(in srgb, var(--color-primary) 16%, transparent)''),
         (''fontSize'', Dim 22), (''marginBottom'', Css ''var(--space-3)'')]]
       [Text (fe_icon f)],
     Elem ''h3''
       [Style [(''fontSize'', Css ''var(--font-size-lg)''), (''fontWeight'', Dim 600),
         (''margin'', Css ''0 0 6px'')]]
       [Text (fe_title f)],
     Elem ''p''
       [Style [(''color'', Css ''var(--color-text-muted)''), (''fontSize'', Css ''var(--font-size-sm)''),
         (''lineHeight'', Dim 1.6), (''margin'', Dim 0)]]
       [Text (fe_body f)]]"

definition landing_features :: "'a node" where
  "landing_features =
    Elem ''section''
      [Style [(''padding'', Css ''clamp(48px, 8vw, 96px) clamp(20px, 6vw, 80px)'')]]
      [Elem ''h2''
        [Style [(''fontSize'', Css ''clamp(1.6rem, 3vw, 2.2rem)''), (''fontWeight'', Dim 700),
          (''margin'', Css ''0 0 var(--space-2)'')]]
        [Text ''Everything dispatch needs''],
      Elem ''p''
        [Style [(''color'', Css ''var(--color-text-muted)''), (''maxWidth'', Dim 620),
          (''margin'', Css ''0 0 var(--space-6)''), (''lineHeight'', Dim 1.6)]]
        [Text (''A single operations console over a high-throughput backend built '' @
          ''for thousands of location pings per second.'')],
      Elem ''div''
        [Style [(''display'', Css ''grid''),
          (''gridTemplateColumns'', Css ''repeat(auto-fit, minmax(240px, 1fr))''),
          (''gap'', Css ''var(--space-4)'')]]
      (map feature_card FEATURES)]"

definition stack_chip :: "string \<Rightarrow> 'a node" where
  "stack_chip s =
    Elem ''span''
     [Key s,
      Style [(''padding'', Css ''6px 14px''), (''borderRadius'', Css ''var(--radius-pill)''),
        (''background'', Css ''var(--color-surface-alt)''),
        (''border'', Css ''1px solid var(--color-border)''), (''fontSize'', Css ''var(--font-size-sm)''),
        (''fontWeight'', Dim 500)]]
     [Text s]"

definition landing_stack :: "'a node" where
  "landing_stack =
    Elem ''section''
      [Style [(''padding'', Css ''0 clamp(20px, 6vw, 80px) clamp(48px, 8vw, 96px)'')]]
      [Elem ''div''
        [Style [(''padding'', Css ''var(--space-5)''), (''background'', Css ''var(--glass-bg)''),
          (''backdropFilter'', Css ''var(--glass-blur)''),
          (''WebkitBackdropFilter'', Css ''var(--glass-blur)''),
          (''border'', Css ''1px solid var(--glass-border)''),
          (''borderRadius'', Css ''var(--radius-card)''), (''boxShadow'', Css ''var(--glass-shadow)''),
          (''display'', Css ''flex''), (''flexWrap'', Css ''wrap''), (''gap'', Css ''var(--space-3)''),
          (''alignItems'', Css ''center''), (''justifyContent'', Css ''center'')]]
        ([Elem ''span''
          [Style [(''color'', Css ''var(--color-text-muted)''), (''fontSize'', Css ''var(--font-size-sm)''),
            (''marginRight'', Dim 8)]]
          [Text ''Built with'']] @
      map stack_chip STACK)]"

definition landing_footer :: "'a list \<Rightarrow> string \<Rightarrow> 'a node" where
  "landing_footer onEnter githubUrl =
    Elem ''footer''
      [Style [(''borderTop'', Css ''1px solid var(--color-border)''),
        (''padding'', Css ''var(--space-5) clamp(20px, 6vw, 80px)''), (''display'', Css ''flex''),
        (''justifyContent'', Css ''space-between''), (''alignItems'', Css ''center''),
        (''flexWrap'', Css ''wrap''), (''gap'', Css ''var(--space-3)''),
        (''color'', Css ''var(--color-text-muted)''), (''fontSize'', Css ''var(--font-size-sm)'')]]
      [Elem ''div''
        [Style [(''display'', Css ''flex''), (''alignItems'', Css ''center''), (''gap'', Dim 10)]]
        [Logo (Some 24),
        Elem ''span''
          []
          [Text ''Fleet Command Center'']],
      Elem ''div''
        [Style [(''display'', Css ''flex''), (''gap'', Css ''var(--space-4)'')]]
        [Elem ''a''
          [Attr ''href'' githubUrl,
           Attr ''target'' ''_blank'',
           Attr ''rel'' ''noreferrer'',
           Style ghostLink]
          [Text ''GitHub''],
        Elem ''button''
          [Attr ''type'' ''button'',
           OnEv ''onClick'' (\<lambda>e. onEnter),
           Style (spread_styles [ghostLink, [(''background'', Css ''none''), (''border'', Css ''none''),
             (''cursor'', Css ''pointer'')]])]
          [Text ''Open dashboard'']]]"

definition LandingPage :: "'a list \<Rightarrow> string option \<Rightarrow> string option \<Rightarrow> 'a node" where
  "LandingPage onEnter githubUrl heroSrc =
    (let url = or_else githubUrl ''https://github.com/shahriar-ahmed-seam/Fleet-Command-Center''
     in Elem ''div''
      [Style [(''background'', Css ''var(--color-bg)''), (''color'', Css ''var(--color-text)''), (''minHeight'', Css ''100vh'')]]
      [landing_hero onEnter url heroSrc, landing_features, landing_stack, landing_footer onEnter url])"

text \<open>Every button of the page enters the console; every link leads to the repository,
  in a new tab.\<close>

lemma landing_hero_elems:
  "map click (elems ''button'' (landing_hero onEnter url hero)) = [onEnter, onEnter]"
  "map (\<lambda>e. (attr_of ''href'' (attrs_of e),
    attr_of ''target'' (attrs_of e))) (elems ''a'' (landing_hero onEnter url hero))
    = [(Some url, Some ''_blank''), (Some url, Some ''_blank'')]"
  by (simp_all add: landing_hero_def landing_nav_def landing_copy_def Logo_def Let_def fire_def)

lemma landing_static_elems [simp]:
  "elems ''button'' landing_features = []" "elems ''a'' landing_features = []"
  "elems ''button'' landing_stack = []" "elems ''a'' landing_stack = []"
  by (simp_all add: landing_features_def landing_stack_def feature_card_def stack_chip_def elems_in_rows)

lemma landing_enters: "map click (elems ''button'' (LandingPage onEnter url hero)) = [onEnter, onEnter, onEnter]"
  using landing_hero_elems(1) [of onEnter "or_else url ''https://github.com/shahriar-ahmed-seam/Fleet-Command-Center''" hero]
  by (simp add: LandingPage_def Let_def landing_footer_def Logo_def fire_def)

end
