(* ===== verification/Shell_Views.thy ===== *)
theory Shell_Views
  imports Console_Views Map_View Console_Access Landing_Page
begin

text \<open>
  The composed console (\<open>shell/TopNav.tsx\<close>, \<open>shell/LeftRail.tsx\<close>, \<open>shell/AppShell.tsx\<close>,
  \<open>realtime/useConnection.ts\<close>, \<open>main.tsx\<close>): the navigation bars, the page of a route with its own
  state, which is made anew whenever another page takes its place, and the root that shows either
  the landing page or the console.
\<close>

section \<open>Navigation bars\<close>

fun ROUTE_LABEL :: "RouteId \<Rightarrow> string" where
  "ROUTE_LABEL PMap = ''Worldwide''"
| "ROUTE_LABEL PDeliveries = ''Deliveries''"
| "ROUTE_LABEL PDrivers = ''Drivers''"
| "ROUTE_LABEL PVehicles = ''Vehicles''"
| "ROUTE_LABEL PZones = ''Zones''"
| "ROUTE_LABEL PReports = ''Reports''"

definition route_tab :: "RouteId option \<Rightarrow> (RouteId \<Rightarrow> 'a list) \<Rightarrow> RouteId \<Rightarrow> 'a node" where
  "route_tab active onNavigate r =
     (let isActive = (Some r = active)
      in Elem ''button''
        ([Key (route_wire r), Attr ''type'' ''button''] @ only_if isActive [Attr ''aria-current'' ''page''] @
         [OnEv ''onClick'' (\<lambda>e. onNavigate r),
          Style
           [(''height'', Dim 34), (''padding'', Css ''0 var(--space-4)''), (''borderRadius'', Css ''var(--radius-pill)''),
            (''border'', Css (if isActive then ''1px solid color-mix(in srgb, var(--color-primary) 70%, transparent)''
               else ''1px solid transparent'')),
            (''background'', Css (if isActive then ''color-mix(in srgb, var(--color-primary) 18%, transparent)'' else ''transparent'')),
            (''color'', Css (if isActive then ''var(--color-text)'' else ''var(--color-text-muted)'')),
            (''fontFamily'', Css ''var(--font-sans)''), (''fontSize'', Css ''var(--font-size-sm)''),
            (''fontWeight'', Dim (if isActive then 600 else 500)), (''cursor'', Css ''pointer''), (''whiteSpace'', Css ''nowrap''),
            (''boxShadow'', Css (if isActive then ''0 0 16px color-mix(in srgb, var(--color-primary) 35%, transparent)'' else ''none'')),
            (''transition'', Css ''color 140ms ease, background 140ms ease'')]])
        [Text (ROUTE_LABEL r)])"

definition IconButton :: "string \<Rightarrow> string \<Rightarrow> 'a list option \<Rightarrow> bool \<Rightarrow> 'a node" where
  "IconButton label glyph onClick dot =
     Elem ''button''
       ([Attr ''type'' ''button'', Attr ''aria-label'' label, Attr ''title'' label] @
        (case onClick of None \<Rightarrow> [] | Some acts \<Rightarrow> [OnEv ''onClick'' (\<lambda>e. acts)]) @
        [Attr ''className'' ''glass'',
         Style
          [(''position'', Css ''relative''), (''width'', Dim 38), (''height'', Dim 38), (''borderRadius'', Css ''50%''),
           (''color'', Css ''var(--color-text)''), (''fontSize'', Dim 16), (''cursor'', Css ''pointer''),
           (''display'', Css ''grid''), (''placeItems'', Css ''center'')]])
       ([Text glyph] @
        only_if dot
          [Elem ''span''
            [Style
              [(''position'', Css ''absolute''), (''top'', Dim 8), (''right'', Dim 9), (''width'', Dim 7), (''height'', Dim 7),
               (''borderRadius'', Css ''50%''), (''background'', Css ''var(--color-accent)''),
               (''boxShadow'', Css ''0 0 0 2px var(--color-surface)'')]] []])"

text \<open>
  \<open>toUpperCase\<close> on the alphabet, but for the two letters whose capitals lie outside of it; the
  initials of a name are those of its first two words.
\<close>

definition js_upper :: "string \<Rightarrow> string" where
  "js_upper s = concat (map (\<lambda>c. let n = char_code c in
     if 97 \<le> n \<and> n \<le> 122 \<or> 224 \<le> n \<and> n \<le> 254 \<and> n \<noteq> 247 then [char_of (n - 32)]
     else if n = 223 then ''SS'' else [c]) s)"

definition initials :: "string \<Rightarrow> string" where
  "initials name = js_upper (concat (take 2 (map (take 1) (js_split (CHR '' '') name))))"

definition ProfileChip :: "string \<Rightarrow> Role \<Rightarrow> 'a node" where
  "ProfileChip name role =
     Elem ''button''
       [Attr ''type'' ''button'', Attr ''className'' ''glass'',
        Style
         [(''display'', Css ''flex''), (''alignItems'', Css ''center''), (''gap'', Css ''var(--space-2)''), (''height'', Dim 44),
          (''padding'', Css ''0 var(--space-3) 0 5px''), (''borderRadius'', Css ''var(--radius-pill)''),
          (''color'', Css ''var(--color-text)''), (''cursor'', Css ''pointer'')]]
       [Elem ''span''
         [Attr ''aria-hidden'' ''true'',
          Style
           [(''width'', Dim 34), (''height'', Dim 34), (''borderRadius'', Css ''50%''), (''display'', Css ''grid''),
            (''placeItems'', Css ''center''),
            (''background'', Css ''linear-gradient(135deg, var(--color-primary), var(--color-info))''),
            (''color'', Css ''var(--color-bg)''), (''fontWeight'', Dim 700), (''fontSize'', Css ''var(--font-size-sm)'')]]
         [Text (initials name)],
        Elem ''span'' [Style [(''lineHeight'', Dim 1.15), (''textAlign'', Css ''left'')]]
         [Elem ''span'' [Style [(''display'', Css ''block''), (''fontSize'', Css ''var(--font-size-sm)''), (''fontWeight'', Dim 600)]]
            [Text name],
          Elem ''span''
            [Style [(''display'', Css ''block''), (''fontSize'', Css ''var(--font-size-xs)''), (''color'', Css ''var(--color-text-muted)'')]]
            [Text (role_wire role)]],
        Elem ''span'' [Attr ''aria-hidden'' ''true'', Style [(''color'', Css ''var(--color-text-muted)''), (''fontSize'', Dim 12)]]
         [Text glyph_caret]]"

definition home_button :: "'a list option \<Rightarrow> 'a node" where
  "home_button onHome =
     Elem ''button''
       ([Attr ''type'' ''button''] @ (case onHome of None \<Rightarrow> [] | Some acts \<Rightarrow> [OnEv ''onClick'' (\<lambda>e. acts)]) @
        [Attr ''aria-label'' ''Back to home'',
         Style
          [(''flex'', Css ''0 0 auto''), (''width'', Dim 38), (''height'', Dim 38), (''display'', Css ''grid''),
           (''placeItems'', Css ''center''), (''borderRadius'', Css ''var(--radius-control)''),
           (''background'', Css ''linear-gradient(135deg, var(--color-primary), var(--color-accent))''),
           (''color'', Css ''var(--color-bg)''), (''border'', Css ''none''), (''cursor'', Css ''pointer''),
           (''fontWeight'', Dim 800), (''fontSize'', Dim 20),
           (''boxShadow'', Css ''0 0 14px color-mix(in srgb, var(--color-primary) 50%, transparent)'')]])
       [Text glyph_diamond]"

definition simulation_badge :: "'a node" where
  "simulation_badge =
     Elem ''span''
       [Attr ''title'' ''Running on the in-browser fleet simulation'',
        Style
         [(''display'', Css ''inline-flex''), (''alignItems'', Css ''center''), (''gap'', Dim 6), (''height'', Dim 30),
          (''padding'', Css ''0 var(--space-3)''), (''borderRadius'', Css ''var(--radius-pill)''),
          (''background'', Css ''color-mix(in srgb, var(--color-accent) 16%, transparent)''),
          (''border'', Css ''1px solid color-mix(in srgb, var(--color-accent) 40%, transparent)''),
          (''color'', Css ''var(--color-accent)''), (''fontSize'', Css ''var(--font-size-xs)''), (''fontWeight'', Dim 600)]]
       [Text (glyph_diamond @ '' Simulation'')]"

definition route_tabs :: "Role \<Rightarrow> RouteId option \<Rightarrow> (RouteId \<Rightarrow> 'a list) \<Rightarrow> 'a node" where
  "route_tabs role active onNavigate =
     Elem ''nav''
       [Attr ''aria-label'' ''Primary'', Attr ''className'' ''glass'',
        Style [(''display'', Css ''flex''), (''alignItems'', Css ''center''), (''gap'', Dim 2), (''padding'', Dim 4),
          (''borderRadius'', Css ''var(--radius-pill)'')]]
       (map (route_tab active onNavigate) (routesForRole role))"

definition TopNav ::
    "ConnectionState \<Rightarrow> Role \<Rightarrow> RouteId option \<Rightarrow> (RouteId \<Rightarrow> 'a list) \<Rightarrow> string option \<Rightarrow> 'a list option \<Rightarrow> bool \<Rightarrow> 'a node" where
  "TopNav connection role active onNavigate userName onHome simulation =
     Elem ''header''
       [Style
         [(''display'', Css ''flex''), (''alignItems'', Css ''center''), (''gap'', Css ''var(--space-4)''), (''height'', Dim 64),
          (''padding'', Css ''0 var(--space-5)''), (''background'', Css ''var(--glass-bg-strong)''),
          (''backdropFilter'', Css ''var(--glass-blur)''), (''WebkitBackdropFilter'', Css ''var(--glass-blur)''),
          (''borderBottom'', Css ''1px solid var(--glass-border)''), (''flex'', Css ''0 0 auto''), (''zIndex'', Dim 6)]]
       [home_button onHome, route_tabs role active onNavigate,
        Elem ''div'' [Style [(''flex'', Dim 1)]] [],
        Elem ''div''
          [Style [(''flex'', Css ''0 0 auto''), (''display'', Css ''flex''), (''alignItems'', Css ''center''),
             (''gap'', Css ''var(--space-3)'')]]
          (only_if simulation [simulation_badge] @
           [ConnectionIndicator connection,
            IconButton ''Search deliveries'' glyph_search (Some (onNavigate PDeliveries)) False,
            IconButton ''Notifications'' glyph_bell None True,
            ProfileChip (or_else userName ''Sam Rowe'') role])]"

fun ROUTE_META :: "RouteId \<Rightarrow> string \<times> string" where
  "ROUTE_META PMap = (''Live Map'', glyph_map)"
| "ROUTE_META PDeliveries = (''Deliveries'', glyph_box)"
| "ROUTE_META PDrivers = (''Drivers'', glyph_person)"
| "ROUTE_META PVehicles = (''Vehicles'', glyph_truck)"
| "ROUTE_META PZones = (''Zones'', glyph_hexagon)"
| "ROUTE_META PReports = (''Reports'', glyph_clock)"

definition rail_button :: "RouteId option \<Rightarrow> (RouteId \<Rightarrow> 'a list) \<Rightarrow> RouteId \<Rightarrow> 'a node" where
  "rail_button active onNavigate r =
     (let isActive = (Some r = active)
      in Elem ''button''
        ([Key (route_wire r), Attr ''type'' ''button''] @ only_if isActive [Attr ''aria-current'' ''page''] @
         [OnEv ''onClick'' (\<lambda>e. onNavigate r),
          Style
           [(''display'', Css ''flex''), (''alignItems'', Css ''center''), (''gap'', Css ''var(--space-3)''),
            (''padding'', Css ''var(--space-3)''), (''borderRadius'', Css ''var(--radius-control)''), (''border'', Css ''none''),
            (''cursor'', Css ''pointer''), (''textAlign'', Css ''left''), (''fontFamily'', Css ''var(--font-sans)''),
            (''fontSize'', Css ''var(--font-size-sm)''), (''fontWeight'', Dim (if isActive then 600 else 500)),
            (''color'', Css (if isActive then ''var(--color-text)'' else ''var(--color-text-muted)'')),
            (''background'', Css (if isActive then ''var(--color-surface-alt)'' else ''transparent'')),
            (''borderLeft'', Css (''3px solid '' @ (if isActive then ''var(--color-primary)'' else ''transparent''))),
            (''transition'', Css ''background 120ms ease, color 120ms ease'')]])
        [Elem ''span'' [Attr ''aria-hidden'' ''true'',
            Style [(''width'', Dim 18), (''textAlign'', Css ''center''), (''fontSize'', Dim 16)]]
          [Text (snd (ROUTE_META r))],
         Text (fst (ROUTE_META r))])"

definition LeftRail :: "Role \<Rightarrow> RouteId option \<Rightarrow> (RouteId \<Rightarrow> 'a list) \<Rightarrow> 'a node list \<Rightarrow> 'a node" where
  "LeftRail role active onNavigate footer =
     Elem ''nav''
       [Attr ''aria-label'' ''Primary'',
        Style
         [(''display'', Css ''flex''), (''flexDirection'', Css ''column''), (''width'', Dim 232), (''flex'', Css ''0 0 auto''),
          (''background'', Css ''var(--glass-bg-strong)''), (''backdropFilter'', Css ''var(--glass-blur)''),
          (''WebkitBackdropFilter'', Css ''var(--glass-blur)''), (''borderRight'', Css ''1px solid var(--glass-border)''),
          (''padding'', Css ''var(--space-4) var(--space-3)''), (''gap'', Css ''var(--space-1)''), (''overflow'', Css ''auto''),
          (''zIndex'', Dim 4)]]
       (map (rail_button active onNavigate) (routesForRole role) @
        only_if (visible_node footer)
          [Elem ''div'' [Style [(''marginTop'', Css ''auto''), (''paddingTop'', Css ''var(--space-4)'')]] footer])"

section \<open>The shell\<close>

text \<open>What the platform provides: printing, parsing, the local time,
  and whether a map can be made.\<close>

record Platform =
  pf_num_of :: "string \<Rightarrow> jsnum"
  pf_show_num :: "jsnum \<Rightarrow> string"
  pf_show_real :: "real \<Rightarrow> string"
  pf_show_fixed :: "nat \<Rightarrow> jsnum \<Rightarrow> string"
  pf_parse :: "string \<Rightarrow> int option"
  pf_show_time :: "int \<Rightarrow> string"
  pf_map_constructs :: bool
  pf_map_style :: "string option"
  pf_pixel_ratio :: "jsnum option"

text \<open>What the hooks of the shell hand to its pages.\<close>

record ConsoleData =
  cn_connection :: ConnectionState
  cn_vehicles :: "VehicleState list"
  cn_zones :: "ZonePolygon list"
  cn_ops :: OperationsState
  cn_now :: int

text \<open>The client the shell makes: the simulated one has its own transport and never a network address.\<close>

definition shell_client_options :: "bool \<Rightarrow> string option \<Rightarrow> string option \<Rightarrow> SocketClientOptions" where
  "shell_client_options simulation streamingUrl token =
     \<lparr>opt_url = (if simulation then ''sim://local'' else or_else streamingUrl ''ws://localhost:4000/stream''),
      opt_token = token, opt_backoff = None, opt_autoConnect = None\<rparr>"

definition shell_positions :: "VehicleState list \<Rightarrow> VehiclePosition list" where
  "shell_positions vehicles =
     map (\<lambda>v. \<lparr>op_vehicleId = vs_vehicleId v, op_lat = vs_lat v, op_lng = vs_lng v,
       op_timestamp = None\<rparr>) vehicles"

text \<open>The page that is mounted,
  with the state of its components; the feed is part of the map's page.\<close>

datatype Page =
    PageMap MapViewState LiveMapState "ActivityEntry list"
  | PageDeliveries DeliveriesState
  | PageDrivers DriversState
  | PageVehicles Sort
  | PageZones
  | PageReports
  | PageMapOnly MapViewState LiveMapState

fun page_view :: "Page \<Rightarrow> View" where
  "page_view (PageMap s m es) = MapWithFeed"
| "page_view (PageDeliveries s) = DeliveriesView"
| "page_view (PageDrivers s) = DriversView"
| "page_view (PageVehicles s) = VehiclesView"
| "page_view PageZones = ZonesView"
| "page_view PageReports = ReportsView"
| "page_view (PageMapOnly s m) = MapOnly"

definition mounted_map :: "Platform \<Rightarrow> LiveMapState" where
  "mounted_map pf = live_map_mount (pf_map_constructs pf) (pf_map_style pf) (pf_pixel_ratio pf) live_map_new"

fun mount_page :: "Platform \<Rightarrow> string \<Rightarrow> View \<Rightarrow> Page" where
  "mount_page pf search MapWithFeed = PageMap map_view_new (mounted_map pf) []"
| "mount_page pf search DeliveriesView = PageDeliveries (deliveries_view_new search)"
| "mount_page pf search DriversView = PageDrivers drivers_view_new"
| "mount_page pf search VehiclesView = PageVehicles None"
| "mount_page pf search ZonesView = PageZones"
| "mount_page pf search ReportsView = PageReports"
| "mount_page pf search MapOnly = PageMapOnly map_view_new (mounted_map pf)"

datatype PageAction = ActMap MapAction | ActDeliveries DeliveriesAction | ActDrivers DriversAction | ActVehicles string

definition feed_panel :: "'a node \<Rightarrow> 'a node" where
  "feed_panel body =
     Elem ''div''
       [Style [(''position'', Css ''absolute''), (''top'', Css ''var(--space-4)''),
         (''right'', Css ''var(--space-4)''),
          (''bottom'', Css ''var(--space-4)''), (''width'', Dim 300), (''display'', Css ''flex'')]]
       [body]"

fun page_render :: "Platform \<Rightarrow> ConsoleData \<Rightarrow> Page \<Rightarrow> PageAction node" where
  "page_render pf c (PageMap s m es) =
     Elem ''div'' [Style [(''position'', Css ''relative''), (''height'', Css ''100%'')]]
       [map_node ActMap (MapView_render (lm_failed m) s (cn_zones c)),
        feed_panel (ActivityFeed_render (pf_parse pf) (pf_show_time pf) (cn_now c) es (Some (Css ''100%'')))]"
| "page_render pf c (PageDeliveries s) =
     map_node ActDeliveries (DeliveriesView_render (pf_num_of pf) (pf_show_num pf) s (os_deliveries (cn_ops c)))"
| "page_render pf c (PageDrivers s) =
     map_node ActDrivers (DriversView_render (pf_num_of pf) (pf_show_num pf) (pf_show_fixed pf) s (os_drivers (cn_ops c))
       (os_deliveries (cn_ops c)) (os_assignments (cn_ops c)) (os_routes (cn_ops c)) (shell_positions (cn_vehicles c)))"
| "page_render pf c (PageVehicles s) =
     map_node ActVehicles (VehiclesView_render (pf_num_of pf) (pf_show_num pf) (pf_show_fixed pf) s (cn_vehicles c)
       (os_drivers (cn_ops c)))"
| "page_render pf c PageZones = ZonesView_render (pf_show_real pf) (cn_zones c) (cn_vehicles c)"
| "page_render pf c PageReports = ReportsView_render (pf_show_real pf) (os_drivers (cn_ops c)) (os_deliveries (cn_ops c))"
| "page_render pf c (PageMapOnly s m) = map_node ActMap (MapView_render (lm_failed m) s (cn_zones c))"

text \<open>
  The shell's state: the router, the search text that the deliveries page writes and reads back,
  the page, and the feed's counter, which is the module's.
\<close>

record Shell =
  sh_router :: Router
  sh_search :: string
  sh_page :: Page
  sh_seq :: nat

datatype ShellAction = ActPage PageAction | ActGo RouteId | ActHome

definition AppShell_render :: "Platform \<Rightarrow> ConsoleData \<Rightarrow> Role \<Rightarrow> string option \<Rightarrow> bool \<Rightarrow> Shell \<Rightarrow> ShellAction node" where
  "AppShell_render pf c role userName simulation s =
     Elem ''div''
       [Style [(''display'', Css ''flex''), (''flexDirection'', Css ''column''),
         (''height'', Css ''100vh''), (''minWidth'', Dim 1280)]]
       [TopNav (cn_connection c) role (router_route role (sh_router s)) (\<lambda>r. [ActGo r]) userName (Some [ActHome]) simulation,
        Elem ''main''
          [Style [(''position'', Css ''relative''), (''flex'', Dim 1), (''minWidth'', Dim 0),
            (''minHeight'', Dim 0),
             (''overflow'', Css ''hidden'')]]
          [map_node ActPage (page_render pf c (sh_page s))]]"

text \<open>
  A render follows every change: the page of another route replaces the mounted one; then the
  effects of the page and of the router run.
\<close>

definition shell_rendered :: "Platform \<Rightarrow> Role \<Rightarrow> Shell \<Rightarrow> Shell" where
  "shell_rendered pf role s =
     (let v = renderRoute (router_route role (sh_router s));
          page = (if page_view (sh_page s) = v then sh_page s else mount_page pf (sh_search s) v);
          page' = (case page of PageDeliveries d \<Rightarrow> PageDeliveries (deliveries_effect (sh_search s) d) | _ \<Rightarrow> page)
      in s\<lparr>sh_page := page', sh_router := sync_effect role (sh_router s)\<rparr>)"

definition shell_new :: "Platform \<Rightarrow> Role \<Rightarrow> string \<Rightarrow> nat \<Rightarrow> Shell" where
  "shell_new pf role h seq =
     shell_rendered pf role \<lparr>sh_router = router_new h, sh_search = [],
       sh_page = mount_page pf [] (renderRoute (router_route role (router_new h))), sh_seq = seq\<rparr>"

fun page_act :: "PageAction \<Rightarrow> Shell \<Rightarrow> Shell" where
  "page_act (ActMap a) s = (case sh_page s of
      PageMap v m es \<Rightarrow> (case map_view_act a (v, m) of (v',
        m') \<Rightarrow> s\<lparr>sh_page := PageMap v' m' es\<rparr>)
    | PageMapOnly v m \<Rightarrow> (case map_view_act a (v, m) of (v',
      m') \<Rightarrow> s\<lparr>sh_page := PageMapOnly v' m'\<rparr>)
    | _ \<Rightarrow> s)"
| "page_act (ActDeliveries a) s = (case sh_page s of
      PageDeliveries d \<Rightarrow> (case deliveries_act (Some (\<lambda>v search. v)) a (d, sh_search s) of
        (d', search) \<Rightarrow> s\<lparr>sh_page := PageDeliveries d', sh_search := search\<rparr>)
    | _ \<Rightarrow> s)"
| "page_act (ActDrivers a) s = (case sh_page s of PageDrivers d \<Rightarrow> s\<lparr>sh_page := PageDrivers (drivers_act a d)\<rparr> | _ \<Rightarrow> s)"
| "page_act (ActVehicles k) s = (case sh_page s of PageVehicles t \<Rightarrow> s\<lparr>sh_page := PageVehicles (toggleSort k t)\<rparr> | _ \<Rightarrow> s)"

text \<open>
  What can happen: an action of the tree, an edit of the address bar, the announcement of a changed
  hash, a zone event, which only a mounted feed takes.
\<close>

datatype ShellEvent = EvPage PageAction | EvGo RouteId | EvAddress string | EvHash | EvZone int ZoneEventMessage

fun shell_event :: "Role \<Rightarrow> ShellEvent \<Rightarrow> Shell \<Rightarrow> Shell" where
  "shell_event role (EvPage a) s = page_act a s"
| "shell_event role (EvGo r) s = s\<lparr>sh_router := navigate role r (sh_router s)\<rparr>"
| "shell_event role (EvAddress h) s = s\<lparr>sh_router := (sh_router s)\<lparr>ro_hash := h\<rparr>\<rparr>"
| "shell_event role EvHash s = s\<lparr>sh_router := onHash (sh_router s)\<rparr>"
| "shell_event role (EvZone now e) s = (case sh_page s of
      PageMap v m es \<Rightarrow> (case on_zone_event DEFAULT_FEED_LIMIT now e (sh_seq s, es) of
        (n, es') \<Rightarrow> s\<lparr>sh_page := PageMap v m es', sh_seq := n\<rparr>)
    | _ \<Rightarrow> s)"

definition shell_step :: "Platform \<Rightarrow> Role \<Rightarrow> ShellEvent \<Rightarrow> Shell \<Rightarrow> Shell" where
  "shell_step pf role ev s = shell_rendered pf role (shell_event role ev s)"

definition shell_run :: "Platform \<Rightarrow> Role \<Rightarrow> ShellEvent list \<Rightarrow> Shell \<Rightarrow> Shell" where
  "shell_run pf role evs s = fold (shell_step pf role) evs s"

section \<open>The root\<close>

text \<open>The build's \<open>VITE_ROLE\<close> and \<open>VITE_STREAMING_URL\<close>.\<close>

definition main_role :: "string option \<Rightarrow> string" where
  "main_role env = or_else env ''Administrator''"

definition main_streamingUrl :: "string option \<Rightarrow> string" where
  "main_streamingUrl env = or_else env []"

definition main_simulation :: "string option \<Rightarrow> bool" where
  "main_simulation env = (main_streamingUrl env = [])"

definition main_client_options :: "string option \<Rightarrow> SocketClientOptions" where
  "main_client_options env = shell_client_options (main_simulation env)
     (if main_streamingUrl env = [] then None else Some (main_streamingUrl env)) None"

definition APP_ROUTES :: "string list" where
  "APP_ROUTES = [''map'', ''deliveries'', ''drivers'', ''vehicles'', ''zones'', ''reports'']"

definition currentRouteIsApp :: "string \<Rightarrow> bool" where
  "currentRouteIsApp h = (hd (js_split (CHR ''?'') (strip_hash h)) \<in> set APP_ROUTES)"

text \<open>
  The root and, while it is mounted, the shell's router; the address is the router's hash. An
  announcement of a changed hash reaches the two listeners one after the other, in the order in
  which they were registered; what one changes is rendered, effects included, before the next
  hears of it.
\<close>

record Root =
  rt_inApp :: bool
  rt_router :: Router

definition root_new :: "Role \<Rightarrow> string \<Rightarrow> Root" where
  "root_new role h = \<lparr>rt_inApp = currentRouteIsApp h,
     rt_router = (if currentRouteIsApp h then sync_effect role (router_new h) else router_new h)\<rparr>"

definition root_hears :: "Role \<Rightarrow> Root \<Rightarrow> Root" where
  "root_hears role s =
     (let h = ro_hash (rt_router s); app = currentRouteIsApp h
      in if app \<and> \<not> rt_inApp s then s\<lparr>rt_inApp := True,
        rt_router := sync_effect role (router_new h)\<rparr>
         else s\<lparr>rt_inApp := app\<rparr>)"

definition shell_hears :: "Role \<Rightarrow> Root \<Rightarrow> Root" where
  "shell_hears role s =
     (if rt_inApp s then s\<lparr>rt_router := sync_effect role (onHash (rt_router s))\<rparr> else s)"

datatype Listener = RootListener | ShellListener

fun hears :: "Role \<Rightarrow> Listener \<Rightarrow> Root \<Rightarrow> Root" where
  "hears role RootListener s = root_hears role s"
| "hears role ShellListener s = shell_hears role s"

definition hash_changes :: "Role \<Rightarrow> Listener list \<Rightarrow> Root \<Rightarrow> Root" where
  "hash_changes role order s = fold (hears role) order s"

definition set_address :: "string \<Rightarrow> Root \<Rightarrow> Root" where
  "set_address h s = s\<lparr>rt_router := (rt_router s)\<lparr>ro_hash := h\<rparr>\<rparr>"

definition enter_app :: "Root \<Rightarrow> Root" where
  "enter_app s = set_address ''#/map'' s"

definition go_home :: "Root \<Rightarrow> Root" where
  "go_home s = set_address ''#/home'' s"

text \<open>What the root renders: the shell's user name is the default one.\<close>

datatype RootAction = RootEnters | RootShell ShellAction

definition Root_render :: "Platform \<Rightarrow> ConsoleData \<Rightarrow> Role \<Rightarrow> string option \<Rightarrow> Root \<Rightarrow> Shell \<Rightarrow> RootAction node" where
  "Root_render pf c role streamingUrl s shell =
     (if \<not> rt_inApp s then LandingPage [RootEnters] None None
      else map_node RootShell (AppShell_render pf c role None (main_simulation streamingUrl) shell))"

fun root_act :: "RootAction \<Rightarrow> Root \<Rightarrow> Root" where
  "root_act RootEnters s = enter_app s"
| "root_act (RootShell ActHome) s = go_home s"
| "root_act (RootShell a) s = s"

section \<open>The shell keeps in step\<close>

lemma sync_route [simp]: "router_route role (sync_effect role r) = router_route role r"
  by (simp add: router_route_def sync_effect_def Let_def split: option.split)

lemma sync_synced [simp]: "ro_synced (sync_effect role r) = Some (router_route role r)"
  by (simp add: sync_effect_def Let_def split: option.split)

lemma sync_idle: "ro_synced r = Some (router_route role r) \<Longrightarrow> sync_effect role r = r"
  by (simp add: sync_effect_def)

lemma mount_view [simp]: "page_view (mount_page pf q v) = v"
  by (cases v) simp_all

definition in_step :: "Role \<Rightarrow> Shell \<Rightarrow> bool" where
  "in_step role s \<longleftrightarrow> page_view (sh_page s) = renderRoute (router_route role (sh_router s))
     \<and> ro_synced (sh_router s) = Some (router_route role (sh_router s))
     \<and> (case sh_page s of PageDeliveries d \<Rightarrow> ew_local d = sh_search s \<and> ew_synced d = Some (sh_search s) | _ \<Rightarrow> True)"

text \<open>Between an event and the rendering,
  a deliveries page may differ from the shell's text only as long as its effect has to run.\<close>

definition will_sync :: "Shell \<Rightarrow> bool" where
  "will_sync s \<longleftrightarrow> (case sh_page s of
      PageDeliveries d \<Rightarrow> ew_synced d = Some (sh_search s) \<longrightarrow> ew_local d = sh_search s | _ \<Rightarrow> True)"

lemma rendered_in_step:
  assumes "will_sync s"
  shows "in_step role (shell_rendered pf role s)"
proof -
  define v where "v = renderRoute (router_route role (sh_router s))"
  define page where "page = (if page_view (sh_page s) = v then sh_page s else mount_page pf (sh_search s) v)"
  have view: "page_view page = v" by (simp add: page_def)
  have agrees: "ew_synced d = Some (sh_search s) \<longrightarrow> ew_local d = sh_search s" if "page = PageDeliveries d" for d
  proof (cases "page_view (sh_page s) = v")
    case True
    with that assms show ?thesis by (simp add: page_def will_sync_def)
  next
    case False
    with that have "mount_page pf (sh_search s) v = PageDeliveries d" by (simp add: page_def)
    then show ?thesis by (cases v) (auto simp: deliveries_view_new_def)
  qed
  have "page_view (case page of PageDeliveries d \<Rightarrow> PageDeliveries (deliveries_effect (sh_search s) d) | _ \<Rightarrow> page) = v"
    using view by (cases page) simp_all
  with agrees show ?thesis
    unfolding shell_rendered_def Let_def v_def [symmetric] page_def [symmetric]
    by (cases page) (auto simp: in_step_def v_def deliveries_effect_def)
qed

lemma event_will_sync:
  assumes "in_step role s"
  shows "will_sync (shell_event role ev s)"
proof (cases ev)
  case (EvPage a)
  show ?thesis
  proof (cases a)
    case (ActDeliveries da)
    with assms show ?thesis unfolding EvPage
      by (cases da; cases "sh_page s") (auto simp: in_step_def will_sync_def)
  qed (use assms EvPage in \<open>auto simp: in_step_def will_sync_def split: Page.splits prod.splits\<close>)
next
  case (EvZone now e)
  with assms show ?thesis
    by (auto simp: in_step_def will_sync_def split: Page.splits prod.splits)
qed (use assms in \<open>auto simp: in_step_def will_sync_def split: Page.splits\<close>)

lemma shell_step_in_step: "in_step role s \<Longrightarrow> in_step role (shell_step pf role ev s)"
  unfolding shell_step_def by (intro rendered_in_step event_will_sync)

lemma shell_run_in_step: "in_step role s \<Longrightarrow> in_step role (shell_run pf role evs s)"
  unfolding shell_run_def by (induction evs arbitrary: s) (simp_all add: shell_step_in_step)

lemma shell_new_in_step: "in_step role (shell_new pf role h seq)"
  unfolding shell_new_def
  by (rule rendered_in_step) (auto simp: will_sync_def deliveries_view_new_def split: Page.split,
    cases "renderRoute (router_route role (router_new h))", auto simp: deliveries_view_new_def)

lemma rendered_fields [simp]:
  "sh_router (shell_rendered pf role s) = sync_effect role (sh_router s)" "sh_search (shell_rendered pf role s) = sh_search s"
  "sh_seq (shell_rendered pf role s) = sh_seq s"
  by (simp_all add: shell_rendered_def Let_def)

lemma go_leads:
  assumes "in_step role s" "canAccess role r"
  shows "router_route role (sh_router (shell_run pf role [EvGo r, EvHash] s)) = Some r"
proof -
  have synced: "ro_synced (sh_router s) = Some (router_route role (sh_router s))" using assms(1) by (simp add: in_step_def)
  have "sync_effect role (navigate role r (sh_router s)) = navigate role r (sh_router s)"
    using synced assms(2) by (intro sync_idle) (simp add: navigate_def router_route_def)
  then show ?thesis using assms(2)
    by (simp add: shell_run_def shell_step_def) (simp add: router_route_def onHash_def navigate_def resolveRoute_def)
qed

lemma route_tab_facts [simp]:
  "key_of_attrs (attrs_of (route_tab active go r)) = Some (route_wire r)"
  "click (route_tab active go r) = go r"
  "attr_of ''aria-current'' (attrs_of (route_tab active go r)) = (if Some r = active then Some ''page'' else None)"
  "text_of (route_tab active go r) = ROUTE_LABEL r"
  by (simp_all add: route_tab_def Let_def fire_def only_if_def)

lemma shell_tabs:
  "kids_of (kids_of (hd (kids_of (AppShell_render pf c role u sim s))) ! 1)
    = map (route_tab (router_route role (sh_router s)) (\<lambda>r. [ActGo r])) (routesForRole role)"
  by (simp add: AppShell_render_def TopNav_def route_tabs_def)

lemma route_permitted:
  "case router_route role r of Some p \<Rightarrow> canAccess role p | None \<Rightarrow> routesForRole role = []"
  by (auto simp: router_route_def resolveRoute_def defaultRouteForRole_def routesForRole_def filter_eq_Cons_iff
      split: option.splits list.splits if_splits)

section \<open>The root keeps its two views\<close>

lemma app_routes: "currentRouteIsApp h \<longleftrightarrow> parseHash h \<noteq> None"
  by (auto simp: currentRouteIsApp_def parseHash_def APP_ROUTES_def ALL_ROUTES_def Let_def)

lemma route_of_hash: "router_route role (onHash r) = resolveRoute (parseHash (ro_hash r)) role"
  by (simp add: router_route_def onHash_def)

lemma home_is_no_page [simp]: "parseHash ''#/home'' = None"
  by (simp add: parseHash_def strip_hash_def ALL_ROUTES_def)

text \<open>The root's router is the one of a mounted shell whose effect has run.\<close>

definition root_settled :: "Role \<Rightarrow> Root \<Rightarrow> bool" where
  "root_settled role s \<longleftrightarrow> ro_synced (rt_router s) = Some (router_route role (rt_router s))"

lemma home_root_first: "\<not> rt_inApp (hash_changes role [RootListener, ShellListener] (go_home s))"
  by (simp add: hash_changes_def go_home_def set_address_def root_hears_def shell_hears_def Let_def app_routes)

lemma home_shell_first:
  assumes "rt_inApp s" "root_settled role s"
  shows "rt_inApp (hash_changes role [ShellListener, RootListener] (go_home s))
    \<longleftrightarrow> router_route role (rt_router s) \<noteq> defaultRouteForRole role"
proof -
  define r where "r = onHash ((rt_router s)\<lparr>ro_hash := ''#/home''\<rparr>)"
  have r: "ro_hash r = ''#/home''" "ro_synced r = Some (router_route role (rt_router s))"
      "router_route role r = defaultRouteForRole role"
    using assms(2) by (simp_all add: r_def onHash_def root_settled_def router_route_def resolveRoute_def)
  have "rt_inApp (hash_changes role [ShellListener, RootListener] (go_home s))
      \<longleftrightarrow> parseHash (ro_hash (sync_effect role r)) \<noteq> None"
    using assms(1) by (simp add: hash_changes_def go_home_def set_address_def shell_hears_def root_hears_def r_def Let_def app_routes)
  also have "\<dots> \<longleftrightarrow> router_route role (rt_router s) \<noteq> defaultRouteForRole role"
    using r by (auto simp: sync_effect_def Let_def router_route_def resolveRoute_def defaultRoute_eq canAccess_iff
        split: option.splits if_splits)
  finally show ?thesis .
qed

section \<open>Properties\<close>

text \<open>
  C10. The console stays in step. Whatever the user, the address bar and the fleet do, after every event
  the page shown is the one of the resolved route, which the role may access (a role without pages
  has none); the tabs are exactly the pages of the role, the one shown being marked, and clicking a
  tab leads to its page; and a deliveries page filters by exactly the text the shell keeps, however
  often the user left and came back.
\<close>

theorem shell_keeps_in_step:
  "let s = shell_run pf role evs (shell_new pf role h seq);
       route = router_route role (sh_router s);
       tabs = kids_of (kids_of (hd (kids_of (AppShell_render pf c role userName simulation s))) ! 1)
   in page_view (sh_page s) = renderRoute route
     \<and> (case route of Some r \<Rightarrow> canAccess role r | None \<Rightarrow> routesForRole role = [])
     \<and> map (\<lambda>t. (key_of_attrs (attrs_of t),
       text_of t)) tabs = map (\<lambda>r. (Some (route_wire r), ROUTE_LABEL r)) (routesForRole role)
     \<and> list_all2 (\<lambda>r t. (attr_of ''aria-current'' (attrs_of t) = Some ''page'' \<longleftrightarrow> route = Some r)
          \<and> click t = [ActGo r]
          \<and> page_view (sh_page (shell_run pf role [EvGo r,
            EvHash] s)) = renderRoute (Some r)) (routesForRole role) tabs
     \<and> (case sh_page s of PageDeliveries d \<Rightarrow> ew_local d = sh_search s | _ \<Rightarrow> True)"
proof -
  define s where "s = shell_run pf role evs (shell_new pf role h seq)"
  have ok: "in_step role s" unfolding s_def by (intro shell_run_in_step shell_new_in_step)
  have leads: "page_view (sh_page (shell_run pf role [EvGo r, EvHash] s)) = renderRoute (Some r)"
    if "r \<in> set (routesForRole role)" for r
  proof -
    from that have "canAccess role r" by (simp add: routesForRole_def)
    with shell_run_in_step [OF ok, of pf "[EvGo r, EvHash]"] go_leads [OF ok,
      of r pf] show ?thesis by (simp add: in_step_def)
  qed
  have tabs: "list_all2 (\<lambda>r t. (attr_of ''aria-current'' (attrs_of t) = Some ''page'' \<longleftrightarrow> router_route role (sh_router s) = Some r)
        \<and> click t = [ActGo r]
        \<and> page_view (sh_page (shell_run pf role [EvGo r, EvHash] s)) = renderRoute (Some r))
      (routesForRole role) (map (route_tab (router_route role (sh_router s)) (\<lambda>r. [ActGo r])) (routesForRole role))"
    using leads by (auto simp: list.rel_map intro!: list.rel_refl_strong)
  show ?thesis
    unfolding Let_def s_def [symmetric] shell_tabs
    using ok route_permitted [of role "sh_router s"] tabs
    by (simp add: in_step_def comp_def split: Page.splits)
qed

text \<open>
  C36. The home button. The root's list of console addresses is the router's. When the root hears of the
  changed address first, as it does for a console entered from the landing page, the home button
  leads to the landing page from every page. When the shell hears of it first, as it does when the
  dashboard was opened at a console address, the button leads there only from the role's default
  page: from any other one the router redirects first, and the console stays, on its default page.
\<close>

theorem home_button_outcome:
  assumes "rt_inApp s" "root_settled role s"
  shows "(currentRouteIsApp h \<longleftrightarrow> parseHash h \<noteq> None)
    \<and> \<not> rt_inApp (hash_changes role [RootListener, ShellListener] (go_home s))
    \<and> (rt_inApp (hash_changes role [ShellListener, RootListener] (go_home s))
        \<longleftrightarrow> router_route role (rt_router s) \<noteq> defaultRouteForRole role)"
  using home_shell_first [OF assms] by (simp add: app_routes home_root_first)

theorem home_button_outcome_witness:
  "rt_inApp (hash_changes Administrator [ShellListener, RootListener] (go_home (root_new Administrator ''#/deliveries'')))"
proof -
  have p: "parseHash ''#/deliveries'' = Some PDeliveries"
    using parse_hash_for [of PDeliveries] by (simp add: hash_for_def)
  have app: "rt_inApp (root_new Administrator ''#/deliveries'')" by (simp add: root_new_def app_routes p)
  then have router: "rt_router (root_new Administrator ''#/deliveries'') = sync_effect Administrator (router_new ''#/deliveries'')"
    by (simp add: root_new_def)
  have settled: "root_settled Administrator (root_new Administrator ''#/deliveries'')"
    by (simp add: root_settled_def router)
  have "router_route Administrator (rt_router (root_new Administrator ''#/deliveries'')) = Some PDeliveries"
    by (simp add: router) (simp add: router_route_def router_new_def p resolveRoute_def canAccess_iff)
  with home_button_outcome [OF app settled, of "[]"] show ?thesis by (simp add: defaultRoute_eq)
qed

end
