(* ===== verification/Sim_Console.thy ===== *)
theory Sim_Console
  imports Console_Views Sim_Transport
begin

text \<open>
  Simulation mode from end to end: the ticks of the transport (\<open>sim/simulationTransport.ts\<close>), the
  positions they carry folded into the fleet state (\<open>map/useFleetState.ts\<close>), and the zones page on
  that state (\<open>views/ZonesView.tsx\<close>). The frames' text is not read back here: coordinates are real
  numbers, of which no text is exact; the listener hears the payload.
\<close>

section \<open>A transport at work\<close>

text \<open>The transport opens, with one tick at once, and then ticks on its interval.\<close>

definition transport_runs :: "(real \<Rightarrow> string) \<Rightarrow> string \<Rightarrow> string list \<Rightarrow> SimTransport option" where
  "transport_runs show_real n0 nows =
     foldl (\<lambda>t now. Option.bind t (tick_and_emit show_real now))
       (transport_opens show_real n0 createSimulationTransport) nows"

abbreviation sim_ticks :: "string list \<Rightarrow> (string \<times> real) list" where
  "sim_ticks nows \<equiv> map (\<lambda>n. (n, TICK_MS)) nows"

text \<open>What a listener of positions hears, and the clock it reads each time.\<close>

fun position_of :: "SimFrame \<Rightarrow> PositionEvent option" where
  "position_of (PositionFrame p) = Some p"
| "position_of (ZoneFrame e) = None"

definition positions_in :: "SimFrame list \<Rightarrow> PositionEvent list" where
  "positions_in fs = List.map_filter position_of fs"

definition heard :: "(nat \<Rightarrow> int) \<Rightarrow> SimFrame list \<Rightarrow> (int \<times> PositionEvent) list" where
  "heard clock fs = map (\<lambda>(i, p). (clock i, p)) (enumerate 0 (positions_in fs))"

lemma heard_positions [simp]: "map snd (heard clock fs) = positions_in fs"
  by (simp add: heard_def comp_def case_prod_beta)

lemma positions_in_append [simp]: "positions_in (fs @ gs) = positions_in fs @ positions_in gs"
  by (simp add: positions_in_def map_filter_def)

lemma positions_in_zone_events [simp]: "positions_in (zone_events now w zs) = []"
  by (auto simp: positions_in_def zone_events_def zone_frame_def map_filter_def filter_empty_conv)

section \<open>The transport sends the simulation\<close>

lemma sim_run_snoc:
  "sim_run (ts @ [(now, d)]) vs = Option.bind (sim_run ts vs)
     (\<lambda>(ws, fs). map_option (\<lambda>(us, gs). (us, fs @ gs)) (sim_tick now d ws))"
  by (induction ts arbitrary: vs) (auto simp: option.map_id split: option.splits prod.splits bind_splits)

definition sending :: "(real \<Rightarrow> string) \<Rightarrow> SimVehicle list \<times> SimFrame list \<Rightarrow> SimTransport" where
  "sending show_real = (\<lambda>(ws, fs).
     \<lparr>tr_sim = ws, tr_open = True, tr_timer = Some 0, tr_attached = True, tr_opening = False,
      tr_intervals = [0], tr_made = 1, tr_sent = map (\<lambda>f. json_text show_real (sim_frame_json f)) fs\<rparr>)"

lemma sending_ticks:
  "Option.bind (map_option (sending show_real) r) (tick_and_emit show_real now) = map_option (sending show_real)
     (Option.bind r (\<lambda>(ws, fs). map_option (\<lambda>(us, gs). (us, fs @ gs)) (sim_tick now TICK_MS ws)))"
  by (auto simp: sending_def tick_and_emit_def sim_emit_def option.map_comp comp_def case_prod_beta
      split: bind_splits option.splits intro!: option.map_cong)

lemma transport_sends:
  "transport_runs show_real n0 nows = map_option (sending show_real) (sim_run (sim_ticks (n0 # nows)) sim_new)"
proof (induction nows rule: rev_induct)
  case Nil
  then show ?case
    by (cases "sim_tick n0 TICK_MS sim_new")
      (auto simp: transport_runs_def transport_opens_def tick_and_emit_def createSimulationTransport_def sim_emit_def sending_def)
next
  case (snoc now nows)
  have "transport_runs show_real n0 (nows @ [now])
      = Option.bind (transport_runs show_real n0 nows) (tick_and_emit show_real now)"
    by (simp add: transport_runs_def)
  moreover have "sim_ticks (n0 # nows @ [now]) = sim_ticks (n0 # nows) @ [(now, TICK_MS)]" by simp
  ultimately show ?case
    unfolding snoc.IH by (simp only: sim_run_snoc sending_ticks)
qed

section \<open>Positions placed one by one\<close>

abbreviation place_all :: "(string, VehicleState) jsmap \<Rightarrow> PositionEvent list \<Rightarrow> (string, VehicleState) jsmap" where
  "place_all \<equiv> foldl (\<lambda>m p. place_vehicle p m)"

lemma fleet_run_vehicles: "fs_vehicles (fleet_run parse es s) = place_all (fs_vehicles s) (map snd es)"
  by (induction es rule: rev_induct) (auto simp: on_position_def fleet_run_def)

lemma update_append: "k \<notin> fst ` set d \<Longrightarrow> AList.update k v (d @ r) = d @ AList.update k v r"
  by (induction d) auto

text \<open>
  Placing a position for each of the ids in order, on a map whose keys are the first of these ids,
  makes the map with one entry per position, in that order.
\<close>

lemma place_rest:
  assumes "map fst rest = take n (map pos_vehicleId ps)" "distinct (map fst done @ map pos_vehicleId ps)"
  shows "place_all (done @ rest) ps
    = done @ map (\<lambda>p. (pos_vehicleId p, moved_vehicle (map_get rest (pos_vehicleId p)) p)) ps"
  using assms
proof (induction ps arbitrary: "done" rest n)
  case (Cons p ps)
  let ?i = "pos_vehicleId p" and ?v = "moved_vehicle (map_get rest (pos_vehicleId p)) p"
  obtain rest' n' where rest': "AList.update ?i ?v rest = (?i, ?v) # rest'" "map fst rest' = take n' (map pos_vehicleId ps)"
    "\<forall>q \<in> set ps. map_get rest' (pos_vehicleId q) = map_get rest (pos_vehicleId q)"
  proof (cases rest)
    case Nil
    then show ?thesis using that [of "[]" 0] by simp
  next
    case (Cons e es)
    then obtain m where n: "n = Suc m" using Cons.prems(1) by (cases n) auto
    with Cons Cons.prems show ?thesis by (intro that [of es m]) (auto, metis image_eqI)
  qed
  have fresh: "?i \<notin> fst ` set done" using Cons.prems(2) by auto
  then have "map_get done ?i = None" by (simp add: map_of_eq_None_iff)
  then have "map_get (done @ rest) ?i = map_get rest ?i" by (simp add: map_add_def split: option.split)
  then have "place_vehicle p (done @ rest) = (done @ [(?i, ?v)]) @ rest'"
    using fresh by (simp add: place_vehicle_def update_append rest'(1))
  moreover have "place_all ((done @ [(?i, ?v)]) @ rest') ps = (done @ [(?i, ?v)])
      @ map (\<lambda>q. (pos_vehicleId q, moved_vehicle (map_get rest' (pos_vehicleId q)) q)) ps"
    by (rule Cons.IH [OF rest'(2)]) (use Cons.prems(2) in auto)
  ultimately show ?case using rest'(3) by simp
qed simp

section \<open>The simulated fleet in the fleet state\<close>

definition sim_position :: "string \<Rightarrow> SimVehicle \<Rightarrow> PositionEvent" where
  "sim_position now v = the (position_of (position_frame now v))"

lemma sim_position_fields [simp]:
  "pos_vehicleId (sim_position now v) = sv_vehicleId v" "pos_lat (sim_position now v) = Fin (sv_lat v)"
  "pos_lng (sim_position now v) = Fin (sv_lng v)"
  "Option.bind (pos_telemetry (sim_position now v)) tel_heading = Some (Fin (of_int (js_round (sv_heading v))))"
  by (simp_all add: sim_position_def position_frame_def)

lemma positions_of_tick:
  "length vs = length us \<Longrightarrow> positions_in (concat (map2 (vehicle_frames now) vs us)) = map (sim_position now) us"
proof (induction vs us rule: list_induct2)
  case (Cons v vs u us)
  have "positions_in (vehicle_frames now v u) = [sim_position now u]"
    using positions_in_zone_events [of now "u\<lparr>sv_inside := sv_inside v\<rparr>" SIM_ZONES]
    by (simp add: vehicle_frames_def positions_in_def sim_position_def position_frame_def)
  with Cons show ?case by simp
qed (simp add: positions_in_def)

text \<open>A moved vehicle keeps nothing of where it was.\<close>

lemma moved_again:
  "moved_vehicle (Some (moved_vehicle old (sim_position now v))) (sim_position now' w)
    = (if sv_vehicleId v = sv_vehicleId w then moved_vehicle old (sim_position now' w)
       else moved_vehicle (Some (moved_vehicle old (sim_position now v))) (sim_position now' w))"
  by (auto simp: moved_vehicle_def nullish_def or_else_def split: option.split)

definition placed_fleet :: "(string, VehicleState) jsmap \<Rightarrow> string \<Rightarrow> SimVehicle list \<Rightarrow> (string, VehicleState) jsmap" where
  "placed_fleet m now ws = map (\<lambda>w. (sv_vehicleId w, moved_vehicle (map_get m (sv_vehicleId w)) (sim_position now w))) ws"

lemma placed_fleet_keys [simp]: "map fst (placed_fleet m now ws) = map sv_vehicleId ws"
  by (simp add: placed_fleet_def comp_def)

lemma placed_fleet_get:
  "distinct (map sv_vehicleId ws) \<Longrightarrow> w \<in> set ws \<Longrightarrow>
     map_get (placed_fleet m now ws) (sv_vehicleId w) = Some (moved_vehicle (map_get m (sv_vehicleId w)) (sim_position now w))"
  by (auto simp: placed_fleet_def comp_def intro!: map_of_is_SomeI)

lemma place_tick:
  assumes "map fst m = take n (map sv_vehicleId us)" "distinct (map sv_vehicleId us)"
  shows "place_all m (map (sim_position now) us) = placed_fleet m now us"
  using place_rest [of m n "map (sim_position now) us" "[]"] assms by (simp add: comp_def placed_fleet_def)

lemma placed_again:
  assumes "map sv_vehicleId ws = map sv_vehicleId us" "distinct (map sv_vehicleId us)"
  shows "placed_fleet (placed_fleet m now us) now' ws = placed_fleet m now' ws"
proof -
  have "moved_vehicle (map_get (placed_fleet m now us) (sv_vehicleId w)) (sim_position now' w)
      = moved_vehicle (map_get m (sv_vehicleId w)) (sim_position now' w)" if w: "w \<in> set ws" for w
  proof -
    have "sv_vehicleId w \<in> sv_vehicleId ` set us" using w assms(1) by (metis image_eqI list.set_map)
    then obtain u where u: "u \<in> set us" "sv_vehicleId u = sv_vehicleId w" by auto
    with placed_fleet_get [OF assms(2) u(1), of m now] show ?thesis using moved_again [of _ now u now' w] by simp
  qed
  then show ?thesis by (simp add: placed_fleet_def [of _ now'])
qed

lemma run_places:
  assumes "\<forall>v \<in> set vs. on_route v \<and> tracked v" "distinct (map sv_vehicleId vs)"
    "map fst m = take n (map sv_vehicleId vs)" "sim_run (t # ticks) vs = Some (ws, fs)"
  shows "place_all m (positions_in fs) = placed_fleet m (fst (last (t # ticks))) ws
    \<and> map sv_vehicleId ws = map sv_vehicleId vs"
  using assms
proof (induction ticks arbitrary: t vs m n fs)
  case Nil
  obtain now d where t: "t = (now, d)" by (cases t)
  obtain us where us: "sim_tick now d vs = Some (us, concat (map2 (vehicle_frames now) vs us))" "list_all2 (tick_ok d) vs us"
    using sim_tick_spec [OF Nil.prems(1)] by blast
  have "ws = us" "fs = concat (map2 (vehicle_frames now) vs us)" using Nil.prems(4) us(1) by (auto simp: t)
  with us(2) Nil.prems show ?case
    by (simp add: t positions_of_tick list_all2_lengthD tick_ids place_tick)
next
  case (Cons t' ticks)
  obtain now d where t: "t = (now, d)" by (cases t)
  obtain us where us: "sim_tick now d vs = Some (us, concat (map2 (vehicle_frames now) vs us))" "list_all2 (tick_ok d) vs us"
    using sim_tick_spec [OF Cons.prems(1)] by blast
  obtain gs where gs: "sim_run (t' # ticks) us = Some (ws, gs)" "fs = concat (map2 (vehicle_frames now) vs us) @ gs"
    using Cons.prems(4) us(1) by (auto simp: t split: bind_splits prod.splits)
  have ids: "map sv_vehicleId us = map sv_vehicleId vs" by (rule tick_ids [OF us(2)])
  have IH: "place_all (placed_fleet m now us) (positions_in gs) = placed_fleet (placed_fleet m now us) (fst (last (t' # ticks))) ws
      \<and> map sv_vehicleId ws = map sv_vehicleId us"
    by (rule Cons.IH [of us _ "length us", OF tick_ok_keeps [OF us(2)]])
      (use ids Cons.prems gs(1) list_all2_lengthD [OF us(2)] in simp_all)
  have "place_all m (positions_in fs) = place_all (placed_fleet m now us) (positions_in gs)"
    unfolding gs(2) positions_in_append foldl_append positions_of_tick [OF list_all2_lengthD [OF us(2)]]
    using place_tick [of m n us now] Cons.prems ids by simp
  with IH ids Cons.prems(2) show ?case by (simp add: placed_again)
qed

lemma seeds_lead: "map fst (fs_vehicles (fleet_state_new t0)) = take 4 (map sv_vehicleId sim_new)"
proof -
  have "map fst (fs_vehicles (fleet_state_new t0)) = [''VAN-014'', ''VAN-022'', ''TRK-003'', ''VAN-031'']"
    by (simp add: fleet_state_new_def map_new_def SEED_VEHICLES_def seed_vehicle_def)
  then show ?thesis by (simp add: vehicle_ids SEATTLE_ROUTES_def)
qed

section \<open>The screen\<close>

text \<open>What the zones page lists of a zone: its key, and the vehicles of its chips.\<close>

definition zone_entry :: "'a node \<Rightarrow> string option \<times> string list" where
  "zone_entry c = (key_of_attrs (attrs_of c), List.map_filter (\<lambda>n. key_of_attrs (attrs_of n)) (kids_of (kids_of c ! 2)))"

lemma zones_page_entries:
  "map zone_entry (kids_of (hd (kids_of (ZonesView_render sr zones vs))))
    = map (\<lambda>z. (Some (zp_id z), map vs_vehicleId (vehicles_inside vs z))) zones"
  by (simp add: ZonesView_render_def comp_def zone_card_facts zone_entry_def del: One_nat_def)

text \<open>The zones of the fleet state are the ones of the simulation.\<close>

lemma seed_zone_inside:
  assumes "z \<in> set SEED_ZONES"
  shows "zp_id z \<in> zones_at lng lat \<longleftrightarrow> pointInRing lng lat (zp_ring z)"
  using assms by (auto simp: SEED_ZONES_def zones_at_def SIM_ZONES_def)

lemma placed_inside:
  assumes "z \<in> set SEED_ZONES" "\<forall>w \<in> set ws. tracked w"
  shows "map vs_vehicleId (vehicles_inside (map_values (placed_fleet m now ws)) z)
    = map sv_vehicleId (filter (\<lambda>w. zp_id z \<in> sv_inside w) ws)"
  using assms(2)
  by (induction ws) (auto simp: vehicles_inside_def placed_fleet_def moved_vehicle_def page_contains_Fin tracked_def
      seed_zone_inside [OF assms(1)])

lemma placed_shown:
  "map (\<lambda>v. (vs_vehicleId v, vs_lat v, vs_lng v, vs_heading v, vs_active v)) (map_values (placed_fleet m now ws))
    = map (\<lambda>w. (sv_vehicleId w, Fin (sv_lat w), Fin (sv_lng w), Some (Fin (of_int (js_round (sv_heading w)))), Some True)) ws"
  by (simp add: placed_fleet_def moved_vehicle_def nullish_def comp_def)

text \<open>
  C5. Simulation mode from end to end. However long the transport runs, it sends the frames of the
  simulation in order, and a listener that folds their positions into the fleet state sees, at
  whatever times it is told, exactly the simulated fleet, in its order, every vehicle at its current
  place and heading and active; and the zones page lists under every zone exactly the vehicles that
  the simulation holds to be inside it.
\<close>

theorem simulation_on_screen:
  "\<exists>ws fs t. transport_runs show_real n0 nows = Some t
     \<and> sim_run (map (\<lambda>n. (n, TICK_MS)) (n0 # nows)) sim_new = Some (ws, fs)
     \<and> tr_sim t = ws \<and> tr_sent t = map (\<lambda>f. json_text show_real (sim_frame_json f)) fs
     \<and> (let (vehicles, zones, traces) = useFleetState (fleet_run parse (heard clock fs) (fleet_state_new t0))
        in map (\<lambda>v. (vs_vehicleId v, vs_lat v, vs_lng v, vs_heading v, vs_active v)) vehicles
            = map (\<lambda>w. (sv_vehicleId w, Fin (sv_lat w), Fin (sv_lng w),
                Some (Fin (of_int (js_round (sv_heading w)))), Some True)) ws
          \<and> map zone_entry (kids_of (hd (kids_of (ZonesView_render sr zones vehicles))))
            = map (\<lambda>z. (Some (zp_id z), map sv_vehicleId (filter (\<lambda>w. zp_id z \<in> sv_inside w) ws))) zones)"
proof -
  obtain ws fs where run: "sim_run (sim_ticks (n0 # nows)) sim_new = Some (ws, fs)"
      "list_all2 (run_ok (sim_ticks (n0 # nows))) sim_new ws"
    using sim_run_spec [OF sim_new_ok vehicle_ids_distinct] by blast
  have tracked: "\<forall>w \<in> set ws. tracked w"
    using run(2) by (auto simp: run_ok_def list_all2_conv_all_nth in_set_conv_nth)
  define now where "now = fst (last (sim_ticks (n0 # nows)))"
  have shown: "map_values (fs_vehicles (fleet_run parse (heard clock fs) (fleet_state_new t0)))
      = map_values (placed_fleet (fs_vehicles (fleet_state_new t0)) now ws)"
    using run_places [OF sim_new_ok vehicle_ids_distinct seeds_lead, of "(n0, TICK_MS)" "sim_ticks nows" ws fs t0] run(1)
    by (simp add: fleet_run_vehicles now_def)
  have "transport_runs show_real n0 nows = Some (sending show_real (ws, fs))"
    using run(1) by (simp only: transport_sends option.map)
  then show ?thesis
    using run(1) by (intro exI [of _ ws] exI [of _ fs] exI [of _ "sending show_real (ws, fs)"])
      (simp add: sending_def useFleetState_def shown placed_shown zones_page_entries placed_inside [OF _ tracked]
        del: map_map)
qed

section \<open>Finding\<close>

text \<open>
  The zones of a vehicle in the fleet state are the ones it was seeded with: no position and no zone
  event changes them. Wherever the vehicles are, the map filtered by the first zone shows the one
  vehicle seeded into it.
\<close>

definition zone_known :: "(string, VehicleState) jsmap \<Rightarrow> bool" where
  "zone_known m \<longleftrightarrow> (\<forall>(k, v) \<in> set m. vs_vehicleId v = k \<and> vs_active v = Some True)"

abbreviation zone_filter :: "string \<Rightarrow> MapFilter" where
  "zone_filter z \<equiv> \<lparr>mf_driverStatus = None, mf_zoneId = Some z\<rparr>"

lemma place_keeps_zones:
  assumes "zone_known m"
  shows "zone_known (place_vehicle p m)
    \<and> map vs_vehicleId (filterVehicles (map_values (place_vehicle p m)) (zone_filter ''zone-dt''))
      = map vs_vehicleId (filterVehicles (map_values m) (zone_filter ''zone-dt''))"
proof -
  have "zone_known (AList.update k (moved_vehicle (map_get m k) p) m)
      \<and> map vs_vehicleId (filterVehicles (map_values (AList.update k (moved_vehicle (map_get m k) p) m)) (zone_filter ''zone-dt''))
        = map vs_vehicleId (filterVehicles (map_values m) (zone_filter ''zone-dt''))"
    if "zone_known m" "k = pos_vehicleId p" for k and m :: "(string, VehicleState) jsmap"
    using that by (induction m)
      (auto simp: zone_known_def moved_vehicle_def filterVehicles_def keeps_vehicle_def or_else_def split: option.splits)
  with assms show ?thesis by (simp add: place_vehicle_def)
qed

lemma zone_filter_stands_still:
  "map vs_vehicleId (filterVehicles (fst (useFleetState (fleet_run parse es (fleet_state_new t0)))) (zone_filter ''zone-dt''))
    = [''VAN-014'']"
proof -
  have start: "zone_known (fs_vehicles (fleet_state_new t0))"
    "map vs_vehicleId (filterVehicles (map_values (fs_vehicles (fleet_state_new t0))) (zone_filter ''zone-dt'')) = [''VAN-014'']"
    by (simp_all add: fleet_state_new_def map_new_def SEED_VEHICLES_def seed_vehicle_def zone_known_def
        filterVehicles_def keeps_vehicle_def or_else_def)
  have "zone_known (place_all m ps)
      \<and> map vs_vehicleId (filterVehicles (map_values (place_all m ps)) (zone_filter ''zone-dt''))
        = map vs_vehicleId (filterVehicles (map_values m) (zone_filter ''zone-dt''))" if "zone_known m" for m ps
    using that by (induction ps arbitrary: m) (simp_all add: place_keeps_zones)
  with start show ?thesis by (simp add: useFleetState_def fleet_run_vehicles)
qed

end
