(* ===== verification/Spec2Isabelle.thy ===== *)
theory Spec2Isabelle
  imports Rbac Backend Zones Notifications Reporting Auth Live_Map Globe_Spin Sim_Transport Connection_Hook Brand_View Shell_Views Sim_Console
begin

text \<open>
  Fleet Command Center: a development beside its TypeScript code. The repository has a management
  service (\<open>services/management\<close>), the contracts on the wire (\<open>packages/contracts\<close>), the design
  tokens (\<open>packages/design-tokens\<close>) and the dispatchers' dashboard (\<open>apps/dashboard\<close>); all four are
  modelled. Paths below are under \<open>src/\<close>, with \<open>M\<close> for \<open>services/management/src\<close> and \<open>D\<close> for
  \<open>apps/dashboard/src\<close>. Definitions have the names of the source, with a prefix where two classes
  share a method name (\<open>driver_update\<close> is \<open>DriverService.update\<close>).

  How the program works. Requests reach the management services, which check a role
  (\<open>authorize\<close>), validate a payload, and change in-memory repositories that several services
  share: an assignment ties a driver, a vehicle and deliveries together; deliveries run through a
  lifecycle; a route orders the stops of an assignment with the help of the optimizer service;
  zones turn a vehicle's position into enter and exit events, which become arrival notifications;
  reports read append-only histories. The dashboard holds one socket client, to the stream or to a
  simulation of a fleet in the browser; its events feed the map's vehicles and traces and the
  activity feed; a hash router chooses among the pages that the role may open.

  Ground. \<open>Prelude\<close> has the state-and-exception monad of the services (a \<open>throw\<close> keeps what was
  written before it), JavaScript's insertion-ordered \<open>Map\<close>, strings and printing; \<open>JS_Values\<close> the
  values of type \<open>unknown\<close> and numbers with NaN and the infinities; \<open>Doubles\<close> the rounding of 64-bit
  numbers, its error and when there is none; \<open>Bytes\<close>, \<open>Json\<close> and \<open>Iso_Time\<close> Node's buffers, JSON and
  dates, as far as they are used; \<open>Contracts\<close> the enums, errors and payloads
  of \<open>packages/contracts\<close>, \<open>M/common\<close>; \<open>Stores\<close> the interface of a repository as the locales
  \<open>keyed_store\<close> and \<open>indexed_store\<close>, whose laws every in-memory repository below is shown to keep.

  The management service.
  \<^item> \<open>Validation\<close> (\<open>M/validation\<close>), \<open>Rbac\<close> (\<open>M/auth/rbac.ts\<close>, \<open>roles.ts\<close>): the validators; the permission
    matrix and the middleware.
  \<^item> \<open>Drivers\<close>, \<open>Vehicles\<close>, \<open>Deliveries\<close>, \<open>Assignments\<close>, \<open>Routes\<close> (the directories of these names): for
    each a record, its repository, and one definition per operation of the service, composed as
    the method is. Lemmas give the outcome of the operations on every branch and what every
    operation keeps: unique emails, identifiers and tokens, well-formed records, the edges of the two
    state machines. \<open>Deliveries\<close> has an abstract lifecycle service that the real one refines.
  \<^item> \<open>Backend\<close>: all these services on one set of repositories, and any sequence of requests to them:
    references resolve, and no driver is booked twice.
  \<^item> \<open>Geometry\<close>, \<open>Zones\<close> (\<open>M/zones\<close>): the polygon validator, with its rounding, shown exact against the
    geometry of the real plane on positions whose orientations the rounding cannot change (\<open>clear\<close>);
    the zone service over either of the two validators (locale \<open>geometry_validator\<close>).
  \<^item> \<open>Notifications\<close>, \<open>Reporting\<close>, \<open>Auth\<close> (\<open>M/notifications\<close>, \<open>M/reporting\<close>, \<open>M/auth\<close>): who is
    notified; tracks, histories and summaries; tokens down to their bytes, password hashes, sessions
    and tracking tokens.

  The dashboard's state machines and data.
  \<^item> \<open>Socket_Client\<close> (\<open>D/realtime/socketClient.ts\<close>): the client as an inductive step relation over
    transports, timers and the application; its state includes the list of effects, so that what
    the server holds and what listeners heard can be stated. \<open>Connection_Hook\<close>
    (\<open>D/realtime/useConnection.ts\<close>) reads these effects.
  \<^item> \<open>Fleet_Simulation\<close>, \<open>Sim_Transport\<close> (\<open>D/sim\<close>): routes, spline, generator, ticks; the transport that
    carries them. \<open>Sim_Console\<close> puts the transport, the fleet state and the zones page together.
  \<^item> \<open>Fleet_Map\<close>, \<open>Live_Map\<close>, \<open>Globe_Spin\<close>, \<open>Map_View\<close> (\<open>D/map\<close>): positions and traces, markers and their
    animation, the spin, and the map component with its effects. The map library is the list of
    commands it received.
  \<^item> \<open>Operations\<close>, \<open>Console_Access\<close> (\<open>D/operations\<close>, \<open>D/auth\<close>, \<open>D/shell/routing.tsx\<close>): counting, searching,
    sorting, driver detail, activity feed; the router.
  \<^item> \<open>Theme\<close>, \<open>Design_Tokens\<close> (\<open>D/theme\<close>, \<open>D/brand\<close>, \<open>packages/design-tokens\<close>): contrast over the reals,
    palettes, token tables and the two generators.

  The dashboard's components. \<open>React_View\<close> says what a component is here: a function from props and
  state to a tree of elements, whose event attributes carry actions, with a function that updates
  the state by an action. \<open>Components\<close>, \<open>Data_Table\<close> (\<open>D/components\<close>), \<open>Console_Views\<close> (\<open>D/views\<close> and
  the views of \<open>D/operations\<close>), \<open>Brand_View\<close> (\<open>D/brand\<close>), \<open>Landing_Page\<close> (\<open>D/landing\<close>) and
  \<open>Shell_Views\<close> (\<open>D/shell\<close>, \<open>D/main.tsx\<close>) are such functions, with the source's styles and texts.
  The lemmas read the tree: which rows a table has, what a click on a tile or a tab does, what is
  shown in place of what is missing. In \<open>Shell_Views\<close> the shell's events are the user's, the address
  bar's and the zone events; the events of a mounted map are those of \<open>Map_View\<close>.

  Conventions.
  \<^item> Strings are lists of 8-bit code units; the glyphs beyond ASCII that the pages print are
    written by their UTF-8 bytes. \<open>js_lower\<close> and \<open>js_trim\<close> are those of the first 256 code points.
  \<^item> Numbers that are computed with (distances, colours, angles, the mean of a report) are exact
    reals, with NaN and the infinities where the source can see them. Rounding is modelled where a
    result rests on it: the orientation test of the polygon validator, the easing of the markers, and
    the numbers that JSON carries. The generator of the simulation is on 32-bit words. Times are
    milliseconds.
  \<^item> Sorting with a consistent comparator has one result, which the model computes; the tables'
    comparator is inconsistent on columns that mix strings and numbers or hold NaN, and nothing but
    the permutation is claimed there.
  \<^item> The clock, fresh ids and random bytes are arguments, and a promise is the way it settled.
    \<open>Backend\<close> and the runs of the services take them from the request.
  \<^item> What prints numbers and local times, parses dates that are not in ISO form, and does the
    cryptography of \<open>node:crypto\<close> is a parameter. Hypotheses on it (a hash of fixed length, say)
    are in the statements, and a witness instantiates it.
  \<^item> An object used as a dictionary is a map: keys that name inherited properties are left out.
  \<^item> The comment arrow in the generated Dart file is written with two ASCII characters.

  Bounds and fuel. Loops are structural recursion or folds, with three exceptions. The parser of
  JSON has fuel, twice the length of the text, and \<open>jvalue_fuel\<close> shows that more changes
  nothing. The simulation's loop that depends on distances (\<open>advance\<close>) is a partial function, shown
  to return for every tick, in exact arithmetic (its theory says from which lengths on 64-bit numbers would not). Printing to a radix and JSON strings end by a measure.
  The bounds of the source are kept: 2000 pings in a trace (fewer than an hour has at one a second:
  \<open>trace_shows_history\<close>), an hour of it shown at most, the limit
  of the feed, 1 to 500 characters of a failure reason.

  Where modelling showed a fault it is a lemma next to the definitions it is about, among them
  \<open>repeated_completion_frees\<close>, \<open>assignment_accept_revives\<close>, \<open>disconnect_can_reopen\<close>,
  \<open>early_close_leaks_interval\<close>, \<open>heading_runs_away\<close>, \<open>restart_stands_still\<close>,
  \<open>unauthorized_roles_see_map\<close>, \<open>sliver_looks_flat\<close>, \<open>zone_filter_stands_still\<close>, \<open>delayed_flight_outlives_map\<close>, \<open>home_button_outcome\<close>.

  Not modelled: the services in Go, the optimizer in Python and the apps in Dart, which are in other
  languages (what the optimizer answers is an argument of the route service); the
  start of the management service (\<open>M/main.ts\<close>), which prints one line, and the mounting of the React
  tree in \<open>D/main.tsx\<close>; the map library, the database, the geocoder and the WebSocket, which are outside the repository; focus, refs and memoization of components, which do
  not change what is shown; the browser's layout; tests, their helpers and configuration.
\<close>

end
